(* ===== verification/Prelude.thy ===== *)
theory Prelude
  imports Main "HOL-Library.Char_ord" "HOL-Library.List_Lexorder"
begin

text \<open>
  What every component of the development shares: byte strings and the few operations of
  \<^verbatim>\<open>std::string\<close> the code uses, decimal output (\<^verbatim>\<open>std::to_string\<close>), the C locale's
  character classes, \<^verbatim>\<open>std::map\<close> as a strictly ascending association list, and the
  collections of simplification rules the component proofs draw on.

  A C++ string is a \<open>char list\<close>: an Isabelle \<open>char\<close> is a byte, so lengths are byte counts
  and a UTF-8 code point beyond ASCII is several characters, as it is in the code. The
  order of \<open>char list\<close> (\<open>List_Lexorder\<close> over \<open>Char_ord\<close>) is the order of
  \<^verbatim>\<open>std::string::compare\<close>, which compares unsigned bytes.
\<close>

named_theorems smap_simps "lookups, keys and order of ascending association lists"
named_theorems text_simps "string predicates unfolded to list equations"

subsection \<open>Strings\<close>

definition starts_with :: "string \<Rightarrow> string \<Rightarrow> bool" where
  "starts_with s p \<longleftrightarrow> take (length p) s = p"

definition ends_with :: "string \<Rightarrow> string \<Rightarrow> bool" where
  "ends_with s p \<longleftrightarrow> length p \<le> length s \<and> drop (length s - length p) s = p"

fun contains :: "string \<Rightarrow> string \<Rightarrow> bool" where
  "contains [] p = (p = [])"
| "contains (c # s) p = (starts_with (c # s) p \<or> contains s p)"

text \<open>\<^verbatim>\<open>name.substr(0, name.find(p))\<close>: everything before the first occurrence of \<open>p\<close>.\<close>

fun before :: "string \<Rightarrow> string \<Rightarrow> string" where
  "before [] p = []"
| "before (c # s) p = (if starts_with (c # s) p then [] else c # before s p)"

text \<open>The part after the last slash, the whole string when there is none.\<close>

definition lastSegment :: "string \<Rightarrow> string" where
  "lastSegment path = rev (takeWhile (\<lambda>c. c \<noteq> CHR ''/'') (rev path))"

fun join :: "string \<Rightarrow> string list \<Rightarrow> string" where
  "join sep [] = []"
| "join sep [x] = x"
| "join sep (x # y # xs) = x @ sep @ join sep (y # xs)"

definition dash :: string where
  \<comment> \<open>the three bytes of the em dash in UTF-8\<close>
  "dash = [CHR 0xE2, CHR 0x80, CHR 0x94]"

definition middot :: string where
  \<comment> \<open>the two bytes of the middle dot in UTF-8\<close>
  "middot = [CHR 0xC2, CHR 0xB7]"

lemma starts_with_append [simp]: "starts_with (p @ s) p"
  by (simp add: starts_with_def)

lemma starts_with_refl [simp]: "starts_with p p"
  by (simp add: starts_with_def)

lemma starts_with_Nil [simp]: "starts_with s []"
  by (simp add: starts_with_def)

lemma starts_with_iff [text_simps]: "starts_with s p \<longleftrightarrow> (\<exists>r. s = p @ r)"
  by (metis append_take_drop_id starts_with_append starts_with_def)

lemma ends_with_iff [text_simps]: "ends_with s p \<longleftrightarrow> (\<exists>r. s = r @ p)"
proof
  assume "ends_with s p"
  then have "s = take (length s - length p) s @ p"
    by (metis append_take_drop_id ends_with_def)
  then show "\<exists>r. s = r @ p" by blast
qed (auto simp: ends_with_def)

lemma ends_with_append [simp]: "ends_with (r @ p) p"
  by (simp add: ends_with_iff)

lemma contains_iff [text_simps]: "contains s p \<longleftrightarrow> (\<exists>l r. s = l @ p @ r)"
proof (induction s p rule: contains.induct)
  case (1 p)
  then show ?case by simp
next
  case (2 c s p)
  show ?case
  proof
    assume "contains (c # s) p"
    then consider (here) "starts_with (c # s) p" | (later) "contains s p" by auto
    then show "\<exists>l r. c # s = l @ p @ r"
    proof cases
      case here
      then obtain r where "c # s = [] @ p @ r" by (auto simp: starts_with_iff)
      then show ?thesis by blast
    next
      case later
      with 2 obtain l r where "s = l @ p @ r" by auto
      then have "c # s = (c # l) @ p @ r" by simp
      then show ?thesis by blast
    qed
  next
    assume "\<exists>l r. c # s = l @ p @ r"
    then obtain l r where e: "c # s = l @ p @ r" by blast
    show "contains (c # s) p"
    proof (cases l)
      case Nil
      with e have "starts_with (c # s) p" by simp
      then show ?thesis by simp
    next
      case (Cons a l')
      with e have "s = l' @ p @ r" by simp
      with 2 show ?thesis by auto
    qed
  qed
qed

lemma before_append:
  assumes "\<And>l r. s @ p = l @ p @ r \<Longrightarrow> r = []" and "p \<noteq> []"
  shows "before (s @ p) p = s"
  using assms
proof (induction s)
  case Nil
  then show ?case by (cases p) (auto simp: starts_with_def)
next
  case (Cons c s)
  have "\<not> starts_with (c # s @ p) p"
  proof
    assume "starts_with (c # s @ p) p"
    then obtain r where r: "(c # s) @ p = [] @ p @ r" by (auto simp: starts_with_iff)
    with Cons.prems(1) have "r = []" by blast
    with r have "length ((c # s) @ p) = length p" by (metis append_Nil append_Nil2)
    then show False by simp
  qed
  moreover have "before (s @ p) p = s"
  proof (rule Cons.IH)
    show "r = []" if "s @ p = l @ p @ r" for l r
      using Cons.prems(1) [of "c # l" r] that by simp
  qed (rule Cons.prems(2))
  ultimately show ?case by simp
qed

lemma lastSegment_append [simp]:
  "CHR ''/'' \<notin> set s \<Longrightarrow> lastSegment (d @ CHR ''/'' # s) = s"
  by (simp add: lastSegment_def takeWhile_append takeWhile_eq_all_conv [THEN iffD2])

lemma lastSegment_no_slash: "CHR ''/'' \<notin> set (lastSegment p)"
  by (auto simp: lastSegment_def dest: set_takeWhileD)


subsection \<open>Character classes of the C locale\<close>

definition isdigitC :: "char \<Rightarrow> bool" where
  "isdigitC c \<longleftrightarrow> CHR ''0'' \<le> c \<and> c \<le> CHR ''9''"

definition isupperC :: "char \<Rightarrow> bool" where
  "isupperC c \<longleftrightarrow> CHR ''A'' \<le> c \<and> c \<le> CHR ''Z''"

definition isalphaC :: "char \<Rightarrow> bool" where
  "isalphaC c \<longleftrightarrow> isupperC c \<or> CHR ''a'' \<le> c \<and> c \<le> CHR ''z''"

definition isalnumC :: "char \<Rightarrow> bool" where
  "isalnumC c \<longleftrightarrow> isalphaC c \<or> isdigitC c"

definition isxdigitC :: "char \<Rightarrow> bool" where
  "isxdigitC c \<longleftrightarrow> isdigitC c \<or> CHR ''a'' \<le> c \<and> c \<le> CHR ''f'' \<or> CHR ''A'' \<le> c \<and> c \<le> CHR ''F''"

definition isspaceC :: "char \<Rightarrow> bool" where
  "isspaceC c \<longleftrightarrow> c = CHR '' '' \<or> CHR 0x09 \<le> c \<and> c \<le> CHR 0x0D"

definition isprintC :: "char \<Rightarrow> bool" where
  "isprintC c \<longleftrightarrow> CHR 0x20 \<le> c \<and> c \<le> CHR 0x7E"

definition tolowerC :: "char \<Rightarrow> char" where
  "tolowerC c = (if isupperC c then char_of (of_char c + (32::nat)) else c)"

subsection \<open>Lines and words of a stream\<close>

text \<open>\<^verbatim>\<open>std::getline\<close> until the stream ends, and \<^verbatim>\<open>>>\<close> into a string; the first argument is the
  text extracted so far.\<close>

fun getlines :: "string \<Rightarrow> string \<Rightarrow> string list" where
  "getlines acc [] = (if acc = [] then [] else [acc])"
| "getlines acc (c # s) = (if c = CHR 0x0A then acc # getlines [] s else getlines (acc @ [c]) s)"

fun words :: "string \<Rightarrow> string \<Rightarrow> string list" where
  "words acc [] = (if acc = [] then [] else [acc])"
| "words acc (c # s) =
     (if isspaceC c then (if acc = [] then words [] s else acc # words [] s) else words (acc @ [c]) s)"

subsection \<open>Decimal output\<close>

fun show_nat :: "nat \<Rightarrow> string" where
  "show_nat n = (if n < 10 then [char_of (48 + n)] else show_nat (n div 10) @ [char_of (48 + n mod 10)])"

declare show_nat.simps [simp del]

definition show_int :: "int \<Rightarrow> string" where
  "show_int i = (if i < 0 then ''-'' @ show_nat (nat (- i)) else show_nat (nat i))"

definition nat_of_dec :: "string \<Rightarrow> nat" where
  "nat_of_dec = foldl (\<lambda>n c. 10 * n + (of_char c - 48)) 0"

lemma nat_of_dec_show_nat [simp]: "nat_of_dec (show_nat n) = n"
proof (induction n rule: show_nat.induct)
  case (1 n)
  show ?case
  proof (cases "n < 10")
    case True
    then show ?thesis by (subst show_nat.simps) (simp add: nat_of_dec_def)
  next
    case False
    with 1 have "foldl (\<lambda>n c. 10 * n + (of_char c - 48)) 0 (show_nat (n div 10)) = n div 10"
      by (simp add: nat_of_dec_def)
    with False show ?thesis by (subst show_nat.simps) (simp add: nat_of_dec_def)
  qed
qed

lemma show_nat_inject [simp]: "show_nat m = show_nat n \<longleftrightarrow> m = n"
  by (metis nat_of_dec_show_nat)

lemma isdigitC_digit: "d < 10 \<Longrightarrow> isdigitC (char_of (48 + d :: nat))"
  by (simp add: isdigitC_def less_eq_char_def)

lemma show_nat_digits: "c \<in> set (show_nat n) \<Longrightarrow> isdigitC c"
proof (induction n rule: show_nat.induct)
  case (1 n)
  show ?case
  proof (cases "n < 10")
    case True
    with "1.prems" show ?thesis by (subst (asm) show_nat.simps) (simp add: isdigitC_digit)
  next
    case False
    with 1 show ?thesis by (subst (asm) (2) show_nat.simps) (auto simp: isdigitC_digit)
  qed
qed

subsection \<open>\<^verbatim>\<open>std::map\<close> with string keys: ascending association lists\<close>

text \<open>
  \<open>smap_put\<close> is \<^verbatim>\<open>operator[]=\<close> and \<^verbatim>\<open>insert_or_assign\<close>, \<open>smap_emplace\<close> keeps the value
  of a key that is already there, \<open>map_of\<close> is \<^verbatim>\<open>find\<close>, and the list's order is the order
  of iteration.
\<close>

fun smap_put :: "'k::linorder \<Rightarrow> 'v \<Rightarrow> ('k \<times> 'v) list \<Rightarrow> ('k \<times> 'v) list" where
  "smap_put k v [] = [(k, v)]"
| "smap_put k v (kv # rest) =
     (if k < fst kv then (k, v) # kv # rest
      else if k = fst kv then (k, v) # rest
      else kv # smap_put k v rest)"

definition smap_emplace :: "'k::linorder \<Rightarrow> 'v \<Rightarrow> ('k \<times> 'v) list \<Rightarrow> ('k \<times> 'v) list" where
  "smap_emplace k v m = (case map_of m k of None \<Rightarrow> smap_put k v m | Some _ \<Rightarrow> m)"

definition smap_of :: "('k::linorder \<times> 'v) list \<Rightarrow> ('k \<times> 'v) list" where
  "smap_of kvs = foldl (\<lambda>m kv. smap_put (fst kv) (snd kv) m) [] kvs"

definition smap_ok :: "('k::linorder \<times> 'v) list \<Rightarrow> bool" where
  "smap_ok m \<longleftrightarrow> sorted_wrt (<) (map fst m)"

lemma map_of_smap_put [smap_simps]: "map_of (smap_put k v m) = (map_of m)(k \<mapsto> v)"
  by (induction m) auto

lemma keys_smap_put [smap_simps]: "fst ` set (smap_put k v m) = insert k (fst ` set m)"
  by (induction m) auto

lemma smap_ok_Nil [smap_simps]: "smap_ok []"
  by (simp add: smap_ok_def)

lemma smap_ok_put [smap_simps]: "smap_ok m \<Longrightarrow> smap_ok (smap_put k v m)"
proof (induction m)
  case Nil
  then show ?case by (simp add: smap_ok_def)
next
  case (Cons kv m)
  then have "smap_ok (smap_put k v m)" by (simp add: smap_ok_def)
  moreover have "\<forall>k' \<in> fst ` set m. fst kv < k'"
    using Cons.prems by (auto simp: smap_ok_def)
  ultimately show ?case
    using Cons.prems keys_smap_put [of k v m] by (fastforce simp: smap_ok_def)
qed

lemma smap_ok_distinct [smap_simps]: "smap_ok m \<Longrightarrow> distinct (map fst m)"
  by (simp add: smap_ok_def strict_sorted_iff)

lemma map_of_smap_of_aux:
  "map_of (foldl (\<lambda>m kv. smap_put (fst kv) (snd kv) m) m0 kvs) = map_of m0 ++ map_of (rev kvs)"
  by (induction kvs arbitrary: m0) (auto simp: smap_simps fun_eq_iff map_add_def split: option.splits)

lemma map_of_smap_of: "map_of (smap_of kvs) = map_of (rev kvs)"
  by (simp add: smap_of_def map_of_smap_of_aux)

lemma smap_ok_of_aux:
  "smap_ok m0 \<Longrightarrow> smap_ok (foldl (\<lambda>m kv. smap_put (fst kv) (snd kv) m) m0 kvs)"
  by (induction kvs arbitrary: m0) (auto simp: smap_simps)

lemma smap_ok_of [smap_simps]: "smap_ok (smap_of kvs)"
  by (simp add: smap_of_def smap_ok_of_aux smap_simps)

text \<open>Two ascending lists with the same lookups are the same list.\<close>

lemma smap_eqI:
  assumes "smap_ok m" "smap_ok m'" "map_of m = map_of m'"
  shows "m = m'"
proof (rule map_sorted_distinct_set_unique)
  show "inj_on fst (set m \<union> set m')"
  proof (rule inj_onI)
    fix x y assume "x \<in> set m \<union> set m'" "y \<in> set m \<union> set m'" "fst x = fst y"
    moreover have "map_of m (fst z) = Some (snd z)" if "z \<in> set m \<union> set m'" for z
      using that assms smap_ok_distinct by (metis Un_iff map_of_is_SomeI prod.collapse)
    ultimately show "x = y" by (metis option.inject prod.expand)
  qed
  show "sorted (map fst m)" "distinct (map fst m)" "sorted (map fst m')" "distinct (map fst m')"
    using assms(1,2) by (simp_all add: smap_ok_def strict_sorted_iff)
  show "set m = set m'"
    using assms by (metis map_of_inject_set smap_ok_distinct)
qed

lemma smap_put_same:
  assumes "smap_ok m" "map_of m k = Some v"
  shows "smap_put k v m = m"
  by (rule smap_eqI) (use assms in \<open>auto simp: smap_simps\<close>)

end
