(* ===== verification/Core_Models.thy ===== *)
theory Core_Models
  imports Prelude
begin

text \<open>
  The data of \<^verbatim>\<open>core/include/devmgr/core\<close> (\<^verbatim>\<open>result.hpp\<close>, \<^verbatim>\<open>models.hpp\<close>,
  \<^verbatim>\<open>snapshot_models.hpp\<close>, \<^verbatim>\<open>events.hpp\<close>) and of \<^verbatim>\<open>pal/criticality.hpp\<close> and
  \<^verbatim>\<open>pal/hotplug_event.hpp\<close>, with the functions of \<^verbatim>\<open>models.cpp\<close> and
  \<^verbatim>\<open>snapshot_models.cpp\<close> that print enumerations.

  A \<^verbatim>\<open>DeviceId\<close> is its string. \<^verbatim>\<open>std::int64_t\<close> and \<^verbatim>\<open>long\<close> values are integers; the
  places that narrow or wrap them say so. \<^verbatim>\<open>core::Result<T>\<close> is \<open>error + 'a\<close>.
\<close>

subsection \<open>Results\<close>

datatype code = Permission | NotFound | Busy | Io | Network | Unsupported | Conflict | InvalidArgs

record error =
  err_code :: code
  err_message :: string

type_synonym 'a result = "error + 'a"

definition makeError :: "code \<Rightarrow> string \<Rightarrow> 'a result" where
  "makeError c msg = Inl \<lparr>err_code = c, err_message = msg\<rparr>"

fun has_value :: "'a result \<Rightarrow> bool" where
  "has_value (Inl e) = False"
| "has_value (Inr x) = True"

subsection \<open>Devices, drivers and modules\<close>

type_synonym device_id = string

datatype device_status = Active | Disabled | Transitioning | StatusError | Unknown
datatype bus_type = Pci | Usb | Platform | Virtio | Other
datatype driver_kind = KernelModule | Firmware | Package | Builtin

fun status_to_string :: "device_status \<Rightarrow> string" where
  "status_to_string Active = ''Active''"
| "status_to_string Disabled = ''Disabled''"
| "status_to_string Transitioning = ''Transitioning''"
| "status_to_string StatusError = ''Error''"
| "status_to_string Unknown = ''Unknown''"

fun bus_to_string :: "bus_type \<Rightarrow> string" where
  "bus_to_string Pci = ''Pci''"
| "bus_to_string Usb = ''Usb''"
| "bus_to_string Platform = ''Platform''"
| "bus_to_string Virtio = ''Virtio''"
| "bus_to_string Other = ''Other''"

fun displayBus :: "bus_type \<Rightarrow> string" where
  "displayBus Pci = ''PCI''"
| "displayBus Usb = ''USB''"
| "displayBus Platform = ''Platform''"
| "displayBus Virtio = ''Virtio''"
| "displayBus Other = ''Other''"

fun kind_to_string :: "driver_kind \<Rightarrow> string" where
  "kind_to_string KernelModule = ''KernelModule''"
| "kind_to_string Firmware = ''Firmware''"
| "kind_to_string Package = ''Package''"
| "kind_to_string Builtin = ''Builtin''"

record device =
  dev_id :: device_id
  dev_bus :: bus_type
  dev_name :: string
  dev_sysfsPath :: string
  dev_modalias :: string
  dev_vendorId :: string
  dev_productId :: string
  dev_serial :: string
  dev_parent :: "device_id option"
  dev_status :: device_status
  dev_boundDriver :: "string option"
  dev_properties :: "(string \<times> string) list"
  dev_errorNote :: "string option"

record driver =
  drv_name :: string
  drv_kind :: driver_kind
  drv_version :: string
  drv_path :: string
  drv_loaded :: bool
  drv_isSigned :: bool
  drv_signer :: "string option"
  drv_availableUpdate :: "string option"
  drv_dependencies :: "string list"

record loaded_module =
  lm_name :: string
  lm_sizeBytes :: nat
  lm_refCount :: int
  lm_holders :: "string list"

record modprobe_info =
  mpi_options :: "string option"
  mpi_blacklisted :: bool

record device_key =
  key_bus :: string
  key_vendorId :: string
  key_productId :: string
  key_serial :: string
  key_position :: string

record disabled_entry =
  ent_key :: device_key
  ent_mechanism :: string
  ent_lastDriver :: string
  ent_lastSysfsPath :: string
  ent_disabledAtUtc :: int
  ent_guardSuspended :: bool

text \<open>The members' default initialisers.\<close>

definition empty_device :: device where
  "empty_device = \<lparr>dev_id = [], dev_bus = Other, dev_name = [], dev_sysfsPath = [], dev_modalias = [],
     dev_vendorId = [], dev_productId = [], dev_serial = [], dev_parent = None, dev_status = Unknown,
     dev_boundDriver = None, dev_properties = [], dev_errorNote = None\<rparr>"

definition empty_key :: device_key where
  "empty_key = \<lparr>key_bus = [], key_vendorId = [], key_productId = [], key_serial = [], key_position = []\<rparr>"

subsection \<open>Snapshots\<close>

definition kSnapshotFormatVersion :: int where
  "kSnapshotFormatVersion = 1"

definition kSnapshotShortIdLength :: nat where
  "kSnapshotShortIdLength = 12"

definition snapshotShortId :: "string \<Rightarrow> string" where
  "snapshotShortId sid = take kSnapshotShortIdLength sid"

datatype snapshot_trigger = Manual | Auto

fun trigger_to_string :: "snapshot_trigger \<Rightarrow> string" where
  "trigger_to_string Manual = ''manual''"
| "trigger_to_string Auto = ''auto''"

definition snapshotTriggerFrom :: "string \<Rightarrow> snapshot_trigger option" where
  "snapshotTriggerFrom text =
     (if text = ''manual'' then Some Manual
      else if text = ''auto'' then Some Auto
      else None)"

record snapshot_reason =
  rsn_verb :: string
  rsn_subject :: string

datatype snapshot_health = HealthOk | Corrupt | UnsupportedFormat

fun health_to_string :: "snapshot_health \<Rightarrow> string" where
  "health_to_string HealthOk = ''ok''"
| "health_to_string Corrupt = ''corrupt''"
| "health_to_string UnsupportedFormat = ''unsupported''"

record snapshot_payload =
  pl_entries :: "disabled_entry list"
  pl_modprobeFiles :: "(string \<times> string) list"

record snapshot_meta =
  meta_id :: string
  meta_parent :: "string option"
  meta_createdAtUtc :: int
  meta_trigger :: snapshot_trigger
  meta_reason :: snapshot_reason
  meta_health :: snapshot_health
  meta_entryCount :: nat
  meta_modprobeFileCount :: nat

record snapshot =
  snap_meta :: snapshot_meta
  snap_payload :: snapshot_payload

record restore_item =
  ri_subject :: string
  ri_action :: string
  ri_status :: string
  ri_detail :: string

record restore_outcome =
  ro_snapshotId :: string
  ro_safetySnapshotId :: string
  ro_items :: "restore_item list"

text \<open>\<^verbatim>\<open>core::SnapshotMeta\<close> and \<^verbatim>\<open>core::SnapshotPayload\<close> as default-constructed.\<close>

definition empty_meta :: snapshot_meta where
  "empty_meta = \<lparr>meta_id = [], meta_parent = None, meta_createdAtUtc = 0, meta_trigger = Auto,
     meta_reason = \<lparr>rsn_verb = [], rsn_subject = []\<rparr>, meta_health = HealthOk,
     meta_entryCount = 0, meta_modprobeFileCount = 0\<rparr>"

definition empty_payload :: snapshot_payload where
  "empty_payload = \<lparr>pl_entries = [], pl_modprobeFiles = []\<rparr>"

subsection \<open>Facts, events\<close>

record criticality_facts =
  rootBackingPaths :: "string list"
  bootBackingPaths :: "string list"
  keyboardPaths :: "string list"
  pointerPaths :: "string list"

datatype hotplug_action = Added | Removed | Changed

record hotplug_event =
  hp_action :: hotplug_action
  hp_device :: device

datatype event =
    DeviceAddedEvent device
  | DeviceRemovedEvent device_id
  | DeviceChangedEvent device
  | TaskProgressEvent string int string
  | TaskCompletedEvent string bool string
  | ErrorEvent string string
  | ModulesChangedEvent
  | UpdatesChangedEvent
  | UpdatesRefreshedEvent
  | SnapshotsChangedEvent
  | SnapshotsRefreshedEvent
  | SnapshotDiffRefreshedEvent
  | UpdateRequestEvent string string string string

subsection \<open>Facts\<close>

lemma snapshotTriggerFrom_to_string [simp]: "snapshotTriggerFrom (trigger_to_string t) = Some t"
  by (cases t) (simp_all add: snapshotTriggerFrom_def)

lemma snapshotTriggerFrom_Some: "snapshotTriggerFrom s = Some t \<longleftrightarrow> s = trigger_to_string t"
  by (cases t) (auto simp: snapshotTriggerFrom_def)

lemma health_to_string_inject [simp]: "health_to_string a = health_to_string b \<longleftrightarrow> a = b"
  by (cases a; cases b) simp_all

lemma makeError_neq_Inr [simp]: "makeError c m \<noteq> Inr x" "Inr x \<noteq> makeError c m"
  by (simp_all add: makeError_def)

lemma makeError_code [simp]: "makeError c m = Inl e \<longleftrightarrow> e = \<lparr>err_code = c, err_message = m\<rparr>"
  by (auto simp: makeError_def)

lemma has_value_iff: "has_value r \<longleftrightarrow> (\<exists>x. r = Inr x)"
  by (cases r) auto

end
