(* ===== verification/Device_Presentation.thy ===== *)
theory Device_Presentation
  imports Core_Models
begin

text \<open>
  \<^verbatim>\<open>core/src/device_presentation.cpp\<close>: the name, the address and the identity line a device is
  shown under. \<^verbatim>\<open>Device::properties\<close> is an ascending association list.
\<close>

subsection \<open>Text helpers\<close>

definition property :: "device \<Rightarrow> string \<Rightarrow> string" where
  "property d key = (case map_of (dev_properties d) key of Some v \<Rightarrow> v | None \<Rightarrow> [])"

definition trimmed :: "string \<Rightarrow> string" where
  "trimmed value = dropWhile isspaceC (rev (dropWhile isspaceC (rev value)))"

definition equalsIgnoringCase :: "string \<Rightarrow> string \<Rightarrow> bool" where
  "equalsIgnoringCase a b \<longleftrightarrow> length a = length b \<and> list_all2 (\<lambda>x y. tolowerC x = tolowerC y) a b"

definition isHexRun :: "string \<Rightarrow> nat \<Rightarrow> bool" where
  "isHexRun value digits \<longleftrightarrow> length value = digits \<and> list_all isxdigitC value"

definition isDigitRun :: "string \<Rightarrow> bool" where
  "isDigitRun value \<longleftrightarrow> value \<noteq> [] \<and> list_all isdigitC value"

text \<open>\<^verbatim>\<open>find(c)\<close> with the texts before and after it.\<close>

definition splitFirst :: "char \<Rightarrow> string \<Rightarrow> (string \<times> string) option" where
  "splitFirst c s =
     (if c \<in> set s then Some (takeWhile (\<lambda>x. x \<noteq> c) s, tl (dropWhile (\<lambda>x. x \<noteq> c) s)) else None)"

definition looksLikePciAddress :: "string \<Rightarrow> bool" where
  "looksLikePciAddress value =
     (case splitFirst (CHR '':'') value of None \<Rightarrow> False | Some (domain, rest) \<Rightarrow>
      case splitFirst (CHR '':'') rest of None \<Rightarrow> False | Some (bus, rest) \<Rightarrow>
      case splitFirst (CHR ''.'') rest of None \<Rightarrow> False | Some (slot, func) \<Rightarrow>
        isHexRun domain 4 \<and> isHexRun bus 2 \<and> isHexRun slot 2 \<and> isHexRun func 1)"

lemma splitFirst_shorter: "splitFirst c s = Some (a, b) \<Longrightarrow> length b < length s"
proof -
  assume s: "splitFirst c s = Some (a, b)"
  then have "dropWhile (\<lambda>x. x \<noteq> c) s \<noteq> []" "b = tl (dropWhile (\<lambda>x. x \<noteq> c) s)"
    by (auto simp: splitFirst_def split: if_splits)
  moreover have "length (dropWhile (\<lambda>x. x \<noteq> c) s) \<le> length s" by (rule length_dropWhile_le)
  ultimately show ?thesis by (cases "dropWhile (\<lambda>x. x \<noteq> c) s") auto
qed

text \<open>The loop over the ports after the dash.\<close>

function portChain :: "string \<Rightarrow> bool" where
  "portChain ports =
     (if ports = [] then False
      else case splitFirst (CHR ''.'') ports of
        None \<Rightarrow> isDigitRun ports
      | Some (port, rest) \<Rightarrow> isDigitRun port \<and> portChain rest)"
  by auto
termination
  by (relation "measure length") (auto dest: splitFirst_shorter)

declare portChain.simps [simp del]

definition looksLikeUsbPosition :: "string \<Rightarrow> bool" where
  "looksLikeUsbPosition value =
     (if starts_with value ''usb'' then isDigitRun (drop 3 value)
      else case splitFirst (CHR ''-'') value of
        None \<Rightarrow> False
      | Some (bus, ports) \<Rightarrow> isDigitRun bus \<and> portChain ports)"

definition nameIsPositional :: "device \<Rightarrow> bool" where
  "nameIsPositional d =
     (if dev_name d = [] then True
      else let position = lastSegment (dev_sysfsPath d) in
        if position \<noteq> [] \<and> dev_name d = position then True
        else looksLikePciAddress (dev_name d) \<or> looksLikeUsbPosition (dev_name d))"

subsection \<open>Vendors\<close>

definition kLegalSuffixes :: "string list" where
  "kLegalSuffixes = [''Incorporated'', ''Inc.'', ''Inc'', ''Corporation'', ''Corp.'', ''Corp'', ''Company'',
     ''Co.'', ''Co'', ''Limited'', ''Ltd.'', ''Ltd'', ''GmbH'', ''LLC'', ''AG'', ''S.A.'', ''B.V.'']"

definition bracketedAlias :: "string \<Rightarrow> string" where
  "bracketedAlias vendor =
     (if length vendor \<le> 2 \<or> last vendor \<noteq> CHR '']'' then []
      else if CHR ''['' \<notin> set vendor then []
      else rev (takeWhile (\<lambda>c. c \<noteq> CHR ''['') (tl (rev vendor))))"

definition dropLegalSuffix :: "string \<Rightarrow> bool \<times> string" where
  "dropLegalSuffix vendor0 =
     (let vendor = rev (dropWhile (\<lambda>c. c = CHR '','' \<or> isspaceC c) (rev vendor0)) in
      case find (\<lambda>suffix.
          if length vendor \<le> length suffix then False
          else let boundary = vendor ! (length vendor - length suffix - 1) in
            (boundary = CHR '' '' \<or> boundary = CHR '','') \<and>
            equalsIgnoringCase (drop (length vendor - length suffix) vendor) suffix) kLegalSuffixes of
        None \<Rightarrow> (False, vendor)
      | Some hit \<Rightarrow> (True, take (length vendor - length hit) vendor))"

text \<open>At most \<open>n\<close> passes of the loop.\<close>

fun dropSuffixes :: "nat \<Rightarrow> string \<Rightarrow> string" where
  "dropSuffixes 0 vendor = vendor"
| "dropSuffixes (Suc n) vendor =
     (case dropLegalSuffix vendor of (hit, v) \<Rightarrow> if hit then dropSuffixes n v else v)"

definition kMaxPasses :: nat where "kMaxPasses = 4"

definition shortVendor :: "string \<Rightarrow> string" where
  "shortVendor vendor0 =
     (let vendor = trimmed vendor0; alias = bracketedAlias vendor in
      if alias \<noteq> [] then alias else trimmed (dropSuffixes kMaxPasses vendor))"

definition cleanSelfReportedModel :: "string \<Rightarrow> string \<Rightarrow> string" where
  "cleanSelfReportedModel model0 productId =
     (let model = trimmed (map (\<lambda>c. if c = CHR ''_'' then CHR '' '' else c) model0) in
      if model = [] then []
      else if equalsIgnoringCase model productId then []
      else if isHexRun model 4 then []
      else model)"

definition withVendor :: "string \<Rightarrow> string \<Rightarrow> string" where
  "withVendor vendor rest =
     (if vendor = [] then rest
      else if equalsIgnoringCase (take (min (length vendor) (length rest)) rest) vendor then rest
      else vendor @ '' '' @ rest)"

subsection \<open>The three strings\<close>

definition displayDeviceAddress :: "device \<Rightarrow> string" where
  "displayDeviceAddress d = lastSegment (dev_sysfsPath d)"

definition displayDeviceIdentity :: "device \<Rightarrow> string" where
  "displayDeviceIdentity d =
     (let ids = (if dev_vendorId d \<noteq> [] \<or> dev_productId d \<noteq> []
                 then dev_vendorId d @ '':'' @ dev_productId d else []);
          position = lastSegment (dev_sysfsPath d)
      in if ids = [] then position
         else if position = [] then ids
         else ids @ '' '' @ middot @ '' '' @ position)"

definition displayDeviceName :: "device \<Rightarrow> string" where
  "displayDeviceName d =
     (if \<not> nameIsPositional d then dev_name d
      else let catalogued = trimmed (property d ''ID_MODEL_FROM_DATABASE'') in
      if catalogued \<noteq> [] then catalogued
      else let self = cleanSelfReportedModel (property d ''ID_MODEL'') (dev_productId d) in
      if self \<noteq> [] then self
      else let vendor = shortVendor (property d ''ID_VENDOR_FROM_DATABASE'');
               subclass = trimmed (property d ''ID_PCI_SUBCLASS_FROM_DATABASE'');
               cls = trimmed (property d ''ID_PCI_CLASS_FROM_DATABASE'') in
      if subclass \<noteq> [] then withVendor vendor subclass
      else if cls \<noteq> [] then withVendor vendor cls
      else if vendor \<noteq> [] then vendor @ '' device''
      else if displayDeviceIdentity d \<noteq> [] then displayBus (dev_bus d) @ '' device''
      else if dev_name d = [] then ''(unknown device)'' else dev_name d)"

subsection \<open>Positional names\<close>

lemma splitFirst_iff: "splitFirst c s = Some (a, b) \<longleftrightarrow> s = a @ c # b \<and> c \<notin> set a"
proof
  assume "splitFirst c s = Some (a, b)"
  then have c: "c \<in> set s" and ab: "a = takeWhile (\<lambda>x. x \<noteq> c) s" "b = tl (dropWhile (\<lambda>x. x \<noteq> c) s)"
    by (auto simp: splitFirst_def split: if_splits)
  obtain ys zs where "s = ys @ c # zs" "c \<notin> set ys" using split_list_first [OF c] by blast
  then show "s = a @ c # b \<and> c \<notin> set a" using ab by (auto simp: takeWhile_append dropWhile_append)
next
  assume s: "s = a @ c # b \<and> c \<notin> set a"
  then have "takeWhile (\<lambda>x. x \<noteq> c) s = a" "dropWhile (\<lambda>x. x \<noteq> c) s = c # b"
    by (auto simp: takeWhile_append dropWhile_append)
  then show "splitFirst c s = Some (a, b)" using s by (simp add: splitFirst_def)
qed

lemma splitFirst_None: "splitFirst c s = None \<longleftrightarrow> c \<notin> set s"
  by (simp add: splitFirst_def)

lemma hexRun_no: "isHexRun v n \<Longrightarrow> CHR '':'' \<notin> set v \<and> CHR ''.'' \<notin> set v"
  by (auto simp: isHexRun_def list_all_iff isxdigitC_def isdigitC_def less_eq_char_def)

lemma digitRun_no: "isDigitRun v \<Longrightarrow> CHR ''.'' \<notin> set v \<and> CHR ''-'' \<notin> set v \<and> \<not> starts_with v ''usb''"
  by (cases v) (auto simp: isDigitRun_def list_all_iff isdigitC_def less_eq_char_def starts_with_def)

lemma looksLikePciAddress_iff:
  "looksLikePciAddress v \<longleftrightarrow> (\<exists>domain bus slot func. v = domain @ '':'' @ bus @ '':'' @ slot @ ''.'' @ func \<and>
     isHexRun domain 4 \<and> isHexRun bus 2 \<and> isHexRun slot 2 \<and> isHexRun func 1)"
proof
  assume "looksLikePciAddress v"
  note l = this [unfolded looksLikePciAddress_def]
  obtain domain r1 where 1: "splitFirst (CHR '':'') v = Some (domain, r1)" using l by (auto split: option.splits)
  obtain bus r2 where 2: "splitFirst (CHR '':'') r1 = Some (bus, r2)" using l 1 by (auto split: option.splits)
  obtain slot func where 3: "splitFirst (CHR ''.'') r2 = Some (slot, func)" using l 1 2 by (auto split: option.splits)
  have h: "isHexRun domain 4" "isHexRun bus 2" "isHexRun slot 2" "isHexRun func 1" using l 1 2 3 by simp_all
  have "v = domain @ '':'' @ bus @ '':'' @ slot @ ''.'' @ func" using 1 2 3 by (simp add: splitFirst_iff)
  with h show "\<exists>domain bus slot func. v = domain @ '':'' @ bus @ '':'' @ slot @ ''.'' @ func \<and>
     isHexRun domain 4 \<and> isHexRun bus 2 \<and> isHexRun slot 2 \<and> isHexRun func 1"
    by blast
next
  assume "\<exists>domain bus slot func. v = domain @ '':'' @ bus @ '':'' @ slot @ ''.'' @ func \<and>
     isHexRun domain 4 \<and> isHexRun bus 2 \<and> isHexRun slot 2 \<and> isHexRun func 1"
  then obtain domain bus slot func where v: "v = domain @ '':'' @ bus @ '':'' @ slot @ ''.'' @ func"
    and h: "isHexRun domain 4" "isHexRun bus 2" "isHexRun slot 2" "isHexRun func 1" by blast
  have "splitFirst (CHR '':'') v = Some (domain, bus @ '':'' @ slot @ ''.'' @ func)"
    "splitFirst (CHR '':'') (bus @ '':'' @ slot @ ''.'' @ func) = Some (bus, slot @ ''.'' @ func)"
    "splitFirst (CHR ''.'') (slot @ ''.'' @ func) = Some (slot, func)"
    using v hexRun_no h by (auto simp: splitFirst_iff)
  then show "looksLikePciAddress v" using h by (simp add: looksLikePciAddress_def)
qed

lemma portChain_iff:
  "portChain ports \<longleftrightarrow> (\<exists>ps. ps \<noteq> [] \<and> list_all isDigitRun ps \<and> ports = join ''.'' ps)"
proof (induction ports rule: portChain.induct)
  case (1 ports)
  show ?case
  proof (cases "splitFirst (CHR ''.'') ports")
    case None
    have "(\<exists>ps. ps \<noteq> [] \<and> list_all isDigitRun ps \<and> ports = join ''.'' ps) \<longleftrightarrow> isDigitRun ports"
    proof
      assume "\<exists>ps. ps \<noteq> [] \<and> list_all isDigitRun ps \<and> ports = join ''.'' ps"
      then obtain p ps where "list_all isDigitRun (p # ps)" "ports = join ''.'' (p # ps)"
        by (metis list.exhaust)
      then show "isDigitRun ports" using None by (cases ps) (auto simp: splitFirst_None)
    next
      assume "isDigitRun ports"
      then have "[ports] \<noteq> [] \<and> list_all isDigitRun [ports] \<and> ports = join ''.'' [ports]" by simp
      then show "\<exists>ps. ps \<noteq> [] \<and> list_all isDigitRun ps \<and> ports = join ''.'' ps" by blast
    qed
    then show ?thesis using None by (subst portChain.simps) (auto simp: isDigitRun_def)
  next
    case (Some ab)
    obtain port rest where ab: "ab = (port, rest)" by fastforce
    have p: "ports = port @ CHR ''.'' # rest" "CHR ''.'' \<notin> set port" using Some ab by (auto simp: splitFirst_iff)
    then have ne: "ports \<noteq> []" by simp
    have IH: "portChain rest \<longleftrightarrow> (\<exists>ps. ps \<noteq> [] \<and> list_all isDigitRun ps \<and> rest = join ''.'' ps)"
      using "1.IH" [OF ne Some ab [symmetric]] ab by simp
    have "(\<exists>ps. ps \<noteq> [] \<and> list_all isDigitRun ps \<and> ports = join ''.'' ps) \<longleftrightarrow> isDigitRun port \<and> portChain rest"
      unfolding IH
    proof
      assume "\<exists>ps. ps \<noteq> [] \<and> list_all isDigitRun ps \<and> ports = join ''.'' ps"
      then obtain q qs where q: "isDigitRun q" "list_all isDigitRun qs" "ports = join ''.'' (q # qs)"
        by (metis list.exhaust list.pred_inject(2))
      have nd: "CHR ''.'' \<notin> set q" using q(1) digitRun_no by blast
      then obtain q' qs' where "qs = q' # qs'" using q(3) p(1) by (cases qs) auto
      then have "splitFirst (CHR ''.'') ports = Some (q, join ''.'' qs)" using q(3) nd by (simp add: splitFirst_iff)
      then show "isDigitRun port \<and> (\<exists>ps. ps \<noteq> [] \<and> list_all isDigitRun ps \<and> rest = join ''.'' ps)"
        using Some ab q(1,2) \<open>qs = q' # qs'\<close> by auto
    next
      assume "isDigitRun port \<and> (\<exists>ps. ps \<noteq> [] \<and> list_all isDigitRun ps \<and> rest = join ''.'' ps)"
      then obtain q qs where "isDigitRun port" "list_all isDigitRun (q # qs)" "rest = join ''.'' (q # qs)"
        by (metis list.exhaust)
      then have "list_all isDigitRun (port # q # qs) \<and> ports = join ''.'' (port # q # qs)" using p by simp
      then show "\<exists>ps. ps \<noteq> [] \<and> list_all isDigitRun ps \<and> ports = join ''.'' ps" by blast
    qed
    then show ?thesis using Some ab ne by (subst portChain.simps) simp
  qed
qed

text \<open>The shapes the name formatter rejects are exactly the kernel's: domain, bus, slot and function in
  hex for PCI, \<open>usb\<close> and a number or a bus number and a chain of port numbers for USB.\<close>

lemma positional_shapes_iff:
  "(looksLikePciAddress v \<longleftrightarrow> (\<exists>domain bus slot func. v = domain @ '':'' @ bus @ '':'' @ slot @ ''.'' @ func \<and>
      isHexRun domain 4 \<and> isHexRun bus 2 \<and> isHexRun slot 2 \<and> isHexRun func 1)) \<and>
   (looksLikeUsbPosition v \<longleftrightarrow> (\<exists>n. isDigitRun n \<and> v = ''usb'' @ n) \<or>
      (\<exists>bus ports. isDigitRun bus \<and> ports \<noteq> [] \<and> list_all isDigitRun ports \<and> v = bus @ ''-'' @ join ''.'' ports))"
proof -
  have u: "looksLikeUsbPosition v \<longleftrightarrow> (\<exists>n. isDigitRun n \<and> v = ''usb'' @ n)" if "starts_with v ''usb''"
    using that by (auto simp: looksLikeUsbPosition_def starts_with_iff)
  have nu: "\<not> starts_with (bus @ x) ''usb''" if "isDigitRun bus" for bus x
    using that by (cases bus) (auto simp: isDigitRun_def isdigitC_def less_eq_char_def starts_with_def)
  have d: "splitFirst (CHR ''-'') (bus @ ''-'' @ x) = Some (bus, x)" if "isDigitRun bus" for bus x
    using digitRun_no [OF that] by (simp add: splitFirst_iff)
  have n: "looksLikeUsbPosition v \<longleftrightarrow> (\<exists>bus ports. isDigitRun bus \<and> ports \<noteq> [] \<and> list_all isDigitRun ports \<and>
      v = bus @ ''-'' @ join ''.'' ports)" if ns: "\<not> starts_with v ''usb''"
  proof
    assume "looksLikeUsbPosition v"
    then obtain bus ports where "splitFirst (CHR ''-'') v = Some (bus, ports)" "isDigitRun bus" "portChain ports"
      using ns by (auto simp: looksLikeUsbPosition_def split: option.splits)
    then show "\<exists>bus ports. isDigitRun bus \<and> ports \<noteq> [] \<and> list_all isDigitRun ports \<and> v = bus @ ''-'' @ join ''.'' ports"
      unfolding splitFirst_iff portChain_iff by auto
  next
    assume "\<exists>bus ports. isDigitRun bus \<and> ports \<noteq> [] \<and> list_all isDigitRun ports \<and> v = bus @ ''-'' @ join ''.'' ports"
    then obtain bus ports where b: "isDigitRun bus" "ports \<noteq> []" "list_all isDigitRun ports" "v = bus @ ''-'' @ join ''.'' ports"
      by blast
    have "portChain (join ''.'' ports)" unfolding portChain_iff using b by blast
    then show "looksLikeUsbPosition v" using ns d [OF b(1)] b(1,4) by (simp add: looksLikeUsbPosition_def)
  qed
  show ?thesis using u n nu looksLikePciAddress_iff by (metis starts_with_append)
qed

subsection \<open>Names\<close>

text \<open>A device always has a name to show: the string is never empty; a real name is shown as it is;
  and a device without database or self-reported properties and with some identity is shown by its
  bus, never by its kernel address.\<close>

lemma display_name_total:
  "displayDeviceName d \<noteq> [] \<and>
   (displayDeviceName d = dev_name d \<or> nameIsPositional d) \<and>
   (displayDeviceName d = displayBus (dev_bus d) @ '' device'' \<or> \<not> nameIsPositional d \<or>
      dev_properties d \<noteq> [] \<or> displayDeviceIdentity d = [])"
proof -
  have e: "trimmed [] = []" "cleanSelfReportedModel [] p = []" "shortVendor [] = []" for p
    by (simp_all add: trimmed_def cleanSelfReportedModel_def shortVendor_def bracketedAlias_def Let_def)
      (simp add: trimmed_def kMaxPasses_def eval_nat_numeral dropLegalSuffix_def kLegalSuffixes_def)
  have w: "x \<noteq> [] \<Longrightarrow> withVendor v x \<noteq> []" for v x by (simp add: withVendor_def)
  have p: "property d k = []" if "dev_properties d = []" for k using that by (simp add: property_def)
  have "dev_name d \<noteq> []" if "\<not> nameIsPositional d" using that by (auto simp: nameIsPositional_def)
  then have "displayDeviceName d \<noteq> []" by (simp add: displayDeviceName_def Let_def w)
  moreover have "displayDeviceName d = dev_name d \<or> nameIsPositional d" by (simp add: displayDeviceName_def)
  moreover have "displayDeviceName d = displayBus (dev_bus d) @ '' device''"
    if "nameIsPositional d" "dev_properties d = []" "displayDeviceIdentity d \<noteq> []"
    using that by (simp add: displayDeviceName_def Let_def p e)
  ultimately show ?thesis by blast
qed

text \<open>Yet a kernel address can be the name shown: a device that is known by nothing but a positional
  name has no identity line to carry it, and a self-reported model may look like a port.\<close>

lemma address_shown_as_name:
  "displayDeviceName (empty_device\<lparr>dev_name := ''0000:c5:00.4''\<rparr>) = ''0000:c5:00.4'' \<and>
   looksLikePciAddress ''0000:c5:00.4'' \<and>
   displayDeviceName (empty_device\<lparr>dev_sysfsPath := ''/sys/1-4'', dev_name := ''1-4'',
     dev_properties := [(''ID_MODEL'', ''3-1'')]\<rparr>) = ''3-1'' \<and> looksLikeUsbPosition ''3-1''"
  by code_simp

end
