(* ===== verification/Atomic_File.thy ===== *)
theory Atomic_File
  imports Core_Models
begin

text \<open>
  \<^verbatim>\<open>daemon/src/atomic_file.cpp\<close>: the tmp + fsync + rename + directory fsync idiom the
  persistent stores share, and the quarantine of a corrupt file.

  A directory is the list of its files in the order the file system iterates them (a new
  file comes last), with a schedule of faults: every write and every quarantine consumes the
  first one. \<open>atomicWriteSteps\<close> lists the states the write passes through, each with
  the names whose bytes are not yet on the disk, for the claim about a crash.
\<close>

datatype sync_fault = SyncOpen | SyncFsync | SyncClose

datatype io_fault =
    NoFault
  | OpenFault
  | WriteFault string
  | SyncFault sync_fault
  | RenameFault string
  | DirSyncFault sync_fault

record dir =
  dir_path :: string
  dir_files :: "(string \<times> string) list"
  dir_faults :: "io_fault list"

subsection \<open>Directory operations\<close>

definition pathIn :: "dir \<Rightarrow> string \<Rightarrow> string" where
  "pathIn d name = dir_path d @ ''/'' @ name"

definition file_exists :: "dir \<Rightarrow> string \<Rightarrow> bool" where
  "file_exists d name \<longleftrightarrow> name \<in> set (map fst (dir_files d))"

definition file_content :: "dir \<Rightarrow> string \<Rightarrow> string option" where
  "file_content d name = map_of (dir_files d) name"

fun files_put :: "string \<Rightarrow> string \<Rightarrow> (string \<times> string) list \<Rightarrow> (string \<times> string) list" where
  "files_put name c [] = [(name, c)]"
| "files_put name c (f # fs) = (if fst f = name then (name, c) # fs else f # files_put name c fs)"

definition files_remove :: "string \<Rightarrow> (string \<times> string) list \<Rightarrow> (string \<times> string) list" where
  "files_remove name fs = filter (\<lambda>f. fst f \<noteq> name) fs"

text \<open>\<^verbatim>\<open>rename\<close>: the target, if there is one, is replaced.\<close>

definition files_rename :: "string \<Rightarrow> string \<Rightarrow> (string \<times> string) list \<Rightarrow> (string \<times> string) list" where
  "files_rename a b fs =
     (case map_of fs a of None \<Rightarrow> fs | Some c \<Rightarrow> files_put b c (if a = b then fs else files_remove a fs))"

definition set_files :: "dir \<Rightarrow> (string \<times> string) list \<Rightarrow> dir" where
  "set_files d fs = d\<lparr>dir_files := fs\<rparr>"

definition nextFault :: "dir \<Rightarrow> io_fault" where
  "nextFault d = (case dir_faults d of [] \<Rightarrow> NoFault | f # _ \<Rightarrow> f)"

definition dropFault :: "dir \<Rightarrow> dir" where
  "dropFault d = d\<lparr>dir_faults := tl (dir_faults d)\<rparr>"

fun sync_message :: "sync_fault \<Rightarrow> string" where
  "sync_message SyncOpen = ''open for fsync failed: ''"
| "sync_message SyncFsync = ''fsync failed: ''"
| "sync_message SyncClose = ''close failed: ''"

fun syncFd :: "string \<Rightarrow> sync_fault option \<Rightarrow> unit result" where
  "syncFd path None = Inr ()"
| "syncFd path (Some f) = makeError Io (sync_message f @ path)"

subsection \<open>The write\<close>

definition tmpName :: "string \<Rightarrow> string" where
  "tmpName fileName = fileName @ ''.tmp''"

definition atomicWriteFile :: "dir \<Rightarrow> string \<Rightarrow> string \<Rightarrow> unit result \<times> dir" where
  "atomicWriteFile d fileName content =
     (let tmp = tmpName fileName;
          fault = nextFault d;
          d0 = dropFault d
      in case fault of
           OpenFault \<Rightarrow> (makeError Io (''cannot write '' @ pathIn d tmp), d0)
         | _ \<Rightarrow>
           (let written = (case fault of WriteFault part \<Rightarrow> part | _ \<Rightarrow> content);
                d1 = set_files d0 (files_put tmp written (dir_files d0))
            in case fault of
                 WriteFault part \<Rightarrow>
                   (makeError Io (''write failed: '' @ pathIn d tmp),
                    set_files d1 (files_remove tmp (dir_files d1)))
               | _ \<Rightarrow>
                 (case syncFd (pathIn d tmp) (case fault of SyncFault s \<Rightarrow> Some s | _ \<Rightarrow> None) of
                    Inl e \<Rightarrow> (Inl e, set_files d1 (files_remove tmp (dir_files d1)))
                  | Inr _ \<Rightarrow>
                    (case fault of
                       RenameFault msg \<Rightarrow>
                         (makeError Io (''rename failed: '' @ msg),
                          set_files d1 (files_remove tmp (dir_files d1)))
                     | _ \<Rightarrow>
                       (let d2 = set_files d1 (files_rename tmp fileName (dir_files d1))
                        in (syncFd (dir_path d) (case fault of DirSyncFault s \<Rightarrow> Some s | _ \<Rightarrow> None), d2))))))"

text \<open>The states of the same run, with the names whose bytes are not on the disk: opening
  truncates the temporary file, writing fills it, the sync settles it, and the rename swaps it
  in. Every fault only cuts the list short (and removes the temporary file).\<close>

definition atomicWriteSteps :: "dir \<Rightarrow> string \<Rightarrow> string \<Rightarrow> ((string \<times> string) list \<times> string list) list" where
  "atomicWriteSteps d fileName content =
     (let tmp = tmpName fileName;
          s0 = dir_files d;
          opened = files_put tmp [] s0;
          written = files_put tmp content s0;
          renamed = files_rename tmp fileName written;
          cleaned = files_remove tmp written
      in case nextFault d of
           OpenFault \<Rightarrow> [(s0, [])]
         | WriteFault part \<Rightarrow>
             [(s0, []), (opened, [tmp]), (files_put tmp part s0, [tmp]), (cleaned, [])]
         | SyncFault _ \<Rightarrow> [(s0, []), (opened, [tmp]), (written, [tmp]), (cleaned, [])]
         | RenameFault _ \<Rightarrow> [(s0, []), (opened, [tmp]), (written, [tmp]), (written, []), (cleaned, [])]
         | _ \<Rightarrow> [(s0, []), (opened, [tmp]), (written, [tmp]), (written, []), (renamed, [])])"

subsection \<open>Quarantine\<close>

text \<open>The search for a free name. Distinct counters give distinct names, so a directory can
  occupy only finitely many of them.\<close>

function freshFrom :: "string list \<Rightarrow> string \<Rightarrow> nat \<Rightarrow> string" where
  "freshFrom names base n =
     (if base @ ''.'' @ show_nat n \<in> set names then freshFrom names base (n + 1)
      else base @ ''.'' @ show_nat n)"
  by auto
termination
proof (relation "measure (\<lambda>(names, base, n).
    card (set names \<inter> (\<lambda>k. base @ ''.'' @ show_nat k) ` {n..}))")
  fix names :: "string list" and base n
  let ?f = "\<lambda>k. base @ ''.'' @ show_nat k"
  assume occupied: "?f n \<in> set names"
  have "inj ?f" by (rule injI) simp
  then have "?f n \<notin> ?f ` {n + 1..}" by (auto dest: injD)
  moreover have "?f ` {n + 1..} \<subseteq> ?f ` {n..}" by (rule image_mono) auto
  moreover have "?f n \<in> ?f ` {n..}" by (rule imageI) simp
  ultimately have "set names \<inter> ?f ` {n + 1..} \<subset> set names \<inter> ?f ` {n..}"
    using occupied by (intro psubsetI) (blast, metis IntE IntI)
  then show "((names, base, n + 1), names, base, n) \<in> measure (\<lambda>(names, base, n).
      card (set names \<inter> (\<lambda>k. base @ ''.'' @ show_nat k) ` {n..}))"
    by (simp add: psubset_card_mono)
qed simp

declare freshFrom.simps [simp del]

definition badName :: "string list \<Rightarrow> string \<Rightarrow> int \<Rightarrow> string" where
  "badName names fileName now =
     (let base = fileName @ ''.bad-'' @ show_int now in
      if base \<in> set names then freshFrom names base 1 else base)"

definition quarantineFile :: "dir \<Rightarrow> string \<Rightarrow> int \<Rightarrow> string \<times> dir" where
  "quarantineFile d fileName now =
     (let bad = badName (map fst (dir_files d)) fileName now;
          d0 = dropFault d
      in (bad,
          case nextFault d of
            RenameFault _ \<Rightarrow> d0
          | _ \<Rightarrow> set_files d0 (files_rename fileName bad (dir_files d0))))"

subsection \<open>Lookups\<close>

named_theorems file_simps "contents after directory operations"

lemma map_of_files_put [file_simps]: "map_of (files_put n c fs) = (map_of fs)(n \<mapsto> c)"
  by (induction fs) auto

lemma map_of_files_remove [file_simps]: "map_of (files_remove n fs) = (map_of fs)(n := None)"
  by (induction fs) (auto simp: files_remove_def)

lemma map_of_files_rename [file_simps]:
  "map_of (files_rename a b fs) =
     (case map_of fs a of None \<Rightarrow> map_of fs | Some c \<Rightarrow> (map_of fs)(a := None, b \<mapsto> c))"
  by (cases "map_of fs a"; cases "a = b") (simp_all add: files_rename_def file_simps)

lemma keys_files_put: "fst ` set (files_put n c fs) = insert n (fst ` set fs)"
  by (induction fs) auto

lemma distinct_files_put [file_simps]:
  "distinct (map fst fs) \<Longrightarrow> distinct (map fst (files_put n c fs))"
  by (induction fs) (auto simp: keys_files_put)

lemma distinct_files_remove [file_simps]:
  "distinct (map fst fs) \<Longrightarrow> distinct (map fst (files_remove n fs))"
  by (simp add: files_remove_def distinct_map_filter)

lemma distinct_files_rename [file_simps]:
  "distinct (map fst fs) \<Longrightarrow> distinct (map fst (files_rename a b fs))"
  by (cases "map_of fs a") (simp_all add: files_rename_def file_simps)

lemma file_content_set_files [file_simps]: "file_content (set_files d fs) n = map_of fs n"
  by (simp add: file_content_def set_files_def)

lemma dir_files_set_files [file_simps]: "dir_files (set_files d fs) = fs"
  by (simp add: set_files_def)

lemma dir_files_dropFault [file_simps]: "dir_files (dropFault d) = dir_files d"
  by (simp add: dropFault_def)

lemma file_exists_content: "file_exists d n \<longleftrightarrow> file_content d n \<noteq> None"
  by (simp add: file_exists_def file_content_def map_of_eq_None_iff)

lemma tmpName_neq [simp]: "tmpName n \<noteq> n" "n \<noteq> tmpName n"
  by (simp_all add: tmpName_def)

subsection \<open>What the write does\<close>

text \<open>Success means the new bytes are there; failure leaves the old ones, except that a failed
  directory sync comes after the swap. No other file but the temporary one is touched.\<close>

lemma atomicWriteFile_other:
  assumes "atomicWriteFile d n c = (r, d')" "m \<noteq> n" "m \<noteq> tmpName n"
  shows "file_content d' m = file_content d m"
  using assms by (cases "nextFault d") (auto simp: atomicWriteFile_def Let_def file_simps file_content_def makeError_def)

lemma atomicWriteFile_target:
  assumes "atomicWriteFile d n c = (r, d')"
  shows "file_content d' n = (if nextFault d = NoFault \<or> nextFault d \<in> range DirSyncFault
                               then Some c else file_content d n)"
  using assms by (cases "nextFault d") (auto simp: atomicWriteFile_def Let_def file_simps file_content_def makeError_def)

lemma atomicWriteFile_ok_iff: "has_value (fst (atomicWriteFile d n c)) \<longleftrightarrow> nextFault d = NoFault"
  by (cases "nextFault d") (auto simp: atomicWriteFile_def Let_def makeError_def)

lemma atomicWriteFile_ok:
  assumes "atomicWriteFile d n c = (Inr u, d')"
  shows "file_content d' n = Some c"
  using atomicWriteFile_target [OF assms] atomicWriteFile_ok_iff [of d n c] assms by simp

lemma atomicWriteFile_dir:
  assumes "atomicWriteFile d n c = (r, d')"
  shows "dir_path d' = dir_path d" "dir_faults d' = tl (dir_faults d)"
    "distinct (map fst (dir_files d)) \<Longrightarrow> distinct (map fst (dir_files d'))"
  using assms by (cases "nextFault d"; auto simp: atomicWriteFile_def Let_def file_simps makeError_def
      set_files_def dropFault_def)+

text \<open>The temporary file is gone afterwards, unless it could not even be opened.\<close>

lemma atomicWriteFile_tmp:
  assumes "atomicWriteFile d n c = (r, d')"
  shows "file_content d' (tmpName n) = (if nextFault d = OpenFault then file_content d (tmpName n) else None)"
  using assms by (cases "nextFault d") (auto simp: atomicWriteFile_def Let_def file_simps file_content_def makeError_def)

lemma files_remove_put: "files_remove n (files_put n c fs) = files_remove n fs"
  by (induction fs) (auto simp: files_remove_def)

text \<open>The listed states are the states of the write.\<close>

lemma atomicWriteSteps_last:
  "fst (last (atomicWriteSteps d n c)) = dir_files (snd (atomicWriteFile d n c))"
  by (cases "nextFault d") (auto simp: atomicWriteFile_def atomicWriteSteps_def Let_def file_simps
      makeError_def files_remove_put)

text \<open>C17: whatever fails and whenever the machine stops, the file under its own name holds the
  old bytes or all of the new ones, and those are on the disk; no other file changes, except for
  the temporary one.\<close>

lemma atomic_write_never_torn:
  "list_all (\<lambda>(files, unsynced).
      (map_of files fileName = file_content d fileName \<or> map_of files fileName = Some content) \<and>
      fileName \<notin> set unsynced \<and>
      (\<forall>m. m = fileName \<or> m = tmpName fileName \<or> map_of files m = file_content d m))
    (atomicWriteSteps d fileName content) \<and>
   fst (hd (atomicWriteSteps d fileName content)) = dir_files d \<and>
   fst (last (atomicWriteSteps d fileName content)) = dir_files (snd (atomicWriteFile d fileName content)) \<and>
   (has_value (fst (atomicWriteFile d fileName content)) \<longleftrightarrow> nextFault d = NoFault) \<and>
   (file_content (snd (atomicWriteFile d fileName content)) fileName =
      (if nextFault d = NoFault \<or> nextFault d \<in> range DirSyncFault then Some content
       else file_content d fileName))"
proof (intro conjI)
  show "list_all (\<lambda>(files, unsynced).
      (map_of files fileName = file_content d fileName \<or> map_of files fileName = Some content) \<and>
      fileName \<notin> set unsynced \<and>
      (\<forall>m. m = fileName \<or> m = tmpName fileName \<or> map_of files m = file_content d m))
    (atomicWriteSteps d fileName content)"
    by (cases "nextFault d") (auto simp: atomicWriteSteps_def Let_def file_simps file_content_def)
  show "fst (hd (atomicWriteSteps d fileName content)) = dir_files d"
    by (cases "nextFault d") (auto simp: atomicWriteSteps_def Let_def)
  obtain r d' where w: "atomicWriteFile d fileName content = (r, d')" by fastforce
  show "file_content (snd (atomicWriteFile d fileName content)) fileName =
      (if nextFault d = NoFault \<or> nextFault d \<in> range DirSyncFault then Some content
       else file_content d fileName)"
    using atomicWriteFile_target [OF w] by (simp add: w)
qed (rule atomicWriteSteps_last atomicWriteFile_ok_iff)+

subsection \<open>What quarantine does\<close>

lemma freshFrom_fresh: "freshFrom names base n \<notin> set names"
  by (induction names base n rule: freshFrom.induct) (subst freshFrom.simps, simp)

lemma freshFrom_prefix: "\<exists>k. freshFrom names base n = base @ ''.'' @ show_nat k"
proof (induction names base n rule: freshFrom.induct)
  case (1 names base n)
  then show ?case by (subst freshFrom.simps) auto
qed

lemma badName_fresh: "badName names f now \<notin> set names"
  by (simp add: badName_def Let_def freshFrom_fresh)

lemma badName_prefix: "starts_with (badName names f now) (f @ ''.bad-'' @ show_int now)"
proof -
  have "starts_with ((f @ ''.bad-'' @ show_int now) @ r) (f @ ''.bad-'' @ show_int now)" for r
    by (rule starts_with_append)
  then show ?thesis
    using freshFrom_prefix [of names "f @ ''.bad-'' @ show_int now" 1]
    by (auto simp: badName_def Let_def)
qed

lemma quarantineFile_content:
  assumes "quarantineFile d f now = (bad, d')"
  shows "file_content d bad = None"
    and "nextFault d \<notin> range RenameFault \<Longrightarrow> file_content d' bad = file_content d f"
    and "nextFault d \<notin> range RenameFault \<Longrightarrow> file_content d' f = None"
    and "m \<noteq> f \<Longrightarrow> m \<noteq> bad \<Longrightarrow> file_content d' m = file_content d m"
    and "m \<noteq> f \<Longrightarrow> file_content d m = Some c \<Longrightarrow> file_content d' m = Some c"
proof -
  have bad: "bad = badName (map fst (dir_files d)) f now"
    and d': "d' = (case nextFault d of RenameFault _ \<Rightarrow> dropFault d
      | _ \<Rightarrow> set_files (dropFault d) (files_rename f bad (dir_files d)))"
    using assms by (auto simp: quarantineFile_def Let_def file_simps split: io_fault.splits)
  show none: "file_content d bad = None"
    using badName_fresh bad by (metis file_exists_content file_exists_def)
  have neq: "bad \<noteq> f"
    using badName_prefix [of "map fst (dir_files d)" f now] by (auto simp: bad text_simps)
  show "file_content d' bad = file_content d f" "file_content d' f = None"
    if "nextFault d \<notin> range RenameFault"
    using that none neq unfolding d'
    by (auto simp: file_simps file_content_def split: io_fault.splits option.splits)
  show "m \<noteq> f \<Longrightarrow> m \<noteq> bad \<Longrightarrow> file_content d' m = file_content d m"
    unfolding d' by (auto simp: file_simps file_content_def split: io_fault.splits option.splits)
  then show "m \<noteq> f \<Longrightarrow> file_content d m = Some c \<Longrightarrow> file_content d' m = Some c"
    using none by (cases "m = bad") auto
qed

lemma quarantineFile_dir:
  assumes "quarantineFile d f now = (bad, d')"
  shows "dir_path d' = dir_path d" "dir_faults d' = tl (dir_faults d)"
    "distinct (map fst (dir_files d)) \<Longrightarrow> distinct (map fst (dir_files d'))"
  using assms by (auto simp: quarantineFile_def Let_def file_simps set_files_def dropFault_def
      split: io_fault.splits)

text \<open>Quarantine moves the bytes to a name no file has (so the evidence of an earlier
  quarantine, even one of the same second, survives), frees the old name, and touches nothing
  else; a failing rename leaves everything where it was.\<close>

lemma quarantine_preserves_evidence:
  "\<not> file_exists d (fst (quarantineFile d f now)) \<and>
   starts_with (fst (quarantineFile d f now)) (f @ ''.bad-'' @ show_int now) \<and>
   file_content (snd (quarantineFile d f now)) (fst (quarantineFile d f now)) =
     (if nextFault d \<in> range RenameFault then None else file_content d f) \<and>
   file_content (snd (quarantineFile d f now)) f =
     (if nextFault d \<in> range RenameFault then file_content d f else None) \<and>
   (\<forall>m. m = f \<or> m = fst (quarantineFile d f now)
         \<or> file_content (snd (quarantineFile d f now)) m = file_content d m)"
proof -
  obtain bad d' where q: "quarantineFile d f now = (bad, d')" by fastforce
  have bad: "bad = badName (map fst (dir_files d)) f now"
    using q by (simp add: quarantineFile_def Let_def)
  have stays: "file_content d' m = file_content d m" if "nextFault d \<in> range RenameFault" for m
    using that q by (auto simp: quarantineFile_def Let_def file_content_def dropFault_def)
  show ?thesis
    unfolding q fst_conv snd_conv file_exists_content
    using quarantineFile_content [OF q] stays badName_prefix [of "map fst (dir_files d)" f now]
    by (auto simp: bad)
qed

end
