(* ===== verification/Json.thy ===== *)
theory Json
  imports Prelude
begin

text \<open>
  JSON values as the program's JSON library holds them, the accessors the sources use and the
  exceptions they throw, and the library's printers and parser as a record of parameters.

  An object is a \<^verbatim>\<open>std::map\<close>, so its members are ascending and distinct (\<open>jobject\<close> builds
  one from an initialiser list). Integers are the mathematical value; the accessors narrow
  as the library's casts do. \<open>JFloat i\<close> is a floating point number whose conversion to an
  integer is \<open>i\<close>. Text produced for bytes that are not UTF-8 is outside the model: the laws
  assumed of the library (\<open>codec_ok\<close>) are about documents whose strings are UTF-8.
\<close>

datatype json =
    JNull
  | JBool bool
  | JInt int
  | JFloat int
  | JStr string
  | JArr "json list"
  | JObj "(string \<times> json) list"

datatype jexn = TypeError | OutOfRange string | OtherError

record json_lib =
  jl_dump :: "json \<Rightarrow> string"
  jl_dump2 :: "json \<Rightarrow> string"
  jl_parse :: "string \<Rightarrow> json option"
  jl_what :: "jexn \<Rightarrow> string"

subsection \<open>Fallible steps\<close>

fun bindE :: "'e + 'a \<Rightarrow> ('a \<Rightarrow> 'e + 'b) \<Rightarrow> 'e + 'b" where
  "bindE (Inl e) f = Inl e"
| "bindE (Inr x) f = f x"

fun mapE :: "('a \<Rightarrow> 'e + 'b) \<Rightarrow> 'a list \<Rightarrow> 'e + 'b list" where
  "mapE f [] = Inr []"
| "mapE f (x # xs) = bindE (f x) (\<lambda>y. bindE (mapE f xs) (\<lambda>ys. Inr (y # ys)))"

subsection \<open>Construction and access\<close>

definition jobject :: "(string \<times> json) list \<Rightarrow> json" where
  "jobject kvs = JObj (smap_of kvs)"

fun is_string :: "json \<Rightarrow> bool" where
  "is_string (JStr s) = True"
| "is_string _ = False"

fun is_array :: "json \<Rightarrow> bool" where
  "is_array (JArr js) = True"
| "is_array _ = False"

fun is_object :: "json \<Rightarrow> bool" where
  "is_object (JObj kvs) = True"
| "is_object _ = False"

fun at :: "json \<Rightarrow> string \<Rightarrow> jexn + json" where
  "at (JObj kvs) k = (case map_of kvs k of Some v \<Rightarrow> Inr v | None \<Rightarrow> Inl (OutOfRange k))"
| "at _ k = Inl TypeError"

text \<open>The elements of a range-based loop: null has none and any other scalar is its own element.\<close>

fun elements :: "json \<Rightarrow> json list" where
  "elements JNull = []"
| "elements (JArr js) = js"
| "elements (JObj kvs) = map snd kvs"
| "elements j = [j]"

fun get_string :: "json \<Rightarrow> jexn + string" where
  "get_string (JStr s) = Inr s"
| "get_string _ = Inl TypeError"

fun get_bool :: "json \<Rightarrow> jexn + bool" where
  "get_bool (JBool b) = Inr b"
| "get_bool _ = Inl TypeError"

fun get_int64 :: "json \<Rightarrow> jexn + int" where
  "get_int64 (JInt i) = Inr (signed_take_bit 63 i)"
| "get_int64 (JFloat i) = Inr (signed_take_bit 63 i)"
| "get_int64 _ = Inl TypeError"

text \<open>\<^verbatim>\<open>get<int>\<close> goes through the library's generic arithmetic conversion, which also accepts
  booleans and narrows to 32 bits.\<close>

fun get_int32 :: "json \<Rightarrow> jexn + int" where
  "get_int32 (JInt i) = Inr (signed_take_bit 31 i)"
| "get_int32 (JFloat i) = Inr (signed_take_bit 31 i)"
| "get_int32 (JBool b) = Inr (if b then 1 else 0)"
| "get_int32 _ = Inl TypeError"

fun get_size :: "json \<Rightarrow> jexn + nat" where
  "get_size (JInt i) = Inr (nat (take_bit 64 i))"
| "get_size (JFloat i) = Inr (nat (take_bit 64 i))"
| "get_size _ = Inl TypeError"

definition at_string :: "json \<Rightarrow> string \<Rightarrow> jexn + string" where
  "at_string j k = bindE (at j k) get_string"

text \<open>\<^verbatim>\<open>get<std::map<std::string, std::string>>\<close>.\<close>

fun get_string_map :: "json \<Rightarrow> jexn + (string \<times> string) list" where
  "get_string_map (JObj kvs) =
     bindE (mapE (\<lambda>kv. bindE (get_string (snd kv)) (\<lambda>s. Inr (fst kv, s))) kvs) (\<lambda>m. Inr (smap_of m))"
| "get_string_map _ = Inl TypeError"

text \<open>\<^verbatim>\<open>value(key, default)\<close> with a boolean default: the default only for a missing key.\<close>

fun value_bool :: "json \<Rightarrow> string \<Rightarrow> bool \<Rightarrow> jexn + bool" where
  "value_bool (JObj kvs) k d = (case map_of kvs k of Some v \<Rightarrow> get_bool v | None \<Rightarrow> Inr d)"
| "value_bool _ k d = Inl TypeError"

subsection \<open>Well-formed documents and the laws of the library\<close>

definition cont :: "char \<Rightarrow> bool" where
  "cont c \<longleftrightarrow> CHR 0x80 \<le> c \<and> c \<le> CHR 0xBF"

fun utf8 :: "string \<Rightarrow> bool" where
  "utf8 [] = True"
| "utf8 [a] = (a < CHR 0x80)"
| "utf8 [a, b] = (if a < CHR 0x80 then utf8 [b] else CHR 0xC2 \<le> a \<and> a \<le> CHR 0xDF \<and> cont b)"
| "utf8 [a, b, c] =
     (if a < CHR 0x80 then utf8 [b, c]
      else if CHR 0xC2 \<le> a \<and> a \<le> CHR 0xDF then cont b \<and> utf8 [c]
      else CHR 0xE0 \<le> a \<and> a \<le> CHR 0xEF \<and> cont b \<and> cont c
           \<and> (a = CHR 0xE0 \<longrightarrow> CHR 0xA0 \<le> b) \<and> (a = CHR 0xED \<longrightarrow> b \<le> CHR 0x9F))"
| "utf8 (a # b # c # d # s) =
     (if a < CHR 0x80 then utf8 (b # c # d # s)
      else if CHR 0xC2 \<le> a \<and> a \<le> CHR 0xDF then cont b \<and> utf8 (c # d # s)
      else if CHR 0xE0 \<le> a \<and> a \<le> CHR 0xEF then cont b \<and> cont c
           \<and> (a = CHR 0xE0 \<longrightarrow> CHR 0xA0 \<le> b) \<and> (a = CHR 0xED \<longrightarrow> b \<le> CHR 0x9F) \<and> utf8 (d # s)
      else CHR 0xF0 \<le> a \<and> a \<le> CHR 0xF4 \<and> cont b \<and> cont c \<and> cont d
           \<and> (a = CHR 0xF0 \<longrightarrow> CHR 0x90 \<le> b) \<and> (a = CHR 0xF4 \<longrightarrow> b \<le> CHR 0x8F) \<and> utf8 s)"

fun json_ok :: "json \<Rightarrow> bool" where
  "json_ok JNull = True"
| "json_ok (JBool b) = True"
| "json_ok (JInt i) = (- (2 ^ 63) \<le> i \<and> i < 2 ^ 64)"
| "json_ok (JFloat i) = False"
| "json_ok (JStr s) = utf8 s"
| "json_ok (JArr js) = list_all json_ok js"
| "json_ok (JObj kvs) = (smap_ok kvs \<and> list_all (\<lambda>kv. utf8 (fst kv) \<and> json_ok (snd kv)) kvs)"

text \<open>Printing and parsing again gives the document back, for both printers.\<close>

definition codec_ok :: "json_lib \<Rightarrow> bool" where
  "codec_ok lib \<longleftrightarrow>
     (\<forall>j. json_ok j \<longrightarrow> jl_parse lib (jl_dump lib j) = Some j \<and> jl_parse lib (jl_dump2 lib j) = Some j)"

subsection \<open>Facts\<close>

named_theorems json_simps "building and reading documents"

lemma bindE_Inr_iff: "bindE m f = Inr y \<longleftrightarrow> (\<exists>x. m = Inr x \<and> f x = Inr y)"
  by (cases m) auto

lemma at_jobject [json_simps]:
  "at (jobject kvs) k = (case map_of (rev kvs) k of Some v \<Rightarrow> Inr v | None \<Rightarrow> Inl (OutOfRange k))"
  by (simp add: jobject_def map_of_smap_of)

lemma is_object_jobject [json_simps]: "is_object (jobject kvs)"
  by (simp add: jobject_def)

lemma mapE_map: "(\<And>x. x \<in> set xs \<Longrightarrow> f (g x) = Inr (h x)) \<Longrightarrow> mapE f (map g xs) = Inr (map h xs)"
  by (induction xs) auto

lemma set_smap_put: "set (smap_put k v m) \<subseteq> insert (k, v) (set m)"
  by (induction m) auto

lemma set_smap_of: "set (smap_of kvs) \<subseteq> set kvs"
proof -
  have "set (foldl (\<lambda>m kv. smap_put (fst kv) (snd kv) m) m0 kvs) \<subseteq> set m0 \<union> set kvs" for m0
  proof (induction kvs arbitrary: m0)
    case (Cons kv kvs)
    have "set (smap_put (fst kv) (snd kv) m0) \<subseteq> insert kv (set m0)"
      using set_smap_put [of "fst kv" "snd kv" m0] by simp
    with Cons.IH [of "smap_put (fst kv) (snd kv) m0"] show ?case by fastforce
  qed simp
  then show ?thesis by (fastforce simp: smap_of_def)
qed

lemma json_ok_jobject [json_simps]:
  "list_all (\<lambda>kv. utf8 (fst kv) \<and> json_ok (snd kv)) kvs \<Longrightarrow> json_ok (jobject kvs)"
  using set_smap_of [of kvs] by (auto simp: jobject_def smap_simps list_all_iff)

lemma smap_of_id: "smap_ok m \<Longrightarrow> smap_of m = m"
proof (rule smap_eqI)
  assume "smap_ok m"
  then have "distinct (map fst m)" by (rule smap_ok_distinct)
  then have "map_of (rev m) = map_of m"
    by (intro map_of_inject_set [THEN iffD2]) (auto simp: rev_map [symmetric])
  then show "map_of (smap_of m) = map_of m" by (simp add: map_of_smap_of)
qed (simp_all add: smap_simps)

lemma get_string_map_ok:
  "smap_ok m \<Longrightarrow> get_string_map (JObj (map (\<lambda>kv. (fst kv, JStr (snd kv))) m)) = Inr m"
  using mapE_map [where xs = m and g = "\<lambda>kv. (fst kv, JStr (snd kv))" and h = id
      and f = "\<lambda>kv. bindE (get_string (snd kv)) (\<lambda>s. Inr (fst kv, s))"]
  by (simp add: smap_of_id)

lemma json_ok_string_map:
  assumes "smap_ok m" "list_all (\<lambda>kv. utf8 (fst kv) \<and> utf8 (snd kv)) m"
  shows "json_ok (JObj (map (\<lambda>kv. (fst kv, JStr (snd kv))) m))"
  using assms by (auto simp: smap_ok_def list_all_iff comp_def)

lemma get_int64_range [json_simps]: "- (2 ^ 63) \<le> i \<Longrightarrow> i < 2 ^ 63 \<Longrightarrow> get_int64 (JInt i) = Inr i"
  by (simp add: signed_take_bit_int_eq_self)

lemma get_int32_range [json_simps]: "- (2 ^ 31) \<le> i \<Longrightarrow> i < 2 ^ 31 \<Longrightarrow> get_int32 (JInt i) = Inr i"
  by (simp add: signed_take_bit_int_eq_self)

lemma get_size_range [json_simps]: "n < 2 ^ 64 \<Longrightarrow> get_size (JInt (int n)) = Inr n"
  by (simp add: take_bit_int_eq_self)

lemma codec_dump: "codec_ok lib \<Longrightarrow> json_ok j \<Longrightarrow> jl_parse lib (jl_dump lib j) = Some j"
  by (simp add: codec_ok_def)

lemma codec_dump2: "codec_ok lib \<Longrightarrow> json_ok j \<Longrightarrow> jl_parse lib (jl_dump2 lib j) = Some j"
  by (simp add: codec_ok_def)

end
