(* ===== verification/Entry_Json.thy ===== *)
theory Entry_Json
  imports Core_Models Json
begin

text \<open>
  \<^verbatim>\<open>daemon/src/entry_json.cpp\<close>: the one shape a disabled-device entry has in \<^verbatim>\<open>state.json\<close>,
  in snapshot payloads and on the wire of \<^verbatim>\<open>ListDisabledDevices\<close>.
\<close>

definition entryToJson :: "disabled_entry \<Rightarrow> json" where
  "entryToJson e =
     jobject [(''bus'', JStr (key_bus (ent_key e))),
              (''vendor_id'', JStr (key_vendorId (ent_key e))),
              (''product_id'', JStr (key_productId (ent_key e))),
              (''serial'', JStr (key_serial (ent_key e))),
              (''position'', JStr (key_position (ent_key e))),
              (''mechanism'', JStr (ent_mechanism e)),
              (''last_driver'', JStr (ent_lastDriver e)),
              (''last_sysfs_path'', JStr (ent_lastSysfsPath e)),
              (''disabled_at_utc'', JInt (ent_disabledAtUtc e)),
              (''guard_suspended'', JBool (ent_guardSuspended e))]"

definition entryFromJson :: "json \<Rightarrow> jexn + disabled_entry" where
  "entryFromJson j =
     bindE (at_string j ''bus'') (\<lambda>bus.
     bindE (at_string j ''vendor_id'') (\<lambda>vendor.
     bindE (at_string j ''product_id'') (\<lambda>product.
     bindE (at_string j ''serial'') (\<lambda>serial.
     bindE (at_string j ''position'') (\<lambda>position.
     bindE (at_string j ''mechanism'') (\<lambda>mechanism.
     bindE (at_string j ''last_driver'') (\<lambda>lastDriver.
     bindE (at_string j ''last_sysfs_path'') (\<lambda>lastSysfsPath.
     bindE (bindE (at j ''disabled_at_utc'') get_int64) (\<lambda>disabledAtUtc.
     bindE (bindE (at j ''guard_suspended'') get_bool) (\<lambda>guardSuspended.
       Inr \<lparr>ent_key = \<lparr>key_bus = bus, key_vendorId = vendor, key_productId = product,
              key_serial = serial, key_position = position\<rparr>,
            ent_mechanism = mechanism, ent_lastDriver = lastDriver,
            ent_lastSysfsPath = lastSysfsPath, ent_disabledAtUtc = disabledAtUtc,
            ent_guardSuspended = guardSuspended\<rparr>))))))))))"

text \<open>Entries a document can carry: UTF-8 fields and a time in the 64-bit range.\<close>

definition entry_ok :: "disabled_entry \<Rightarrow> bool" where
  "entry_ok e \<longleftrightarrow>
     utf8 (key_bus (ent_key e)) \<and> utf8 (key_vendorId (ent_key e)) \<and>
     utf8 (key_productId (ent_key e)) \<and> utf8 (key_serial (ent_key e)) \<and>
     utf8 (key_position (ent_key e)) \<and> utf8 (ent_mechanism e) \<and> utf8 (ent_lastDriver e) \<and>
     utf8 (ent_lastSysfsPath e) \<and>
     - (2 ^ 63) \<le> ent_disabledAtUtc e \<and> ent_disabledAtUtc e < 2 ^ 63"

lemma entry_roundtrip:
  assumes "- (2 ^ 63) \<le> ent_disabledAtUtc e" "ent_disabledAtUtc e < 2 ^ 63"
  shows "entryFromJson (entryToJson e) = Inr e"
  using get_int64_range [OF assms]
  by (simp add: entryFromJson_def entryToJson_def at_string_def at_jobject del: get_int64.simps)

lemma entryToJson_ok: "entry_ok e \<Longrightarrow> json_ok (entryToJson e)"
  unfolding entryToJson_def by (rule json_ok_jobject) (simp add: entry_ok_def)

lemma entries_roundtrip:
  "list_all entry_ok es \<Longrightarrow> mapE entryFromJson (map entryToJson es) = Inr es"
  using mapE_map [where f = entryFromJson and g = entryToJson and h = id and xs = es]
  by (simp add: entry_roundtrip list_all_iff entry_ok_def)

text \<open>The values of a malformed entry never reach the caller: a missing member is an exception.\<close>

lemma entryFromJson_total_fields:
  assumes "entryFromJson j = Inr e"
  shows "\<exists>kvs. j = JObj kvs \<and>
    {''bus'', ''vendor_id'', ''product_id'', ''serial'', ''position'', ''mechanism'', ''last_driver'',
     ''last_sysfs_path'', ''disabled_at_utc'', ''guard_suspended''} \<subseteq> fst ` set kvs"
proof (cases j)
  case (JObj kvs)
  have "k \<in> fst ` set kvs" if "at j k = Inr v" for k v
    using that JObj by (auto split: option.splits dest!: map_of_SomeD intro!: image_eqI)
  with assms JObj show ?thesis
    by (auto simp: entryFromJson_def at_string_def bindE_Inr_iff)
qed (use assms in \<open>auto simp: entryFromJson_def at_string_def\<close>)

end
