(* ===== verification/Sha256.thy ===== *)
theory Sha256
  imports Prelude "HOL-Library.Word"
begin

text \<open>
  \<^verbatim>\<open>core/src/sha256.cpp\<close> on 32-bit words: the message schedule, the 64 rounds and the
  streaming driver with its one or two final blocks. The driver is shown to compute the
  textbook form (pad the message, fold the compression over its 64-byte blocks), and the
  compression is checked on a published test vector by evaluation in the kernel.
\<close>

unbundle bit_operations_syntax

type_synonym u32 = "32 word"
type_synonym sha_state = "u32 \<times> u32 \<times> u32 \<times> u32 \<times> u32 \<times> u32 \<times> u32 \<times> u32"

definition kRoundConstants :: "u32 list" where
  "kRoundConstants =
    [0x428A2F98, 0x71374491, 0xB5C0FBCF, 0xE9B5DBA5, 0x3956C25B, 0x59F111F1, 0x923F82A4, 0xAB1C5ED5,
     0xD807AA98, 0x12835B01, 0x243185BE, 0x550C7DC3, 0x72BE5D74, 0x80DEB1FE, 0x9BDC06A7, 0xC19BF174,
     0xE49B69C1, 0xEFBE4786, 0x0FC19DC6, 0x240CA1CC, 0x2DE92C6F, 0x4A7484AA, 0x5CB0A9DC, 0x76F988DA,
     0x983E5152, 0xA831C66D, 0xB00327C8, 0xBF597FC7, 0xC6E00BF3, 0xD5A79147, 0x06CA6351, 0x14292967,
     0x27B70A85, 0x2E1B2138, 0x4D2C6DFC, 0x53380D13, 0x650A7354, 0x766A0ABB, 0x81C2C92E, 0x92722C85,
     0xA2BFE8A1, 0xA81A664B, 0xC24B8B70, 0xC76C51A3, 0xD192E819, 0xD6990624, 0xF40E3585, 0x106AA070,
     0x19A4C116, 0x1E376C08, 0x2748774C, 0x34B0BCB5, 0x391C0CB3, 0x4ED8AA4A, 0x5B9CCA4F, 0x682E6FF3,
     0x748F82EE, 0x78A5636F, 0x84C87814, 0x8CC70208, 0x90BEFFFA, 0xA4506CEB, 0xBEF9A3F7, 0xC67178F2]"

definition kInitialState :: sha_state where
  "kInitialState =
    (0x6A09E667, 0xBB67AE85, 0x3C6EF372, 0xA54FF53A, 0x510E527F, 0x9B05688C, 0x1F83D9AB, 0x5BE0CD19)"

definition rotr :: "u32 \<Rightarrow> nat \<Rightarrow> u32" where
  "rotr w n = word_rotr n w"

text \<open>The schedule: sixteen big-endian words of the block, then 48 derived ones.\<close>

definition beWord :: "char list \<Rightarrow> nat \<Rightarrow> u32" where
  "beWord block i =
     push_bit 24 (of_char (block ! (4 * i))) OR push_bit 16 (of_char (block ! (4 * i + 1)))
     OR push_bit 8 (of_char (block ! (4 * i + 2))) OR of_char (block ! (4 * i + 3))"

definition nextWord :: "u32 list \<Rightarrow> u32" where
  "nextWord w =
     (let i = length w;
          s0 = rotr (w ! (i - 15)) 7 XOR rotr (w ! (i - 15)) 18 XOR drop_bit 3 (w ! (i - 15));
          s1 = rotr (w ! (i - 2)) 17 XOR rotr (w ! (i - 2)) 19 XOR drop_bit 10 (w ! (i - 2))
      in w ! (i - 16) + s0 + w ! (i - 7) + s1)"

fun extend :: "nat \<Rightarrow> u32 list \<Rightarrow> u32 list" where
  "extend 0 w = w"
| "extend (Suc n) w = extend n (w @ [nextWord w])"

definition schedule :: "char list \<Rightarrow> u32 list" where
  "schedule block = extend 48 (map (beWord block) [0..<16])"

definition round1 :: "sha_state \<Rightarrow> u32 \<times> u32 \<Rightarrow> sha_state" where
  "round1 st kw = (case st of (a, b, c, d, e, f, g, h) \<Rightarrow>
     let s1 = rotr e 6 XOR rotr e 11 XOR rotr e 25;
         ch = (e AND f) XOR (NOT e AND g);
         temp1 = h + s1 + ch + fst kw + snd kw;
         s0 = rotr a 2 XOR rotr a 13 XOR rotr a 22;
         maj = (a AND b) XOR (a AND c) XOR (b AND c);
         temp2 = s0 + maj
     in (temp1 + temp2, a, b, c, d + temp1, e, f, g))"

definition compress :: "sha_state \<Rightarrow> char list \<Rightarrow> sha_state" where
  "compress st block =
     (case (st, foldl round1 st (zip kRoundConstants (schedule block))) of
        ((a, b, c, d, e, f, g, h), (a', b', c', d', e', f', g', h')) \<Rightarrow>
          (a + a', b + b', c + c', d + d', e + e', f + f', g + g', h + h'))"

text \<open>The loop over whole blocks, with the bytes it leaves for the tail.\<close>

function wholeBlocks :: "sha_state \<Rightarrow> char list \<Rightarrow> sha_state \<times> char list" where
  "wholeBlocks st bytes =
     (if length bytes \<ge> 64 then wholeBlocks (compress st (take 64 bytes)) (drop 64 bytes)
      else (st, bytes))"
  by auto
termination by (relation "measure (length \<circ> snd)") auto

declare wholeBlocks.simps [simp del]

definition kHex :: string where
  "kHex = ''0123456789abcdef''"

definition hexWord :: "u32 \<Rightarrow> string" where
  "hexWord w = map (\<lambda>shift. kHex ! unat (drop_bit shift w AND 0xF)) [28, 24, 20, 16, 12, 8, 4, 0]"

definition hexState :: "sha_state \<Rightarrow> string" where
  "hexState st = (case st of (a, b, c, d, e, f, g, h) \<Rightarrow> concat (map hexWord [a, b, c, d, e, f, g, h]))"

text \<open>The eight length bytes, written from the last position of the tail backwards.\<close>

fun putLength :: "64 word \<Rightarrow> nat \<Rightarrow> nat list \<Rightarrow> char list \<Rightarrow> char list" where
  "putLength bitLength blocks [] tail = tail"
| "putLength bitLength blocks (i # is) tail =
     putLength bitLength blocks is
       (tail[blocks * 64 - 1 - i := char_of (unat (drop_bit (8 * i) bitLength))])"

definition sha256Hex :: "string \<Rightarrow> string" where
  "sha256Hex data =
     (let (st, bytes) = wholeBlocks kInitialState data;
          remaining = length bytes;
          tail0 = bytes @ replicate (128 - remaining) (char_of (0::nat));
          tail1 = tail0[remaining := char_of (0x80::nat)];
          tailBlocks = (if remaining + 1 + 8 > 64 then 2 else 1);
          bitLength = (of_nat (length data) :: 64 word) * 8;
          tail = putLength bitLength tailBlocks [0..<8] tail1;
          st1 = compress st (take 64 tail);
          st2 = (if tailBlocks = 2 then compress st1 (take 64 (drop 64 tail)) else st1)
      in hexState st2)"


subsection \<open>The textbook form\<close>

text \<open>FIPS 180-4, section 5.1.1: append \<open>0x80\<close>, the least number of zero bytes that leaves eight
  bytes free in the last block, and the bit length as a big-endian 64-bit number.\<close>

definition lengthBytes :: "64 word \<Rightarrow> char list" where
  "lengthBytes bl = map (\<lambda>i. char_of (unat (drop_bit (8 * i) bl))) [7, 6, 5, 4, 3, 2, 1, 0]"

definition pad :: "string \<Rightarrow> string" where
  "pad data =
     data @ [char_of (0x80::nat)] @ replicate ((119 - length data mod 64) mod 64) (char_of (0::nat))
     @ lengthBytes (of_nat (length data) * 8)"

function blocksOf :: "char list \<Rightarrow> char list list" where
  "blocksOf bytes = (if bytes = [] then [] else take 64 bytes # blocksOf (drop 64 bytes))"
  by auto
termination by (relation "measure length") auto

declare blocksOf.simps [simp del]

definition sha256_spec :: "string \<Rightarrow> string" where
  "sha256_spec data = hexState (foldl compress kInitialState (blocksOf (pad data)))"

lemma blocksOf_Nil [simp]: "blocksOf [] = []"
  by (subst blocksOf.simps) simp

lemma blocksOf_one: "length b = 64 \<Longrightarrow> blocksOf (b @ rest) = b # blocksOf rest"
  by (subst blocksOf.simps) auto

lemma wholeBlocks_remaining: "wholeBlocks st bytes = (st', r) \<Longrightarrow> length r = length bytes mod 64"
proof (induction st bytes rule: wholeBlocks.induct)
  case (1 st bytes)
  show ?case
  proof (cases "length bytes \<ge> 64")
    case True
    with 1 have "length r = length (drop 64 bytes) mod 64"
      by (subst (asm) (2) wholeBlocks.simps) simp
    with True show ?thesis by (simp add: le_mod_geq)
  next
    case False
    with "1.prems" show ?thesis by (subst (asm) wholeBlocks.simps) simp
  qed
qed

lemma wholeBlocks_foldl:
  "wholeBlocks st bytes = (st', r) \<Longrightarrow>
     foldl compress st (blocksOf (bytes @ more)) = foldl compress st' (blocksOf (r @ more))"
proof (induction st bytes rule: wholeBlocks.induct)
  case (1 st bytes)
  show ?case
  proof (cases "length bytes \<ge> 64")
    case True
    then have "blocksOf (take 64 bytes @ (drop 64 bytes @ more)) = take 64 bytes # blocksOf (drop 64 bytes @ more)"
      using blocksOf_one [of "take 64 bytes" "drop 64 bytes @ more"] by simp
    then have "blocksOf (bytes @ more) = take 64 bytes # blocksOf (drop 64 bytes @ more)"
      by (metis append_assoc append_take_drop_id)
    with True 1 show ?thesis by (subst (asm) (2) wholeBlocks.simps) simp
  next
    case False
    with "1.prems" show ?thesis by (subst (asm) wholeBlocks.simps) simp
  qed
qed

text \<open>Both shapes of the tail, the one with room for the length and the one without.\<close>

lemma putLength_pad:
  assumes "length a = blocks * 64 - 8" "0 < blocks"
  shows "putLength bl blocks [0..<8] (a @ replicate 8 z @ rest) = a @ lengthBytes bl @ rest"
proof -
  have r: "replicate 8 z = [z, z, z, z, z, z, z, z]" by (simp add: numeral_eq_Suc)
  have i: "[0..<8] = [0, 1, 2, 3, 4, 5, 6, 7::nat]" by code_simp
  define n where "n = length a"
  have n: "blocks * 64 = n + 8"
    using assms by (cases blocks) (simp_all add: n_def)
  show ?thesis
    unfolding r i by (simp add: n n_def lengthBytes_def list_update_append)
qed

lemma length_lengthBytes [simp]: "length (lengthBytes bl) = 8"
  by (simp add: lengthBytes_def)

lemma blocksOf_single: "length b = 64 \<Longrightarrow> blocksOf b = [b]"
  using blocksOf_one [of b "[]"] by simp

lemma blocksOf_double: "length b = 128 \<Longrightarrow> blocksOf b = [take 64 b, drop 64 b]"
  using blocksOf_one [of "take 64 b" "drop 64 b"] by (simp add: blocksOf_single)

lemma mod_119_long: "m < 64 \<Longrightarrow> m \<ge> 56 \<Longrightarrow> (119 - m) mod 64 = 119 - (m::nat)"
  by (rule mod_less) linarith

lemma mod_119_short: "m < 56 \<Longrightarrow> (119 - m) mod 64 = 55 - (m::nat)"
proof -
  assume "m < 56"
  then have "119 - m = (55 - m) + 64" by simp
  then have "(119 - m) mod 64 = (55 - m) mod 64" by (metis mod_add_self2)
  also have "\<dots> = 55 - m" using \<open>m < 56\<close> by simp
  finally show ?thesis .
qed

lemma tail_long:
  assumes "length r = m" "56 \<le> m" "m < 64"
  shows "putLength bl 2 [0..<8] ((r @ replicate (128 - m) z)[m := e])
       = r @ [e] @ replicate (119 - m) z @ lengthBytes bl"
proof -
  have n: "128 - m = Suc ((119 - m) + 8)" using assms by linarith
  have "(r @ replicate (128 - m) z)[m := e] = (r @ [e] @ replicate (119 - m) z) @ replicate 8 z @ []"
    unfolding n replicate_add replicate.simps using assms by (simp add: list_update_append)
  moreover have "length (r @ [e] @ replicate (119 - m) z) = 2 * 64 - 8" using assms by simp
  ultimately show ?thesis using putLength_pad by (metis append.assoc append_Nil2 zero_less_numeral)
qed

lemma tail_short:
  assumes "length r = m" "m < 56"
  shows "putLength bl 1 [0..<8] ((r @ replicate (128 - m) z)[m := e])
       = (r @ [e] @ replicate (55 - m) z @ lengthBytes bl) @ replicate 64 z"
proof -
  have n: "128 - m = Suc ((55 - m) + (8 + 64))" using assms by linarith
  have "(r @ replicate (128 - m) z)[m := e]
      = (r @ [e] @ replicate (55 - m) z) @ replicate 8 z @ replicate 64 z"
    unfolding n replicate_add replicate.simps using assms by (simp add: list_update_append)
  moreover have "length (r @ [e] @ replicate (55 - m) z) = 1 * 64 - 8" using assms by simp
  ultimately show ?thesis using putLength_pad by (metis append.assoc zero_less_one)
qed

lemma sha256Hex_eq: "sha256Hex data = sha256_spec data"
proof -
  obtain st r where w: "wholeBlocks kInitialState data = (st, r)" by fastforce
  define m where "m = length r"
  define bl where "bl = (of_nat (length data) :: 64 word) * 8"
  define z where "z = char_of (0::nat)"
  define e where "e = char_of (0x80::nat)"
  have m: "m = length data mod 64" "m < 64" using wholeBlocks_remaining [OF w] by (auto simp: m_def)
  have spec: "sha256_spec data = hexState (foldl compress st
      (blocksOf (r @ [e] @ replicate ((119 - m) mod 64) z @ lengthBytes bl)))"
    using wholeBlocks_foldl [OF w] by (simp add: sha256_spec_def pad_def m bl_def e_def z_def)
  show ?thesis
  proof (cases "56 \<le> m")
    case True
    let ?t = "r @ [e] @ replicate (119 - m) z @ lengthBytes bl"
    have "sha256Hex data = hexState (compress (compress st (take 64 ?t)) (take 64 (drop 64 ?t)))"
      using True tail_long [OF m_def [symmetric] True m(2), of bl z e]
      by (simp add: sha256Hex_def w Let_def m_def [symmetric] bl_def z_def e_def del: append_assoc)
    moreover have "length ?t = 128" using True m by (simp add: m_def)
    ultimately show ?thesis
      unfolding spec mod_119_long [OF m(2) True] blocksOf_double [OF \<open>length ?t = 128\<close>] by simp
  next
    case False
    then have m56: "m < 56" by simp
    let ?t = "r @ [e] @ replicate (55 - m) z @ lengthBytes bl"
    have l: "length ?t = 64" using m56 by (simp add: m_def)
    have take64: "take 64 (?t @ replicate 64 z) = ?t" using l by (metis append_eq_conv_conj)
    have "sha256Hex data = hexState (compress st (take 64 (?t @ replicate 64 z)))"
      using m56 tail_short [OF m_def [symmetric] m56, of bl z e]
      by (simp add: sha256Hex_def w Let_def m_def [symmetric] bl_def z_def e_def del: append_assoc)
    then show ?thesis
      unfolding spec mod_119_short [OF m56] blocksOf_single [OF l] take64 by simp
  qed
qed

subsection \<open>Shape of the digest\<close>

lemma kHex_nth: "i < 16 \<Longrightarrow> kHex ! i \<in> set ''0123456789abcdef''"
  unfolding kHex_def by (rule nth_mem) simp

lemma nibble: "unat (v AND 0xF :: u32) < 16"
proof -
  have "v AND 0xF \<le> 0xF" by (rule word_and_le1)
  then have "unat (v AND 0xF) \<le> 15" by (simp add: word_le_nat_alt)
  then show ?thesis by simp
qed

lemma hexWord_chars: "set (hexWord w) \<subseteq> set ''0123456789abcdef''"
proof
  fix c assume "c \<in> set (hexWord w)"
  then obtain s where "c = kHex ! unat (drop_bit s w AND 0xF)" unfolding hexWord_def set_map by blast
  then show "c \<in> set ''0123456789abcdef''" using kHex_nth [OF nibble] by (simp only:)
qed

lemma length_hexWord [simp]: "length (hexWord w) = 8"
  by (simp add: hexWord_def)

lemma hexState_concat: "\<exists>ws. length ws = 8 \<and> hexState st = concat (map hexWord ws)"
proof -
  obtain a b c d e f g h where "st = (a, b, c, d, e, f, g, h)" by (metis surj_pair)
  then have "length [a, b, c, d, e, f, g, h] = 8 \<and> hexState st = concat (map hexWord [a, b, c, d, e, f, g, h])"
    by (simp add: hexState_def)
  then show ?thesis by blast
qed

lemma hexState_chars: "set (hexState st) \<subseteq> set ''0123456789abcdef''"
proof -
  obtain ws where "hexState st = concat (map hexWord ws)" using hexState_concat by blast
  then have "set (hexState st) = (\<Union>w \<in> set ws. set (hexWord w))" by simp
  then show ?thesis using hexWord_chars by blast
qed

lemma hexState_length: "length (hexState st) = 64"
proof -
  obtain ws where "length ws = 8" "hexState st = concat (map hexWord ws)" using hexState_concat by blast
  moreover have "length (concat (map hexWord ws)) = 8 * length ws" by (induction ws) auto
  ultimately show ?thesis by simp
qed

lemma sha256Hex_shape:
  "length (sha256Hex data) = 64 \<and> set (sha256Hex data) \<subseteq> set ''0123456789abcdef''"
  by (simp add: sha256Hex_eq sha256_spec_def hexState_length hexState_chars del: set_simps)

text \<open>The digest of \<open>abc\<close>, evaluated in the kernel: the schedule of its single block and the
  rounds sixteen at a time.\<close>

definition abcBlock :: string where
  "abcBlock = ''abc'' @ [char_of (0x80::nat)] @ replicate 59 (char_of (0::nat)) @ [CHR 0x18]"

lemma abc_schedule:
  "schedule abcBlock =
    [1633837952, 0, 0, 0, 0, 0, 0, 0, 0, 0, 0, 0, 0, 0, 0, 24, 1633837952, 983040, 2108187653,
     1610613702, 1050508152, 25426944, 316456923, 3806512014, 3357629466, 3073800610, 3854317833,
     845560923, 2636160359, 3968280267, 1881225380, 3552024379, 2482346367, 996719219,
     2952069057, 4043988066, 176896406, 1924104970, 2483675966, 610538786, 2672279444,
     4037431130, 1042573945, 657669027, 206005234, 2215296807, 2049510749, 106709978, 4215179723,
     3430291419, 3118885940, 2845390439, 2226839261, 3256115900, 344409900, 2987358873,
     4015503821, 3957764664, 2682456414, 2025622859, 2755645205, 1720397816, 4004225740,
     313650667]"
  by code_simp

lemma abc_rounds0:
  "foldl round1 (1779033703, 3144134277, 1013904242, 2773480762, 1359893119, 2600822924, 528734635,
     1541459225)
     [(1116352408, 1633837952), (1899447441, 0), (3049323471, 0), (3921009573, 0), (961987163,
     0), (1508970993, 0), (2453635748, 0), (2870763221, 0), (3624381080, 0), (310598401, 0),
     (607225278, 0), (1426881987, 0), (1925078388, 0), (2162078206, 0), (2614888103, 0),
     (3248222580, 24)]
   = (2969183118, 3227803614, 3643992854, 2274437520, 123276749, 194179596, 1952073950,
     509051416)"
  by code_simp

lemma abc_rounds1:
  "foldl round1 (2969183118, 3227803614, 3643992854, 2274437520, 123276749, 194179596, 1952073950,
     509051416)
     [(3835390401, 1633837952), (4022224774, 983040), (264347078, 2108187653), (604807628,
     1610613702), (770255983, 1050508152), (1249150122, 25426944), (1555081692, 316456923),
     (1996064986, 3806512014), (2554220882, 3357629466), (2821834349, 3073800610), (2952996808,
     3854317833), (3210313671, 845560923), (3336571891, 2636160359), (3584528711, 3968280267),
     (113926993, 1881225380), (338241895, 3552024379)]
   = (1941126133, 3935906338, 2684750640, 909411017, 3126399250, 17410874, 2917635127,
     1628611511)"
  by code_simp

lemma abc_rounds2:
  "foldl round1 (1941126133, 3935906338, 2684750640, 909411017, 3126399250, 17410874, 2917635127,
     1628611511)
     [(666307205, 2482346367), (773529912, 996719219), (1294757372, 2952069057), (1396182291,
     4043988066), (1695183700, 176896406), (1986661051, 1924104970), (2177026350, 2483675966),
     (2456956037, 610538786), (2730485921, 2672279444), (2820302411, 4037431130), (3259730800,
     1042573945), (3345764771, 657669027), (3516065817, 206005234), (3600352804, 2215296807),
     (4094571909, 2049510749), (275423344, 106709978)]
   = (1098003085, 2706117808, 1923828625, 643991573, 4274981830, 3581645993, 3077922209,
     2819559920)"
  by code_simp

lemma abc_rounds3:
  "foldl round1 (1098003085, 2706117808, 1923828625, 643991573, 4274981830, 3581645993, 3077922209,
     2819559920)
     [(430227734, 4215179723), (506948616, 3430291419), (659060556, 3118885940), (883997877,
     2845390439), (958139571, 2226839261), (1322822218, 3256115900), (1537002063, 344409900),
     (1747873779, 2987358873), (1955562222, 4015503821), (2024104815, 3957764664), (2227730452,
     2682456414), (2361852424, 2025622859), (2428436474, 2755645205), (2756734187, 1720397816),
     (3204031479, 4004225740), (3329325298, 313650667)]
   = (1349398616, 3550093669, 80891244, 3093179625, 1593118500, 4212265488, 2492278198,
     2518632596)"
  by code_simp

lemma abc_zip:
  "zip kRoundConstants (schedule abcBlock) =
     [(1116352408, 1633837952), (1899447441, 0), (3049323471, 0), (3921009573, 0), (961987163,
     0), (1508970993, 0), (2453635748, 0), (2870763221, 0), (3624381080, 0), (310598401, 0),
     (607225278, 0), (1426881987, 0), (1925078388, 0), (2162078206, 0), (2614888103, 0),
     (3248222580, 24)] @
     [(3835390401, 1633837952), (4022224774, 983040), (264347078, 2108187653), (604807628,
     1610613702), (770255983, 1050508152), (1249150122, 25426944), (1555081692, 316456923),
     (1996064986, 3806512014), (2554220882, 3357629466), (2821834349, 3073800610), (2952996808,
     3854317833), (3210313671, 845560923), (3336571891, 2636160359), (3584528711, 3968280267),
     (113926993, 1881225380), (338241895, 3552024379)] @
     [(666307205, 2482346367), (773529912, 996719219), (1294757372, 2952069057), (1396182291,
     4043988066), (1695183700, 176896406), (1986661051, 1924104970), (2177026350, 2483675966),
     (2456956037, 610538786), (2730485921, 2672279444), (2820302411, 4037431130), (3259730800,
     1042573945), (3345764771, 657669027), (3516065817, 206005234), (3600352804, 2215296807),
     (4094571909, 2049510749), (275423344, 106709978)] @
     [(430227734, 4215179723), (506948616, 3430291419), (659060556, 3118885940), (883997877,
     2845390439), (958139571, 2226839261), (1322822218, 3256115900), (1537002063, 344409900),
     (1747873779, 2987358873), (1955562222, 4015503821), (2024104815, 3957764664), (2227730452,
     2682456414), (2361852424, 2025622859), (2428436474, 2755645205), (2756734187, 1720397816),
     (3204031479, 4004225740), (3329325298, 313650667)]"
  unfolding abc_schedule kRoundConstants_def by simp

lemma abc_compress:
  "compress kInitialState abcBlock =
     (3128432319, 2399260650, 1094795486, 1571693091, 2953011619, 2518121116, 3021012833, 4060091821)"
proof -
  have init: "kInitialState = (1779033703, 3144134277, 1013904242, 2773480762, 1359893119, 2600822924, 528734635, 1541459225)"
    by (simp add: kInitialState_def)
  show ?thesis
    unfolding compress_def abc_zip foldl_append init abc_rounds0 abc_rounds1 abc_rounds2 abc_rounds3
    by simp
qed

lemma abc_pad: "blocksOf (pad ''abc'') = [abcBlock]"
  by code_simp

lemma sha256_abc_hex:
  "hexState (3128432319, 2399260650, 1094795486, 1571693091, 2953011619, 2518121116, 3021012833, 4060091821) =
   ''ba7816bf8f01cfea414140de5dae2223b00361a396177a9cb410ff61f20015ad''"
  by code_simp

text \<open>C39: the streaming digest, with its one or two final blocks, is the FIPS 180-4 digest
  (pad, then fold the compression over 64-byte blocks); it is always 64 lowercase hexadecimal
  characters; and on the published vector \<open>abc\<close> it has the published value.\<close>

lemma sha256Hex_refines_spec:
  "sha256Hex data = sha256_spec data \<and> length (sha256Hex data) = 64
   \<and> set (sha256Hex data) \<subseteq> set ''0123456789abcdef''
   \<and> sha256Hex ''abc'' = ''ba7816bf8f01cfea414140de5dae2223b00361a396177a9cb410ff61f20015ad''"
proof -
  have "sha256Hex ''abc'' = hexState (compress kInitialState abcBlock)"
    by (simp add: sha256Hex_eq sha256_spec_def abc_pad)
  then have "sha256Hex ''abc'' = ''ba7816bf8f01cfea414140de5dae2223b00361a396177a9cb410ff61f20015ad''"
    unfolding abc_compress using sha256_abc_hex by (rule trans)
  then show ?thesis
    by (intro conjI sha256Hex_eq sha256Hex_shape [THEN conjunct1] sha256Hex_shape [THEN conjunct2])
qed

end
