(* ===== verification/Json_Witness.thy ===== *)
theory Json_Witness
  imports Json Sha256 "HOL-Library.Countable"
begin

text \<open>
  Libraries that satisfy the laws assumed of the JSON library: a document is written as a
  number, except for the documents of a table, which have the texts the table gives them. With
  the texts \<open>abc\<close> and the empty one the digests are known. The witnesses of the
  development evaluate the model with such a library.
\<close>

instance char :: countable by countable_datatype
instance json :: countable by countable_datatype

definition wit_dump :: "(json \<times> string) list \<Rightarrow> json \<Rightarrow> string" where
  "wit_dump tbl j = (case map_of tbl j of Some s \<Rightarrow> s | None \<Rightarrow> ''#'' @ show_nat (to_nat j))"

definition wit_parse :: "(json \<times> string) list \<Rightarrow> string \<Rightarrow> json option" where
  "wit_parse tbl s =
     (case find (\<lambda>e. snd e = s) tbl of
        Some e \<Rightarrow> Some (fst e)
      | None \<Rightarrow> if s \<noteq> [] \<and> hd s = CHR ''#'' then Some (from_nat (nat_of_dec (tl s))) else None)"

definition wit_lib :: "(json \<times> string) list \<Rightarrow> json_lib" where
  "wit_lib tbl = \<lparr>jl_dump = wit_dump tbl, jl_dump2 = wit_dump tbl,
     jl_parse = wit_parse tbl, jl_what = (\<lambda>e. ''json'')\<rparr>"

definition wit_table :: "(json \<times> string) list \<Rightarrow> bool" where
  "wit_table tbl \<longleftrightarrow> distinct (map snd tbl) \<and> list_all (\<lambda>e. \<not> starts_with (snd e) ''#'') tbl"

lemma wit_parse_dump:
  assumes "wit_table tbl"
  shows "wit_parse tbl (wit_dump tbl j) = Some j"
proof (cases "map_of tbl j")
  case None
  have "find (\<lambda>e. snd e = ''#'' @ show_nat (to_nat j)) tbl = None"
    using assms by (auto simp: find_None_iff wit_table_def list_all_iff starts_with_def)
  then show ?thesis by (simp add: wit_parse_def wit_dump_def None)
next
  case (Some s)
  then have mem: "(j, s) \<in> set tbl" by (rule map_of_SomeD)
  then obtain e where e: "find (\<lambda>e. snd e = s) tbl = Some e"
    by (metis (mono_tags, lifting) find_None_iff not_Some_eq snd_conv)
  then have "e \<in> set tbl" "snd e = s" by (auto simp: find_Some_iff)
  with mem assms have "e = (j, s)"
    unfolding wit_table_def distinct_map by (metis inj_onD snd_conv)
  then show ?thesis by (simp add: wit_parse_def wit_dump_def Some e)
qed

lemma wit_lib_ok: "wit_table tbl \<Longrightarrow> codec_ok (wit_lib tbl)"
  by (simp add: codec_ok_def wit_lib_def wit_parse_dump)

lemma wit_lib_Nil_ok: "codec_ok (wit_lib [])"
  by (rule wit_lib_ok) (simp add: wit_table_def)

subsection \<open>The digest of the empty text\<close>

definition emptyBlock :: string where
  "emptyBlock = [char_of (0x80::nat)] @ replicate 63 (char_of (0::nat))"

lemma empty_schedule:
  "schedule emptyBlock =
    [2147483648, 0, 0, 0, 0, 0, 0, 0, 0, 0, 0, 0, 0, 0, 0, 0, 2147483648, 0, 2117632, 0,
     570427392, 0, 84448578, 2147483648, 1476919296, 4235264, 1451269, 1711282176, 3592562048,
     337794312, 3594910044, 3374850048, 3287351444, 676112230, 109604294, 2742808854, 1904000662,
     4274181962, 2813755136, 2165675682, 2561075048, 62000258, 1562224585, 2975250741,
     3286092305, 614207615, 3297584367, 1575308336, 3741240933, 748767245, 1008022316, 30329261,
     369937616, 195877528, 907775968, 3526495142, 43741191, 1967544444, 133517113, 4161330627,
     3704256008, 1581412744, 1153231965, 996066459]"
  by code_simp

lemma empty_rounds0:
  "foldl round1 (1779033703, 3144134277, 1013904242, 2773480762, 1359893119, 2600822924, 528734635,
     1541459225)
     [(1116352408, 2147483648), (1899447441, 0), (3049323471, 0), (3921009573, 0), (961987163,
     0), (1508970993, 0), (2453635748, 0), (2870763221, 0), (3624381080, 0), (310598401, 0),
     (607225278, 0), (1426881987, 0), (1925078388, 0), (2162078206, 0), (2614888103, 0),
     (3248222580, 0)]
   = (3019933109, 3096116699, 1170215847, 553833165, 1555621987, 483372089, 725774998,
     3455974994)"
  by code_simp

lemma empty_rounds1:
  "foldl round1 (3019933109, 3096116699, 1170215847, 553833165, 1555621987, 483372089, 725774998,
     3455974994)
     [(3835390401, 2147483648), (4022224774, 0), (264347078, 2117632), (604807628, 0),
     (770255983, 570427392), (1249150122, 0), (1555081692, 84448578), (1996064986, 2147483648),
     (2554220882, 1476919296), (2821834349, 4235264), (2952996808, 1451269), (3210313671,
     1711282176), (3336571891, 3592562048), (3584528711, 337794312), (113926993, 3594910044),
     (338241895, 3374850048)]
   = (300352095, 2696613087, 1926471693, 1690082844, 3151463532, 1447716390, 2957685293,
     2506713973)"
  by code_simp

lemma empty_rounds2:
  "foldl round1 (300352095, 2696613087, 1926471693, 1690082844, 3151463532, 1447716390, 2957685293,
     2506713973)
     [(666307205, 3287351444), (773529912, 676112230), (1294757372, 109604294), (1396182291,
     2742808854), (1695183700, 1904000662), (1986661051, 4274181962), (2177026350, 2813755136),
     (2456956037, 2165675682), (2730485921, 2561075048), (2820302411, 62000258), (3259730800,
     1562224585), (3345764771, 2975250741), (3516065817, 3286092305), (3600352804, 614207615),
     (4094571909, 3297584367), (275423344, 1575308336)]
   = (911881421, 1419259244, 855262251, 2752082644, 3417569515, 2322236082, 3531982457,
     2855016464)"
  by code_simp

lemma empty_rounds3:
  "foldl round1 (911881421, 1419259244, 855262251, 2752082644, 3417569515, 2322236082, 3531982457,
     2855016464)
     [(430227734, 3741240933), (506948616, 748767245), (659060556, 1008022316), (883997877,
     30329261), (958139571, 369937616), (1322822218, 195877528), (1537002063, 907775968),
     (1747873779, 3526495142), (1955562222, 43741191), (2024104815, 1967544444), (2227730452,
     133517113), (2361852424, 4161330627), (2428436474, 3704256008), (2756734187, 1581412744),
     (3204031479, 1153231965), (3329325298, 996066459)]
   = (2040978907, 3717492111, 1586299222, 4095722474, 3600805733, 3382061760, 2232532848,
     477227836)"
  by code_simp

lemma empty_zip:
  "zip kRoundConstants (schedule emptyBlock) =
     [(1116352408, 2147483648), (1899447441, 0), (3049323471, 0), (3921009573, 0), (961987163,
     0), (1508970993, 0), (2453635748, 0), (2870763221, 0), (3624381080, 0), (310598401, 0),
     (607225278, 0), (1426881987, 0), (1925078388, 0), (2162078206, 0), (2614888103, 0),
     (3248222580, 0)] @
     [(3835390401, 2147483648), (4022224774, 0), (264347078, 2117632), (604807628, 0),
     (770255983, 570427392), (1249150122, 0), (1555081692, 84448578), (1996064986, 2147483648),
     (2554220882, 1476919296), (2821834349, 4235264), (2952996808, 1451269), (3210313671,
     1711282176), (3336571891, 3592562048), (3584528711, 337794312), (113926993, 3594910044),
     (338241895, 3374850048)] @
     [(666307205, 3287351444), (773529912, 676112230), (1294757372, 109604294), (1396182291,
     2742808854), (1695183700, 1904000662), (1986661051, 4274181962), (2177026350, 2813755136),
     (2456956037, 2165675682), (2730485921, 2561075048), (2820302411, 62000258), (3259730800,
     1562224585), (3345764771, 2975250741), (3516065817, 3286092305), (3600352804, 614207615),
     (4094571909, 3297584367), (275423344, 1575308336)] @
     [(430227734, 3741240933), (506948616, 748767245), (659060556, 1008022316), (883997877,
     30329261), (958139571, 369937616), (1322822218, 195877528), (1537002063, 907775968),
     (1747873779, 3526495142), (1955562222, 43741191), (2024104815, 1967544444), (2227730452,
     133517113), (2361852424, 4161330627), (2428436474, 3704256008), (2756734187, 1581412744),
     (3204031479, 1153231965), (3329325298, 996066459)]"
  unfolding empty_schedule kRoundConstants_def by simp

lemma empty_compress: "compress kInitialState emptyBlock = (3820012610, 2566659092, 2600203464, 2574235940, 665731556, 1687917388, 2761267483, 2018687061)"
proof -
  have init: "kInitialState = (1779033703, 3144134277, 1013904242, 2773480762, 1359893119, 2600822924, 528734635, 1541459225)"
    by (simp add: kInitialState_def)
  show ?thesis
    unfolding compress_def empty_zip foldl_append init empty_rounds0 empty_rounds1 empty_rounds2 empty_rounds3
    by simp
qed

definition idAbc :: string where
  "idAbc = ''ba7816bf8f01cfea414140de5dae2223b00361a396177a9cb410ff61f20015ad''"

definition idEmpty :: string where
  "idEmpty = ''e3b0c44298fc1c149afbf4c8996fb92427ae41e4649b934ca495991b7852b855''"

lemma sha256Hex_abc: "sha256Hex ''abc'' = idAbc"
  unfolding sha256Hex_eq sha256_spec_def abc_pad idAbc_def
  by (simp add: abc_compress sha256_abc_hex del: hexState_def)

lemma sha256Hex_empty: "sha256Hex [] = idEmpty"
proof -
  have "blocksOf (pad []) = [emptyBlock]" by code_simp
  moreover have "hexState (3820012610, 2566659092, 2600203464, 2574235940, 665731556, 1687917388, 2761267483, 2018687061) = idEmpty" by code_simp
  ultimately show ?thesis by (simp add: sha256Hex_eq sha256_spec_def empty_compress)
qed

lemma idAbc_neq_idEmpty [simp]: "idAbc \<noteq> idEmpty" "idEmpty \<noteq> idAbc"
  by (simp_all add: idAbc_def idEmpty_def)

end
