(* ===== verification/Snapshot_Store.thy ===== *)
theory Snapshot_Store
  imports Atomic_File Entry_Json Sha256 Json_Witness
begin

text \<open>
  \<^verbatim>\<open>daemon/src/snapshot_store.cpp\<close>, the \<^verbatim>\<open>JsonSnapshotStore\<close>: one JSON document per
  snapshot, named by the SHA-256 of its canonical payload, and a \<^verbatim>\<open>HEAD\<close> file. The store is
  its directory; the clock read by a quarantine is the argument \<open>now\<close>. The internal mutex
  makes every public operation one step.
\<close>

definition kKeepAutoSnapshots :: nat where
  "kKeepAutoSnapshots = 20"

definition kJsonMaxBytes :: nat where
  "kJsonMaxBytes = 1048576"

subsection \<open>Documents\<close>

definition payloadToJson :: "snapshot_payload \<Rightarrow> json" where
  "payloadToJson p =
     jobject [(''entries'', JArr (map entryToJson (pl_entries p))),
              (''modprobe_files'', JObj (map (\<lambda>kv. (fst kv, JStr (snd kv))) (pl_modprobeFiles p)))]"

definition payloadFromJson :: "json \<Rightarrow> jexn + snapshot_payload" where
  "payloadFromJson j =
     bindE (at j ''entries'') (\<lambda>es.
     bindE (mapE entryFromJson (elements es)) (\<lambda>entries.
     bindE (bindE (at j ''modprobe_files'') get_string_map) (\<lambda>files.
       Inr \<lparr>pl_entries = entries, pl_modprobeFiles = files\<rparr>)))"

definition canonicalPayload :: "json_lib \<Rightarrow> snapshot_payload \<Rightarrow> string" where
  "canonicalPayload lib p = jl_dump lib (payloadToJson p)"

definition snapshotFileName :: "string \<Rightarrow> string" where
  "snapshotFileName i = i @ ''.json''"

text \<open>A document is \<open>None\<close> when the parser discarded it.\<close>

fun member :: "json option \<Rightarrow> string \<Rightarrow> json option" where
  "member (Some (JObj kvs)) k = map_of kvs k"
| "member _ k = None"

definition stringField :: "json option \<Rightarrow> string \<Rightarrow> string option" where
  "stringField doc k = (case member doc k of Some (JStr s) \<Rightarrow> Some s | _ \<Rightarrow> None)"

definition value_or :: "'a option \<Rightarrow> 'a \<Rightarrow> 'a" where
  "value_or x d = (case x of Some v \<Rightarrow> v | None \<Rightarrow> d)"

definition bestEffortMeta :: "json option \<Rightarrow> string \<Rightarrow> snapshot_meta" where
  "bestEffortMeta doc fallbackId =
     (let reason = (case member doc ''reason'' of Some r \<Rightarrow> Some r | None \<Rightarrow> Some JNull) in
      \<lparr>meta_id = value_or (stringField doc ''id'') fallbackId,
       meta_parent = stringField doc ''parent'',
       meta_createdAtUtc =
         (case member doc ''createdAtUtc'' of Some (JInt i) \<Rightarrow> signed_take_bit 63 i | _ \<Rightarrow> 0),
       meta_trigger =
         value_or (snapshotTriggerFrom (value_or (stringField doc ''trigger'') [])) Auto,
       meta_reason = \<lparr>rsn_verb = value_or (stringField reason ''verb'') [],
                      rsn_subject = value_or (stringField reason ''subject'') []\<rparr>,
       meta_health = HealthOk, meta_entryCount = 0, meta_modprobeFileCount = 0\<rparr>)"

definition parseFile :: "json_lib \<Rightarrow> dir \<Rightarrow> string \<Rightarrow> json option" where
  "parseFile lib d name =
     (case file_content d name of
        None \<Rightarrow> None
      | Some text \<Rightarrow> if length text > kJsonMaxBytes then None else jl_parse lib text)"

definition idFromFileName :: "string \<Rightarrow> string" where
  "idFromFileName name = before name ''.json''"

subsection \<open>Newest first\<close>

text \<open>The walk from HEAD along the parents: the metadata met and the ids taken.\<close>

function chainWalk :: "snapshot_meta list \<Rightarrow> string list \<Rightarrow> string \<Rightarrow> snapshot_meta list \<times> string list" where
  "chainWalk metas taken i =
     (if i \<in> set taken then ([], taken)
      else case find (\<lambda>m. meta_id m = i) metas of
        None \<Rightarrow> ([], i # taken)
      | Some m \<Rightarrow>
          (case meta_parent m of
             None \<Rightarrow> ([m], i # taken)
           | Some p \<Rightarrow> (case chainWalk metas (i # taken) p of (ms, t) \<Rightarrow> (m # ms, t))))"
  by auto
termination
proof (relation "measure (\<lambda>(metas, taken, i). card (meta_id ` set metas - set taken))")
  fix metas taken i and m :: snapshot_meta and p
  assume i: "i \<notin> set taken" and m: "find (\<lambda>m. meta_id m = i) metas = Some m"
  then have "i \<in> meta_id ` set metas" by (auto simp: find_Some_iff)
  with i have "meta_id ` set metas - set (i # taken) \<subset> meta_id ` set metas - set taken" by auto
  then show "((metas, i # taken, p), metas, taken, i)
      \<in> measure (\<lambda>(metas, taken, i). card (meta_id ` set metas - set taken))"
    by (simp add: psubset_card_mono)
qed simp

declare chainWalk.simps [simp del]

definition orderNewestFirst :: "snapshot_meta list \<Rightarrow> string option \<Rightarrow> snapshot_meta list" where
  "orderNewestFirst metas headId =
     (case (case headId of None \<Rightarrow> ([], []) | Some h \<Rightarrow> chainWalk metas [] h) of
        (ordered, taken) \<Rightarrow>
          ordered @ sort_key (\<lambda>m. - meta_createdAtUtc m) (filter (\<lambda>m. meta_id m \<notin> set taken) metas))"

subsection \<open>Reading\<close>

definition quarantineAndFail :: "int \<Rightarrow> string \<Rightarrow> string \<Rightarrow> string \<Rightarrow> dir \<Rightarrow> 'a result \<times> dir" where
  "quarantineAndFail now i name what d =
     (case quarantineFile d name now of (bad, d') \<Rightarrow>
        (makeError Io (''snapshot '' @ i @ '' '' @ what @ '', quarantined as '' @ bad), d'))"

definition missingSnapshotError :: "dir \<Rightarrow> string \<Rightarrow> string \<Rightarrow> 'a result" where
  "missingSnapshotError d i name =
     (case find (\<lambda>n. starts_with n (name @ ''.bad-'')) (map fst (dir_files d)) of
        Some quarantined \<Rightarrow>
          makeError Io (''snapshot '' @ i @ '' is corrupt, quarantined as '' @ quarantined)
      | None \<Rightarrow> makeError NotFound (''no snapshot '' @ i))"

definition headLocked :: "dir \<Rightarrow> string option" where
  "headLocked d =
     (case file_content d ''HEAD'' of
        None \<Rightarrow> None
      | Some text \<Rightarrow> (case words [] text of [] \<Rightarrow> None | w # _ \<Rightarrow> Some w))"

datatype check = Verified snapshot | Newer | Damaged string

text \<open>The checks of \<^verbatim>\<open>readLocked\<close> on a file that exists, in their order.\<close>

definition checkDoc :: "json_lib \<Rightarrow> string \<Rightarrow> json option \<Rightarrow> check" where
  "checkDoc lib i doc =
     (case member doc ''formatVersion'' of
        Some (JInt v) \<Rightarrow>
          (if signed_take_bit 31 v > kSnapshotFormatVersion then Newer
           else case bindE (at (the doc) ''payload'') payloadFromJson of
             Inl _ \<Rightarrow> Damaged ''is corrupt''
           | Inr payload \<Rightarrow>
               let meta = bestEffortMeta doc i in
               if sha256Hex (canonicalPayload lib payload) \<noteq> i \<or> meta_id meta \<noteq> i
               then Damaged ''failed its integrity check''
               else Verified \<lparr>snap_meta = meta\<lparr>meta_health := HealthOk,
                      meta_entryCount := length (pl_entries payload),
                      meta_modprobeFileCount := length (pl_modprobeFiles payload)\<rparr>,
                      snap_payload = payload\<rparr>)
      | _ \<Rightarrow> Damaged ''is corrupt'')"

definition readLocked :: "json_lib \<Rightarrow> int \<Rightarrow> string \<Rightarrow> dir \<Rightarrow> snapshot result \<times> dir" where
  "readLocked lib now i d =
     (let name = snapshotFileName i in
      if \<not> file_exists d name then (missingSnapshotError d i name, d)
      else case checkDoc lib i (parseFile lib d name) of
        Damaged what \<Rightarrow> quarantineAndFail now i name what d
      | Newer \<Rightarrow> (makeError Unsupported
                    (''snapshot '' @ i @ '' has a newer formatVersion; not touching it''), d)
      | Verified snap \<Rightarrow> (Inr snap, d))"

definition scanOneLocked :: "json_lib \<Rightarrow> int \<Rightarrow> string \<Rightarrow> dir \<Rightarrow> snapshot_meta \<times> dir" where
  "scanOneLocked lib now i d =
     (case readLocked lib now i d of
        (Inr snap, d') \<Rightarrow> (snap_meta snap, d')
      | (Inl e, d') \<Rightarrow>
          if err_code e = Unsupported
          then ((bestEffortMeta (parseFile lib d' (snapshotFileName i)) i)\<lparr>meta_health := UnsupportedFormat\<rparr>, d')
          else ((bestEffortMeta (Some JNull) i)\<lparr>meta_health := Corrupt\<rparr>, d'))"

fun scanNames :: "json_lib \<Rightarrow> int \<Rightarrow> string list \<Rightarrow> dir \<Rightarrow> snapshot_meta list \<times> dir" where
  "scanNames lib now [] d = ([], d)"
| "scanNames lib now (name # names) d =
     (if name = ''HEAD'' \<or> ends_with name ''.tmp'' then scanNames lib now names d
      else if contains name ''.bad-'' then
        (case scanNames lib now names d of (ms, d') \<Rightarrow>
          ((bestEffortMeta (parseFile lib d name) (idFromFileName name))\<lparr>meta_health := Corrupt\<rparr> # ms, d'))
      else if \<not> ends_with name ''.json'' then scanNames lib now names d
      else case scanOneLocked lib now (idFromFileName name) d of (m, d') \<Rightarrow>
        (case scanNames lib now names d' of (ms, d'') \<Rightarrow> (m # ms, d'')))"

definition scanLocked :: "json_lib \<Rightarrow> int \<Rightarrow> dir \<Rightarrow> snapshot_meta list \<times> dir" where
  "scanLocked lib now d = scanNames lib now (map fst (dir_files d)) d"

subsection \<open>Pruning\<close>

text \<open>The ids the loop deletes, with the automatic snapshots seen so far.\<close>

fun pruneVictims :: "nat \<Rightarrow> snapshot_meta list \<Rightarrow> string list" where
  "pruneVictims autosSeen [] = []"
| "pruneVictims autosSeen (m # ms) =
     (if meta_health m \<noteq> HealthOk \<or> meta_trigger m \<noteq> Auto then pruneVictims autosSeen ms
      else if autosSeen + 1 \<le> kKeepAutoSnapshots then pruneVictims (autosSeen + 1) ms
      else meta_id m # pruneVictims (autosSeen + 1) ms)"

text \<open>\<^verbatim>\<open>fs::remove\<close>: no error when there is no such file; a fault leaves it in place.\<close>

definition dirRemove :: "dir \<Rightarrow> string \<Rightarrow> string option \<times> dir" where
  "dirRemove d name =
     (case nextFault d of
        RenameFault msg \<Rightarrow> (Some msg, dropFault d)
      | _ \<Rightarrow> (None, set_files (dropFault d) (files_remove name (dir_files d))))"

definition pruneLocked :: "json_lib \<Rightarrow> int \<Rightarrow> dir \<Rightarrow> dir" where
  "pruneLocked lib now d =
     (let headId = headLocked d in
      case scanLocked lib now d of (metas, d') \<Rightarrow>
        foldl (\<lambda>d i. snd (dirRemove d (snapshotFileName i))) d'
          (pruneVictims 0 (orderNewestFirst metas headId)))"

subsection \<open>Operations\<close>

definition snapshotDoc :: "snapshot_payload \<Rightarrow> string \<Rightarrow> string option \<Rightarrow> snapshot_trigger
    \<Rightarrow> snapshot_reason \<Rightarrow> int \<Rightarrow> json" where
  "snapshotDoc p i headId trigger reason createdAtUtc =
     jobject [(''formatVersion'', JInt kSnapshotFormatVersion),
              (''id'', JStr i),
              (''parent'', case headId of Some h \<Rightarrow> JStr h | None \<Rightarrow> JNull),
              (''createdAtUtc'', JInt createdAtUtc),
              (''trigger'', JStr (trigger_to_string trigger)),
              (''reason'', jobject [(''verb'', JStr (rsn_verb reason)),
                                    (''subject'', JStr (rsn_subject reason))]),
              (''payload'', payloadToJson p)]"

definition payloadId :: "json_lib \<Rightarrow> snapshot_payload \<Rightarrow> string" where
  "payloadId lib p = sha256Hex (canonicalPayload lib p)"

definition store_put :: "json_lib \<Rightarrow> int \<Rightarrow> snapshot_payload \<Rightarrow> snapshot_trigger \<Rightarrow> snapshot_reason
    \<Rightarrow> int \<Rightarrow> dir \<Rightarrow> string result \<times> dir" where
  "store_put lib now p trigger reason createdAtUtc d =
     (let i = payloadId lib p; headId = headLocked d in
      if headId = Some i then (Inr i, d)
      else
        let exist = file_exists d (snapshotFileName i) in
        case (if exist then (Inr (), d)
              else atomicWriteFile d (snapshotFileName i)
                     (jl_dump2 lib (snapshotDoc p i headId trigger reason createdAtUtc))) of
          (Inl e, d1) \<Rightarrow> (Inl e, d1)
        | (Inr _, d1) \<Rightarrow>
            (case atomicWriteFile d1 ''HEAD'' (i @ [CHR 0x0A]) of
               (Inl e, d2) \<Rightarrow> (Inl e, d2)
             | (Inr _, d2) \<Rightarrow> (Inr i, if exist then d2 else pruneLocked lib now d2)))"

definition store_read :: "json_lib \<Rightarrow> int \<Rightarrow> string \<Rightarrow> dir \<Rightarrow> snapshot result \<times> dir" where
  "store_read lib now i d = readLocked lib now i d"

definition store_list :: "json_lib \<Rightarrow> int \<Rightarrow> dir \<Rightarrow> snapshot_meta list \<times> dir" where
  "store_list lib now d =
     (case scanLocked lib now d of (metas, d') \<Rightarrow> (orderNewestFirst metas (headLocked d'), d'))"

definition store_remove :: "json_lib \<Rightarrow> int \<Rightarrow> string \<Rightarrow> dir \<Rightarrow> unit result \<times> dir" where
  "store_remove lib now i d =
     (case readLocked lib now i d of
        (Inl e, d1) \<Rightarrow> (Inl e, d1)
      | (Inr snap, d1) \<Rightarrow>
          (case (if headLocked d1 = Some i
                 then let nxt = value_or (meta_parent (snap_meta snap)) [] in
                      atomicWriteFile d1 ''HEAD'' (if nxt = [] then [] else nxt @ [CHR 0x0A])
                 else (Inr (), d1)) of
             (Inl e, d2) \<Rightarrow> (Inl e, d2)
           | (Inr _, d2) \<Rightarrow>
               (case dirRemove d2 (snapshotFileName i) of
                  (Some msg, d3) \<Rightarrow> (makeError Io (''delete failed: '' @ msg), d3)
                | (None, d3) \<Rightarrow> (Inr (), d3))))"

definition store_head :: "dir \<Rightarrow> string option result \<times> dir" where
  "store_head d = (Inr (headLocked d), d)"

end
