(* ===== verification/Request_Validation.thy ===== *)
theory Request_Validation
  imports Core_Models Snapshot_Store
begin

text \<open>
  \<^verbatim>\<open>daemon/include/devmgr/daemon/request_validation.hpp\<close>: the checks every argument of a bus
  verb passes before any verb logic runs.
\<close>

definition kCallerMaxLength :: nat where "kCallerMaxLength = 255"
definition kNameMaxLength :: nat where "kNameMaxLength = 63"
definition kPathMaxLength :: nat where "kPathMaxLength = 4096"
definition kSnapshotIdMaxLength :: nat where "kSnapshotIdMaxLength = 64"
definition kSnapshotLabelMaxLength :: nat where "kSnapshotLabelMaxLength = 128"

definition invalid :: "string \<Rightarrow> unit result" where
  "invalid message = makeError InvalidArgs message"

definition valid_caller :: "string \<Rightarrow> unit result" where
  "valid_caller value =
     (if value = [] then invalid ''empty caller''
      else if length value > kCallerMaxLength then invalid ''caller too long''
      else Inr ())"

definition valid_name :: "string \<Rightarrow> string \<Rightarrow> unit result" where
  "valid_name value what =
     (if value = [] then invalid (''empty '' @ what @ '' name'')
      else if length value > kNameMaxLength then invalid (what @ '' name too long'')
      else if \<not> list_all (\<lambda>c. isalnumC c \<or> c = CHR ''_'' \<or> c = CHR ''-'') value
        then invalid (''invalid '' @ what @ '' name'')
      else Inr ())"

definition valid_sysfsPath :: "string \<Rightarrow> unit result" where
  "valid_sysfsPath value =
     (if value = [] then invalid ''empty sysfs path''
      else if length value > kPathMaxLength then invalid ''sysfs path too long''
      else if CHR 0x00 \<in> set value then invalid ''sysfs path contains NUL''
      else Inr ())"

definition valid_snapshotId :: "string \<Rightarrow> unit result" where
  "valid_snapshotId value =
     (if value = [] then invalid ''empty snapshot id''
      else if length value > kSnapshotIdMaxLength then invalid ''snapshot id too long''
      else if \<not> list_all (\<lambda>c. CHR ''0'' \<le> c \<and> c \<le> CHR ''9'' \<or> CHR ''a'' \<le> c \<and> c \<le> CHR ''f'') value
        then invalid ''invalid snapshot id''
      else Inr ())"

definition valid_snapshotLabel :: "string \<Rightarrow> unit result" where
  "valid_snapshotLabel value =
     (if length value > kSnapshotLabelMaxLength then invalid ''snapshot label too long''
      else if \<not> list_all (\<lambda>c. isprintC c \<or> c \<ge> CHR 0x80) value then invalid ''invalid snapshot label''
      else Inr ())"

definition valid_jsonSize :: "string \<Rightarrow> unit result" where
  "valid_jsonSize text = (if length text > kJsonMaxBytes then invalid ''json payload too large'' else Inr ())"

subsection \<open>What passes\<close>

named_theorems valid_defs "the validators"

lemmas [valid_defs] = valid_caller_def valid_name_def valid_sysfsPath_def valid_snapshotId_def
  valid_snapshotLabel_def valid_jsonSize_def invalid_def

lemma invalid_code:
  "valid_caller v = Inl e \<Longrightarrow> err_code e = InvalidArgs"
  "valid_name v w = Inl e \<Longrightarrow> err_code e = InvalidArgs"
  "valid_sysfsPath v = Inl e \<Longrightarrow> err_code e = InvalidArgs"
  "valid_snapshotId v = Inl e \<Longrightarrow> err_code e = InvalidArgs"
  "valid_snapshotLabel v = Inl e \<Longrightarrow> err_code e = InvalidArgs"
  by (auto simp: valid_defs split: if_splits)

lemma valid_snapshotId_iff:
  "valid_snapshotId v = Inr () \<longleftrightarrow> v \<noteq> [] \<and> length v \<le> 64 \<and>
     list_all (\<lambda>c. CHR ''0'' \<le> c \<and> c \<le> CHR ''9'' \<or> CHR ''a'' \<le> c \<and> c \<le> CHR ''f'') v"
  by (auto simp: valid_defs kSnapshotIdMaxLength_def)

lemma valid_name_iff:
  "valid_name v w = Inr () \<longleftrightarrow> v \<noteq> [] \<and> length v \<le> 63 \<and>
     list_all (\<lambda>c. isalnumC c \<or> c = CHR ''_'' \<or> c = CHR ''-'') v"
  by (auto simp: valid_defs kNameMaxLength_def)

lemma hex_char_safe:
  "CHR ''0'' \<le> c \<and> c \<le> CHR ''9'' \<or> CHR ''a'' \<le> c \<and> c \<le> CHR ''f'' \<Longrightarrow>
     c \<noteq> CHR ''/'' \<and> c \<noteq> CHR ''.'' \<and> c \<noteq> CHR 0x00 \<and> c \<noteq> CHR ''H''"
  by (auto simp: less_eq_char_def)

lemma name_char_safe:
  "isalnumC c \<or> c = CHR ''_'' \<or> c = CHR ''-'' \<Longrightarrow>
     c \<noteq> CHR ''/'' \<and> c \<noteq> CHR ''.'' \<and> c \<noteq> CHR 0x00 \<and> \<not> isspaceC c"
  by (auto simp: isalnumC_def isalphaC_def isupperC_def isdigitC_def isspaceC_def less_eq_char_def)

lemma before_no_dot: "CHR ''.'' \<notin> set v \<Longrightarrow> before (v @ ''.json'') ''.json'' = v"
  by (induction v) (auto simp: starts_with_def)

text \<open>An id the bus layer accepts names a file of the store directory and nothing else: the file
  name has no slash, is neither HEAD nor a temporary or quarantine name, and stands for that id;
  every id the store produces is accepted.\<close>

lemma valid_id_names_store_file:
  assumes "valid_snapshotId i = Inr ()"
  shows "CHR ''/'' \<notin> set (snapshotFileName i) \<and> snapshotFileName i \<noteq> ''HEAD'' \<and>
    \<not> ends_with (snapshotFileName i) ''.tmp'' \<and> idFromFileName (snapshotFileName i) = i \<and>
    valid_snapshotId (payloadId lib p) = Inr ()"
proof -
  have safe: "c \<noteq> CHR ''/'' \<and> c \<noteq> CHR ''.'' \<and> c \<noteq> CHR 0x00 \<and> c \<noteq> CHR ''H''" if "c \<in> set i" for c
    using assms that hex_char_safe by (auto simp: valid_snapshotId_iff list_all_iff)
  have "list_all (\<lambda>c. CHR ''0'' \<le> c \<and> c \<le> CHR ''9'' \<or> CHR ''a'' \<le> c \<and> c \<le> CHR ''f'') ''0123456789abcdef''"
    by code_simp
  then have hex: "list_all (\<lambda>c. CHR ''0'' \<le> c \<and> c \<le> CHR ''9'' \<or> CHR ''a'' \<le> c \<and> c \<le> CHR ''f'') (payloadId lib p)"
    using sha256Hex_shape [of "canonicalPayload lib p"] unfolding payloadId_def list_all_iff by blast
  have ne: "payloadId lib p \<noteq> []" "length (payloadId lib p) \<le> 64"
    using sha256Hex_shape [of "canonicalPayload lib p"] by (auto simp: payloadId_def)
  have "valid_snapshotId (payloadId lib p) = Inr ()"
    unfolding valid_snapshotId_iff using hex ne by blast
  moreover have "CHR ''/'' \<notin> set i" "CHR ''.'' \<notin> set i" using safe by auto
  moreover have "snapshotFileName i \<noteq> ''HEAD''"
    using safe by (cases i) (auto simp: snapshotFileName_def)
  moreover have "\<not> ends_with (snapshotFileName i) ''.tmp''"
    by (simp add: snapshotFileName_def ends_with_def)
  ultimately show ?thesis
    by (simp add: snapshotFileName_def idFromFileName_def before_no_dot)
qed

lemma valid_id_names_store_file_witness:
  "idFromFileName (snapshotFileName ''0af'') = ''0af'' \<and> valid_snapshotId ''../etc'' \<noteq> Inr ()"
proof -
  have "valid_snapshotId ''0af'' = Inr ()" by code_simp
  from valid_id_names_store_file [OF this] show ?thesis
    by (simp add: valid_snapshotId_iff)
qed

end
