(* ===== verification/Device_Key.thy ===== *)
theory Device_Key
  imports Core_Models
begin

text \<open>
  \<^verbatim>\<open>core/src/device_key.cpp\<close>: the tiered identity of a device (a serial tuple where the
  device has a serial, its position validated by vendor and product otherwise), the key
  \<^verbatim>\<open>devmgrd\<close> stores for a disabled device and the match that finds it again.
\<close>

subsection \<open>Operations\<close>

fun keyBusString :: "bus_type \<Rightarrow> string" where
  "keyBusString Usb = ''usb''"
| "keyBusString Pci = ''pci''"
| "keyBusString Platform = ''platform''"
| "keyBusString Virtio = ''virtio''"
| "keyBusString Other = ''other''"

definition positionFor :: "bus_type \<Rightarrow> string \<Rightarrow> string" where
  "positionFor bus sysfsPath = lastSegment sysfsPath"

definition makeDeviceKey1 :: "device \<Rightarrow> device_key" where
  "makeDeviceKey1 d =
     \<lparr>key_bus = keyBusString (dev_bus d), key_vendorId = dev_vendorId d,
      key_productId = dev_productId d, key_serial = dev_serial d,
      key_position = positionFor (dev_bus d) (dev_sysfsPath d)\<rparr>"

definition makeDeviceKey :: "device \<Rightarrow> device list \<Rightarrow> device_key" where
  "makeDeviceKey dv present =
     (let key = makeDeviceKey1 dv in
      if key_serial key = [] then key
      else if list_ex (\<lambda>d. dev_sysfsPath d \<noteq> dev_sysfsPath dv \<and>
                 keyBusString (dev_bus d) = key_bus key \<and>
                 dev_vendorId d = key_vendorId key \<and> dev_productId d = key_productId key \<and>
                 dev_serial d = key_serial key) present
           then key\<lparr>key_serial := []\<rparr>
           else key)"

definition matchesDevice :: "device_key \<Rightarrow> device \<Rightarrow> bool" where
  "matchesDevice key d =
     (if keyBusString (dev_bus d) \<noteq> key_bus key then False
      else if key_serial key \<noteq> [] then
        dev_vendorId d = key_vendorId key \<and> dev_productId d = key_productId key \<and>
        dev_serial d = key_serial key
      else positionFor (dev_bus d) (dev_sysfsPath d) = key_position key \<and>
        dev_vendorId d = key_vendorId key \<and> dev_productId d = key_productId key)"

subsection \<open>What a key identifies\<close>

lemma keyBusString_inject [simp]: "keyBusString a = keyBusString b \<longleftrightarrow> a = b"
  by (cases a; cases b) simp_all

lemma matches_makeDeviceKey1: "matchesDevice (makeDeviceKey1 d) d"
  by (simp add: matchesDevice_def makeDeviceKey1_def)

lemma matches_makeDeviceKey: "matchesDevice (makeDeviceKey d present) d"
  by (simp add: makeDeviceKey_def matchesDevice_def makeDeviceKey1_def Let_def)

lemma makeDeviceKey_fields [simp]:
  "key_bus (makeDeviceKey d ds) = keyBusString (dev_bus d)"
  "key_vendorId (makeDeviceKey d ds) = dev_vendorId d"
  "key_productId (makeDeviceKey d ds) = dev_productId d"
  "key_position (makeDeviceKey d ds) = lastSegment (dev_sysfsPath d)"
  by (simp_all add: makeDeviceKey_def makeDeviceKey1_def positionFor_def Let_def)

text \<open>
  Two present devices a key made for one of them matches: with a serial they are the same
  sysfs device, because a second holder of the serial would have downgraded the key; without
  one they agree on bus, ids and position.
\<close>

lemma makeDeviceKey_unique:
  assumes "d' \<in> set present" and "matchesDevice (makeDeviceKey d present) d'"
  shows "dev_sysfsPath d' = dev_sysfsPath d \<or>
    key_serial (makeDeviceKey d present) = [] \<and> dev_bus d' = dev_bus d \<and>
    lastSegment (dev_sysfsPath d') = lastSegment (dev_sysfsPath d) \<and>
    dev_vendorId d' = dev_vendorId d \<and> dev_productId d' = dev_productId d"
  using assms
  by (auto simp: makeDeviceKey_def makeDeviceKey1_def matchesDevice_def positionFor_def Let_def
      list_ex_iff split: if_splits)

text \<open>A key made for a device among the present ones finds that device and, in the serial
  tier, no other sysfs device.\<close>

lemma key_identifies_device:
  "matchesDevice (makeDeviceKey d present) d \<and>
   (\<forall>d' \<in> set present. matchesDevice (makeDeviceKey d present) d' \<longrightarrow>
      dev_sysfsPath d' = dev_sysfsPath d \<or>
      key_serial (makeDeviceKey d present) = [] \<and> dev_bus d' = dev_bus d \<and>
      lastSegment (dev_sysfsPath d') = lastSegment (dev_sysfsPath d) \<and>
      dev_vendorId d' = dev_vendorId d \<and> dev_productId d' = dev_productId d)"
  using matches_makeDeviceKey makeDeviceKey_unique by blast

lemma key_identifies_device_witness:
  "matchesDevice
     (makeDeviceKey (empty_device\<lparr>dev_bus := Usb, dev_serial := ''S1'', dev_sysfsPath := ''/sys/2-1''\<rparr>)
       [empty_device\<lparr>dev_bus := Usb, dev_serial := ''S1'', dev_sysfsPath := ''/sys/2-2''\<rparr>])
     (empty_device\<lparr>dev_bus := Usb, dev_serial := ''S1'', dev_sysfsPath := ''/sys/2-1''\<rparr>)
   \<and> \<not> matchesDevice
     (makeDeviceKey (empty_device\<lparr>dev_bus := Usb, dev_serial := ''S1'', dev_sysfsPath := ''/sys/2-1''\<rparr>)
       [empty_device\<lparr>dev_bus := Usb, dev_serial := ''S1'', dev_sysfsPath := ''/sys/2-2''\<rparr>])
     (empty_device\<lparr>dev_bus := Usb, dev_serial := ''S1'', dev_sysfsPath := ''/sys/2-2''\<rparr>)"
  (is "matchesDevice ?k ?d \<and> \<not> matchesDevice ?k ?e")
proof -
  have "dev_sysfsPath ?e \<noteq> dev_sysfsPath ?d" "lastSegment (dev_sysfsPath ?e) \<noteq> lastSegment (dev_sysfsPath ?d)"
    by code_simp+
  then show ?thesis
    using key_identifies_device [of ?d "[?e]"] by (metis list.set_intros(1))
qed

end
