(* ===== verification/Critical_Guard.thy ===== *)
theory Critical_Guard
  imports Core_Models
begin

text \<open>
  \<^verbatim>\<open>core/src/critical_device_guard.cpp\<close>, the policy that decides which devices may be
  disabled and which modules unloaded, and \<^verbatim>\<open>core/src/criticality.cpp\<close>, the tier a row is
  marked with. Both are pure functions of facts probed by the caller.
\<close>

subsection \<open>The guard\<close>

record guard_verdict =
  gv_allowed :: bool
  gv_reason :: string

record module_unload_facts =
  muf_affectedDevicePaths :: "string list"
  muf_holders :: "string list"
  muf_refCount :: int

definition isUnder :: "string \<Rightarrow> string \<Rightarrow> bool" where
  "isUnder path prfx =
     (if prfx = [] \<or> length path < length prfx then False
      else if \<not> starts_with path prfx then False
      else length path = length prfx \<or> path ! length prfx = CHR ''/'')"

definition anyUnder :: "string list \<Rightarrow> string \<Rightarrow> bool" where
  "anyUnder paths target = list_ex (\<lambda>p. isUnder p target) paths"

definition wouldRemoveAll :: "string list \<Rightarrow> string \<Rightarrow> bool" where
  "wouldRemoveAll paths target =
     (if paths = [] then False else list_all (\<lambda>p. isUnder p target) paths)"

definition evaluateDisable :: "criticality_facts \<Rightarrow> string \<Rightarrow> guard_verdict" where
  "evaluateDisable facts target =
     (if anyUnder (rootBackingPaths facts) target
        then \<lparr>gv_allowed = False, gv_reason = ''backs the root filesystem''\<rparr>
      else if anyUnder (bootBackingPaths facts) target
        then \<lparr>gv_allowed = False, gv_reason = ''backs the boot filesystem''\<rparr>
      else if wouldRemoveAll (keyboardPaths facts) target
        then \<lparr>gv_allowed = False, gv_reason = ''would disable the only keyboard''\<rparr>
      else if wouldRemoveAll (pointerPaths facts) target
        then \<lparr>gv_allowed = False, gv_reason = ''would disable the only pointer''\<rparr>
      else \<lparr>gv_allowed = True, gv_reason = []\<rparr>)"

fun firstRefused :: "criticality_facts \<Rightarrow> string list \<Rightarrow> guard_verdict option" where
  "firstRefused facts [] = None"
| "firstRefused facts (p # ps) =
     (let v = evaluateDisable facts p in if \<not> gv_allowed v then Some v else firstRefused facts ps)"

text \<open>\<open>joinHolders\<close> is the loop that appends a comma before every name once the text is non-empty.\<close>

definition joinHolders :: "string list \<Rightarrow> string" where
  "joinHolders hs = foldl (\<lambda>names h. (if names = [] then [] else names @ '', '') @ h) [] hs"

definition evaluateModuleUnload :: "criticality_facts \<Rightarrow> module_unload_facts \<Rightarrow> guard_verdict" where
  "evaluateModuleUnload facts m =
     (if muf_holders m \<noteq> []
        then \<lparr>gv_allowed = False, gv_reason = ''in use by '' @ joinHolders (muf_holders m)\<rparr>
      else if muf_refCount m > 0
        then \<lparr>gv_allowed = False,
              gv_reason = ''in use (refcount '' @ show_int (muf_refCount m) @ '')''\<rparr>
      else case firstRefused facts (muf_affectedDevicePaths m) of
        Some v \<Rightarrow> \<lparr>gv_allowed = False,
                    gv_reason = ''module backs a critical device: '' @ gv_reason v\<rparr>
      | None \<Rightarrow> \<lparr>gv_allowed = True, gv_reason = []\<rparr>)"

subsection \<open>The marker\<close>

datatype criticality = Ordinary | Important | Essential

definition kEssentialModules :: "string list" where
  "kEssentialModules =
     [''ahci'', ''btrfs'', ''dm-crypt'', ''dm-mod'', ''ext4'', ''f2fs'', ''libata'', ''md-mod'',
      ''nvme'', ''scsi_mod'', ''sd_mod'', ''xfs'',
      ''atkbd'', ''evdev'', ''hid'', ''i8042'', ''usbhid'',
      ''amdgpu'', ''drm'', ''drm_kms_helper'', ''i915'', ''nouveau'',
      ''ehci_hcd'', ''ohci_hcd'', ''pci'', ''pcieport'', ''usbcore'', ''xhci_hcd'']"

definition kSecurityModules :: "string list" where
  "kSecurityModules = [''apparmor'', ''ima'', ''integrity'', ''lockdown'', ''selinux'']"

fun displayCriticality :: "criticality \<Rightarrow> string" where
  "displayCriticality Essential = ''essential''"
| "displayCriticality Important = ''important''"
| "displayCriticality Ordinary = []"

definition classifyDevice :: "criticality_facts \<Rightarrow> string \<Rightarrow> criticality" where
  "classifyDevice facts sysfsPath =
     (if gv_allowed (evaluateDisable facts sysfsPath) then Ordinary else Essential)"

definition classifyModule :: "string \<Rightarrow> int \<Rightarrow> string list \<Rightarrow> criticality" where
  "classifyModule name refCount holders =
     (if name \<in> set kEssentialModules then Essential
      else if holders \<noteq> [] \<or> refCount > 0 then Important
      else if name \<in> set kSecurityModules then Important
      else Ordinary)"

subsection \<open>Paths\<close>

lemma isUnder_iff [text_simps]:
  "isUnder path p \<longleftrightarrow> p \<noteq> [] \<and> (path = p \<or> (\<exists>r. path = p @ CHR ''/'' # r))"
proof
  assume u: "isUnder path p"
  then obtain r where r: "path = p @ r"
    by (auto simp: isUnder_def starts_with_iff split: if_splits)
  with u show "p \<noteq> [] \<and> (path = p \<or> (\<exists>r. path = p @ CHR ''/'' # r))"
    by (cases r) (auto simp: isUnder_def split: if_splits)
qed (auto simp: isUnder_def)

lemma isUnder_refl: "p \<noteq> [] \<Longrightarrow> isUnder p p"
  by (simp add: isUnder_iff)

lemma isUnder_trans: "isUnder a b \<Longrightarrow> isUnder b c \<Longrightarrow> isUnder a c"
  by (auto simp: isUnder_iff)

lemma anyUnder_mono: "anyUnder ps t \<Longrightarrow> isUnder t t' \<Longrightarrow> anyUnder ps t'"
  by (auto simp: anyUnder_def list_ex_iff intro: isUnder_trans)

lemma wouldRemoveAll_iff: "wouldRemoveAll ps t \<longleftrightarrow> ps \<noteq> [] \<and> (\<forall>p \<in> set ps. isUnder p t)"
  by (simp add: wouldRemoveAll_def list_all_iff)

lemma wouldRemoveAll_mono: "wouldRemoveAll ps t \<Longrightarrow> isUnder t t' \<Longrightarrow> wouldRemoveAll ps t'"
  by (auto simp: wouldRemoveAll_iff intro: isUnder_trans)

subsection \<open>Verdicts\<close>

lemma evaluateDisable_allowed_iff:
  "gv_allowed (evaluateDisable facts t) \<longleftrightarrow>
     \<not> anyUnder (rootBackingPaths facts) t \<and> \<not> anyUnder (bootBackingPaths facts) t \<and>
     \<not> wouldRemoveAll (keyboardPaths facts) t \<and> \<not> wouldRemoveAll (pointerPaths facts) t"
  by (simp add: evaluateDisable_def)

lemma evaluateDisable_reason_iff:
  "gv_reason (evaluateDisable facts t) = [] \<longleftrightarrow> gv_allowed (evaluateDisable facts t)"
  by (simp add: evaluateDisable_def)

lemma evaluateDisable_anti:
  assumes "isUnder t t'" "gv_allowed (evaluateDisable facts t')"
  shows "gv_allowed (evaluateDisable facts t)"
  using assms anyUnder_mono wouldRemoveAll_mono unfolding evaluateDisable_allowed_iff by blast

lemma firstRefused_None_iff:
  "firstRefused facts ps = None \<longleftrightarrow> (\<forall>p \<in> set ps. gv_allowed (evaluateDisable facts p))"
  by (induction ps) (auto simp: Let_def)



text \<open>Refusing a device refuses every ancestor of it, because disabling the ancestor would take
  the device down too.\<close>

lemma guard_refusal_covers_ancestors:
  assumes "\<not> gv_allowed (evaluateDisable facts t)" "isUnder t t'"
  shows "\<not> gv_allowed (evaluateDisable facts t')"
  using assms evaluateDisable_anti by blast

lemma guard_refusal_covers_ancestors_witness:
  "\<not> gv_allowed (evaluateDisable
     \<lparr>rootBackingPaths = [''/sys/a/b/c''], bootBackingPaths = [], keyboardPaths = [], pointerPaths = []\<rparr>
     ''/sys/a'')"
proof (rule guard_refusal_covers_ancestors)
  show "\<not> gv_allowed (evaluateDisable
     \<lparr>rootBackingPaths = [''/sys/a/b/c''], bootBackingPaths = [], keyboardPaths = [], pointerPaths = []\<rparr>
     ''/sys/a/b'')" by code_simp
  show "isUnder ''/sys/a/b'' ''/sys/a''" by code_simp
qed

text \<open>C11: a module may be unloaded exactly when no module holds it, its reference count is not
  positive, and none of the devices it drives is marked essential, so the row's marker and the
  guard never disagree.\<close>

lemma module_unload_allowed_iff:
  "gv_allowed (evaluateModuleUnload facts m) \<longleftrightarrow>
     muf_holders m = [] \<and> muf_refCount m \<le> 0 \<and>
     (\<forall>p \<in> set (muf_affectedDevicePaths m). classifyDevice facts p = Ordinary)"
  by (auto simp: evaluateModuleUnload_def classifyDevice_def firstRefused_None_iff [symmetric]
      split: option.splits)

lemma module_unload_allowed_iff_witness:
  "gv_allowed (evaluateModuleUnload
     \<lparr>rootBackingPaths = [''/sys/a/1-10''], bootBackingPaths = [], keyboardPaths = [], pointerPaths = []\<rparr>
     \<lparr>muf_affectedDevicePaths = [''/sys/a/1-1''], muf_holders = [], muf_refCount = 0\<rparr>)"
proof -
  have "classifyDevice
     \<lparr>rootBackingPaths = [''/sys/a/1-10''], bootBackingPaths = [], keyboardPaths = [], pointerPaths = []\<rparr>
     ''/sys/a/1-1'' = Ordinary" by code_simp
  then show ?thesis by (simp add: module_unload_allowed_iff)
qed

end
