(* ===== verification/State_Store.thy ===== *)
theory State_Store
  imports Atomic_File Entry_Json Device_Key Json_Witness
begin

text \<open>
  \<^verbatim>\<open>daemon/src/state_store.cpp\<close>: the owner of \<^verbatim>\<open>state.json\<close>. The store is its directory and
  the entry list in memory; every change is made to the list and then written through the
  atomic write. The internal mutex makes each operation one step, which is what they are here.
\<close>

record state_store =
  ss_dir :: dir
  ss_entries :: "disabled_entry list"

definition stateFile :: string where
  "stateFile = ''state.json''"

subsection \<open>Operations\<close>

definition ss_quarantine :: "state_store \<Rightarrow> int \<Rightarrow> unit result \<times> state_store" where
  "ss_quarantine st now = (Inr (), st\<lparr>ss_dir := snd (quarantineFile (ss_dir st) stateFile now)\<rparr>)"

definition ss_load :: "json_lib \<Rightarrow> int \<Rightarrow> state_store \<Rightarrow> unit result \<times> state_store" where
  "ss_load lib now st =
     (let st0 = st\<lparr>ss_entries := []\<rparr> in
      case file_content (ss_dir st) stateFile of
        None \<Rightarrow> (Inr (), st0)
      | Some text \<Rightarrow>
          (case jl_parse lib text of
             Some (JObj kvs) \<Rightarrow>
               (case map_of kvs ''entries'' of
                  Some (JArr js) \<Rightarrow>
                    (case mapE entryFromJson js of
                       Inr parsed \<Rightarrow> (Inr (), st0\<lparr>ss_entries := parsed\<rparr>)
                     | Inl _ \<Rightarrow> ss_quarantine st0 now)
                | _ \<Rightarrow> ss_quarantine st0 now)
           | _ \<Rightarrow> ss_quarantine st0 now))"

definition stateDoc :: "disabled_entry list \<Rightarrow> json" where
  "stateDoc es = jobject [(''version'', JInt 1), (''entries'', JArr (map entryToJson es))]"

definition ss_save :: "json_lib \<Rightarrow> state_store \<Rightarrow> unit result \<times> state_store" where
  "ss_save lib st =
     (case atomicWriteFile (ss_dir st) stateFile (jl_dump2 lib (stateDoc (ss_entries st))) of
        (r, d) \<Rightarrow> (r, st\<lparr>ss_dir := d\<rparr>))"

text \<open>The loops update the first entry with the key; \<open>None\<close> is a loop that ran to its end.\<close>

fun updateFirst :: "device_key \<Rightarrow> (disabled_entry \<Rightarrow> disabled_entry) \<Rightarrow> disabled_entry list
    \<Rightarrow> disabled_entry list option" where
  "updateFirst k f [] = None"
| "updateFirst k f (e # es) =
     (if ent_key e = k then Some (f e # es) else map_option ((#) e) (updateFirst k f es))"

definition ss_upsert :: "json_lib \<Rightarrow> disabled_entry \<Rightarrow> state_store \<Rightarrow> unit result \<times> state_store" where
  "ss_upsert lib entry st =
     (case updateFirst (ent_key entry) (\<lambda>_. entry) (ss_entries st) of
        Some es \<Rightarrow> ss_save lib (st\<lparr>ss_entries := es\<rparr>)
      | None \<Rightarrow> ss_save lib (st\<lparr>ss_entries := ss_entries st @ [entry]\<rparr>))"

definition ss_remove :: "json_lib \<Rightarrow> device_key \<Rightarrow> state_store \<Rightarrow> unit result \<times> state_store" where
  "ss_remove lib k st =
     ss_save lib (st\<lparr>ss_entries := filter (\<lambda>e. ent_key e \<noteq> k) (ss_entries st)\<rparr>)"

definition ss_replaceAll :: "json_lib \<Rightarrow> disabled_entry list \<Rightarrow> state_store \<Rightarrow> unit result \<times> state_store" where
  "ss_replaceAll lib es st = ss_save lib (st\<lparr>ss_entries := es\<rparr>)"

definition ss_setGuardSuspended :: "json_lib \<Rightarrow> device_key \<Rightarrow> bool \<Rightarrow> state_store
    \<Rightarrow> unit result \<times> state_store" where
  "ss_setGuardSuspended lib k suspended st =
     (case updateFirst k (\<lambda>e. e\<lparr>ent_guardSuspended := suspended\<rparr>) (ss_entries st) of
        Some es \<Rightarrow> ss_save lib (st\<lparr>ss_entries := es\<rparr>)
      | None \<Rightarrow> (makeError NotFound ''no entry for key'', st))"

definition ss_setLastSysfsPath :: "json_lib \<Rightarrow> device_key \<Rightarrow> string \<Rightarrow> state_store
    \<Rightarrow> unit result \<times> state_store" where
  "ss_setLastSysfsPath lib k path st =
     (case updateFirst k (\<lambda>e. e\<lparr>ent_lastSysfsPath := path\<rparr>) (ss_entries st) of
        Some es \<Rightarrow> ss_save lib (st\<lparr>ss_entries := es\<rparr>)
      | None \<Rightarrow> (makeError NotFound ''no entry for key'', st))"

definition ss_findFor :: "device \<Rightarrow> state_store \<Rightarrow> disabled_entry option" where
  "ss_findFor d st =
     find (\<lambda>e. matchesDevice (ent_key e) d \<or> ent_lastSysfsPath e = dev_sysfsPath d) (ss_entries st)"

subsection \<open>The entry list\<close>

definition entries_distinct :: "state_store \<Rightarrow> bool" where
  "entries_distinct st \<longleftrightarrow> distinct (map ent_key (ss_entries st))"

definition entry_for :: "disabled_entry list \<Rightarrow> device_key \<Rightarrow> disabled_entry option" where
  "entry_for es k = find (\<lambda>e. ent_key e = k) es"

lemma ss_save_entries [simp]: "ss_entries (snd (ss_save lib st)) = ss_entries st"
  by (simp add: ss_save_def split: prod.split)

lemma updateFirst_None: "updateFirst k f es = None \<longleftrightarrow> k \<notin> ent_key ` set es"
  by (induction es) auto

lemma updateFirst_keys:
  "updateFirst k f es = Some es' \<Longrightarrow> (\<And>e. ent_key e = k \<Longrightarrow> ent_key (f e) = k) \<Longrightarrow>
     map ent_key es' = map ent_key es"
  by (induction es arbitrary: es') (auto split: if_splits)

lemma entry_for_updateFirst:
  "updateFirst k f es = Some es' \<Longrightarrow> (\<And>e. ent_key e = k \<Longrightarrow> ent_key (f e) = k) \<Longrightarrow>
     entry_for es' j = (if j = k then map_option f (entry_for es k) else entry_for es j)"
  by (induction es arbitrary: es') (auto simp: entry_for_def split: if_splits)

lemma entry_for_append:
  "entry_for (es @ [e]) j =
     (case entry_for es j of Some x \<Rightarrow> Some x | None \<Rightarrow> if ent_key e = j then Some e else None)"
  by (induction es) (auto simp: entry_for_def)

lemma entry_for_None: "entry_for es k = None \<longleftrightarrow> k \<notin> ent_key ` set es"
  by (induction es) (auto simp: entry_for_def)

lemma entry_for_filter:
  "entry_for (filter (\<lambda>e. ent_key e \<noteq> k) es) j = (if j = k then None else entry_for es j)"
  by (induction es) (auto simp: entry_for_def)

lemma upsert_entries:
  "ss_entries (snd (ss_upsert lib e st)) =
     (case updateFirst (ent_key e) (\<lambda>_. e) (ss_entries st) of Some es \<Rightarrow> es | None \<Rightarrow> ss_entries st @ [e])"
  by (simp add: ss_upsert_def split: option.split)

lemma remove_entries:
  "ss_entries (snd (ss_remove lib k st)) = filter (\<lambda>e. ent_key e \<noteq> k) (ss_entries st)"
  by (simp add: ss_remove_def)

lemma setGuardSuspended_entries:
  "ss_entries (snd (ss_setGuardSuspended lib k b st)) =
     (case updateFirst k (\<lambda>e. e\<lparr>ent_guardSuspended := b\<rparr>) (ss_entries st) of
        Some es \<Rightarrow> es | None \<Rightarrow> ss_entries st)"
  by (simp add: ss_setGuardSuspended_def split: option.split)

lemma setLastSysfsPath_entries:
  "ss_entries (snd (ss_setLastSysfsPath lib k p st)) =
     (case updateFirst k (\<lambda>e. e\<lparr>ent_lastSysfsPath := p\<rparr>) (ss_entries st) of
        Some es \<Rightarrow> es | None \<Rightarrow> ss_entries st)"
  by (simp add: ss_setLastSysfsPath_def split: option.split)

lemma entry_for_upsert:
  "entry_for (ss_entries (snd (ss_upsert lib e st))) k =
     (if k = ent_key e then Some e else entry_for (ss_entries st) k)"
proof (cases "updateFirst (ent_key e) (\<lambda>_. e) (ss_entries st)")
  case None
  then have u: "ss_entries (snd (ss_upsert lib e st)) = ss_entries st @ [e]"
    by (simp add: upsert_entries)
  have "entry_for (ss_entries st) (ent_key e) = None"
    using None unfolding entry_for_None updateFirst_None .
  then show ?thesis unfolding u entry_for_append by (cases "entry_for (ss_entries st) k") auto
next
  case (Some es)
  then have u: "ss_entries (snd (ss_upsert lib e st)) = es"
    by (simp add: upsert_entries)
  have "updateFirst (ent_key e) (\<lambda>_. e) (ss_entries st) \<noteq> None" using Some by simp
  then have "entry_for (ss_entries st) (ent_key e) \<noteq> None"
    unfolding entry_for_None updateFirst_None .
  then obtain x where "entry_for (ss_entries st) (ent_key e) = Some x" by blast
  moreover have "entry_for es k = (if k = ent_key e then map_option (\<lambda>_. e) (entry_for (ss_entries st) (ent_key e))
      else entry_for (ss_entries st) k)"
    by (rule entry_for_updateFirst [OF Some]) simp
  ultimately show ?thesis by (simp add: u)
qed

subsection \<open>Distinct keys\<close>

lemma distinct_upsert:
  assumes "entries_distinct st"
  shows "entries_distinct (snd (ss_upsert lib e st))"
proof (cases "updateFirst (ent_key e) (\<lambda>_. e) (ss_entries st)")
  case None
  then have "ent_key e \<notin> ent_key ` set (ss_entries st)" unfolding updateFirst_None .
  with None assms show ?thesis by (simp add: entries_distinct_def upsert_entries)
next
  case (Some es)
  then show ?thesis
    using assms updateFirst_keys [OF Some] by (simp add: entries_distinct_def upsert_entries)
qed

lemma distinct_remove: "entries_distinct st \<Longrightarrow> entries_distinct (snd (ss_remove lib k st))"
  by (simp add: entries_distinct_def remove_entries distinct_map_filter)

lemma distinct_setGuardSuspended:
  "entries_distinct st \<Longrightarrow> entries_distinct (snd (ss_setGuardSuspended lib k b st))"
  using updateFirst_keys [of k "\<lambda>e. e\<lparr>ent_guardSuspended := b\<rparr>" "ss_entries st"]
  by (auto simp: entries_distinct_def setGuardSuspended_entries split: option.split)

lemma distinct_setLastSysfsPath:
  "entries_distinct st \<Longrightarrow> entries_distinct (snd (ss_setLastSysfsPath lib k p st))"
  using updateFirst_keys [of k "\<lambda>e. e\<lparr>ent_lastSysfsPath := p\<rparr>" "ss_entries st"]
  by (auto simp: entries_distinct_def setLastSysfsPath_entries split: option.split)

text \<open>no operation gives a device key a second entry: upsert, remove and the two setters keep
  the keys distinct, upsert makes exactly its own key answer with the new entry, and remove makes
  exactly its key answer with none, whether or not the file could be written.\<close>

lemma store_keys_unique:
  assumes "entries_distinct st"
  shows "entries_distinct (snd (ss_upsert lib e st)) \<and> entries_distinct (snd (ss_remove lib k st)) \<and>
    entries_distinct (snd (ss_setGuardSuspended lib k b st)) \<and>
    entries_distinct (snd (ss_setLastSysfsPath lib k p st)) \<and>
    entry_for (ss_entries (snd (ss_upsert lib e st))) = (entry_for (ss_entries st))(ent_key e \<mapsto> e) \<and>
    entry_for (ss_entries (snd (ss_remove lib k st))) = (entry_for (ss_entries st))(k := None)"
  using distinct_upsert distinct_remove distinct_setGuardSuspended distinct_setLastSysfsPath assms
    entry_for_upsert [of lib e st] entry_for_filter [of k "ss_entries st"]
  by (auto simp: remove_entries)

definition sampleEntry :: disabled_entry where
  "sampleEntry = \<lparr>ent_key = \<lparr>key_bus = ''usb'', key_vendorId = ''1d6b'', key_productId = ''0002'',
       key_serial = [], key_position = ''2-1''\<rparr>,
     ent_mechanism = ''authorized'', ent_lastDriver = [], ent_lastSysfsPath = ''/sys/2-1'',
     ent_disabledAtUtc = 5, ent_guardSuspended = False\<rparr>"

definition sampleStore :: state_store where
  "sampleStore = \<lparr>ss_dir = \<lparr>dir_path = ''/d'', dir_files = [], dir_faults = []\<rparr>, ss_entries = [sampleEntry]\<rparr>"

lemma store_keys_unique_witness:
  "entries_distinct (snd (ss_upsert (wit_lib [])
      (sampleEntry\<lparr>ent_key := empty_key\<rparr>) sampleStore))"
  using store_keys_unique [of sampleStore] by (simp add: entries_distinct_def sampleStore_def)

subsection \<open>The file\<close>

lemma stateDoc_ok: "list_all entry_ok es \<Longrightarrow> json_ok (stateDoc es)"
  unfolding stateDoc_def by (rule json_ok_jobject) (auto simp: list_all_iff entryToJson_ok)

lemma load_stateDoc:
  assumes "codec_ok lib" "list_all entry_ok es"
    and "file_content (ss_dir st) stateFile = Some (jl_dump2 lib (stateDoc es))"
  shows "ss_load lib now st = (Inr (), st\<lparr>ss_entries := es\<rparr>)"
proof -
  obtain kvs where k: "stateDoc es = JObj kvs" by (simp add: stateDoc_def jobject_def)
  have "at (stateDoc es) ''entries'' = Inr (JArr (map entryToJson es))"
    by (simp add: stateDoc_def at_jobject)
  then have "map_of kvs ''entries'' = Some (JArr (map entryToJson es))"
    unfolding k by (simp split: option.splits)
  then show ?thesis
    using assms entries_roundtrip [OF assms(2)] codec_dump2 [OF assms(1) stateDoc_ok [OF assms(2)]]
    by (simp add: ss_load_def k)
qed

text \<open>C18: after a save that succeeded, a daemon that starts on the same directory has the same
  entries, whatever is in its memory.\<close>

lemma state_survives_restart:
  assumes "codec_ok lib" "list_all entry_ok (ss_entries st)" "ss_save lib st = (Inr (), st')"
  shows "ss_load lib now (st'\<lparr>ss_entries := other\<rparr>) = (Inr (), st')"
proof -
  obtain d where w: "atomicWriteFile (ss_dir st) stateFile (jl_dump2 lib (stateDoc (ss_entries st))) = (Inr (), d)"
    and st': "st' = st\<lparr>ss_dir := d\<rparr>"
    using assms(3) by (auto simp: ss_save_def split: prod.splits)
  have "file_content (ss_dir (st'\<lparr>ss_entries := other\<rparr>)) stateFile
      = Some (jl_dump2 lib (stateDoc (ss_entries st)))"
    using atomicWriteFile_ok [OF w] by (simp add: st')
  from load_stateDoc [OF assms(1,2) this] show ?thesis by (simp add: st')
qed

lemma state_survives_restart_witness:
  "ss_load (wit_lib []) 7 ((snd (ss_save (wit_lib []) sampleStore))\<lparr>ss_entries := []\<rparr>)
   = (Inr (), snd (ss_save (wit_lib []) sampleStore))"
proof -
  have "list_all entry_ok (ss_entries sampleStore)" by code_simp
  moreover have "has_value (fst (ss_save (wit_lib []) sampleStore))"
    using atomicWriteFile_ok_iff
    by (simp add: ss_save_def sampleStore_def nextFault_def split: prod.split) (metis fst_conv dir.select_convs(3) list.simps(4) nextFault_def)
  then have "ss_save (wit_lib []) sampleStore = (Inr (), snd (ss_save (wit_lib []) sampleStore))"
    by (cases "fst (ss_save (wit_lib []) sampleStore)") (auto simp: prod_eq_iff)
  ultimately show ?thesis using state_survives_restart [OF wit_lib_Nil_ok] by blast
qed


definition tornStore :: state_store where
  "tornStore = \<lparr>ss_dir = \<lparr>dir_path = ''/d'', dir_files = [(''state.json'', ''{'')], dir_faults = []\<rparr>,
     ss_entries = []\<rparr>"


end
