(* ===== verification/Daemon_World.thy ===== *)
theory Daemon_World
  imports Device_Key Critical_Guard State_Store Snapshot_Store
begin

text \<open>
  What the daemon's services share: the interfaces of the platform as a record of functions over
  an abstract hardware state (\<^verbatim>\<open>pal/interfaces.hpp\<close>, \<^verbatim>\<open>ICriticalityProber\<close>,
  \<^verbatim>\<open>IAuthority\<close>, and the file system queries the sources make), the daemon's state, the
  sysfs probe of \<^verbatim>\<open>daemon/src/sysfs_device_probe.cpp\<close>, and the relation of guarded hardware
  steps the services are measured against.

  Queries are functions of the hardware state; every call that can change it returns the new
  one. Asking for authorization is such a call, because a prompt waits for the user.
\<close>

record 'h env =
  env_enumerate :: "'h \<Rightarrow> device list result"
  env_probe :: "'h \<Rightarrow> criticality_facts result"
  env_setEnabled :: "string \<Rightarrow> bool \<Rightarrow> string \<Rightarrow> 'h \<Rightarrow> string option result \<times> 'h"
  env_bindDriver :: "string \<Rightarrow> string \<Rightarrow> 'h \<Rightarrow> unit result \<times> 'h"
  env_unbindDriver :: "string \<Rightarrow> 'h \<Rightarrow> unit result \<times> 'h"
  env_loadModule :: "string \<Rightarrow> 'h \<Rightarrow> unit result \<times> 'h"
  env_unloadModule :: "string \<Rightarrow> 'h \<Rightarrow> unit result \<times> 'h"
  env_listLoaded :: "'h \<Rightarrow> loaded_module list result"
  env_devicesUsing :: "string \<Rightarrow> 'h \<Rightarrow> string list result"
  env_checkAuthorized :: "string \<Rightarrow> string \<Rightarrow> 'h \<Rightarrow> bool result \<times> 'h"
  env_weaklyCanonical :: "string \<Rightarrow> 'h \<Rightarrow> string option"
  env_isDirectory :: "string \<Rightarrow> 'h \<Rightarrow> bool"
  env_exists :: "string \<Rightarrow> 'h \<Rightarrow> bool"
  env_firstLine :: "string \<Rightarrow> 'h \<Rightarrow> string"
  env_now :: "'h \<Rightarrow> int"

record 'h daemon =
  dm_hw :: 'h
  dm_state :: state_store
  dm_snaps :: dir
  dm_modprobe :: dir

subsection \<open>Paths\<close>

text \<open>\<^verbatim>\<open>dir / name\<close>.\<close>

definition pathJoin :: "string \<Rightarrow> string \<Rightarrow> string" where
  "pathJoin d name = (if d = [] \<or> ends_with d ''/'' then d @ name else d @ ''/'' @ name)"

subsection \<open>The sysfs probe\<close>

definition busTypeFromPath :: "'h env \<Rightarrow> 'h \<Rightarrow> string \<Rightarrow> bus_type" where
  "busTypeFromPath env h d =
     (let bus = (case env_weaklyCanonical env (pathJoin d ''subsystem'') h of
                   Some p \<Rightarrow> lastSegment p | None \<Rightarrow> [])
      in if bus = ''usb'' then Usb
         else if bus = ''pci'' then Pci
         else if bus = ''platform'' then Platform
         else if bus = ''virtio'' then Virtio
         else Other)"

definition sysfsAttr :: "'h env \<Rightarrow> 'h \<Rightarrow> string \<Rightarrow> string \<Rightarrow> string" where
  "sysfsAttr env h d name =
     (let v = env_firstLine env (pathJoin d name) h in
      if starts_with v ''0x'' then drop 2 v else v)"

definition deviceFromSysfs :: "'h env \<Rightarrow> 'h \<Rightarrow> string \<Rightarrow> device" where
  "deviceFromSysfs env h canonical =
     (let attr = sysfsAttr env h canonical;
          bus = busTypeFromPath env h canonical;
          vendor = attr ''idVendor'';
          product = attr ''idProduct''
      in empty_device
         \<lparr>dev_sysfsPath := canonical,
          dev_bus := bus,
          dev_vendorId := (if vendor = [] then attr ''vendor'' else vendor),
          dev_productId := (if product = [] then attr ''device'' else product),
          dev_serial := attr ''serial'',
          dev_status := (if bus = Usb \<and> attr ''authorized'' = ''0'' then Disabled else Active),
          dev_boundDriver :=
            (if env_exists env (pathJoin canonical ''driver'') h then
               (case env_weaklyCanonical env (pathJoin canonical ''driver'') h of
                  Some p \<Rightarrow> if lastSegment p \<noteq> [] then Some (lastSegment p) else None
                | None \<Rightarrow> None)
             else None)\<rparr>)"

subsection \<open>Guarded hardware steps\<close>

text \<open>A step enables a device, or disables one that the guard allows to be disabled on the facts
  probed in the state the step starts from.\<close>

inductive guarded_step :: "'h env \<Rightarrow> 'h \<Rightarrow> 'h \<Rightarrow> bool" for env where
  enable: "env_setEnabled env path True hint h = (r, h') \<Longrightarrow> guarded_step env h h'"
| disable: "env_probe env h = Inr facts \<Longrightarrow> gv_allowed (evaluateDisable facts path) \<Longrightarrow>
    env_setEnabled env path False [] h = (r, h') \<Longrightarrow> guarded_step env h h'"

inductive guarded_run :: "'h env \<Rightarrow> 'h \<Rightarrow> 'h \<Rightarrow> bool" for env where
  none: "guarded_run env h h"
| more: "guarded_run env h h' \<Longrightarrow> guarded_step env h' h'' \<Longrightarrow> guarded_run env h h''"

lemma guarded_run_trans:
  assumes "guarded_run env h h'" "guarded_run env h' h''"
  shows "guarded_run env h h''"
  using assms(2,1) by (induction) (auto intro: guarded_run.intros)

lemma guarded_run_one: "guarded_step env h h' \<Longrightarrow> guarded_run env h h'"
  by (blast intro: guarded_run.intros)

text \<open>What every guarded step keeps, every guarded run keeps.\<close>

lemma guarded_run_invariant:
  assumes "guarded_run env h h'" "I h" "\<And>x y. I x \<Longrightarrow> guarded_step env x y \<Longrightarrow> I y"
  shows "I h'"
  using assms by induction auto

text \<open>Desired state: what both services ask of a device before re-applying a disable.\<close>

definition needsApply :: "disabled_entry \<Rightarrow> device \<Rightarrow> bool" where
  "needsApply e d =
     (if ent_mechanism e = ''authorized'' then dev_status d \<noteq> Disabled else dev_boundDriver d \<noteq> None)"

text \<open>The device an entry stands for among the enumerated ones.\<close>

definition matchEntry :: "disabled_entry \<Rightarrow> device list \<Rightarrow> device option" where
  "matchEntry e ds =
     find (\<lambda>d. matchesDevice (ent_key e) d \<or> ent_lastSysfsPath e = dev_sysfsPath d) ds"

end
