(* ===== verification/Snapshot_Diff.thy ===== *)
theory Snapshot_Diff
  imports Core_Models
begin

text \<open>
  \<^verbatim>\<open>core/src/snapshot_diff.cpp\<close>: the difference of two snapshot payloads as labelled rows,
  computed in the daemon and shown by every surface. Devices are compared by label, modules
  by the directives of all owned \<^verbatim>\<open>modprobe.d\<close> files together, and files by presence and,
  where their directives agree, by bytes.
\<close>

record diff_entry =
  de_kind :: string
  de_key :: string
  de_before :: string
  de_after :: string

record snapshot_diff =
  sd_baseId :: string
  sd_targetId :: string
  sd_entries :: "diff_entry list"

definition identical :: "snapshot_diff \<Rightarrow> bool" where
  "identical d \<longleftrightarrow> sd_entries d = []"

definition kDiffStateEdited :: string where
  "kDiffStateEdited = ''present, contents differ''"

subsection \<open>Reading \<^verbatim>\<open>modprobe.d\<close> directives\<close>

definition tokenize :: "string \<Rightarrow> string list" where
  "tokenize line = words [] (takeWhile (\<lambda>c. c \<noteq> CHR ''#'') line)"

definition appendState :: "string \<Rightarrow> string \<Rightarrow> string" where
  "appendState state part = (if state = [] then part else state @ '', '' @ part)"

definition joinFrom :: "string list \<Rightarrow> nat \<Rightarrow> string" where
  "joinFrom tokens first =
     foldl (\<lambda>joined t. (if joined = [] then t else joined @ '' '' @ t)) [] (drop first tokens)"

type_synonym states = "(string \<times> string) list"

definition stateAt :: "states \<Rightarrow> string \<Rightarrow> string" where
  "stateAt st k = (case map_of st k of Some v \<Rightarrow> v | None \<Rightarrow> [])"

definition collectLine :: "states \<Rightarrow> string \<Rightarrow> states" where
  "collectLine states line =
     (case tokenize line of
        keyword # module # rest \<Rightarrow>
          (if keyword = ''blacklist'' then
             smap_put module (appendState (stateAt states module) ''blacklisted'') states
           else if keyword = ''options'' \<and> rest \<noteq> [] then
             smap_put module (appendState (stateAt states module)
               (''options: '' @ joinFrom (keyword # module # rest) 2)) states
           else if keyword = ''install'' \<and> rest \<noteq> [] then
             smap_put module (appendState (stateAt states module)
               (''install: '' @ joinFrom (keyword # module # rest) 2)) states
           else states)
      | _ \<Rightarrow> states)"

definition collectDirectives :: "string \<Rightarrow> states \<Rightarrow> states" where
  "collectDirectives content states = foldl collectLine states (getlines [] content)"

definition moduleStates :: "(string \<times> string) list \<Rightarrow> states" where
  "moduleStates files = foldl (\<lambda>st f. collectDirectives (snd f) st) [] files"

definition fileModuleStates :: "string \<Rightarrow> states" where
  "fileModuleStates content = collectDirectives content []"

subsection \<open>Rows\<close>

definition unionKeys :: "states \<Rightarrow> states \<Rightarrow> string list" where
  "unionKeys lhs rhs = map fst (smap_of (map (\<lambda>kv. (fst kv, ())) lhs @ map (\<lambda>kv. (fst kv, ())) rhs))"

definition stateOr :: "states \<Rightarrow> string \<Rightarrow> string \<Rightarrow> string" where
  "stateOr st k fallback = (case map_of st k of Some v \<Rightarrow> v | None \<Rightarrow> fallback)"

definition deviceEntryLabel :: "disabled_entry \<Rightarrow> string" where
  "deviceEntryLabel e =
     (let k = ent_key e in
      if key_position k = [] \<and> key_vendorId k = [] \<and> key_productId k = [] then
        (if ent_lastSysfsPath e = [] then ''unknown device'' else ent_lastSysfsPath e)
      else
        (if key_bus k = [] then ''device'' else key_bus k) @
        (if key_vendorId k \<noteq> [] \<or> key_productId k \<noteq> []
           then '' '' @ key_vendorId k @ '':'' @ key_productId k else []) @
        (if key_position k \<noteq> [] then '' @'' @ key_position k
         else if ent_lastSysfsPath e \<noteq> [] then '' @'' @ ent_lastSysfsPath e else []) @
        (if key_serial k \<noteq> [] then '' #'' @ key_serial k else []))"

definition deviceEntryState :: "disabled_entry \<Rightarrow> string" where
  "deviceEntryState e =
     (if ent_mechanism e = [] then ''disabled'' else ''disabled ('' @ ent_mechanism e @ '')'')"

definition deviceStates :: "disabled_entry list \<Rightarrow> states" where
  "deviceStates es = smap_of (map (\<lambda>e. (deviceEntryLabel e, deviceEntryState e)) es)"

definition diffDevices :: "snapshot_payload \<Rightarrow> snapshot_payload \<Rightarrow> diff_entry list" where
  "diffDevices base target =
     (let before = deviceStates (pl_entries base); after = deviceStates (pl_entries target) in
      concat (map (\<lambda>k.
        let b = stateOr before k ''enabled''; a = stateOr after k ''enabled'' in
        if b = a then []
        else [\<lparr>de_kind = ''device'', de_key = k, de_before = b, de_after = a\<rparr>])
        (unionKeys before after)))"

definition diffModules :: "snapshot_payload \<Rightarrow> snapshot_payload \<Rightarrow> diff_entry list" where
  "diffModules base target =
     (let before = moduleStates (pl_modprobeFiles base); after = moduleStates (pl_modprobeFiles target) in
      concat (map (\<lambda>k.
        let b = stateOr before k ''absent''; a = stateOr after k ''absent'' in
        if b = a then []
        else [\<lparr>de_kind = ''module'', de_key = k, de_before = b, de_after = a\<rparr>])
        (unionKeys before after)))"

definition diffModprobeFiles :: "snapshot_payload \<Rightarrow> snapshot_payload \<Rightarrow> diff_entry list" where
  "diffModprobeFiles base target =
     (let before = pl_modprobeFiles base; after = pl_modprobeFiles target in
      concat (map (\<lambda>name.
        case (map_of before name, map_of after name) of
          (Some b, Some a) \<Rightarrow>
            (if b = a then []
             else if fileModuleStates b \<noteq> fileModuleStates a then []
             else [\<lparr>de_kind = ''modprobe'', de_key = name, de_before = ''present'',
                    de_after = kDiffStateEdited\<rparr>])
        | (b, a) \<Rightarrow>
            [\<lparr>de_kind = ''modprobe'', de_key = name,
              de_before = (if b \<noteq> None then ''present'' else ''absent''),
              de_after = (if a \<noteq> None then ''present'' else ''absent'')\<rparr>])
        (unionKeys before after)))"

definition diffPayloads :: "snapshot_payload \<Rightarrow> snapshot_payload \<Rightarrow> snapshot_diff" where
  "diffPayloads base target =
     \<lparr>sd_baseId = [], sd_targetId = [],
      sd_entries = diffDevices base target @ diffModules base target @ diffModprobeFiles base target\<rparr>"

subsection \<open>Order and meaning of the rows\<close>

lemma unionKeys_sorted: "sorted_wrt (<) (unionKeys l r)"
  using smap_ok_of unfolding unionKeys_def smap_ok_def by blast

lemma set_unionKeys: "set (unionKeys l r) = fst ` set l \<union> fst ` set r"
proof -
  have "set (map fst (smap_of kvs)) = fst ` set kvs" for kvs :: "(string \<times> unit) list"
    using map_of_smap_of [of kvs] by (metis dom_map_of_conv_image_fst list.set_map set_rev)
  then show ?thesis by (simp add: unionKeys_def image_Un image_image)
qed

text \<open>Every group is such a loop over ascending keys with at most one row for each key.\<close>

lemma rows_sorted:
  assumes "sorted_wrt (<) ks" and "\<And>k. f k = [] \<or> (\<exists>x. f k = [x] \<and> de_key x = k)"
  shows "sorted_wrt (<) (map de_key (concat (map f ks)))"
  using assms(1)
proof (induction ks)
  case (Cons k ks)
  have keys: "de_key ` set (f j) \<subseteq> {j}" for j
    using assms(2) [of j] by auto
  then have "de_key ` set (concat (map f ks)) \<subseteq> set ks"
    by fastforce
  with Cons assms(2) [of k] show ?case by (auto simp: image_subset_iff)
qed simp

lemma diffDevices_sorted: "sorted_wrt (<) (map de_key (diffDevices p q))"
  unfolding diffDevices_def Let_def by (rule rows_sorted [OF unionKeys_sorted]) simp

lemma diffModules_sorted: "sorted_wrt (<) (map de_key (diffModules p q))"
  unfolding diffModules_def Let_def by (rule rows_sorted [OF unionKeys_sorted]) simp

lemma diffModprobeFiles_sorted: "sorted_wrt (<) (map de_key (diffModprobeFiles p q))"
  unfolding diffModprobeFiles_def Let_def
  by (rule rows_sorted [OF unionKeys_sorted]) (simp split: option.split)

lemma stateOr_outside:
  "k \<notin> set (unionKeys b a) \<Longrightarrow> stateOr b k d = d \<and> stateOr a k d = d"
  by (auto simp: set_unionKeys stateOr_def map_of_eq_None_iff [THEN iffD2])

lemma mem_rows:
  "r \<in> set (concat (map (\<lambda>k. if stateOr b k d = stateOr a k d then []
        else [\<lparr>de_kind = kind, de_key = k, de_before = stateOr b k d, de_after = stateOr a k d\<rparr>])
      (unionKeys b a)))
   \<longleftrightarrow> stateOr b (de_key r) d \<noteq> stateOr a (de_key r) d \<and>
       r = \<lparr>de_kind = kind, de_key = de_key r, de_before = stateOr b (de_key r) d,
            de_after = stateOr a (de_key r) d\<rparr>"
  (is "?l \<longleftrightarrow> ?r")
proof
  assume ?r
  moreover from this have "de_key r \<in> set (unionKeys b a)" using stateOr_outside by metis
  ultimately show ?l by (auto intro!: bexI [where x = "de_key r"])
qed (auto split: if_splits)

lemma mem_diffDevices:
  "r \<in> set (diffDevices p q) \<longleftrightarrow>
     stateOr (deviceStates (pl_entries p)) (de_key r) ''enabled''
       \<noteq> stateOr (deviceStates (pl_entries q)) (de_key r) ''enabled'' \<and>
     r = \<lparr>de_kind = ''device'', de_key = de_key r,
          de_before = stateOr (deviceStates (pl_entries p)) (de_key r) ''enabled'',
          de_after = stateOr (deviceStates (pl_entries q)) (de_key r) ''enabled''\<rparr>"
  unfolding diffDevices_def Let_def by (rule mem_rows)

lemma mem_diffModules:
  "r \<in> set (diffModules p q) \<longleftrightarrow>
     stateOr (moduleStates (pl_modprobeFiles p)) (de_key r) ''absent''
       \<noteq> stateOr (moduleStates (pl_modprobeFiles q)) (de_key r) ''absent'' \<and>
     r = \<lparr>de_kind = ''module'', de_key = de_key r,
          de_before = stateOr (moduleStates (pl_modprobeFiles p)) (de_key r) ''absent'',
          de_after = stateOr (moduleStates (pl_modprobeFiles q)) (de_key r) ''absent''\<rparr>"
  unfolding diffModules_def Let_def by (rule mem_rows)

lemma diffModprobeFiles_mem:
  assumes "r \<in> set (diffModprobeFiles p q)"
  shows "de_key r \<in> fst ` set (pl_modprobeFiles p) \<union> fst ` set (pl_modprobeFiles q) \<and>
    (case (map_of (pl_modprobeFiles p) (de_key r), map_of (pl_modprobeFiles q) (de_key r)) of
      (Some b, Some a) \<Rightarrow> b \<noteq> a \<and> r = \<lparr>de_kind = ''modprobe'', de_key = de_key r,
          de_before = ''present'', de_after = kDiffStateEdited\<rparr>
    | (b, a) \<Rightarrow> r = \<lparr>de_kind = ''modprobe'', de_key = de_key r,
          de_before = (if b \<noteq> None then ''present'' else ''absent''),
          de_after = (if a \<noteq> None then ''present'' else ''absent'')\<rparr>)"
proof -
  obtain k where "k \<in> set (unionKeys (pl_modprobeFiles p) (pl_modprobeFiles q))"
    and "r \<in> set (case (map_of (pl_modprobeFiles p) k, map_of (pl_modprobeFiles q) k) of
          (Some b, Some a) \<Rightarrow>
            (if b = a then []
             else if fileModuleStates b \<noteq> fileModuleStates a then []
             else [\<lparr>de_kind = ''modprobe'', de_key = k, de_before = ''present'',
                    de_after = kDiffStateEdited\<rparr>])
        | (b, a) \<Rightarrow>
            [\<lparr>de_kind = ''modprobe'', de_key = k,
              de_before = (if b \<noteq> None then ''present'' else ''absent''),
              de_after = (if a \<noteq> None then ''present'' else ''absent'')\<rparr>])"
    using assms unfolding diffModprobeFiles_def Let_def by auto
  moreover from this(2) have "de_key r = k" by (auto split: option.splits if_splits)
  ultimately show ?thesis by (auto simp: set_unionKeys split: option.splits if_splits)
qed

lemma diffModprobeFiles_row:
  assumes "r \<in> set (diffModprobeFiles p q)"
  shows "de_kind r = ''modprobe'' \<and> de_before r \<noteq> de_after r \<and>
     map_of (pl_modprobeFiles p) (de_key r) \<noteq> map_of (pl_modprobeFiles q) (de_key r)"
proof -
  define k where "k = de_key r"
  show ?thesis
    using diffModprobeFiles_mem [OF assms] unfolding k_def [symmetric]
    by (cases "map_of (pl_modprobeFiles p) k"; cases "map_of (pl_modprobeFiles q) k")
      (auto simp: kDiffStateEdited_def dest: weak_map_of_SomeI)
qed

lemma diffModprobeFiles_presence:
  assumes "(map_of (pl_modprobeFiles p) n = None) \<noteq> (map_of (pl_modprobeFiles q) n = None)"
  shows "\<exists>r \<in> set (diffModprobeFiles p q). de_key r = n"
proof -
  have "n \<in> set (unionKeys (pl_modprobeFiles p) (pl_modprobeFiles q))"
    using assms by (auto simp: set_unionKeys map_of_eq_None_iff)
  then show ?thesis
    using assms unfolding diffModprobeFiles_def Let_def
    by (cases "map_of (pl_modprobeFiles p) n"; cases "map_of (pl_modprobeFiles q) n")
      (auto simp: bex_Un intro!: bexI [where x = n])
qed

lemma stateOr_device_eq_iff:
  "(\<forall>k. stateOr (deviceStates es) k ''enabled'' = stateOr (deviceStates fs) k ''enabled'')
   \<longleftrightarrow> deviceStates es = deviceStates fs"
proof
  have ne: "v \<noteq> ''enabled''" if "map_of (deviceStates es) k = Some v" for es k v
    using that by (auto simp: deviceStates_def map_of_smap_of deviceEntryState_def
        dest!: map_of_SomeD split: if_splits)
  assume "\<forall>k. stateOr (deviceStates es) k ''enabled'' = stateOr (deviceStates fs) k ''enabled''"
  then have "map_of (deviceStates es) k = map_of (deviceStates fs) k" for k
    using ne [of es k] ne [of fs k] by (fastforce simp: stateOr_def split: option.splits dest: spec [where x = k])
  then have "map_of (deviceStates es) = map_of (deviceStates fs)" by blast
  then show "deviceStates es = deviceStates fs"
    unfolding deviceStates_def by (intro smap_eqI smap_ok_of)
qed simp

text \<open>A diff without rows, read back: nothing a device row can show has changed, every module
  has the same directives over all owned files, and the same files are there.\<close>

lemma identical_meaning:
  assumes "identical (diffPayloads p q)"
  shows "deviceStates (pl_entries p) = deviceStates (pl_entries q)"
    and "stateOr (moduleStates (pl_modprobeFiles p)) m ''absent''
       = stateOr (moduleStates (pl_modprobeFiles q)) m ''absent''"
    and "(map_of (pl_modprobeFiles p) n = None) = (map_of (pl_modprobeFiles q) n = None)"
proof -
  have e: "diffDevices p q = []" "diffModules p q = []" "diffModprobeFiles p q = []"
    using assms by (auto simp: identical_def diffPayloads_def)
  show "deviceStates (pl_entries p) = deviceStates (pl_entries q)"
    unfolding stateOr_device_eq_iff [symmetric]
  proof
    fix k
    show "stateOr (deviceStates (pl_entries p)) k ''enabled'' = stateOr (deviceStates (pl_entries q)) k ''enabled''"
      using e(1) mem_diffDevices [of "\<lparr>de_kind = ''device'', de_key = k,
          de_before = stateOr (deviceStates (pl_entries p)) k ''enabled'',
          de_after = stateOr (deviceStates (pl_entries q)) k ''enabled''\<rparr>" p q] by simp
  qed
  show "stateOr (moduleStates (pl_modprobeFiles p)) m ''absent''
       = stateOr (moduleStates (pl_modprobeFiles q)) m ''absent''"
    using e(2) mem_diffModules [of "\<lparr>de_kind = ''module'', de_key = m,
          de_before = stateOr (moduleStates (pl_modprobeFiles p)) m ''absent'',
          de_after = stateOr (moduleStates (pl_modprobeFiles q)) m ''absent''\<rparr>" p q] by simp
  show "(map_of (pl_modprobeFiles p) n = None) = (map_of (pl_modprobeFiles q) n = None)"
    using diffModprobeFiles_presence [of p n q] unfolding e(3) by (metis empty_iff list.set(1))
qed

lemma diffPayloads_same: "identical (diffPayloads p p)"
proof -
  have "r \<notin> set (diffDevices p p)" "r \<notin> set (diffModules p p)" for r
    unfolding mem_diffDevices mem_diffModules by simp_all
  then have "diffDevices p p = []" "diffModules p p = []" by (metis last_in_set)+
  moreover have "diffModprobeFiles p p = []"
    using diffModprobeFiles_row [of _ p p] by (metis last_in_set)
  ultimately show ?thesis by (simp add: identical_def diffPayloads_def)
qed

text \<open>the rows of a diff come in three groups (devices, modules, files), each strictly
  ascending by key so that equal payloads always give the same bytes, and every row shows a
  difference; a diff of a payload with itself is empty.\<close>

lemma diff_rows_ordered_and_real:
  "sd_entries (diffPayloads p q) = diffDevices p q @ diffModules p q @ diffModprobeFiles p q \<and>
   sorted_wrt (<) (map de_key (diffDevices p q)) \<and>
   sorted_wrt (<) (map de_key (diffModules p q)) \<and>
   sorted_wrt (<) (map de_key (diffModprobeFiles p q)) \<and>
   list_all (\<lambda>r. de_before r \<noteq> de_after r) (sd_entries (diffPayloads p q)) \<and>
   list_all (\<lambda>r. de_kind r = ''device'') (diffDevices p q) \<and>
   list_all (\<lambda>r. de_kind r = ''module'') (diffModules p q) \<and>
   list_all (\<lambda>r. de_kind r = ''modprobe'') (diffModprobeFiles p q) \<and>
   identical (diffPayloads p p)"
proof -
  have dev: "de_before r \<noteq> de_after r \<and> de_kind r = ''device''" if "r \<in> set (diffDevices p q)" for r
    using that [unfolded mem_diffDevices] by (metis diff_entry.select_convs(1,3,4))
  have mod: "de_before r \<noteq> de_after r \<and> de_kind r = ''module''" if "r \<in> set (diffModules p q)" for r
    using that [unfolded mem_diffModules] by (metis diff_entry.select_convs(1,3,4))
  show ?thesis
    using diffDevices_sorted diffModules_sorted diffModprobeFiles_sorted diffPayloads_same
      dev mod diffModprobeFiles_row [of _ p q]
    by (simp add: diffPayloads_def list_all_iff ball_Un)
qed

text \<open>An empty diff means that the same devices are recorded as disabled by the same mechanism,
  that every module has the same directives over all owned files, and that the same owned
  files exist.\<close>

lemma identical_diff_meaning:
  assumes "identical (diffPayloads p q)"
  shows "deviceStates (pl_entries p) = deviceStates (pl_entries q) \<and>
    (\<forall>m. stateOr (moduleStates (pl_modprobeFiles p)) m ''absent''
         = stateOr (moduleStates (pl_modprobeFiles q)) m ''absent'') \<and>
    fst ` set (pl_modprobeFiles p) = fst ` set (pl_modprobeFiles q)"
proof -
  have "n \<in> fst ` set (pl_modprobeFiles p) \<longleftrightarrow> n \<in> fst ` set (pl_modprobeFiles q)" for n
    using identical_meaning(3) [OF assms, of n] by (simp add: map_of_eq_None_iff)
  then show ?thesis using identical_meaning(1,2) [OF assms] by blast
qed

text \<open>Two payloads that differ only in the file that carries a directive.\<close>

definition movedBlacklist :: "string \<Rightarrow> string \<Rightarrow> snapshot_payload" where
  "movedBlacklist a b = \<lparr>pl_entries = [], pl_modprobeFiles = [(''a.conf'', a), (''b.conf'', b)]\<rparr>"

lemma identical_diff_meaning_witness:
  "stateOr (moduleStates (pl_modprobeFiles (movedBlacklist ''blacklist x'' []))) ''x'' ''absent''
     = stateOr (moduleStates (pl_modprobeFiles (movedBlacklist [] ''blacklist x''))) ''x'' ''absent''
   \<and> stateOr (moduleStates (pl_modprobeFiles (movedBlacklist [] ''blacklist x''))) ''x'' ''absent'' = ''blacklisted''"
proof -
  have "identical (diffPayloads (movedBlacklist ''blacklist x'' []) (movedBlacklist [] ''blacklist x''))"
    by code_simp
  from identical_diff_meaning [OF this]
  have "stateOr (moduleStates (pl_modprobeFiles (movedBlacklist ''blacklist x'' []))) ''x'' ''absent''
     = stateOr (moduleStates (pl_modprobeFiles (movedBlacklist [] ''blacklist x''))) ''x'' ''absent''"
    by blast
  moreover have "stateOr (moduleStates (pl_modprobeFiles (movedBlacklist [] ''blacklist x''))) ''x'' ''absent''
     = ''blacklisted''"
    by code_simp
  ultimately show ?thesis by blast
qed

text \<open>It does not mean that the payloads are equal. When a directive moves from one owned file
  to another, the module rows cancel out and each file's own row is suppressed because its
  directives changed, so two payloads whose files differ are reported as identical.\<close>

lemma moved_directive_is_invisible:
  "identical (diffPayloads (movedBlacklist ''blacklist x'' []) (movedBlacklist [] ''blacklist x'')) \<and>
   movedBlacklist ''blacklist x'' [] \<noteq> movedBlacklist [] ''blacklist x''"
  by code_simp

end
