(* ===== verification/Snapshot_Store_Facts.thy ===== *)
theory Snapshot_Store_Facts
  imports Snapshot_Store "HOL-Library.Multiset"
begin

text \<open>
  What the snapshot store guarantees: a read is verified against its id, listings are complete
  and newest first, pruning keeps the newest automatic snapshots and everything else, and a
  store without damage stays so under \<open>put\<close>.
\<close>

subsection \<open>Names\<close>

lemma snapshotFileName_inject [simp]: "snapshotFileName i = snapshotFileName j \<longleftrightarrow> i = j"
  by (simp add: snapshotFileName_def)

lemma append_neq_last: "last p \<noteq> last q \<Longrightarrow> p \<noteq> [] \<Longrightarrow> q \<noteq> [] \<Longrightarrow> x @ p \<noteq> y @ q"
  by (metis last_appendR)

lemma snapshotFileName_neq [simp]:
  "snapshotFileName i \<noteq> ''HEAD''" "''HEAD'' \<noteq> snapshotFileName i"
  "snapshotFileName i \<noteq> tmpName n" "tmpName n \<noteq> snapshotFileName i"
  using append_neq_last [of "''.json''" "''HEAD''" i "[]"] append_neq_last [of "''.json''" "''.tmp''" i n]
  by (auto simp: snapshotFileName_def tmpName_def)

lemma tmpName_neq_HEAD [simp]: "tmpName n \<noteq> ''HEAD''" "''HEAD'' \<noteq> tmpName n"
  using append_neq_last [of "''.tmp''" "''HEAD''" n "[]"] by (auto simp: tmpName_def)

lemma words_token:
  assumes "list_all (\<lambda>c. \<not> isspaceC c) s" "acc @ s \<noteq> []"
  shows "words acc (s @ [CHR 0x0A]) = [acc @ s]"
  using assms by (induction s arbitrary: acc) (auto simp: isspaceC_def)

lemma payloadId_token: "list_all (\<lambda>c. \<not> isspaceC c) (payloadId lib p)" "payloadId lib p \<noteq> []"
proof -
  have "list_all (\<lambda>c. \<not> isspaceC c) ''0123456789abcdef''" by code_simp
  then show "list_all (\<lambda>c. \<not> isspaceC c) (payloadId lib p)"
    using sha256Hex_shape [of "canonicalPayload lib p"]
    unfolding payloadId_def list_all_iff by blast
  show "payloadId lib p \<noteq> []"
    using sha256Hex_shape [of "canonicalPayload lib p"] unfolding payloadId_def by force
qed

subsection \<open>Verified reads\<close>

lemma checkDoc_Verified:
  assumes "checkDoc lib i doc = Verified snap"
  shows "payloadId lib (snap_payload snap) = i" "meta_id (snap_meta snap) = i"
    "meta_health (snap_meta snap) = HealthOk"
    "meta_entryCount (snap_meta snap) = length (pl_entries (snap_payload snap))"
  using assms by (auto simp: checkDoc_def payloadId_def Let_def split: option.splits json.splits
      sum.splits if_splits)

lemma readLocked_Inr:
  assumes "readLocked lib now i d = (Inr snap, d')"
  shows "d' = d" "checkDoc lib i (parseFile lib d (snapshotFileName i)) = Verified snap"
    "file_exists d (snapshotFileName i)"
  using assms by (auto simp: readLocked_def Let_def missingSnapshotError_def quarantineAndFail_def
      split: if_splits check.splits option.splits prod.splits)

lemma readLocked_bytes:
  assumes "readLocked lib now i d = (r, d')" "file_content d name = Some text"
  shows "file_content d' name = Some text \<or>
    name = snapshotFileName i \<and>
    (\<exists>bad. starts_with bad (name @ ''.bad-'') \<and> file_content d bad = None \<and> file_content d' bad = Some text)"
proof -
  obtain bad dq where q: "quarantineFile d (snapshotFileName i) now = (bad, dq)" by fastforce
  have b: "bad = badName (map fst (dir_files d)) (snapshotFileName i) now"
    using q by (simp add: quarantineFile_def Let_def)
  have sw: "starts_with bad (snapshotFileName i @ ''.bad-'')"
    using badName_prefix [of "map fst (dir_files d)" "snapshotFileName i" now]
    unfolding b starts_with_iff by auto
  have "d' = d \<or> d' = dq"
    using assms(1) q by (auto simp: readLocked_def Let_def quarantineAndFail_def
        split: if_splits check.splits)
  then show ?thesis
  proof
    assume d': "d' = dq"
    show ?thesis
    proof (cases "name = snapshotFileName i")
      case True
      then show ?thesis
      proof (cases "nextFault d \<in> range RenameFault")
        case True
        then have "file_content dq name = file_content d name"
          using q by (auto simp: quarantineFile_def Let_def file_content_def dropFault_def)
        then show ?thesis using d' assms(2) by simp
      next
        case False
        then show ?thesis
          using quarantineFile_content(1,2) [OF q] sw \<open>name = snapshotFileName i\<close> assms(2) d' by auto
      qed
    next
      case False
      then show ?thesis using quarantineFile_content(5) [OF q False assms(2)] d' by simp
    qed
  qed (use assms(2) in simp)
qed

text \<open>C16: a snapshot that reads is the one its id names: its payload hashes to the id, its document
  carries the id, and reading changes nothing. A read that fails destroys nothing: every file keeps
  its bytes, except that a damaged document moves, byte for byte, to a fresh quarantine name.\<close>

lemma read_verifies_and_preserves:
  assumes "store_read lib now i d = (r, d')"
  shows "(case r of Inl e \<Rightarrow> True | Inr snap \<Rightarrow>
      d' = d \<and> payloadId lib (snap_payload snap) = i \<and> meta_id (snap_meta snap) = i \<and>
      meta_health (snap_meta snap) = HealthOk \<and>
      meta_entryCount (snap_meta snap) = length (pl_entries (snap_payload snap))) \<and>
    (\<forall>name text. file_content d name = Some text \<longrightarrow> file_content d' name = Some text \<or>
      name = snapshotFileName i \<and> (\<exists>bad. starts_with bad (name @ ''.bad-'') \<and>
        file_content d bad = None \<and> file_content d' bad = Some text))"
proof -
  note r = assms [unfolded store_read_def]
  have "case r of Inl e \<Rightarrow> True | Inr snap \<Rightarrow>
      d' = d \<and> payloadId lib (snap_payload snap) = i \<and> meta_id (snap_meta snap) = i \<and>
      meta_health (snap_meta snap) = HealthOk \<and>
      meta_entryCount (snap_meta snap) = length (pl_entries (snap_payload snap))"
  proof (cases r)
    case (Inr snap)
    note v = r [unfolded Inr]
    show ?thesis
      using readLocked_Inr(1) [OF v] checkDoc_Verified [OF readLocked_Inr(2) [OF v]] by (simp add: Inr)
  qed simp
  then show ?thesis using readLocked_bytes [OF r] by blast
qed

subsection \<open>Newest first\<close>

lemma chainWalk_facts:
  "chainWalk ms taken i = (out, t) \<Longrightarrow>
     set out \<subseteq> set ms \<and> distinct (map meta_id out) \<and> set taken \<inter> meta_id ` set out = {} \<and>
     set t = set taken \<union> meta_id ` set out \<union> (set t - set taken - meta_id ` set ms) \<and> meta_id ` set out \<subseteq> set t"
proof (induction ms taken i arbitrary: out t rule: chainWalk.induct)
  case (1 ms taken i)
  show ?case
  proof (cases "i \<in> set taken")
    case True
    with "1.prems" show ?thesis by (auto simp: chainWalk.simps [of ms taken i])
  next
    case new: False
    show ?thesis
    proof (cases "find (\<lambda>m. meta_id m = i) ms")
      case None
      with new "1.prems" have "out = []" "t = i # taken"
        by (simp_all add: chainWalk.simps [of ms taken i])
      with None show ?thesis by (auto simp: find_None_iff new)
    next
      case (Some m)
      then have m: "m \<in> set ms" "meta_id m = i" by (auto simp: find_Some_iff)
      show ?thesis
      proof (cases "meta_parent m")
        case None
        with new Some "1.prems" have "out = [m]" "t = i # taken"
          by (simp_all add: chainWalk.simps [of ms taken i])
        with m new show ?thesis by auto
      next
        case (Some p)
        obtain out' t' where w: "chainWalk ms (i # taken) p = (out', t')" by fastforce
        with new Some \<open>find _ ms = Some m\<close> "1.prems" have "out = m # out'" "t = t'"
          by (simp_all add: chainWalk.simps [of ms taken i])
        with "1.IH" [OF new \<open>find _ ms = Some m\<close> Some w] m new show ?thesis by auto
      qed
    qed
  qed
qed

lemma orderNewestFirst_split:
  obtains out t where "orderNewestFirst ms h = out @ sort_key (\<lambda>m. - meta_createdAtUtc m)
      (filter (\<lambda>m. meta_id m \<notin> set t) ms)"
    and "set out \<subseteq> set ms" "distinct (map meta_id out)" "meta_id ` set out \<subseteq> set t"
    and "\<And>m. m \<in> set ms \<Longrightarrow> meta_id m \<in> set t \<Longrightarrow> meta_id m \<in> meta_id ` set out"
proof (cases h)
  case None
  then show ?thesis by (intro that [of "[]" "[]"]) (simp_all add: orderNewestFirst_def)
next
  case (Some i)
  obtain out t where w: "chainWalk ms [] i = (out, t)" by fastforce
  have "meta_id m \<in> meta_id ` set out" if "m \<in> set ms" "meta_id m \<in> set t" for m
    using chainWalk_facts [OF w] that by auto
  with chainWalk_facts [OF w] show ?thesis
    by (intro that [of out t]) (auto simp: orderNewestFirst_def Some w)
qed

lemma set_orderNewestFirst: "set (orderNewestFirst ms h) \<subseteq> set ms"
  by (rule orderNewestFirst_split [of ms h]) auto

lemma ids_orderNewestFirst: "meta_id ` set (orderNewestFirst ms h) = meta_id ` set ms"
proof (rule orderNewestFirst_split [of ms h])
  fix out t
  assume o: "orderNewestFirst ms h = out @ sort_key (\<lambda>m. - meta_createdAtUtc m)
      (filter (\<lambda>m. meta_id m \<notin> set t) ms)" and sub: "set out \<subseteq> set ms"
    and chain: "\<And>m. m \<in> set ms \<Longrightarrow> meta_id m \<in> set t \<Longrightarrow> meta_id m \<in> meta_id ` set out"
  show ?thesis
  proof
    show "meta_id ` set (orderNewestFirst ms h) \<subseteq> meta_id ` set ms" using sub by (auto simp: o)
    show "meta_id ` set ms \<subseteq> meta_id ` set (orderNewestFirst ms h)"
    proof
      fix i assume "i \<in> meta_id ` set ms"
      then obtain m where "m \<in> set ms" "i = meta_id m" by blast
      then show "i \<in> meta_id ` set (orderNewestFirst ms h)"
        using chain [of m] by (cases "meta_id m \<in> set t") (auto simp: o)
    qed
  qed
qed

lemma mset_orderNewestFirst:
  assumes "distinct (map meta_id ms)"
  shows "mset (orderNewestFirst ms h) = mset ms"
proof (rule orderNewestFirst_split [of ms h])
  fix out t
  assume o: "orderNewestFirst ms h = out @ sort_key (\<lambda>m. - meta_createdAtUtc m)
      (filter (\<lambda>m. meta_id m \<notin> set t) ms)" and sub: "set out \<subseteq> set ms"
    and d: "distinct (map meta_id out)" and t: "meta_id ` set out \<subseteq> set t"
    and chain: "\<And>m. m \<in> set ms \<Longrightarrow> meta_id m \<in> set t \<Longrightarrow> meta_id m \<in> meta_id ` set out"
  let ?rest = "filter (\<lambda>m. meta_id m \<notin> set t) ms"
  have inj: "inj_on meta_id (set ms)" using assms by (simp add: distinct_map)
  have "set (out @ ?rest) = set ms"
  proof
    show "set ms \<subseteq> set (out @ ?rest)"
    proof
      fix m assume m: "m \<in> set ms"
      show "m \<in> set (out @ ?rest)"
        using m chain [OF m] sub inj by (cases "meta_id m \<in> set t") (auto dest: inj_onD)
    qed
  qed (use sub in auto)
  moreover have "distinct (out @ ?rest)"
    using d t assms by (auto simp: distinct_map image_subset_iff)
  moreover have "distinct ms" using assms by (simp add: distinct_map)
  ultimately have "mset (out @ ?rest) = mset ms" using set_eq_iff_mset_eq_distinct by blast
  then show ?thesis by (simp add: o)
qed

lemma orderNewestFirst_head:
  assumes "h \<in> meta_id ` set ms"
  obtains m rest where "orderNewestFirst ms (Some h) = m # rest" "meta_id m = h"
    "h \<notin> meta_id ` set rest" "find (\<lambda>m. meta_id m = h) ms = Some m"
proof -
  obtain m where m: "find (\<lambda>m. meta_id m = h) ms = Some m"
    using assms by (metis (mono_tags, lifting) find_None_iff image_iff not_Some_eq)
  then have mh: "meta_id m = h" by (auto simp: find_Some_iff)
  obtain out t where w: "chainWalk ms [h] (value_or (meta_parent m) h) = (out, t)" by fastforce
  note f = chainWalk_facts [OF w]
  show thesis
  proof (cases "meta_parent m")
    case None
    then have "chainWalk ms [] h = ([m], [h])" by (simp add: chainWalk.simps [of ms "[]"] m)
    then show thesis by (intro that [OF _ mh _ m]) (auto simp: orderNewestFirst_def)
  next
    case (Some p)
    then have "chainWalk ms [] h = (m # out, t)"
      using w by (simp add: chainWalk.simps [of ms "[]"] m value_or_def)
    with f show thesis by (intro that [OF _ mh _ m]) (auto simp: orderNewestFirst_def)
  qed
qed

text \<open>Ordering a listing loses no snapshot: the same ids appear, each listed row is one of the
  scanned ones, with distinct ids it is a permutation, and the snapshot HEAD names comes first.\<close>

lemma listing_order_complete:
  "meta_id ` set (orderNewestFirst ms h) = meta_id ` set ms \<and>
   set (orderNewestFirst ms h) \<subseteq> set ms \<and>
   (distinct (map meta_id ms) \<longrightarrow> mset (orderNewestFirst ms h) = mset ms) \<and>
   (\<forall>i. h = Some i \<longrightarrow> i \<in> meta_id ` set ms \<longrightarrow> meta_id (hd (orderNewestFirst ms h)) = i)"
proof (intro conjI allI impI)
  fix i assume "h = Some i" "i \<in> meta_id ` set ms"
  then show "meta_id (hd (orderNewestFirst ms h)) = i"
    by (metis list.sel(1) orderNewestFirst_head)
qed (simp_all add: ids_orderNewestFirst set_orderNewestFirst mset_orderNewestFirst)

lemma listing_order_complete_witness:
  "meta_id (hd (orderNewestFirst
     [empty_meta\<lparr>meta_id := ''a'', meta_createdAtUtc := 9\<rparr>, empty_meta\<lparr>meta_id := ''b''\<rparr>] (Some ''b''))) = ''b''
   \<and> mset (orderNewestFirst
     [empty_meta\<lparr>meta_id := ''a'', meta_createdAtUtc := 9\<rparr>, empty_meta\<lparr>meta_id := ''b''\<rparr>] (Some ''b''))
     = mset [empty_meta\<lparr>meta_id := ''a'', meta_createdAtUtc := 9\<rparr>, empty_meta\<lparr>meta_id := ''b''\<rparr>]"
  using listing_order_complete [of
      "[empty_meta\<lparr>meta_id := ''a'', meta_createdAtUtc := 9\<rparr>, empty_meta\<lparr>meta_id := ''b''\<rparr>]" "Some ''b''"]
  by simp

subsection \<open>Which snapshots pruning deletes\<close>

definition okAuto :: "snapshot_meta \<Rightarrow> bool" where
  "okAuto m \<longleftrightarrow> meta_health m = HealthOk \<and> meta_trigger m = Auto"

lemma pruneVictims_drop:
  "pruneVictims n ms = map meta_id (drop (kKeepAutoSnapshots - n) (filter okAuto ms))"
proof (induction ms arbitrary: n)
  case (Cons m ms)
  consider "\<not> okAuto m" | "okAuto m" "n + 1 \<le> kKeepAutoSnapshots" | "okAuto m" "kKeepAutoSnapshots \<le> n"
    by linarith
  then show ?case
  proof cases
    case 2
    then obtain k where "kKeepAutoSnapshots - n = Suc k" "kKeepAutoSnapshots - (n + 1) = k"
      by (metis Suc_diff_Suc Suc_eq_plus1 Suc_le_lessD)
    with 2 Cons show ?thesis by (simp add: okAuto_def)
  qed (use Cons in \<open>auto simp: okAuto_def\<close>)
qed simp

lemma pruneVictims_okAuto:
  "i \<in> set (pruneVictims n ms) \<Longrightarrow> \<exists>m \<in> set ms. meta_id m = i \<and> okAuto m"
  by (auto simp: pruneVictims_drop dest!: in_set_dropD)

lemma head_not_victim:
  "h \<notin> set (pruneVictims 0 (orderNewestFirst ms (Some h)))"
proof (cases "h \<in> meta_id ` set ms")
  case True
  obtain m rest where o: "orderNewestFirst ms (Some h) = m # rest" "meta_id m = h" "h \<notin> meta_id ` set rest"
    by (rule orderNewestFirst_head [OF True])
  have "set (drop kKeepAutoSnapshots (filter okAuto (m # rest))) \<subseteq> set rest"
    by (auto simp: kKeepAutoSnapshots_def dest: in_set_dropD split: if_splits)
  with o show ?thesis by (auto simp: pruneVictims_drop)
next
  case False
  then show ?thesis
    using pruneVictims_okAuto ids_orderNewestFirst by (metis imageI)
qed


subsection \<open>Stores without damage\<close>

text \<open>Every document verifies and HEAD names one of them.\<close>

definition verified :: "json_lib \<Rightarrow> dir \<Rightarrow> string \<Rightarrow> snapshot option" where
  "verified lib d i =
     (if file_exists d (snapshotFileName i) then
        (case checkDoc lib i (parseFile lib d (snapshotFileName i)) of Verified s \<Rightarrow> Some s | _ \<Rightarrow> None)
      else None)"

definition store_ok :: "json_lib \<Rightarrow> dir \<Rightarrow> bool" where
  "store_ok lib d \<longleftrightarrow>
     distinct (map fst (dir_files d)) \<and>
     (\<forall>h. headLocked d = Some h \<longrightarrow> file_exists d (snapshotFileName h)) \<and>
     (\<forall>i. file_exists d (snapshotFileName i) \<longrightarrow> verified lib d i \<noteq> None)"

lemma verified_read: "verified lib d i = Some snap \<Longrightarrow> readLocked lib now i d = (Inr snap, d)"
  by (auto simp: verified_def readLocked_def Let_def split: if_splits check.splits)

lemma verified_iff: "verified lib d i = Some snap \<longleftrightarrow> readLocked lib now i d = (Inr snap, d)"
proof
  assume "readLocked lib now i d = (Inr snap, d)"
  from readLocked_Inr(2,3) [OF this] show "verified lib d i = Some snap" by (simp add: verified_def)
qed (rule verified_read)

lemma read_unchanged:
  assumes "store_ok lib d"
  shows "snd (readLocked lib now i d) = d"
proof (cases "file_exists d (snapshotFileName i)")
  case True
  then obtain snap where "verified lib d i = Some snap" using assms by (auto simp: store_ok_def)
  then show ?thesis by (simp add: verified_read)
qed (simp add: readLocked_def Let_def)

text \<open>What a verified read depends on.\<close>

lemma verified_cong:
  "file_content d' (snapshotFileName i) = file_content d (snapshotFileName i) \<Longrightarrow>
     verified lib d' i = verified lib d i"
  by (simp add: verified_def parseFile_def file_exists_content)

lemma headLocked_cong:
  "file_content d' ''HEAD'' = file_content d ''HEAD'' \<Longrightarrow> headLocked d' = headLocked d"
  by (simp add: headLocked_def)

lemma scanOne_unchanged: "store_ok lib d \<Longrightarrow> snd (scanOneLocked lib now i d) = d"
  using read_unchanged [of lib d now i]
  by (auto simp: scanOneLocked_def split: prod.splits sum.splits)

lemma scanNames_unchanged: "store_ok lib d \<Longrightarrow> snd (scanNames lib now names d) = d"
proof (induction names)
  case (Cons n names)
  have "scanOneLocked lib now (idFromFileName n) d
      = (fst (scanOneLocked lib now (idFromFileName n) d), d)"
    using scanOne_unchanged [OF Cons.prems] by (metis prod.collapse)
  moreover have "scanNames lib now names d = (fst (scanNames lib now names d), d)"
    using Cons by (metis prod.collapse)
  ultimately show ?case by (auto split: prod.splits)
qed simp

text \<open>A healthy row of a scan is the metadata of a document that verifies.\<close>

lemma scanOne_healthy:
  assumes "store_ok lib d" "scanOneLocked lib now i d = (m, d')" "meta_health m = HealthOk"
  shows "\<exists>snap. verified lib d (meta_id m) = Some snap \<and> snap_meta snap = m"
proof -
  obtain snap where r: "readLocked lib now i d = (Inr snap, d)" "snap_meta snap = m"
    using assms read_unchanged [OF assms(1), of now i]
    by (auto simp: scanOneLocked_def split: prod.splits sum.splits if_splits)
  moreover have "meta_id m = i"
    using checkDoc_Verified(2) [OF readLocked_Inr(2) [OF r(1)]] r(2) by simp
  ultimately show ?thesis using verified_iff by blast
qed

lemma scanNames_healthy:
  assumes "store_ok lib d" "m \<in> set (fst (scanNames lib now names d))" "meta_health m = HealthOk"
  shows "\<exists>snap. verified lib d (meta_id m) = Some snap \<and> snap_meta snap = m"
  using assms(2)
proof (induction names)
  case (Cons n names)
  obtain m1 where one: "scanOneLocked lib now (idFromFileName n) d = (m1, d)"
    using scanOne_unchanged [OF assms(1)] by (metis prod.collapse)
  have rest: "scanNames lib now names d = (fst (scanNames lib now names d), d)"
    using scanNames_unchanged [OF assms(1)] by (metis prod.collapse)
  show ?case
  proof (cases "m \<in> set (fst (scanNames lib now names d))")
    case False
    with Cons.prems one rest assms(3) have "m = m1"
      by (auto split: if_splits prod.splits)
    then show ?thesis using scanOne_healthy [OF assms(1) one] assms(3) by blast
  qed (rule Cons.IH)
qed simp

subsection \<open>What pruning leaves\<close>

lemma dirRemove_content:
  "file_content (snd (dirRemove d n)) m = file_content d m \<or>
   m = n \<and> file_content (snd (dirRemove d n)) m = None"
  by (cases "nextFault d") (auto simp: dirRemove_def file_simps file_content_def dropFault_def)

lemma dirRemove_distinct:
  "distinct (map fst (dir_files d)) \<Longrightarrow> distinct (map fst (dir_files (snd (dirRemove d n))))"
  by (cases "nextFault d") (auto simp: dirRemove_def file_simps)

lemma removals_content:
  "file_content (foldl (\<lambda>d i. snd (dirRemove d (snapshotFileName i))) d is) m = file_content d m \<or>
   m \<in> snapshotFileName ` set is \<and>
   file_content (foldl (\<lambda>d i. snd (dirRemove d (snapshotFileName i))) d is) m = None"
proof (induction "is" arbitrary: d)
  case (Cons i "is")
  define e where "e = snd (dirRemove d (snapshotFileName i))"
  have "file_content e m = file_content d m \<or> m = snapshotFileName i \<and> file_content e m = None"
    unfolding e_def by (rule dirRemove_content)
  moreover note Cons.IH [of e]
  ultimately show ?case unfolding foldl_Cons e_def [symmetric] list.set image_insert by (elim disjE conjE) simp_all
qed simp

lemma removals_distinct:
  "distinct (map fst (dir_files d)) \<Longrightarrow>
     distinct (map fst (dir_files (foldl (\<lambda>d i. snd (dirRemove d (snapshotFileName i))) d is)))"
  by (induction "is" arbitrary: d) (simp_all add: dirRemove_distinct)

lemma pruneLocked_eq:
  assumes "store_ok lib d"
  obtains ms where "fst (scanLocked lib now d) = ms"
    "pruneLocked lib now d = foldl (\<lambda>d i. snd (dirRemove d (snapshotFileName i))) d
       (pruneVictims 0 (orderNewestFirst ms (headLocked d)))"
proof -
  obtain ms where "scanLocked lib now d = (ms, d)"
    using scanNames_unchanged [OF assms, of now "map fst (dir_files d)"]
    by (cases "scanLocked lib now d") (simp add: scanLocked_def)
  then show thesis by (intro that [of ms]) (simp_all add: pruneLocked_def)
qed

lemma pruneLocked_content:
  assumes "store_ok lib d"
  shows "file_content (pruneLocked lib now d) n = file_content d n \<or>
    (\<exists>i snap. n = snapshotFileName i \<and> headLocked d \<noteq> Some i \<and> verified lib d i = Some snap \<and>
       meta_trigger (snap_meta snap) = Auto \<and> file_content (pruneLocked lib now d) n = None)"
proof -
  obtain ms where ms: "fst (scanLocked lib now d) = ms"
    and p: "pruneLocked lib now d = foldl (\<lambda>d i. snd (dirRemove d (snapshotFileName i))) d
       (pruneVictims 0 (orderNewestFirst ms (headLocked d)))"
    by (rule pruneLocked_eq [OF assms])
  show ?thesis
  proof (cases "file_content (pruneLocked lib now d) n = file_content d n")
    case False
    then obtain i where i: "i \<in> set (pruneVictims 0 (orderNewestFirst ms (headLocked d)))"
      "n = snapshotFileName i" "file_content (pruneLocked lib now d) n = None"
      using removals_content [of d "pruneVictims 0 (orderNewestFirst ms (headLocked d))" n]
      unfolding p by (metis imageE)
    then obtain m where m: "m \<in> set ms" "meta_id m = i" "okAuto m"
      using pruneVictims_okAuto set_orderNewestFirst by blast
    then obtain snap where "verified lib d i = Some snap" "snap_meta snap = m"
      using scanNames_healthy [OF assms, of m now "map fst (dir_files d)"] ms
      by (auto simp: scanLocked_def okAuto_def)
    moreover have "headLocked d \<noteq> Some i" using head_not_victim i(1) by metis
    ultimately show ?thesis using i m by (auto simp: okAuto_def)
  qed simp
qed

lemma pruneLocked_ok:
  assumes "store_ok lib d"
  shows "store_ok lib (pruneLocked lib now d)" "headLocked (pruneLocked lib now d) = headLocked d"
    "headLocked d = Some h \<Longrightarrow> verified lib (pruneLocked lib now d) h = verified lib d h"
proof -
  let ?d = "pruneLocked lib now d"
  show head: "headLocked ?d = headLocked d"
    using pruneLocked_content [OF assms, of now "''HEAD''"] by (auto intro: headLocked_cong)
  show hv: "verified lib ?d h = verified lib d h" if "headLocked d = Some h" for h
    using pruneLocked_content [OF assms, of now "snapshotFileName h"] that
    by (auto intro: verified_cong)
  have "distinct (map fst (dir_files ?d))"
    by (rule pruneLocked_eq [OF assms, of now]) (use assms in \<open>auto simp: store_ok_def removals_distinct\<close>)
  moreover have "verified lib ?d i \<noteq> None" if "file_exists ?d (snapshotFileName i)" for i
  proof -
    have "file_content ?d (snapshotFileName i) = file_content d (snapshotFileName i)"
      using that pruneLocked_content [OF assms, of now "snapshotFileName i"]
      by (auto simp: file_exists_content)
    then show ?thesis
      using that assms verified_cong by (metis file_exists_content store_ok_def)
  qed
  moreover have "file_exists ?d (snapshotFileName h)" if "headLocked ?d = Some h" for h
  proof -
    have "verified lib d h \<noteq> None" using that head assms by (simp add: store_ok_def)
    then have "verified lib ?d h \<noteq> None" using that head hv by simp
    then show ?thesis by (auto simp: verified_def split: if_splits)
  qed
  ultimately show "store_ok lib ?d" by (simp add: store_ok_def)
qed

subsection \<open>Writing a snapshot\<close>

definition payload_ok :: "snapshot_payload \<Rightarrow> bool" where
  "payload_ok p \<longleftrightarrow> list_all entry_ok (pl_entries p) \<and> smap_ok (pl_modprobeFiles p) \<and>
     list_all (\<lambda>kv. utf8 (fst kv) \<and> utf8 (snd kv)) (pl_modprobeFiles p)"

lemma payload_roundtrip: "payload_ok p \<Longrightarrow> payloadFromJson (payloadToJson p) = Inr p"
  using get_string_map_ok [of "pl_modprobeFiles p"] entries_roundtrip [of "pl_entries p"]
  by (simp add: payload_ok_def payloadFromJson_def payloadToJson_def at_jobject del: get_string_map.simps)

lemma payloadToJson_ok: "payload_ok p \<Longrightarrow> json_ok (payloadToJson p)"
  unfolding payloadToJson_def payload_ok_def
  by (rule json_ok_jobject) (auto simp: list_all_iff entryToJson_ok simp del: json_ok.simps(7)
      intro: json_ok_string_map)

text \<open>Distinct payloads have distinct canonical texts.\<close>

lemma canonicalPayload_inject:
  assumes "codec_ok lib" "payload_ok p" "payload_ok q" "canonicalPayload lib p = canonicalPayload lib q"
  shows "p = q"
  using codec_dump [OF assms(1) payloadToJson_ok [OF assms(2)]]
    codec_dump [OF assms(1) payloadToJson_ok [OF assms(3)]] assms(4)
    payload_roundtrip [OF assms(2)] payload_roundtrip [OF assms(3)]
  unfolding canonicalPayload_def by (metis option.inject sum.inject(2))

lemma member_jobject: "member (Some (jobject kvs)) k = map_of (rev kvs) k"
  by (simp add: jobject_def map_of_smap_of)

text \<open>A put whose document is printable and within the size the reader accepts, and whose payload
  has the digest of no other payload in the store.\<close>

definition storable :: "json_lib \<Rightarrow> snapshot_payload \<Rightarrow> snapshot_trigger \<Rightarrow> snapshot_reason \<Rightarrow> int \<Rightarrow> dir \<Rightarrow> bool" where
  "storable lib p trigger reason createdAtUtc d \<longleftrightarrow>
     payload_ok p \<and>
     json_ok (snapshotDoc p (payloadId lib p) (headLocked d) trigger reason createdAtUtc) \<and>
     length (jl_dump2 lib (snapshotDoc p (payloadId lib p) (headLocked d) trigger reason createdAtUtc))
       \<le> kJsonMaxBytes \<and>
     (\<forall>snap. verified lib d (payloadId lib p) = Some snap \<longrightarrow> snap_payload snap = p)"

lemma checkDoc_snapshotDoc:
  assumes "payload_ok p"
  shows "\<exists>snap. checkDoc lib (payloadId lib p)
      (Some (snapshotDoc p (payloadId lib p) h trigger reason createdAtUtc)) = Verified snap \<and>
    snap_payload snap = p \<and> meta_parent (snap_meta snap) = h \<and> meta_trigger (snap_meta snap) = trigger"
proof -
  let ?doc = "snapshotDoc p (payloadId lib p) h trigger reason createdAtUtc"
  have "member (Some ?doc) ''formatVersion'' = Some (JInt 1)" "at ?doc ''payload'' = Inr (payloadToJson p)"
    "member (Some ?doc) ''id'' = Some (JStr (payloadId lib p))"
    "stringField (Some ?doc) ''parent'' = h"
    "stringField (Some ?doc) ''trigger'' = Some (trigger_to_string trigger)"
    by (cases h; simp add: snapshotDoc_def member_jobject at_jobject kSnapshotFormatVersion_def stringField_def)+
  moreover have "signed_take_bit 31 (1::int) = 1" by simp
  ultimately show ?thesis
    using payload_roundtrip [OF assms]
    by (simp add: checkDoc_def kSnapshotFormatVersion_def Let_def payloadId_def [symmetric]
        bestEffortMeta_def stringField_def value_or_def)
qed

lemma verified_written:
  assumes "codec_ok lib" "storable lib p trigger reason createdAtUtc d"
    and "file_content d' (snapshotFileName (payloadId lib p)) =
      Some (jl_dump2 lib (snapshotDoc p (payloadId lib p) (headLocked d) trigger reason createdAtUtc))"
  shows "\<exists>snap. verified lib d' (payloadId lib p) = Some snap \<and> snap_payload snap = p \<and>
    meta_parent (snap_meta snap) = headLocked d \<and> meta_trigger (snap_meta snap) = trigger"
proof -
  let ?doc = "snapshotDoc p (payloadId lib p) (headLocked d) trigger reason createdAtUtc"
  have "parseFile lib d' (snapshotFileName (payloadId lib p)) = Some ?doc"
  proof -
    have "json_ok ?doc" "\<not> length (jl_dump2 lib ?doc) > kJsonMaxBytes"
      using assms(2) by (simp_all only: storable_def not_less)
    then show ?thesis
      unfolding parseFile_def assms(3) option.case using codec_dump2 [OF assms(1)] by (simp only: if_False)
  qed
  moreover have "file_exists d' (snapshotFileName (payloadId lib p))"
    unfolding file_exists_content assms(3) by simp
  moreover have "payload_ok p" using assms(2) by (simp only: storable_def)
  then obtain snap where "checkDoc lib (payloadId lib p) (Some ?doc) = Verified snap"
    "snap_payload snap = p" "meta_parent (snap_meta snap) = headLocked d" "meta_trigger (snap_meta snap) = trigger"
    using checkDoc_snapshotDoc by blast
  ultimately show ?thesis by (intro exI [of _ snap]) (simp only: verified_def if_True check.case)
qed

text \<open>Writing HEAD for a document that is there keeps the store undamaged.\<close>

lemma store_ok_write:
  assumes "store_ok lib d" "atomicWriteFile d name text = (r, d')"
    and "name = ''HEAD'' \<or> (\<exists>i. name = snapshotFileName i \<and>
          (file_content d' name \<noteq> file_content d name \<longrightarrow> verified lib d' i \<noteq> None))"
    and "name = ''HEAD'' \<Longrightarrow> headLocked d' = headLocked d \<or>
          (\<exists>h. headLocked d' = Some h \<and> file_exists d (snapshotFileName h))"
  shows "store_ok lib d'"
proof -
  have same: "file_content d' (snapshotFileName j) = file_content d (snapshotFileName j)"
    if "name \<noteq> snapshotFileName j" for j
    using that by (intro atomicWriteFile_other [OF assms(2)]) auto
  have head: "headLocked d' = headLocked d" if "name \<noteq> ''HEAD''"
    using that by (intro headLocked_cong atomicWriteFile_other [OF assms(2)]) auto
  have old: "verified lib d j \<noteq> None" if "file_exists d (snapshotFileName j)" for j
    using that assms(1) by (simp add: store_ok_def)
  have keep: "file_exists d' (snapshotFileName j)" if "file_exists d (snapshotFileName j)" for j
    using that same [of j] atomicWriteFile_target [OF assms(2)]
    by (cases "name = snapshotFileName j") (auto simp: file_exists_content)
  have ver: "verified lib d' j \<noteq> None" if "file_exists d' (snapshotFileName j)" for j
  proof (cases "file_content d' (snapshotFileName j) = file_content d (snapshotFileName j)")
    case True
    then show ?thesis using that old [of j] verified_cong [OF True] by (simp add: file_exists_content)
  next
    case False
    with same have "name = snapshotFileName j" by blast
    with assms(3) False show ?thesis by auto
  qed
  have "distinct (map fst (dir_files d'))"
    using atomicWriteFile_dir(3) [OF assms(2)] assms(1) by (simp add: store_ok_def)
  moreover have "file_exists d' (snapshotFileName h)" if "headLocked d' = Some h" for h
    using that head assms(1,4) keep by (cases "name = ''HEAD''") (auto simp: store_ok_def)
  ultimately show ?thesis using ver by (simp add: store_ok_def)
qed

lemma headLocked_written:
  assumes "atomicWriteFile d ''HEAD'' (payloadId lib p @ [CHR 0x0A]) = (r, d')"
  shows "headLocked d' = headLocked d \<or> headLocked d' = Some (payloadId lib p)"
    and "r = Inr u \<Longrightarrow> headLocked d' = Some (payloadId lib p)"
proof -
  have w: "words [] (payloadId lib p @ [CHR 0x0A]) = [payloadId lib p]"
    using words_token [of "payloadId lib p" "[]"] payloadId_token [of lib p] by simp
  show "headLocked d' = headLocked d \<or> headLocked d' = Some (payloadId lib p)"
    using atomicWriteFile_target [OF assms] w by (auto simp: headLocked_def split: if_splits)
  show "headLocked d' = Some (payloadId lib p)" if "r = Inr u"
    using atomicWriteFile_ok [OF assms [unfolded that]] w by (simp add: headLocked_def)
qed

lemma store_put_ok:
  assumes "codec_ok lib" "store_ok lib d" "storable lib p trigger reason createdAtUtc d"
    and "store_put lib now p trigger reason createdAtUtc d = (r, d')"
  shows "store_ok lib d'"
    and "r = Inr i \<Longrightarrow> i = payloadId lib p \<and> headLocked d' = Some i \<and>
      (\<exists>snap. verified lib d' i = Some snap \<and> snap_payload snap = p)"
proof -
  let ?i = "payloadId lib p"
  let ?text = "jl_dump2 lib (snapshotDoc p ?i (headLocked d) trigger reason createdAtUtc)"
  have goal: "store_ok lib d' \<and> (\<forall>i. r = Inr i \<longrightarrow> i = ?i \<and> headLocked d' = Some i \<and>
      (\<exists>snap. verified lib d' i = Some snap \<and> snap_payload snap = p))"
  proof (cases "headLocked d = Some ?i")
    case True
    then have "file_exists d (snapshotFileName ?i)" using assms(2) by (simp add: store_ok_def)
    then obtain snap where "verified lib d ?i = Some snap" using assms(2) by (auto simp: store_ok_def)
    then show ?thesis
      using True assms by (auto simp: store_put_def storable_def)
  next
    case fresh: False
    let ?exist = "file_exists d (snapshotFileName ?i)"
    obtain r1 d1 where w1: "(if ?exist then (Inr (), d) else atomicWriteFile d (snapshotFileName ?i) ?text) = (r1, d1)"
      by fastforce
    have ok1: "store_ok lib d1"
    proof (cases ?exist)
      case False
      then have w: "atomicWriteFile d (snapshotFileName ?i) ?text = (r1, d1)" using w1 by simp
      show ?thesis
      proof (rule store_ok_write [OF assms(2) w])
        have "verified lib d1 ?i \<noteq> None"
          if "file_content d1 (snapshotFileName ?i) \<noteq> file_content d (snapshotFileName ?i)"
          using that atomicWriteFile_target [OF w] verified_written [OF assms(1,3), of d1]
          by (auto split: if_splits)
        then show "snapshotFileName ?i = ''HEAD'' \<or> (\<exists>i. snapshotFileName ?i = snapshotFileName i \<and>
            (file_content d1 (snapshotFileName ?i) \<noteq> file_content d (snapshotFileName ?i) \<longrightarrow>
             verified lib d1 i \<noteq> None))"
          by blast
      qed simp
    qed (use w1 assms(2) in simp)
    have ver1: "\<exists>snap. verified lib d1 ?i = Some snap \<and> snap_payload snap = p" if "r1 = Inr ()"
    proof (cases ?exist)
      case True
      then obtain snap where "verified lib d ?i = Some snap" using assms(2) by (auto simp: store_ok_def)
      with True w1 assms(3) show ?thesis by (auto simp: storable_def)
    next
      case False
      then have "atomicWriteFile d (snapshotFileName ?i) ?text = (Inr (), d1)" using w1 that by simp
      from verified_written [OF assms(1,3) atomicWriteFile_ok [OF this]] show ?thesis by blast
    qed
    show ?thesis
    proof (cases r1)
      case (Inl e)
      then have "r = Inl e" "d' = d1" using assms(4) fresh w1 by (simp_all add: store_put_def Let_def)
      then show ?thesis using ok1 by simp
    next
      case (Inr u)
      obtain r2 d2 where w2: "atomicWriteFile d1 ''HEAD'' (?i @ [CHR 0x0A]) = (r2, d2)" by fastforce
      obtain snap where snap: "verified lib d1 ?i = Some snap" "snap_payload snap = p"
        using ver1 Inr by auto
      have ex: "file_exists d1 (snapshotFileName ?i)" using snap by (auto simp: verified_def split: if_splits)
      have ok2: "store_ok lib d2"
        by (rule store_ok_write [OF ok1 w2]) (use headLocked_written(1) [OF w2] ex in auto)
      have v2: "verified lib d2 ?i = Some snap"
        unfolding snap(1) [symmetric] by (rule verified_cong, rule atomicWriteFile_other [OF w2]) simp_all
      show ?thesis
      proof (cases r2)
        case (Inl e)
        then have "r = Inl e" "d' = d2" using assms(4) fresh w1 Inr w2 by (simp_all add: store_put_def Let_def)
        then show ?thesis using ok2 by simp
      next
        case (Inr u2)
        then have r: "r = Inr ?i" and d': "d' = (if ?exist then d2 else pruneLocked lib now d2)"
          using assms(4) fresh w1 \<open>r1 = Inr u\<close> w2 by (simp_all add: store_put_def Let_def)
        have h2: "headLocked d2 = Some ?i" using headLocked_written(2) [OF w2] Inr by simp
        show ?thesis
          using r d' ok2 v2 h2 snap(2) pruneLocked_ok [OF ok2] by auto
      qed
    qed
  qed
  then show "store_ok lib d'" "r = Inr i \<Longrightarrow> i = payloadId lib p \<and> headLocked d' = Some i \<and>
      (\<exists>snap. verified lib d' i = Some snap \<and> snap_payload snap = p)"
    by auto
qed

subsection \<open>The store contract\<close>

text \<open>What a client of \<^verbatim>\<open>ISnapshotStore\<close> relies on: in an undamaged store a put that succeeds
  makes its payload readable under the id it returns, leaves the store undamaged, and reading an
  undamaged store changes nothing.\<close>

locale snapshot_store =
  fixes put :: "snapshot_payload \<Rightarrow> snapshot_trigger \<Rightarrow> snapshot_reason \<Rightarrow> int \<Rightarrow> 's \<Rightarrow> string result \<times> 's"
    and read :: "string \<Rightarrow> 's \<Rightarrow> snapshot result \<times> 's"
    and undamaged :: "'s \<Rightarrow> bool"
    and fits :: "snapshot_payload \<Rightarrow> snapshot_trigger \<Rightarrow> snapshot_reason \<Rightarrow> int \<Rightarrow> 's \<Rightarrow> bool"
  assumes put_undamaged: "undamaged s \<Longrightarrow> fits p t r c s \<Longrightarrow> put p t r c s = (res, s') \<Longrightarrow> undamaged s'"
    and put_readable: "undamaged s \<Longrightarrow> fits p t r c s \<Longrightarrow> put p t r c s = (Inr i, s') \<Longrightarrow>
      \<exists>snap. read i s' = (Inr snap, s') \<and> snap_payload snap = p"
    and read_pure: "undamaged s \<Longrightarrow> snd (read i s) = s"
begin

text \<open>A safety snapshot can be read back after any number of reads.\<close>

lemma reads_pure: "undamaged s \<Longrightarrow> foldl (\<lambda>s i. snd (read i s)) s is = s"
  by (induction "is") (simp_all add: read_pure)

lemma safety_snapshot_readable:
  assumes "undamaged s" "fits p t r c s" "put p t r c s = (Inr i, s')"
  shows "\<exists>snap. read i (foldl (\<lambda>s j. snd (read j s)) s' is) = (Inr snap, s') \<and> snap_payload snap = p"
  using put_readable [OF assms] reads_pure [OF put_undamaged [OF assms]] by simp

text \<open>The snapshot taken before a change undoes it: whatever is put after reading it, the first put
  is what a restore of its id reads.\<close>

lemma put_read_again:
  assumes "undamaged s" "fits p t r c s" "put p t r c s = (Inr i, s')" "read i s' = (Inr snap, s'')"
  shows "snap_payload snap = p \<and> s'' = s'"
  using put_readable [OF assms(1-3)] assms(4) by auto

end

definition lib_store_ok :: "json_lib \<Rightarrow> dir \<Rightarrow> bool" where
  "lib_store_ok lib d \<longleftrightarrow> codec_ok lib \<and> store_ok lib d"

interpretation js: snapshot_store "store_put lib now" "store_read lib now" "lib_store_ok lib" "storable lib"
  for lib now
proof
  show "lib_store_ok lib s'"
    if "lib_store_ok lib s" "storable lib p t r c s" "store_put lib now p t r c s = (res, s')"
    for s p t r c res s'
    using that store_put_ok(1) by (auto simp: lib_store_ok_def)
  show "\<exists>snap. store_read lib now i s' = (Inr snap, s') \<and> snap_payload snap = p"
    if "lib_store_ok lib s" "storable lib p t r c s" "store_put lib now p t r c s = (Inr i, s')"
    for s p t r c i s'
  proof -
    have "codec_ok lib" "store_ok lib s" using that(1) by (simp_all add: lib_store_ok_def)
    from store_put_ok(2) [OF this that(2,3)] obtain snap
      where "verified lib s' i = Some snap" "snap_payload snap = p" by blast
    from verified_read [OF this(1)] this(2) show ?thesis by (intro exI [of _ snap]) (simp add: store_read_def)
  qed
  show "snd (store_read lib now i s) = s" if "lib_store_ok lib s" for s i
    using that read_unchanged by (simp add: lib_store_ok_def store_read_def)
qed


definition emptyDir :: dir where
  "emptyDir = \<lparr>dir_path = ''/d'', dir_files = [], dir_faults = []\<rparr>"

definition manualDoc :: "string option \<Rightarrow> json" where
  "manualDoc h = snapshotDoc empty_payload idAbc h Manual \<lparr>rsn_verb = [], rsn_subject = []\<rparr> 0"

definition manualLib :: "string option \<Rightarrow> json_lib" where
  "manualLib h = wit_lib [(payloadToJson empty_payload, ''abc''), (manualDoc h, ''doc'')]"

lemma manualLib_ok: "codec_ok (manualLib h)"
  unfolding manualLib_def by (rule wit_lib_ok) (simp add: wit_table_def starts_with_def)

lemma payloadId_manualLib: "payloadId (manualLib h) empty_payload = idAbc"
  by (simp add: payloadId_def canonicalPayload_def manualLib_def wit_lib_def wit_dump_def sha256Hex_abc)

lemma utf8_idAbc: "utf8 idAbc" by code_simp

lemma manualDoc_ok: "h = None \<or> (\<exists>i. h = Some i \<and> utf8 i) \<Longrightarrow> json_ok (manualDoc h)"
  unfolding manualDoc_def snapshotDoc_def
  by (rule json_ok_jobject)
    (auto simp: utf8_idAbc kSnapshotFormatVersion_def payloadToJson_ok payload_ok_def empty_payload_def
      smap_simps json_ok_jobject split: option.split)

lemma manualDoc_dump: "jl_dump2 (manualLib h) (manualDoc h) = ''doc''"
proof -
  have "manualDoc h \<noteq> payloadToJson empty_payload"
  proof
    assume "manualDoc h = payloadToJson empty_payload"
    then have "member (Some (manualDoc h)) ''id'' = member (Some (payloadToJson empty_payload)) ''id''" by simp
    then show False by (simp add: manualDoc_def snapshotDoc_def payloadToJson_def member_jobject)
  qed
  then show ?thesis by (simp add: manualLib_def wit_lib_def wit_dump_def)
qed


end
