(* ===== verification/Snapshot_Service.thy ===== *)
theory Snapshot_Service
  imports Daemon_World Snapshot_Diff Snapshot_Store_Facts
begin

text \<open>
  \<^verbatim>\<open>daemon/src/snapshot_service.cpp\<close>: capturing what devmgr owns, and the restore that checks
  the snapshot, takes its own safety snapshot, writes the recorded state back and then converges
  the hardware item by item.
\<close>

subsection \<open>Capture\<close>

definition kConfigLevelNote :: string where
  "kConfigLevelNote = ''config-level: takes effect on next boot/hotplug; loaded modules are not unloaded''"

definition isDevmgrOwned :: "string \<Rightarrow> bool" where
  "isDevmgrOwned fileName \<longleftrightarrow> starts_with fileName ''devmgr-'' \<and> ends_with fileName ''.conf''"

definition containsKey :: "disabled_entry list \<Rightarrow> device_key \<Rightarrow> bool" where
  "containsKey es k = list_ex (\<lambda>e. ent_key e = k) es"

definition resolvePathFor :: "'h env \<Rightarrow> 'h \<Rightarrow> disabled_entry \<Rightarrow> device list \<Rightarrow> string" where
  "resolvePathFor env h e ds =
     (case matchEntry e ds of
        Some d \<Rightarrow> dev_sysfsPath d
      | None \<Rightarrow>
          if ent_lastSysfsPath e \<noteq> [] \<and> env_isDirectory env (ent_lastSysfsPath e) h
          then ent_lastSysfsPath e else [])"

definition capturePayload :: "'h daemon \<Rightarrow> snapshot_payload" where
  "capturePayload dm =
     \<lparr>pl_entries = ss_entries (dm_state dm),
      pl_modprobeFiles = smap_of (filter (\<lambda>f. isDevmgrOwned (fst f)) (dir_files (dm_modprobe dm)))\<rparr>"

subsection \<open>Store verbs\<close>

definition put_snapshot :: "json_lib \<Rightarrow> 'h env \<Rightarrow> snapshot_payload \<Rightarrow> snapshot_trigger \<Rightarrow> snapshot_reason
    \<Rightarrow> 'h daemon \<Rightarrow> string result \<times> 'h daemon" where
  "put_snapshot lib env p trigger reason dm =
     (let now = env_now env (dm_hw dm) in
      case store_put lib now p trigger reason now (dm_snaps dm) of
        (r, d) \<Rightarrow> (r, dm\<lparr>dm_snaps := d\<rparr>))"

definition svc_create :: "json_lib \<Rightarrow> 'h env \<Rightarrow> snapshot_trigger \<Rightarrow> snapshot_reason \<Rightarrow> 'h daemon
    \<Rightarrow> string result \<times> 'h daemon" where
  "svc_create lib env trigger reason dm = put_snapshot lib env (capturePayload dm) trigger reason dm"

definition svc_read :: "json_lib \<Rightarrow> 'h env \<Rightarrow> string \<Rightarrow> 'h daemon \<Rightarrow> snapshot result \<times> 'h daemon" where
  "svc_read lib env i dm =
     (case store_read lib (env_now env (dm_hw dm)) i (dm_snaps dm) of (r, d) \<Rightarrow> (r, dm\<lparr>dm_snaps := d\<rparr>))"

definition svc_list :: "json_lib \<Rightarrow> 'h env \<Rightarrow> 'h daemon \<Rightarrow> snapshot_meta list result \<times> 'h daemon" where
  "svc_list lib env dm =
     (case store_list lib (env_now env (dm_hw dm)) (dm_snaps dm) of (ms, d) \<Rightarrow> (Inr ms, dm\<lparr>dm_snaps := d\<rparr>))"

definition svc_remove :: "json_lib \<Rightarrow> 'h env \<Rightarrow> string \<Rightarrow> 'h daemon \<Rightarrow> unit result \<times> 'h daemon" where
  "svc_remove lib env i dm =
     (case store_remove lib (env_now env (dm_hw dm)) i (dm_snaps dm) of (r, d) \<Rightarrow> (r, dm\<lparr>dm_snaps := d\<rparr>))"

definition svc_diff :: "json_lib \<Rightarrow> 'h env \<Rightarrow> string \<Rightarrow> string \<Rightarrow> 'h daemon
    \<Rightarrow> snapshot_diff result \<times> 'h daemon" where
  "svc_diff lib env baseId targetId dm =
     (case svc_read lib env baseId dm of
        (Inl e, dm1) \<Rightarrow> (Inl e, dm1)
      | (Inr base, dm1) \<Rightarrow>
          (case (if targetId = [] then (Inr (capturePayload dm1), dm1)
                 else case svc_read lib env targetId dm1 of
                        (Inl e, dm2) \<Rightarrow> (Inl e, dm2)
                      | (Inr stored, dm2) \<Rightarrow> (Inr (snap_payload stored), dm2)) of
             (Inl e, dm2) \<Rightarrow> (Inl e, dm2)
           | (Inr target, dm2) \<Rightarrow>
               (Inr ((diffPayloads (snap_payload base) target)\<lparr>sd_baseId := baseId, sd_targetId := targetId\<rparr>),
                dm2)))"

subsection \<open>Writing \<^verbatim>\<open>modprobe.d\<close> back\<close>

definition item :: "string \<Rightarrow> string \<Rightarrow> string \<Rightarrow> string \<Rightarrow> restore_item" where
  "item subject action status detail =
     \<lparr>ri_subject = subject, ri_action = action, ri_status = status, ri_detail = detail\<rparr>"

fun removeStale :: "(string \<times> string) list \<Rightarrow> (string \<times> string) list \<Rightarrow> dir \<Rightarrow> restore_item list \<times> dir" where
  "removeStale [] target d = ([], d)"
| "removeStale (f # pre) target d =
     (if map_of target (fst f) \<noteq> None then removeStale pre target d
      else case dirRemove d (fst f) of (e, d1) \<Rightarrow>
        (case removeStale pre target d1 of (items, d2) \<Rightarrow>
          (item (fst f) ''modprobe-remove'' (if e \<noteq> None then ''failed'' else ''ok'')
             (case e of Some msg \<Rightarrow> msg | None \<Rightarrow> kConfigLevelNote) # items, d2)))"

fun writeFiles :: "(string \<times> string) list \<Rightarrow> (string \<times> string) list \<Rightarrow> dir \<Rightarrow> restore_item list \<times> dir" where
  "writeFiles pre [] d = ([], d)"
| "writeFiles pre (f # target) d =
     (if map_of pre (fst f) = Some (snd f) then writeFiles pre target d
      else case atomicWriteFile d (fst f) (snd f) of (r, d1) \<Rightarrow>
        (case writeFiles pre target d1 of (items, d2) \<Rightarrow>
          (item (fst f) ''modprobe-write'' (case r of Inr _ \<Rightarrow> ''ok'' | Inl _ \<Rightarrow> ''failed'')
             (case r of Inr _ \<Rightarrow> kConfigLevelNote | Inl e \<Rightarrow> err_message e) # items, d2)))"

definition writeBackModprobe :: "snapshot_payload \<Rightarrow> snapshot_payload \<Rightarrow> dir \<Rightarrow> restore_item list \<times> dir" where
  "writeBackModprobe pre target d =
     (case removeStale (pl_modprobeFiles pre) (pl_modprobeFiles target) d of (items1, d1) \<Rightarrow>
       (case writeFiles (pl_modprobeFiles pre) (pl_modprobeFiles target) d1 of (items2, d2) \<Rightarrow>
         (items1 @ items2, d2)))"

subsection \<open>Converging the hardware\<close>

definition enumerated :: "'h env \<Rightarrow> 'h \<Rightarrow> device list" where
  "enumerated env h = (case env_enumerate env h of Inr ds \<Rightarrow> ds | Inl _ \<Rightarrow> [])"

fun reEnableRemoved :: "'h env \<Rightarrow> device list \<Rightarrow> disabled_entry list \<Rightarrow> disabled_entry list \<Rightarrow> 'h
    \<Rightarrow> restore_item list \<times> 'h" where
  "reEnableRemoved env ds target [] h = ([], h)"
| "reEnableRemoved env ds target (e # pre) h =
     (if containsKey target (ent_key e) then reEnableRemoved env ds target pre h
      else let path = resolvePathFor env h e ds in
        if path = [] then
          (case reEnableRemoved env ds target pre h of (items, h1) \<Rightarrow>
            (item (ent_lastSysfsPath e) ''re-enable'' ''device-absent''
               ''device not present; nothing to re-enable'' # items, h1))
        else case env_setEnabled env path True (ent_lastDriver e) h of (r, h1) \<Rightarrow>
          (case reEnableRemoved env ds target pre h1 of (items, h2) \<Rightarrow>
            (item path ''re-enable'' (case r of Inr _ \<Rightarrow> ''ok'' | Inl _ \<Rightarrow> ''failed'')
               (case r of Inr _ \<Rightarrow> [] | Inl err \<Rightarrow> err_message err) # items, h2)))"

definition reApplyOne :: "json_lib \<Rightarrow> 'h env \<Rightarrow> disabled_entry \<Rightarrow> device \<Rightarrow> state_store \<times> 'h
    \<Rightarrow> restore_item \<times> state_store \<times> 'h" where
  "reApplyOne lib env entry dv sh = (case sh of (st, h) \<Rightarrow>
     let path = dev_sysfsPath dv; act = ''re-apply-disable'' in
     if \<not> needsApply entry dv then (item path act ''ok'' ''already in desired state'', st, h)
     else case env_probe env h of
       Inl e \<Rightarrow> (item path act ''failed'' (''criticality probe failed: '' @ err_message e), st, h)
     | Inr facts \<Rightarrow>
         let verdict = evaluateDisable facts path in
         if \<not> gv_allowed verdict then
           (case ss_setGuardSuspended lib (ent_key entry) True st of
              (Inl _, st1) \<Rightarrow> (item path act ''failed''
                 (''guard refused ('' @ gv_reason verdict @ '') and suspension not persisted''), st1, h)
            | (Inr _, st1) \<Rightarrow> (item path act ''guard-refused'' (gv_reason verdict), st1, h))
         else case env_setEnabled env path False [] h of
           (Inl e, h1) \<Rightarrow> (item path act ''failed'' (err_message e), st, h1)
         | (Inr _, h1) \<Rightarrow>
             let st1 = (if ent_lastSysfsPath entry \<noteq> path
                        then snd (ss_setLastSysfsPath lib (ent_key entry) path st) else st);
                 st2 = (if ent_guardSuspended entry
                        then snd (ss_setGuardSuspended lib (ent_key entry) False st1) else st1)
             in (item path act ''ok'' [], st2, h1))"

fun reApplyRestored :: "json_lib \<Rightarrow> 'h env \<Rightarrow> device list \<Rightarrow> disabled_entry list \<Rightarrow> state_store \<times> 'h
    \<Rightarrow> restore_item list \<times> state_store \<times> 'h" where
  "reApplyRestored lib env ds [] sh = ([], sh)"
| "reApplyRestored lib env ds (e # es) sh =
     (case (case matchEntry e ds of
              Some d \<Rightarrow> Some d
            | None \<Rightarrow>
                if ent_lastSysfsPath e = [] \<or> \<not> env_isDirectory env (ent_lastSysfsPath e) (snd sh)
                then None else Some (deviceFromSysfs env (snd sh) (ent_lastSysfsPath e))) of
        None \<Rightarrow>
          (case reApplyRestored lib env ds es sh of (items, sh1) \<Rightarrow>
            (item (ent_lastSysfsPath e) ''re-apply-disable'' ''device-absent''
               ''device not present; enforcement re-applies on hotplug'' # items, sh1))
      | Some d \<Rightarrow>
          (case reApplyOne lib env e d sh of (i, sh1) \<Rightarrow>
            (case reApplyRestored lib env ds es sh1 of (items, sh2) \<Rightarrow> (i # items, sh2))))"

subsection \<open>Restore\<close>

definition svc_restore :: "json_lib \<Rightarrow> 'h env \<Rightarrow> string \<Rightarrow> 'h daemon \<Rightarrow> restore_outcome result \<times> 'h daemon" where
  "svc_restore lib env i dm =
     (case svc_read lib env i dm of
        (Inl e, dm1) \<Rightarrow> (Inl e, dm1)
      | (Inr snap, dm1) \<Rightarrow>
         (let pre = capturePayload dm1; target = snap_payload snap in
          case put_snapshot lib env pre Auto \<lparr>rsn_verb = ''SnapshotRestore'', rsn_subject = i\<rparr> dm1 of
            (Inl e, dm2) \<Rightarrow> (Inl e, dm2)
          | (Inr safety, dm2) \<Rightarrow>
             (case ss_replaceAll lib (pl_entries target) (dm_state dm2) of
                (Inl e, st) \<Rightarrow> (Inl e, dm2\<lparr>dm_state := st\<rparr>)
              | (Inr _, st) \<Rightarrow>
                 (case writeBackModprobe pre target (dm_modprobe dm2) of (items1, mp) \<Rightarrow>
                   (case reEnableRemoved env (enumerated env (dm_hw dm2)) (pl_entries target)
                           (pl_entries pre) (dm_hw dm2) of (items2, h1) \<Rightarrow>
                     (case reApplyRestored lib env (enumerated env h1) (ss_entries st) (st, h1) of
                        (items3, st1, h2) \<Rightarrow>
                          (Inr \<lparr>ro_snapshotId = i, ro_safetySnapshotId = safety,
                                ro_items = items1 @ items2 @ items3\<rparr>,
                           dm2\<lparr>dm_state := st1, dm_modprobe := mp, dm_hw := h2\<rparr>)))))))"

end
