(* ===== verification/Snapshot_History.thy ===== *)
theory Snapshot_History
  imports Core_Models
begin

text \<open>
  \<^verbatim>\<open>core/src/snapshot_history.cpp\<close>: the parent chain derived from a listing, with the
  markers (chain start, HEAD, last good, depth) every surface shows.
\<close>

record chain_row =
  cr_meta :: snapshot_meta
  cr_chainStart :: bool
  cr_head :: bool
  cr_lastGood :: bool
  cr_depth :: nat

text \<open>\<open>byId\<close> keeps the first metadata of an id, as \<^verbatim>\<open>emplace\<close> does.\<close>

definition byId :: "snapshot_meta list \<Rightarrow> string \<Rightarrow> snapshot_meta option" where
  "byId metas i = find (\<lambda>m. meta_id m = i) metas"

definition claimedAsParent :: "snapshot_meta list \<Rightarrow> string list" where
  "claimedAsParent metas = concat (map (\<lambda>m. case meta_parent m of Some p \<Rightarrow> [p] | None \<Rightarrow> []) metas)"

text \<open>The loop of \<^verbatim>\<open>depthOf\<close>. Every step adds an id of the listing to the visited ones, so it ends
  whatever the parent links say.\<close>

function depthFrom :: "snapshot_meta list \<Rightarrow> string list \<Rightarrow> snapshot_meta \<Rightarrow> nat \<Rightarrow> nat" where
  "depthFrom metas visited current depth =
     (case meta_parent current of
        None \<Rightarrow> depth
      | Some p \<Rightarrow>
          (case byId metas p of
             None \<Rightarrow> depth
           | Some m \<Rightarrow> if p \<in> set visited then depth else depthFrom metas (p # visited) m (depth + 1)))"
  by auto
termination
proof (relation "measure (\<lambda>(metas, visited, current, depth). card (meta_id ` set metas - set visited))")
  fix metas visited p m and current :: snapshot_meta and depth :: nat
  assume b: "byId metas p = Some m" "p \<notin> set visited"
  then have "p \<in> meta_id ` set metas"
    by (auto simp: byId_def find_Some_iff)
  with b have "meta_id ` set metas - set (p # visited) \<subset> meta_id ` set metas - set visited"
    by auto
  then show "((metas, p # visited, m, depth + 1), metas, visited, current, depth)
      \<in> measure (\<lambda>(metas, visited, current, depth). card (meta_id ` set metas - set visited))"
    by (simp add: psubset_card_mono)
qed simp

declare depthFrom.simps [simp del]

definition depthOf :: "snapshot_meta list \<Rightarrow> snapshot_meta \<Rightarrow> nat" where
  "depthOf metas meta = depthFrom metas [meta_id meta] meta 0"

fun chainRows :: "snapshot_meta list \<Rightarrow> bool \<Rightarrow> bool \<Rightarrow> snapshot_meta list \<Rightarrow> chain_row list" where
  "chainRows metas headTaken lastGoodTaken [] = []"
| "chainRows metas headTaken lastGoodTaken (meta # rest) =
     (let isHead = (\<not> headTaken \<and> meta_id meta \<notin> set (claimedAsParent metas));
          isGood = (\<not> lastGoodTaken \<and> meta_health meta = HealthOk)
      in \<lparr>cr_meta = meta,
          cr_chainStart = (case meta_parent meta of None \<Rightarrow> True | Some p \<Rightarrow> byId metas p = None),
          cr_head = isHead, cr_lastGood = isGood, cr_depth = depthOf metas meta\<rparr>
         # chainRows metas (headTaken \<or> isHead) (lastGoodTaken \<or> isGood) rest)"

definition buildSnapshotChain :: "snapshot_meta list \<Rightarrow> chain_row list" where
  "buildSnapshotChain metas = chainRows metas False False metas"

subsection \<open>Markers\<close>

lemma chainRows_metas: "map cr_meta (chainRows ms h g rest) = rest"
  by (induction ms h g rest rule: chainRows.induct) (simp_all add: Let_def)

lemma chainRows_head_taken: "list_all (\<lambda>r. \<not> cr_head r) (chainRows ms True g rest)"
  by (induction rest arbitrary: g) (simp_all add: Let_def)

lemma chainRows_good_taken: "list_all (\<lambda>r. \<not> cr_lastGood r) (chainRows ms h True rest)"
  by (induction rest arbitrary: h) (simp_all add: Let_def)

lemma filter_none: "list_all (\<lambda>x. \<not> P x) xs \<Longrightarrow> filter P xs = []"
  by (induction xs) auto

text \<open>The marked rows are the first that qualify.\<close>

lemma chainRows_head:
  "map cr_meta (filter cr_head (chainRows ms False g rest)) =
     (case find (\<lambda>m. meta_id m \<notin> set (claimedAsParent ms)) rest of None \<Rightarrow> [] | Some m \<Rightarrow> [m])"
  by (induction rest arbitrary: g) (auto simp: Let_def filter_none chainRows_head_taken)

lemma chainRows_lastGood:
  "map cr_meta (filter cr_lastGood (chainRows ms h False rest)) =
     (case find (\<lambda>m. meta_health m = HealthOk) rest of None \<Rightarrow> [] | Some m \<Rightarrow> [m])"
  by (induction rest arbitrary: h) (auto simp: Let_def filter_none chainRows_good_taken)

text \<open>Depths count distinct ancestors, so they stay below the number of rows.\<close>

lemma depthFrom_bound:
  "distinct visited \<Longrightarrow> set visited \<subseteq> meta_id ` set metas \<Longrightarrow>
     depthFrom metas visited current d + length visited \<le> d + card (meta_id ` set metas)"
proof (induction metas visited current d rule: depthFrom.induct)
  case (1 metas visited current d)
  have vis: "length visited \<le> card (meta_id ` set metas)"
    using "1.prems" by (metis List.finite_set card_mono distinct_card finite_imageI)
  show ?case
  proof (cases "\<exists>p m. meta_parent current = Some p \<and> byId metas p = Some m \<and> p \<notin> set visited")
    case True
    then obtain p m where pm: "meta_parent current = Some p" "byId metas p = Some m" "p \<notin> set visited"
      by blast
    moreover from pm(2) have "p \<in> meta_id ` set metas" by (auto simp: byId_def find_Some_iff)
    ultimately have "depthFrom metas (p # visited) m (d + 1) + length (p # visited)
        \<le> d + 1 + card (meta_id ` set metas)"
      using "1.IH" [OF pm] "1.prems" by simp
    with pm show ?thesis by (subst depthFrom.simps) simp
  next
    case False
    then have "depthFrom metas visited current d = d"
      by (subst depthFrom.simps) (auto split: option.splits)
    with vis show ?thesis by simp
  qed
qed

lemma depthOf_bound: "meta \<in> set metas \<Longrightarrow> depthOf metas meta < length metas"
  using depthFrom_bound [of "[meta_id meta]" metas meta 0] card_image_le [of "set metas" meta_id]
    card_length [of metas]
  by (simp add: depthOf_def)

lemma chainRows_depth:
  "set rest \<subseteq> set ms \<Longrightarrow> list_all (\<lambda>r. cr_depth r < length ms) (chainRows ms h g rest)"
  by (induction rest arbitrary: h g) (simp_all add: Let_def depthOf_bound)

text \<open>The chain shows the listing in its own order; the row marked HEAD is the first that no
  listed snapshot claims as its parent, the last good one the first that reads back healthy,
  each at most once; and every depth is below the number of rows, whatever the links say.\<close>

lemma chain_rows_characterised:
  "map cr_meta (buildSnapshotChain metas) = metas \<and>
   map cr_meta (filter cr_head (buildSnapshotChain metas)) =
     (case find (\<lambda>m. meta_id m \<notin> set (claimedAsParent metas)) metas of None \<Rightarrow> [] | Some m \<Rightarrow> [m]) \<and>
   map cr_meta (filter cr_lastGood (buildSnapshotChain metas)) =
     (case find (\<lambda>m. meta_health m = HealthOk) metas of None \<Rightarrow> [] | Some m \<Rightarrow> [m]) \<and>
   list_all (\<lambda>r. cr_depth r < length metas) (buildSnapshotChain metas)"
  unfolding buildSnapshotChain_def
  by (intro conjI chainRows_metas chainRows_head chainRows_lastGood chainRows_depth subset_refl)

end
