(* ===== verification/Snapshot_Store_Limits.thy ===== *)
theory Snapshot_Store_Limits
  imports Snapshot_Store_Facts Snapshot_History State_Store
begin

text \<open>
  What a put leaves of the other snapshots, and two histories on which the store does not do what
  its comments say: deleting the older and then the newer of two snapshots leaves HEAD on a
  missing file, and storing a deleted payload again makes a cycle of parents.
\<close>

subsection \<open>Snapshots that stay\<close>

lemma write_keeps:
  assumes "atomicWriteFile d name text = (r, d')" "name \<noteq> snapshotFileName j" "name = ''HEAD'' \<or> (\<exists>i. name = snapshotFileName i)"
  shows "verified lib d' j = verified lib d j"
  by (rule verified_cong, rule atomicWriteFile_other [OF assms(1)]) (use assms(2,3) in auto)

lemma prune_keeps_manual:
  assumes "store_ok lib d" "verified lib d j = Some s" "meta_trigger (snap_meta s) = Manual"
  shows "verified lib (pruneLocked lib now d) j = Some s"
proof -
  have "file_content (pruneLocked lib now d) (snapshotFileName j) = file_content d (snapshotFileName j)"
    using pruneLocked_content [OF assms(1), of now "snapshotFileName j"] assms(2,3) by auto
  from verified_cong [OF this] assms(2) show ?thesis by simp
qed

lemma put_stages:
  assumes "codec_ok lib" "store_ok lib d" "storable lib p trigger reason c d"
    and "store_put lib now p trigger reason c d = (r, d')"
    and "verified lib d j = Some s" "meta_trigger (snap_meta s) = Manual"
  shows "verified lib d' j = Some s"
proof (cases "headLocked d = Some (payloadId lib p)")
  case True
  then show ?thesis using assms(4,5) by (simp add: store_put_def)
next
  case fresh: False
  let ?i = "payloadId lib p"
  let ?exist = "file_exists d (snapshotFileName ?i)"
  obtain r1 d1 where w1: "(if ?exist then (Inr (), d) else atomicWriteFile d (snapshotFileName ?i)
      (jl_dump2 lib (snapshotDoc p ?i (headLocked d) trigger reason c))) = (r1, d1)"
    by fastforce
  have v1: "verified lib d1 j = Some s"
  proof (cases ?exist)
    case False
    then have "j \<noteq> ?i" using assms(5) by (auto simp: verified_def split: if_splits)
    with False w1 assms(5) write_keeps [of d "snapshotFileName ?i" _ r1 d1 j] show ?thesis by auto
  qed (use w1 assms(5) in simp)
  show ?thesis
  proof (cases r1)
    case (Inl e)
    then show ?thesis using assms(4) fresh w1 v1 by (simp add: store_put_def Let_def)
  next
    case (Inr u)
    obtain r2 d2 where w2: "atomicWriteFile d1 ''HEAD'' (?i @ [CHR 0x0A]) = (r2, d2)" by fastforce
    have v2: "verified lib d2 j = Some s" using write_keeps [OF w2] v1 by simp
    show ?thesis
    proof (cases r2)
      case (Inl e)
      then show ?thesis using assms(4) fresh w1 Inr w2 v2 by (simp add: store_put_def Let_def)
    next
      case (Inr u2)
      then have d': "d' = (if ?exist then d2 else pruneLocked lib now d2)"
        using assms(4) fresh w1 \<open>r1 = Inr u\<close> w2 by (simp add: store_put_def Let_def)
      show ?thesis
      proof (cases ?exist)
        case False
        have "store_put lib now p trigger reason c d = (Inr ?i, d')"
          using fresh w1 \<open>r1 = Inr u\<close> w2 Inr d' by (simp add: store_put_def Let_def)
        have "store_ok lib d1"
          using w1 False verified_written [OF assms(1,3), of d1] atomicWriteFile_target [of d "snapshotFileName ?i" _ r1 d1]
          by (intro store_ok_write [OF assms(2), of "snapshotFileName ?i" _ r1 d1]) (auto split: if_splits)
        moreover have "file_exists d1 (snapshotFileName ?i)"
          using w1 False atomicWriteFile_ok [of d "snapshotFileName ?i"] \<open>r1 = Inr u\<close>
          by (auto simp: file_exists_content)
        ultimately have "store_ok lib d2"
          using headLocked_written(1) [OF w2] by (intro store_ok_write [OF _ w2]) auto
        from prune_keeps_manual [OF this v2 assms(6)] show ?thesis using d' False by simp
      qed (use d' v2 in simp)
    qed
  qed
qed

text \<open>Storing a snapshot never loses or changes a manual one, even when it fails half way or
  prunes.\<close>

lemma manual_snapshots_survive:
  assumes "codec_ok lib" "store_ok lib d" "storable lib p trigger reason c d"
    and "verified lib d j = Some s" "meta_trigger (snap_meta s) = Manual"
  shows "store_read lib now j (snd (store_put lib now p trigger reason c d))
       = (Inr s, snd (store_put lib now p trigger reason c d))"
  using verified_read [OF put_stages [OF assms(1-3) surjective_pairing assms(4,5)]]
  by (simp add: store_read_def)

subsection \<open>Deleting\<close>

lemma dirRemove_ok:
  "dir_faults d = [] \<Longrightarrow> dirRemove d n = (None, set_files (dropFault d) (files_remove n (dir_files d)))"
  by (simp add: dirRemove_def nextFault_def)

lemma removed_content:
  "file_content (set_files (dropFault d) (files_remove n (dir_files d))) m
     = (if m = n then None else file_content d m)"
  by (simp add: file_simps file_content_def)

lemma removed_faults: "dir_faults d = [] \<Longrightarrow> dir_faults (set_files (dropFault d) fs) = []"
  by (simp add: set_files_def dropFault_def)

text \<open>Deleting a snapshot that is not HEAD.\<close>

lemma remove_other:
  assumes "verified lib d p = Some s" "headLocked d \<noteq> Some p" "dir_faults d = []"
  obtains d' where "store_remove lib now p d = (Inr (), d')" "dir_faults d' = []"
    "\<And>m. file_content d' m = (if m = snapshotFileName p then None else file_content d m)"
proof
  let ?d = "set_files (dropFault d) (files_remove (snapshotFileName p) (dir_files d))"
  show "store_remove lib now p d = (Inr (), ?d)"
    using verified_read [OF assms(1)] assms(2,3) by (simp add: store_remove_def dirRemove_ok)
qed (use removed_content removed_faults assms(3) in auto)

text \<open>Deleting the snapshot HEAD names.\<close>

lemma remove_head:
  assumes "verified lib d q = Some s" "headLocked d = Some q" "dir_faults d = []"
    and "meta_parent (snap_meta s) = Some (payloadId lib P)"
  obtains d' where "store_remove lib now q d = (Inr (), d')" "headLocked d' = Some (payloadId lib P)"
    "\<And>j. j \<noteq> q \<Longrightarrow> file_content d' (snapshotFileName j) = file_content d (snapshotFileName j)"
proof -
  obtain r d1 where w: "atomicWriteFile d ''HEAD'' (payloadId lib P @ [CHR 0x0A]) = (r, d1)" by fastforce
  have "r = Inr ()"
    using atomicWriteFile_ok_iff [of d "''HEAD''" "payloadId lib P @ [CHR 0x0A]"] w assms(3)
    by (cases r) (simp_all add: nextFault_def)
  have f: "dir_faults d1 = []" using atomicWriteFile_dir(2) [OF w] assms(3) by simp
  let ?d = "set_files (dropFault d1) (files_remove (snapshotFileName q) (dir_files d1))"
  have "store_remove lib now q d = (Inr (), ?d)"
    using verified_read [OF assms(1)] assms(2,4) w \<open>r = Inr ()\<close> payloadId_token(2) [of lib P]
    by (simp add: store_remove_def dirRemove_ok [OF f] value_or_def Let_def)
  moreover have "headLocked ?d = Some (payloadId lib P)"
    using headLocked_written(2) [OF w \<open>r = Inr ()\<close>]
    by (subst headLocked_cong [of _ d1]) (simp_all add: removed_content)
  moreover have "file_content ?d (snapshotFileName j) = file_content d (snapshotFileName j)" if "j \<noteq> q" for j
    using that atomicWriteFile_other [OF w, of "snapshotFileName j"] by (simp add: removed_content)
  ultimately show thesis by (rule that)
qed

lemma missing_is_error: "\<exists>e. missingSnapshotError d i n = Inl e"
  by (simp add: missingSnapshotError_def makeError_def split: option.split)

text \<open>In an undamaged store with the snapshots \<open>p\<close> and its child \<open>q\<close> at HEAD, deleting \<open>p\<close> and
  then \<open>q\<close> leaves HEAD on the missing \<open>p\<close>. Storing the payload of \<open>p\<close> again then reports success
  without writing anything, and the reported snapshot cannot be read: a verb that takes it as its
  safety snapshot proceeds without one.\<close>

lemma delete_strands_head:
  assumes "store_ok lib d" "dir_faults d = []" "headLocked d = Some q" "verified lib d q = Some sq"
    and "meta_parent (snap_meta sq) = Some p" "verified lib d p = Some sp" "p \<noteq> q"
  shows "\<exists>d1 d2 e. store_remove lib now p d = (Inr (), d1) \<and> store_remove lib now q d1 = (Inr (), d2) \<and>
    headLocked d2 = Some p \<and>
    store_put lib now (snap_payload sp) trigger reason c d2 = (Inr p, d2) \<and>
    store_read lib now p d2 = (Inl e, d2)"
proof -
  have pid: "payloadId lib (snap_payload sp) = p"
    using checkDoc_Verified(1) [OF readLocked_Inr(2) [OF verified_read [OF assms(6)]]] .
  obtain d1 where d1: "store_remove lib now p d = (Inr (), d1)" "dir_faults d1 = []"
    "\<And>m. file_content d1 m = (if m = snapshotFileName p then None else file_content d m)"
    using remove_other [OF assms(6) _ assms(2)] assms(3,7) by (metis option.inject)
  have h1: "headLocked d1 = Some q" using headLocked_cong [of d1 d] d1(3) assms(3) by simp
  have v1: "verified lib d1 q = Some sq" using verified_cong [of d1 q d] d1(3) assms(4,7) by simp
  obtain d2 where d2: "store_remove lib now q d1 = (Inr (), d2)"
    "headLocked d2 = Some (payloadId lib (snap_payload sp))"
    "\<And>j. j \<noteq> q \<Longrightarrow> file_content d2 (snapshotFileName j) = file_content d1 (snapshotFileName j)"
    by (rule remove_head [OF v1 h1 d1(2), of "snap_payload sp" now]) (use assms(5) pid in auto)
  have missing: "\<not> file_exists d2 (snapshotFileName p)"
    using d2(3) [OF assms(7)] d1(3) by (simp add: file_exists_content)
  have "store_put lib now (snap_payload sp) trigger reason c d2 = (Inr p, d2)"
    using d2(2) pid by (simp add: store_put_def Let_def)
  moreover obtain e where "store_read lib now p d2 = (Inl e, d2)"
    using missing missing_is_error [of d2 p] by (auto simp: store_read_def readLocked_def Let_def)
  ultimately show ?thesis using d1(1) d2(1,2) pid by auto
qed

subsection \<open>Storing a deleted payload again\<close>

lemma put_new_parent:
  assumes "codec_ok lib" "store_ok lib d" "storable lib p Manual reason c d" "dir_faults d = []"
    and "headLocked d \<noteq> Some (payloadId lib p)" "\<not> file_exists d (snapshotFileName (payloadId lib p))"
  shows "\<exists>s. store_put lib now p Manual reason c d = (Inr (payloadId lib p), snd (store_put lib now p Manual reason c d)) \<and>
    verified lib (snd (store_put lib now p Manual reason c d)) (payloadId lib p) = Some s \<and>
    meta_parent (snap_meta s) = headLocked d \<and> meta_id (snap_meta s) = payloadId lib p"
proof -
  let ?i = "payloadId lib p" and ?text = "jl_dump2 lib (snapshotDoc p (payloadId lib p) (headLocked d) Manual reason c)"
  obtain r1 d1 where w1: "atomicWriteFile d (snapshotFileName ?i) ?text = (r1, d1)" by fastforce
  have r1: "r1 = Inr ()"
    using atomicWriteFile_ok_iff [of d "snapshotFileName ?i" ?text] w1 assms(4)
    by (cases r1) (simp_all add: nextFault_def)
  obtain s where s: "verified lib d1 ?i = Some s" "meta_parent (snap_meta s) = headLocked d"
      "meta_trigger (snap_meta s) = Manual"
    using verified_written [OF assms(1,3) atomicWriteFile_ok [OF w1 [unfolded r1]]] by blast
  obtain r2 d2 where w2: "atomicWriteFile d1 ''HEAD'' (?i @ [CHR 0x0A]) = (r2, d2)" by fastforce
  have r2: "r2 = Inr ()"
    using atomicWriteFile_ok_iff [of d1 "''HEAD''" "?i @ [CHR 0x0A]"] w2 assms(4) atomicWriteFile_dir(2) [OF w1]
    by (cases r2) (simp_all add: nextFault_def)
  have v2: "verified lib d2 ?i = Some s" using write_keeps [OF w2] s(1) by simp
  have "store_ok lib d1"
    using s(1) by (intro store_ok_write [OF assms(2) w1]) auto
  moreover have "file_exists d1 (snapshotFileName ?i)"
    using atomicWriteFile_ok [OF w1 [unfolded r1]] by (simp add: file_exists_content)
  ultimately have ok2: "store_ok lib d2"
    using headLocked_written(1) [OF w2] by (intro store_ok_write [OF _ w2]) auto
  have put: "store_put lib now p Manual reason c d = (Inr ?i, pruneLocked lib now d2)"
    using assms(5,6) w1 r1 w2 r2 by (simp add: store_put_def Let_def)
  have v3: "verified lib (pruneLocked lib now d2) ?i = Some s"
    by (rule prune_keeps_manual [OF ok2 v2 s(3)])
  then show ?thesis
    using s(2) checkDoc_Verified(2) [OF readLocked_Inr(2) [OF verified_read [OF v3]]] by (simp add: put)
qed

text \<open>The parents of a hash-chained store can form a cycle, because an id hashes the payload only:
  after the older \<open>p\<close> of two manual snapshots is deleted and its payload stored again, \<open>p\<close>
  has the parent \<open>q\<close> and \<open>q\<close> the parent \<open>p\<close>; the history built from the two then
  marks no row as HEAD and no row as a chain start.\<close>

lemma restored_payload_makes_cycle:
  assumes "codec_ok lib" "store_ok lib d" "dir_faults d = []" "headLocked d = Some q"
    and "verified lib d q = Some sq" "meta_parent (snap_meta sq) = Some p" "meta_trigger (snap_meta sq) = Manual"
    and "verified lib d p = Some sp" "p \<noteq> q"
    and "storable lib (snap_payload sp) Manual reason c (snd (store_remove lib now p d))"
  shows "\<exists>d2 sp'. store_put lib now (snap_payload sp) Manual reason c (snd (store_remove lib now p d)) = (Inr p, d2) \<and>
    store_read lib now p d2 = (Inr sp', d2) \<and> store_read lib now q d2 = (Inr sq, d2) \<and>
    meta_parent (snap_meta sp') = Some q \<and> meta_parent (snap_meta sq) = Some p \<and>
    filter (\<lambda>r. cr_head r \<or> cr_chainStart r) (buildSnapshotChain [snap_meta sp', snap_meta sq]) = []"
proof -
  have pid: "payloadId lib (snap_payload sp) = p"
    using checkDoc_Verified(1) [OF readLocked_Inr(2) [OF verified_read [OF assms(8)]]] .
  have qid: "meta_id (snap_meta sq) = q"
    using checkDoc_Verified(2) [OF readLocked_Inr(2) [OF verified_read [OF assms(5)]]] .
  obtain d1 where d1: "store_remove lib now p d = (Inr (), d1)" "dir_faults d1 = []"
    "\<And>m. file_content d1 m = (if m = snapshotFileName p then None else file_content d m)"
    using remove_other [OF assms(8) _ assms(3)] assms(4,9) by (metis option.inject)
  have h1: "headLocked d1 = Some q" using headLocked_cong [of d1 d] d1(3) assms(4) by simp
  have v1: "verified lib d1 j = (if j = p then None else verified lib d j)" for j
    using verified_cong [of d1 j d] d1(3) by (simp add: verified_def file_exists_content)
  have names: "distinct (map fst (dir_files d1))"
  proof -
    have "d1 = set_files (dropFault d) (files_remove (snapshotFileName p) (dir_files d))"
      using d1(1) verified_read [OF assms(8)] assms(3,4,9) by (simp add: store_remove_def dirRemove_ok)
    then show ?thesis using assms(2) by (simp add: store_ok_def file_simps)
  qed
  have ok1: "store_ok lib d1"
    unfolding store_ok_def
  proof (intro conjI allI impI names)
    fix h assume "headLocked d1 = Some h"
    then have "h = q" using h1 by simp
    moreover have "verified lib d1 q \<noteq> None" using v1 assms(5,9) by simp
    ultimately show "file_exists d1 (snapshotFileName h)" by (auto simp: verified_def split: if_splits)
  next
    fix i assume "file_exists d1 (snapshotFileName i)"
    then have "i \<noteq> p" "file_exists d (snapshotFileName i)"
      using d1(3) [of "snapshotFileName i"] by (auto simp: file_exists_content split: if_splits)
    with assms(2) show "verified lib d1 i \<noteq> None" by (simp add: store_ok_def v1)
  qed
  note st = assms(10) [unfolded d1(1) snd_conv]
  let ?d = "snd (store_put lib now (snap_payload sp) Manual reason c d1)"
  obtain sp' where sp': "store_put lib now (snap_payload sp) Manual reason c d1 = (Inr p, ?d)"
    "verified lib ?d p = Some sp'" "meta_parent (snap_meta sp') = Some q" "meta_id (snap_meta sp') = p"
    using put_new_parent [OF assms(1) ok1 st d1(2), of now] h1 assms(9) d1(3)
    by (auto simp: pid file_exists_content)
  have vq: "verified lib ?d q = Some sq"
    by (rule put_stages [OF assms(1) ok1 st surjective_pairing _ assms(7)]) (use v1 assms(5,9) in simp)
  have "filter (\<lambda>r. cr_head r \<or> cr_chainStart r) (buildSnapshotChain [snap_meta sp', snap_meta sq]) = []"
    using sp' qid assms(6,9) by (simp add: buildSnapshotChain_def Let_def claimedAsParent_def byId_def)
  then show ?thesis
    using sp' verified_read [OF sp'(2)] verified_read [OF vq] assms(6) d1(1)
    by (intro exI [of _ ?d] exI [of _ sp']) (simp add: store_read_def)
qed

subsection \<open>A store with two snapshots\<close>

text \<open>The empty payload and, on top of it at HEAD, a payload with an entry and an owned file.\<close>

definition payloadQ :: snapshot_payload where
  "payloadQ = \<lparr>pl_entries = [sampleEntry], pl_modprobeFiles = [(''devmgr-a.conf'', ''x'')]\<rparr>"

lemma payload_oks: "payload_ok payloadQ" "payload_ok empty_payload"
proof -
  have "entry_ok sampleEntry" by code_simp
  then show "payload_ok payloadQ" by (simp add: payload_ok_def payloadQ_def smap_ok_def)
qed (simp add: payload_ok_def empty_payload_def smap_ok_def)

definition noReason :: snapshot_reason where
  "noReason = \<lparr>rsn_verb = [], rsn_subject = []\<rparr>"

definition docP :: "string option \<Rightarrow> json" where
  "docP h = snapshotDoc empty_payload idAbc h Manual noReason 1"

definition docQ :: json where
  "docQ = snapshotDoc payloadQ idEmpty (Some idAbc) Manual noReason 2"

text \<open>The document of the safety snapshot a restore of the first would write.\<close>

definition restoreReason :: snapshot_reason where
  "restoreReason = \<lparr>rsn_verb = ''SnapshotRestore'', rsn_subject = idAbc\<rparr>"

definition docR :: json where
  "docR = snapshotDoc payloadQ idEmpty (Some idEmpty) Auto restoreReason 0"

definition twoLib :: json_lib where
  "twoLib = wit_lib [(payloadToJson empty_payload, ''abc''), (payloadToJson payloadQ, []),
     (docP None, ''p''), (docQ, ''q''), (docP (Some idEmpty), ''r''), (docR, ''s'')]"

definition twoDir :: dir where
  "twoDir = \<lparr>dir_path = ''/d'', dir_files = [(snapshotFileName idAbc, ''p''),
     (snapshotFileName idEmpty, ''q''), (''HEAD'', idEmpty @ [CHR 0x0A])], dir_faults = []\<rparr>"

lemma twoLib_ok: "codec_ok twoLib"
  unfolding twoLib_def by (rule wit_lib_ok) (simp add: wit_table_def starts_with_def)

lemma doc_members:
  "member (Some (docP h)) ''id'' = Some (JStr idAbc)"
  "member (Some (docP h)) ''parent'' = Some (case h of Some i \<Rightarrow> JStr i | None \<Rightarrow> JNull)"
  "member (Some docQ) ''id'' = Some (JStr idEmpty)"
  "member (Some docQ) ''parent'' = Some (JStr idAbc)"
  "member (Some docR) ''id'' = Some (JStr idEmpty)"
  "member (Some docR) ''parent'' = Some (JStr idEmpty)"
  "member (Some (payloadToJson p)) ''id'' = None"
  by (simp_all add: docP_def docQ_def docR_def snapshotDoc_def payloadToJson_def member_jobject)

lemma payloadQ_neq: "payloadToJson payloadQ \<noteq> payloadToJson empty_payload"
  using payload_roundtrip [OF payload_oks(1)] payload_roundtrip [OF payload_oks(2)]
  by (auto simp: payloadQ_def empty_payload_def)

lemma two_ids: "payloadId twoLib empty_payload = idAbc" "payloadId twoLib payloadQ = idEmpty"
  using payloadQ_neq
  by (simp_all add: payloadId_def canonicalPayload_def twoLib_def wit_lib_def wit_dump_def
      sha256Hex_abc sha256Hex_empty)

lemma two_dump: "jl_dump2 twoLib (docP (Some idEmpty)) = ''r''"
proof -
  have "docP (Some idEmpty) \<noteq> payloadToJson p" "docP (Some idEmpty) \<noteq> docQ"
    "docP (Some idEmpty) \<noteq> docP None" for p
    using doc_members by (metis option.distinct(1), metis idAbc_neq_idEmpty(1) json.inject(4) option.inject,
        metis json.distinct(7) option.case(1,2) option.inject)
  then show ?thesis by (simp add: twoLib_def wit_lib_def wit_dump_def)
qed

lemma two_dump_R: "jl_dump2 twoLib docR = ''s''"
proof -
  have "docR \<noteq> payloadToJson p" "docR \<noteq> docQ" "docR \<noteq> docP h" for p h
    using doc_members by (metis option.distinct(1), metis idAbc_neq_idEmpty(1) json.inject(4) option.inject,
        metis idAbc_neq_idEmpty(1) json.inject(4) option.inject)
  then show ?thesis by (simp add: twoLib_def wit_lib_def wit_dump_def)
qed

lemma two_content:
  "file_content twoDir (snapshotFileName idAbc) = Some ''p''"
  "file_content twoDir (snapshotFileName idEmpty) = Some ''q''"
  "file_exists twoDir (snapshotFileName i) \<longleftrightarrow> i = idAbc \<or> i = idEmpty"
  by (auto simp: twoDir_def file_content_def file_exists_def)

lemma two_parse:
  "parseFile twoLib twoDir (snapshotFileName idAbc) = Some (docP None)"
  "parseFile twoLib twoDir (snapshotFileName idEmpty) = Some docQ"
  by (simp_all add: parseFile_def two_content kJsonMaxBytes_def twoLib_def wit_lib_def wit_parse_def)

lemma two_verified:
  "\<exists>s. verified twoLib twoDir idAbc = Some s \<and> snap_payload s = empty_payload"
  "\<exists>s. verified twoLib twoDir idEmpty = Some s \<and> meta_parent (snap_meta s) = Some idAbc \<and>
     meta_trigger (snap_meta s) = Manual \<and> snap_payload s = payloadQ"
proof -
  note ok = payload_oks
  show "\<exists>s. verified twoLib twoDir idAbc = Some s \<and> snap_payload s = empty_payload"
    using checkDoc_snapshotDoc [OF ok(2), of twoLib None Manual noReason 1]
    by (auto simp: verified_def two_content two_parse two_ids docP_def)
  show "\<exists>s. verified twoLib twoDir idEmpty = Some s \<and> meta_parent (snap_meta s) = Some idAbc \<and>
     meta_trigger (snap_meta s) = Manual \<and> snap_payload s = payloadQ"
    using checkDoc_snapshotDoc [OF ok(1), of twoLib "Some idAbc" Manual noReason 2]
    by (auto simp: verified_def two_content two_parse two_ids docQ_def)
qed

lemma two_head: "headLocked twoDir = Some idEmpty"
proof -
  have "words [] (idEmpty @ [CHR 0x0A]) = [idEmpty]"
    using words_token [of "payloadId twoLib payloadQ" "[]"] payloadId_token [of twoLib payloadQ]
    by (simp add: two_ids)
  then show ?thesis by (simp add: headLocked_def twoDir_def file_content_def)
qed

lemma two_store_ok: "store_ok twoLib twoDir"
  unfolding store_ok_def
proof (intro conjI allI impI)
  show "distinct (map fst (dir_files twoDir))" by (simp add: twoDir_def)
  show "headLocked twoDir = Some h \<Longrightarrow> file_exists twoDir (snapshotFileName h)" for h
    by (simp add: two_head two_content)
  show "file_exists twoDir (snapshotFileName i) \<Longrightarrow> verified twoLib twoDir i \<noteq> None" for i
    using two_verified by (auto simp: two_content)
qed

lemma docP_ok: "json_ok (docP (Some idEmpty))"
proof -
  have "utf8 idEmpty" by code_simp
  then show ?thesis
    unfolding docP_def snapshotDoc_def
    by (intro json_ok_jobject)
      (simp add: utf8_idAbc kSnapshotFormatVersion_def payloadToJson_ok payload_ok_def empty_payload_def
        smap_simps json_ok_jobject noReason_def)
qed

lemma two_storable:
  assumes "headLocked d = Some idEmpty" "verified twoLib d idAbc = None \<or> d = twoDir"
  shows "storable twoLib empty_payload Manual noReason 1 d"
proof -
  have "snap_payload s = empty_payload" if "verified twoLib d idAbc = Some s" for s
    using that assms(2) two_verified(1) by auto
  then show ?thesis
    using docP_ok two_dump
    by (simp add: storable_def two_ids assms(1) docP_def [symmetric] kJsonMaxBytes_def)
      (simp add: payload_ok_def empty_payload_def smap_simps)
qed

lemma two_removed:
  "headLocked (snd (store_remove twoLib now idAbc twoDir)) = Some idEmpty"
  "verified twoLib (snd (store_remove twoLib now idAbc twoDir)) idAbc = None"
proof -
  obtain sp where sp: "verified twoLib twoDir idAbc = Some sp" using two_verified(1) by blast
  have "headLocked twoDir \<noteq> Some idAbc" "dir_faults twoDir = []" by (simp_all add: two_head) (simp add: twoDir_def)
  then obtain d1 where d1: "store_remove twoLib now idAbc twoDir = (Inr (), d1)"
    "\<And>m. file_content d1 m = (if m = snapshotFileName idAbc then None else file_content twoDir m)"
    using remove_other [OF sp] by metis
  show "headLocked (snd (store_remove twoLib now idAbc twoDir)) = Some idEmpty"
    using headLocked_cong [of d1 twoDir] d1 two_head by simp
  show "verified twoLib (snd (store_remove twoLib now idAbc twoDir)) idAbc = None"
    using d1 by (simp add: verified_def file_exists_content)
qed

lemma manual_snapshots_survive_witness:
  "\<exists>s. store_read twoLib 3 idEmpty (snd (store_put twoLib 3 empty_payload Manual noReason 1 twoDir))
    = (Inr s, snd (store_put twoLib 3 empty_payload Manual noReason 1 twoDir))"
  using manual_snapshots_survive [OF twoLib_ok two_store_ok two_storable [OF two_head]] two_verified(2)
  by blast

lemma delete_strands_head_witness:
  "\<exists>d1 d2 e. store_remove twoLib 3 idAbc twoDir = (Inr (), d1) \<and> store_remove twoLib 3 idEmpty d1 = (Inr (), d2) \<and>
    headLocked d2 = Some idAbc \<and>
    store_put twoLib 3 empty_payload Auto noReason 4 d2 = (Inr idAbc, d2) \<and>
    store_read twoLib 3 idAbc d2 = (Inl e, d2)"
proof -
  obtain sp where sp: "verified twoLib twoDir idAbc = Some sp" "snap_payload sp = empty_payload"
    using two_verified(1) by blast
  obtain sq where sq: "verified twoLib twoDir idEmpty = Some sq" "meta_parent (snap_meta sq) = Some idAbc"
    using two_verified(2) by blast
  have "dir_faults twoDir = []" by (simp add: twoDir_def)
  from delete_strands_head [OF two_store_ok this two_head sq sp(1) idAbc_neq_idEmpty(1)]
  show ?thesis unfolding sp(2) .
qed

lemma restored_payload_makes_cycle_witness:
  "\<exists>d2 sp' sq. store_read twoLib 3 idAbc d2 = (Inr sp', d2) \<and> store_read twoLib 3 idEmpty d2 = (Inr sq, d2) \<and>
    meta_parent (snap_meta sp') = Some idEmpty \<and> meta_parent (snap_meta sq) = Some idAbc"
proof -
  obtain sp where sp: "verified twoLib twoDir idAbc = Some sp" "snap_payload sp = empty_payload"
    using two_verified(1) by blast
  obtain sq where sq: "verified twoLib twoDir idEmpty = Some sq" "meta_parent (snap_meta sq) = Some idAbc"
    "meta_trigger (snap_meta sq) = Manual"
    using two_verified(2) by blast
  have f: "dir_faults twoDir = []" by (simp add: twoDir_def)
  have st: "storable twoLib (snap_payload sp) Manual noReason 1 (snd (store_remove twoLib 3 idAbc twoDir))"
    unfolding sp(2) using two_storable two_removed by blast
  from restored_payload_makes_cycle [OF twoLib_ok two_store_ok f two_head sq sp(1) idAbc_neq_idEmpty(1) st]
  show ?thesis by blast
qed

lemma read_verifies_and_preserves_witness:
  "\<exists>s. store_read twoLib 3 idAbc twoDir = (Inr s, twoDir) \<and> payloadId twoLib (snap_payload s) = idAbc"
proof -
  obtain s where "verified twoLib twoDir idAbc = Some s" using two_verified(1) by blast
  then have "store_read twoLib 3 idAbc twoDir = (Inr s, twoDir)"
    by (simp add: store_read_def verified_read)
  with read_verifies_and_preserves [OF this] show ?thesis by auto
qed

lemma docR_ok: "json_ok docR"
proof -
  have "utf8 idEmpty" by code_simp
  then show ?thesis
    unfolding docR_def snapshotDoc_def restoreReason_def
    by (intro json_ok_jobject)
      (simp add: utf8_idAbc kSnapshotFormatVersion_def payloadToJson_ok payload_oks json_ok_jobject)
qed

lemma two_storable_R: "storable twoLib payloadQ Auto restoreReason 0 twoDir"
  using docR_ok two_dump_R two_verified(2) payload_oks
  by (auto simp: storable_def two_ids two_head docR_def [symmetric] kJsonMaxBytes_def)

subsection \<open>A quarantined twin\<close>

text \<open>A snapshot that was damaged once and stored again has two files: its own and the quarantined one,
  which the listing also reports, under the same id. When the directory is read in an order that
  has the quarantined file first, the snapshot HEAD names is listed as corrupt and in no other
  way, although it reads and verifies.\<close>

lemma quarantined_twin_hides_head:
  assumes "store_ok lib d" "headLocked d = Some i" "verified lib d i = Some s"
    and "map fst (dir_files d) = (snapshotFileName i @ ''.bad-'' @ suffix) # names" "CHR ''.'' \<notin> set i"
    and "stringField (parseFile lib d (snapshotFileName i @ ''.bad-'' @ suffix)) ''id'' = None"
    and "\<not> ends_with suffix ''.tmp''" "length suffix \<ge> 4"
    and "store_list lib now d = (ms, d')"
  shows "store_read lib now i d = (Inr s, d) \<and> ms \<noteq> [] \<and> meta_id (hd ms) = i \<and>
    (\<forall>m \<in> set ms. meta_id m = i \<longrightarrow> meta_health m = Corrupt)"
proof -
  define bad where "bad = snapshotFileName i @ ''.bad-'' @ suffix"
  note assms4 = assms(4,6) [folded bad_def]
  have id: "idFromFileName bad = i"
    using assms(5) unfolding bad_def
    by (induction i) (auto simp: idFromFileName_def snapshotFileName_def starts_with_def)
  have c: "contains bad ''.bad-''" unfolding contains_iff bad_def by blast
  have h: "bad \<noteq> ''HEAD''" by (cases i) (auto simp: bad_def snapshotFileName_def)
  have "\<not> ends_with ((snapshotFileName i @ ''.bad-'') @ suffix) ''.tmp''"
    using assms(7,8) unfolding ends_with_def drop_append length_append by (simp add: numeral_eq_Suc)
  then have t: "\<not> ends_with bad ''.tmp''" by (simp add: bad_def)
  define m0 where "m0 = (bestEffortMeta (parseFile lib d bad) i)\<lparr>meta_health := Corrupt\<rparr>"
  obtain ms0 where "scanNames lib now names d = (ms0, d)"
    using scanNames_unchanged [OF assms(1), of now names] by (metis prod.collapse)
  then have sc: "scanLocked lib now d = (m0 # ms0, d)"
    using c h t id by (simp add: scanLocked_def assms4(1) m0_def)
  have mid: "meta_id m0 = i" using assms4(2) by (simp add: m0_def bestEffortMeta_def value_or_def Let_def)
  have ms: "ms = orderNewestFirst (m0 # ms0) (Some i)"
    using assms(9) sc assms(2) by (simp add: store_list_def)
  have "i \<in> meta_id ` set (m0 # ms0)" using mid by simp
  from orderNewestFirst_head [OF this] obtain m rest where
    o: "orderNewestFirst (m0 # ms0) (Some i) = m # rest" "meta_id m = i" "i \<notin> meta_id ` set rest"
      "find (\<lambda>m. meta_id m = i) (m0 # ms0) = Some m" by blast
  have "m = m0" using o(4) mid by simp
  then have "meta_health m = Corrupt" by (simp add: m0_def)
  moreover have "x = m" if "x \<in> set (m # rest)" "meta_id x = i" for x
    using that o(3) by auto
  ultimately show ?thesis
    using o(2) verified_read [OF assms(3)] unfolding ms o(1) store_read_def by (metis list.distinct(1) list.sel(1))
qed

definition twinDir :: dir where
  "twinDir = twoDir\<lparr>dir_files := (snapshotFileName idEmpty @ ''.bad-1700'', ''?'') # dir_files twoDir\<rparr>"

lemma twin_content: "file_content twinDir n = (if n = snapshotFileName idEmpty @ ''.bad-1700'' then Some ''?'' else file_content twoDir n)"
  by (simp add: twinDir_def file_content_def)

lemma quarantined_twin_hides_head_witness:
  "\<exists>ms d' s. store_list twoLib 0 twinDir = (ms, d') \<and> store_read twoLib 0 idEmpty twinDir = (Inr s, twinDir) \<and>
     meta_health (hd ms) = Corrupt"
proof -
  let ?bad = "snapshotFileName idEmpty @ ''.bad-1700''"
  have nd: "CHR ''.'' \<notin> set idEmpty"
    by (simp add: idEmpty_def)
  have other: "?bad \<noteq> snapshotFileName j" "?bad \<noteq> ''HEAD''" for j
    by (auto simp: snapshotFileName_def append_eq_append_conv2)
  have ver: "verified twoLib twinDir j = verified twoLib twoDir j" for j
    unfolding verified_def parseFile_def twin_content using other(1) [of j]
    by (simp add: file_exists_def twinDir_def)
  have ex: "file_exists twinDir (snapshotFileName j) = file_exists twoDir (snapshotFileName j)" for j
    using other(1) [of j] by (simp add: file_exists_def twinDir_def)
  have head: "headLocked twinDir = Some idEmpty"
    using two_head other(2) by (simp add: headLocked_def twin_content)
  have "?bad \<notin> set (map fst (dir_files twoDir))"
    using other by (simp add: twoDir_def)
  then have ok: "store_ok twoLib twinDir"
    using two_store_ok unfolding store_ok_def ver ex head two_head by (simp add: twinDir_def)
  obtain s where s: "verified twoLib twinDir idEmpty = Some s" using two_verified(2) ver by auto
  have "stringField (parseFile twoLib twinDir ?bad) ''id'' = None"
    by (simp add: parseFile_def twin_content kJsonMaxBytes_def twoLib_def wit_lib_def wit_parse_def stringField_def)
  moreover have "map fst (dir_files twinDir) = (snapshotFileName idEmpty @ ''.bad-'' @ ''1700'') # map fst (dir_files twoDir)"
    by (simp add: twinDir_def)
  moreover have "\<not> ends_with ''1700'' ''.tmp''" by code_simp
  moreover obtain ms d' where l: "store_list twoLib 0 twinDir = (ms, d')" by fastforce
  ultimately have "store_read twoLib 0 idEmpty twinDir = (Inr s, twinDir) \<and> ms \<noteq> [] \<and> meta_id (hd ms) = idEmpty \<and>
      (\<forall>m \<in> set ms. meta_id m = idEmpty \<longrightarrow> meta_health m = Corrupt)"
    using quarantined_twin_hides_head [OF ok head s, of "''1700''" "map fst (dir_files twoDir)" 0 ms d'] nd by simp
  then show ?thesis using l by auto
qed

end
