(* ===== verification/Snapshot_Service_Facts.thy ===== *)
theory Snapshot_Service_Facts
  imports Snapshot_Service Snapshot_Store_Limits
begin

text \<open>
  What a restore guarantees: it verifies before it mutates, every change it makes to the hardware is
  an enable or a disable the guard allows at that moment, it leaves the recorded entries and the
  owned files of the snapshot, and the state before it can be read back from its safety snapshot.
\<close>

subsection \<open>Every hardware change is guarded\<close>

lemma setEnabled_guarded_enable: "guarded_run env h (snd (env_setEnabled env p True hint h))"
  by (rule guarded_run_one, rule guarded_step.enable) (rule surjective_pairing)

lemma reEnableRemoved_guarded: "guarded_run env h (snd (reEnableRemoved env ds target pre h))"
proof (induction pre arbitrary: h)
  case Nil
  show ?case by (simp add: guarded_run.none)
next
  case (Cons e pre)
  let ?path = "resolvePathFor env h e ds"
  obtain r h1 where s: "env_setEnabled env ?path True (ent_lastDriver e) h = (r, h1)" by fastforce
  have step: "guarded_run env h h1"
    using setEnabled_guarded_enable [of env h ?path "ent_lastDriver e"] s by simp
  show ?case
    using Cons.IH [of h] guarded_run_trans [OF step Cons.IH [of h1]] s
    by (auto simp: Let_def split: prod.split)
qed

lemma reApplyOne_guarded: "guarded_run env h (snd (snd (reApplyOne lib env e d (st, h))))"
proof (cases "env_probe env h")
  case (Inr facts)
  obtain r h1 where s: "env_setEnabled env (dev_sysfsPath d) False [] h = (r, h1)" by fastforce
  have "guarded_run env h h1" if "gv_allowed (evaluateDisable facts (dev_sysfsPath d))"
    using guarded_step.disable [OF Inr that s] by (rule guarded_run_one)
  then show ?thesis
    using s Inr
    by (auto simp: reApplyOne_def Let_def guarded_run.none split: prod.splits sum.splits)
qed (simp add: reApplyOne_def Let_def guarded_run.none)

lemma reApplyRestored_guarded: "guarded_run env h (snd (snd (reApplyRestored lib env ds es (st, h))))"
proof (induction es arbitrary: st h)
  case Nil
  show ?case by (simp add: guarded_run.none)
next
  case (Cons e es)
  show ?case
  proof (cases "matchEntry e ds = None \<and> (ent_lastSysfsPath e = [] \<or> \<not> env_isDirectory env (ent_lastSysfsPath e) h)")
    case True
    then show ?thesis using Cons [of h st] by (auto split: prod.splits)
  next
    case False
    define d where "d = (case matchEntry e ds of Some d \<Rightarrow> d | None \<Rightarrow> deviceFromSysfs env h (ent_lastSysfsPath e))"
    obtain i st1 h1 where one: "reApplyOne lib env e d (st, h) = (i, st1, h1)"
      by (metis prod_cases3)
    have "snd (snd (reApplyRestored lib env ds (e # es) (st, h)))
        = snd (snd (reApplyRestored lib env ds es (st1, h1)))"
      using False one by (auto simp: d_def split: option.splits prod.splits)
    moreover have "guarded_run env h h1" using reApplyOne_guarded [of env h lib e d st] one by simp
    ultimately show ?thesis using Cons [of h1 st1] guarded_run_trans by metis
  qed
qed

subsection \<open>The stages of a restore\<close>

lemma svc_read_Inr:
  assumes "svc_read lib env i dm = (Inr snap, dm1)"
  shows "dm1 = dm" "store_read lib (env_now env (dm_hw dm)) i (dm_snaps dm) = (Inr snap, dm_snaps dm)"
  using assms readLocked_Inr(1) by (auto simp: svc_read_def store_read_def split: prod.splits)

lemma svc_read_other:
  "svc_read lib env i dm = (r, dm1) \<Longrightarrow> dm_hw dm1 = dm_hw dm \<and> dm_state dm1 = dm_state dm \<and> dm_modprobe dm1 = dm_modprobe dm"
  by (auto simp: svc_read_def split: prod.splits)

lemma put_snapshot_other:
  "put_snapshot lib env p t rs dm = (r, dm1) \<Longrightarrow>
     dm_hw dm1 = dm_hw dm \<and> dm_state dm1 = dm_state dm \<and> dm_modprobe dm1 = dm_modprobe dm"
  by (auto simp: put_snapshot_def Let_def split: prod.splits)

text \<open>The four ways a restore ends.\<close>

lemma svc_restore_cases:
  assumes "svc_restore lib env i dm = (r, dm')"
  obtains (unreadable) e where "r = Inl e" "svc_read lib env i dm = (Inl e, dm')"
  | (unsafe) snap e where "r = Inl e" "svc_read lib env i dm = (Inr snap, dm)"
      "put_snapshot lib env (capturePayload dm) Auto \<lparr>rsn_verb = ''SnapshotRestore'', rsn_subject = i\<rparr> dm = (Inl e, dm')"
  | (unsaved) snap safety dm2 e st where "r = Inl e" "svc_read lib env i dm = (Inr snap, dm)"
      "put_snapshot lib env (capturePayload dm) Auto \<lparr>rsn_verb = ''SnapshotRestore'', rsn_subject = i\<rparr> dm = (Inr safety, dm2)"
      "ss_replaceAll lib (pl_entries (snap_payload snap)) (dm_state dm) = (Inl e, st)" "dm' = dm2\<lparr>dm_state := st\<rparr>"
  | (converged) snap safety dm2 st items1 mp items2 h1 items3 st1 h2 where
      "r = Inr \<lparr>ro_snapshotId = i, ro_safetySnapshotId = safety, ro_items = items1 @ items2 @ items3\<rparr>"
      "svc_read lib env i dm = (Inr snap, dm)"
      "put_snapshot lib env (capturePayload dm) Auto \<lparr>rsn_verb = ''SnapshotRestore'', rsn_subject = i\<rparr> dm = (Inr safety, dm2)"
      "ss_replaceAll lib (pl_entries (snap_payload snap)) (dm_state dm) = (Inr (), st)"
      "writeBackModprobe (capturePayload dm) (snap_payload snap) (dm_modprobe dm) = (items1, mp)"
      "reEnableRemoved env (enumerated env (dm_hw dm)) (pl_entries (snap_payload snap))
         (pl_entries (capturePayload dm)) (dm_hw dm) = (items2, h1)"
      "reApplyRestored lib env (enumerated env h1) (ss_entries st) (st, h1) = (items3, st1, h2)"
      "dm' = dm2\<lparr>dm_state := st1, dm_modprobe := mp, dm_hw := h2\<rparr>"
proof -
  obtain r1 dm1 where rd: "svc_read lib env i dm = (r1, dm1)" by fastforce
  show thesis
  proof (cases r1)
    case (Inl e)
    then show thesis using assms rd by (intro unreadable [of e]) (auto simp: svc_restore_def)
  next
    case (Inr snap)
    have dm1: "dm1 = dm" using svc_read_Inr(1) [OF rd [unfolded Inr]] .
    obtain r2 dm2 where put: "put_snapshot lib env (capturePayload dm) Auto
        \<lparr>rsn_verb = ''SnapshotRestore'', rsn_subject = i\<rparr> dm = (r2, dm2)" by fastforce
    show thesis
    proof (cases r2)
      case (Inl e)
      then show thesis using assms rd Inr dm1 put by (intro unsafe [of e snap]) (auto simp: svc_restore_def)
    next
      case (Inr safety)
      have st2: "dm_state dm2 = dm_state dm" "dm_modprobe dm2 = dm_modprobe dm" "dm_hw dm2 = dm_hw dm"
        using put_snapshot_other [OF put] by auto
      obtain r3 st where rep: "ss_replaceAll lib (pl_entries (snap_payload snap)) (dm_state dm) = (r3, st)" by fastforce
      show thesis
      proof (cases r3)
        case (Inl e)
        then show thesis using assms rd \<open>r1 = Inr snap\<close> dm1 put Inr rep st2
          by (intro unsaved [of e snap safety dm2 st]) (auto simp: svc_restore_def)
      next
        case (Inr u)
        obtain items1 mp where "writeBackModprobe (capturePayload dm) (snap_payload snap) (dm_modprobe dm) = (items1, mp)"
          by fastforce
        moreover obtain items2 h1 where "reEnableRemoved env (enumerated env (dm_hw dm)) (pl_entries (snap_payload snap))
         (pl_entries (capturePayload dm)) (dm_hw dm) = (items2, h1)" by fastforce
        moreover obtain items3 st1 h2 where "reApplyRestored lib env (enumerated env h1) (ss_entries st) (st, h1) = (items3, st1, h2)"
          by (metis prod_cases3)
        ultimately show thesis
          using assms rd \<open>r1 = Inr snap\<close> dm1 put \<open>r2 = Inr safety\<close> rep Inr st2
          by (intro converged [of safety items1 items2 items3 snap dm2 st mp h1 st1 h2])
            (auto simp: svc_restore_def)
      qed
    qed
  qed
qed

text \<open>C4: a restore changes the hardware only by enabling devices and by disabling devices that the
  guard, probed at that moment, allows; whatever the snapshot says, a device the guard refuses is
  never disabled.\<close>

lemma restore_is_guarded:
  "guarded_run env (dm_hw dm) (dm_hw (snd (svc_restore lib env i dm)))"
proof -
  obtain r dm' where run: "svc_restore lib env i dm = (r, dm')" by fastforce
  then show ?thesis
  proof (cases rule: svc_restore_cases)
    case (unreadable e)
    then show ?thesis using svc_read_other [OF unreadable(2)] by (simp add: run guarded_run.none)
  next
    case (unsafe snap e)
    then show ?thesis using put_snapshot_other [OF unsafe(3)] by (simp add: run guarded_run.none)
  next
    case (unsaved snap safety dm2 e st)
    then show ?thesis using put_snapshot_other [OF unsaved(3)] by (simp add: run guarded_run.none)
  next
    case (converged snap safety dm2 st items1 mp items2 h1 items3 st1 h2)
    have "guarded_run env (dm_hw dm) h1"
      using reEnableRemoved_guarded [of env "dm_hw dm"] converged(6) by (metis snd_conv)
    moreover have "guarded_run env h1 h2"
      using reApplyRestored_guarded [of env h1] converged(7) by (metis snd_conv)
    ultimately have "guarded_run env (dm_hw dm) h2" by (rule guarded_run_trans)
    then show ?thesis by (simp add: run converged(8))
  qed
qed

subsection \<open>What is restored\<close>

text \<open>The part of an entry that convergence never rewrites.\<close>

definition entry_core :: "disabled_entry \<Rightarrow> disabled_entry" where
  "entry_core e = e\<lparr>ent_lastSysfsPath := [], ent_guardSuspended := False\<rparr>"

lemma updateFirst_core:
  "updateFirst k f es = Some es' \<Longrightarrow> (\<And>e. entry_core (f e) = entry_core e) \<Longrightarrow>
     map entry_core es' = map entry_core es"
  by (induction es arbitrary: es') (auto split: if_splits)

lemma setGuardSuspended_core:
  "map entry_core (ss_entries (snd (ss_setGuardSuspended lib k b st))) = map entry_core (ss_entries st)"
  using updateFirst_core [of k "\<lambda>e. e\<lparr>ent_guardSuspended := b\<rparr>" "ss_entries st"]
  by (auto simp: setGuardSuspended_entries entry_core_def split: option.split)

lemma setLastSysfsPath_core:
  "map entry_core (ss_entries (snd (ss_setLastSysfsPath lib k p st))) = map entry_core (ss_entries st)"
  using updateFirst_core [of k "\<lambda>e. e\<lparr>ent_lastSysfsPath := p\<rparr>" "ss_entries st"]
  by (auto simp: setLastSysfsPath_entries entry_core_def split: option.split)

lemma reApplyOne_core:
  "map entry_core (ss_entries (fst (snd (reApplyOne lib env e d (st, h))))) = map entry_core (ss_entries st)"
proof (cases "env_probe env h")
  case (Inr facts)
  obtain r h1 where s: "env_setEnabled env (dev_sysfsPath d) False [] h = (r, h1)" by fastforce
  obtain r2 st2 where g: "ss_setGuardSuspended lib (ent_key e) True st = (r2, st2)" by fastforce
  have "map entry_core (ss_entries st2) = map entry_core (ss_entries st)"
    using setGuardSuspended_core [of lib "ent_key e" True st] g by simp
  then show ?thesis
    using Inr s g by (cases r; cases r2)
      (auto simp: reApplyOne_def Let_def setGuardSuspended_core setLastSysfsPath_core)
qed (simp add: reApplyOne_def Let_def)

lemma reApplyRestored_core:
  "map entry_core (ss_entries (fst (snd (reApplyRestored lib env ds es (st, h))))) = map entry_core (ss_entries st)"
proof (induction es arbitrary: st h)
  case (Cons e es)
  show ?case
  proof (cases "matchEntry e ds = None \<and> (ent_lastSysfsPath e = [] \<or> \<not> env_isDirectory env (ent_lastSysfsPath e) h)")
    case True
    then show ?thesis using Cons [of st h] by (auto split: prod.splits)
  next
    case False
    define d where "d = (case matchEntry e ds of Some d \<Rightarrow> d | None \<Rightarrow> deviceFromSysfs env h (ent_lastSysfsPath e))"
    obtain i st1 h1 where one: "reApplyOne lib env e d (st, h) = (i, st1, h1)"
      by (metis prod_cases3)
    have "fst (snd (reApplyRestored lib env ds (e # es) (st, h)))
        = fst (snd (reApplyRestored lib env ds es (st1, h1)))"
      using False one by (auto simp: d_def split: option.splits prod.splits)
    then show ?thesis using Cons [of st1 h1] reApplyOne_core [of lib env e d st h] one by simp
  qed
qed simp

subsubsection \<open>Files\<close>

lemma capture_owned: "f \<in> set (pl_modprobeFiles (capturePayload dm)) \<Longrightarrow> isDevmgrOwned (fst f)"
  using set_smap_of [of "filter (\<lambda>f. isDevmgrOwned (fst f)) (dir_files (dm_modprobe dm))"]
  by (auto simp: capturePayload_def)

lemma capture_lookup:
  assumes "distinct (map fst (dir_files (dm_modprobe dm)))"
  shows "map_of (pl_modprobeFiles (capturePayload dm)) n =
    (if isDevmgrOwned n then file_content (dm_modprobe dm) n else None)"
proof -
  let ?fs = "filter (\<lambda>f. isDevmgrOwned (fst f)) (dir_files (dm_modprobe dm))"
  have "distinct (map fst ?fs)" using assms by (simp add: distinct_map_filter)
  then have "map_of (rev ?fs) = map_of ?fs"
    by (intro map_of_inject_set [THEN iffD2]) (auto simp: rev_map [symmetric])
  moreover have "map_of (filter (\<lambda>f. isDevmgrOwned (fst f)) fs) n = (if isDevmgrOwned n then map_of fs n else None)"
    for fs :: "(string \<times> string) list"
    by (induction fs) auto
  ultimately show ?thesis by (simp add: capturePayload_def map_of_smap_of file_content_def)
qed

lemma owned_not_tmp: "isDevmgrOwned n \<Longrightarrow> n \<noteq> tmpName m"
  using append_neq_last [of "''.conf''" "''.tmp''"] by (auto simp: isDevmgrOwned_def tmpName_def text_simps)

lemma removeStale_other:
  assumes "n \<notin> fst ` set pre"
  shows "file_content (snd (removeStale pre target d)) n = file_content d n"
  using assms
proof (induction pre arbitrary: d)
  case (Cons f pre)
  show ?case
    using Cons.IH [of d] Cons.IH [of "snd (dirRemove d (fst f))"] Cons.prems dirRemove_content [of d "fst f" n]
    by (auto split: prod.split)
qed simp

lemma removeStale_faultless:
  assumes "dir_faults d = []"
  shows "file_content (snd (removeStale pre target d)) n =
      (if n \<in> fst ` set pre \<and> map_of target n = None then None else file_content d n) \<and>
    dir_faults (snd (removeStale pre target d)) = [] \<and>
    list_all (\<lambda>i. ri_status i = ''ok'') (fst (removeStale pre target d))"
  using assms
proof (induction pre arbitrary: d)
  case (Cons f pre)
  let ?d = "set_files (dropFault d) (files_remove (fst f) (dir_files d))"
  have r: "dirRemove d (fst f) = (None, ?d)"
    using Cons.prems by (simp add: dirRemove_def nextFault_def)
  have "dir_faults ?d = []" using Cons.prems by (simp add: set_files_def dropFault_def)
  from Cons.IH [OF this] Cons.IH [OF Cons.prems] show ?case
    by (auto simp: r item_def file_simps file_content_def split: prod.split) (metis fst_conv imageI)+
qed simp

lemma writeFiles_other:
  assumes "n \<notin> fst ` set target" "\<And>f. f \<in> set target \<Longrightarrow> n \<noteq> tmpName (fst f)"
  shows "file_content (snd (writeFiles pre target d)) n = file_content d n"
  using assms
proof (induction target arbitrary: d)
  case (Cons f target)
  obtain r d1 where w: "atomicWriteFile d (fst f) (snd f) = (r, d1)" by fastforce
  have "file_content d1 n = file_content d n"
    using Cons.prems by (intro atomicWriteFile_other [OF w]) auto
  then show ?case
    using Cons.IH [of d] Cons.IH [of d1] Cons.prems w by (auto split: prod.split)
qed simp

lemma writeFiles_faultless:
  assumes "dir_faults d = []" "distinct (map fst target)" "\<And>f. f \<in> set target \<Longrightarrow> isDevmgrOwned (fst f)"
    and "\<And>f. f \<in> set target \<Longrightarrow> map_of pre (fst f) = Some (snd f) \<Longrightarrow> file_content d (fst f) = Some (snd f)"
    and "f \<in> set target"
  shows "file_content (snd (writeFiles pre target d)) (fst f) = Some (snd f) \<and>
    list_all (\<lambda>i. ri_status i = ''ok'') (fst (writeFiles pre target d))"
  using assms
proof (induction target arbitrary: d f)
  case (Cons g target)
  obtain r d1 where w: "atomicWriteFile d (fst g) (snd g) = (r, d1)" by fastforce
  have ok: "r = Inr ()"
    using atomicWriteFile_ok_iff [of d "fst g" "snd g"] w Cons.prems(1)
    by (cases r) (simp_all add: nextFault_def)
  have faults: "dir_faults d1 = []" using atomicWriteFile_dir(2) [OF w] Cons.prems(1) by simp
  have written: "file_content d1 (fst g) = Some (snd g)" using atomicWriteFile_ok [OF w [unfolded ok]] .
  define d2 where "d2 = (if map_of pre (fst g) = Some (snd g) then d else d1)"
  have d2: "dir_faults d2 = []" "file_content d2 (fst g) = Some (snd g)"
    using faults Cons.prems(1,4) written by (auto simp: d2_def)
  have keep: "file_content d2 (fst f) = Some (snd f)"
    if "f \<in> set target" "map_of pre (fst f) = Some (snd f)" for f
  proof -
    have "fst f \<in> fst ` set target" using that(1) by (rule imageI)
    moreover have "fst g \<notin> fst ` set target" using Cons.prems(2) by simp
    ultimately have "fst f \<noteq> fst g" by metis
    moreover have "isDevmgrOwned (fst f)" using that(1) Cons.prems(3) by simp
    ultimately have "file_content d1 (fst f) = file_content d (fst f)"
      by (intro atomicWriteFile_other [OF w]) (auto simp: owned_not_tmp)
    then show ?thesis using that Cons.prems(4) by (auto simp: d2_def)
  qed
  have rest: "snd (writeFiles pre (g # target) d) = snd (writeFiles pre target d2)"
    "list_all (\<lambda>i. ri_status i = ''ok'') (fst (writeFiles pre (g # target) d))
      \<longleftrightarrow> list_all (\<lambda>i. ri_status i = ''ok'') (fst (writeFiles pre target d2))"
    using w ok by (auto simp: d2_def item_def split: prod.split)
  have IH: "file_content (snd (writeFiles pre target d2)) (fst f) = Some (snd f) \<and>
      list_all (\<lambda>i. ri_status i = ''ok'') (fst (writeFiles pre target d2))" if "f \<in> set target" for f
  proof (rule Cons.IH [OF d2(1) _ _ keep that])
    show "distinct (map fst target)" using Cons.prems(2) by simp
    show "isDevmgrOwned (fst f)" if "f \<in> set target" for f using Cons.prems(3) that by simp
  qed
  have "isDevmgrOwned (fst g)" "fst g \<notin> fst ` set target" using Cons.prems(2,3) by simp_all
  then have head: "file_content (snd (writeFiles pre target d2)) (fst g) = Some (snd g)"
    using writeFiles_other [of "fst g" target pre d2] d2(2) owned_not_tmp by simp
  show ?case
  proof (cases target)
    case Nil
    then show ?thesis using Cons.prems(5) head rest by simp
  next
    case (Cons t ts)
    then have "list_all (\<lambda>i. ri_status i = ''ok'') (fst (writeFiles pre target d2))"
      using IH [of t] by simp
    then show ?thesis using Cons.prems(5) head rest IH by auto
  qed
qed simp

lemma writeFiles_ok_items:
  "dir_faults d = [] \<Longrightarrow> list_all (\<lambda>i. ri_status i = ''ok'') (fst (writeFiles pre target d))"
proof (induction target arbitrary: d)
  case (Cons g target)
  obtain r d1 where w: "atomicWriteFile d (fst g) (snd g) = (r, d1)" by fastforce
  have ok: "r = Inr ()"
    using atomicWriteFile_ok_iff [of d "fst g" "snd g"] w Cons.prems
    by (cases r) (simp_all add: nextFault_def)
  have "dir_faults d1 = []" using atomicWriteFile_dir(2) [OF w] Cons.prems by simp
  from Cons.IH [OF this] Cons.IH [OF Cons.prems] show ?case
    by (simp add: w ok item_def case_prod_beta)
qed simp

lemma writeBack_other:
  assumes "\<not> isDevmgrOwned n" "list_all (\<lambda>f. isDevmgrOwned (fst f) \<and> n \<noteq> tmpName (fst f)) (pl_modprobeFiles target)"
  shows "file_content (snd (writeBackModprobe (capturePayload dm) target d)) n = file_content d n"
proof -
  let ?pre = "pl_modprobeFiles (capturePayload dm)" and ?t = "pl_modprobeFiles target"
  have t: "isDevmgrOwned (fst f)" "n \<noteq> tmpName (fst f)" if "f \<in> set ?t" for f
    using that assms(2) by (simp_all add: list_all_iff)
  have "n \<notin> fst ` set ?pre" "n \<notin> fst ` set ?t"
    using capture_owned assms(1) t(1) by (metis imageE)+
  from removeStale_other [OF this(1), of ?t d] writeFiles_other [OF this(2) t(2), of ?pre]
  have "file_content (snd (writeFiles ?pre ?t (snd (removeStale ?pre ?t d)))) n = file_content d n"
    by simp
  then show ?thesis by (simp add: writeBackModprobe_def case_prod_beta)
qed

lemma writeBack_converges:
  assumes "dir_faults (dm_modprobe dm) = []" "distinct (map fst (dir_files (dm_modprobe dm)))"
    and "smap_ok (pl_modprobeFiles target)" "list_all (\<lambda>f. isDevmgrOwned (fst f)) (pl_modprobeFiles target)"
    and "isDevmgrOwned n"
  shows "file_content (snd (writeBackModprobe (capturePayload dm) target (dm_modprobe dm))) n
      = map_of (pl_modprobeFiles target) n"
    and "list_all (\<lambda>i. ri_status i = ''ok'') (fst (writeBackModprobe (capturePayload dm) target (dm_modprobe dm)))"
proof -
  let ?pre = "pl_modprobeFiles (capturePayload dm)" and ?t = "pl_modprobeFiles target"
  obtain items1 d1 where rs: "removeStale ?pre ?t (dm_modprobe dm) = (items1, d1)" by fastforce
  obtain items2 d2 where wf: "writeFiles ?pre ?t d1 = (items2, d2)" by fastforce
  have wb: "writeBackModprobe (capturePayload dm) target (dm_modprobe dm) = (items1 @ items2, d2)"
    by (simp add: writeBackModprobe_def rs wf)
  have r: "file_content d1 m = (if m \<in> fst ` set ?pre \<and> map_of ?t m = None then None else file_content (dm_modprobe dm) m)"
    "dir_faults d1 = []" "list_all (\<lambda>i. ri_status i = ''ok'') items1" for m
    using removeStale_faultless [OF assms(1), of ?pre ?t m] by (simp_all add: rs)
  show "list_all (\<lambda>i. ri_status i = ''ok'') (fst (writeBackModprobe (capturePayload dm) target (dm_modprobe dm)))"
    using r(3) writeFiles_ok_items [OF r(2), of ?pre ?t] by (simp add: wb wf)
  have dist: "distinct (map fst ?t)" using assms(3) by (rule smap_ok_distinct)
  have owned: "isDevmgrOwned (fst f)" if "f \<in> set ?t" for f using that assms(4) by (simp add: list_all_iff)
  have pre: "map_of ?pre m = (if isDevmgrOwned m then file_content (dm_modprobe dm) m else None)" for m
    by (rule capture_lookup [OF assms(2)])
  show "file_content (snd (writeBackModprobe (capturePayload dm) target (dm_modprobe dm))) n = map_of ?t n"
  proof (cases "map_of ?t n")
    case None
    then have "n \<notin> fst ` set ?t" by (simp add: map_of_eq_None_iff)
    moreover have "n \<noteq> tmpName (fst f)" for f :: "string \<times> string" using owned_not_tmp [OF assms(5)] by simp
    ultimately have "file_content d2 n = file_content d1 n"
      using writeFiles_other [of n ?t ?pre d1] by (simp add: wf)
    also have "\<dots> = None"
    proof (cases "n \<in> fst ` set ?pre")
      case False
      then have "map_of ?pre n = None" by (simp add: map_of_eq_None_iff)
      then show ?thesis using pre [of n] assms(5) r(1) by simp
    qed (use r(1) None in simp)
    finally show ?thesis by (simp add: wb None)
  next
    case (Some c)
    then have mem: "(n, c) \<in> set ?t" by (rule map_of_SomeD)
    have kept: "file_content d1 (fst f) = Some (snd f)" if "f \<in> set ?t" "map_of ?pre (fst f) = Some (snd f)" for f
    proof -
      have "map_of ?t (fst f) = Some (snd f)" using that(1) dist by simp
      then show ?thesis using that(2) pre [of "fst f"] r(1) by (simp split: if_splits)
    qed
    have "file_content (snd (writeFiles ?pre ?t d1)) (fst (n, c)) = Some (snd (n, c))"
      using writeFiles_faultless [OF r(2) dist owned kept mem] by blast
    then show ?thesis by (simp add: wb wf Some)
  qed
qed

subsection \<open>Restore, as a whole\<close>

text \<open>C9: a restore mutates nothing before its checks have passed: when the snapshot does not read or
  the safety snapshot cannot be stored, the error is returned and hardware, entries and
  \<open>modprobe.d\<close> are as they were; when the entries cannot be saved, hardware and
  \<open>modprobe.d\<close> are.\<close>

lemma restore_fails_closed:
  assumes "svc_restore lib env i dm = (Inl e, dm')"
  shows "dm_hw dm' = dm_hw dm \<and> dm_modprobe dm' = dm_modprobe dm \<and>
    (dm_state dm' = dm_state dm \<or>
     (\<exists>snap safety. svc_read lib env i dm = (Inr snap, dm) \<and>
        fst (put_snapshot lib env (capturePayload dm) Auto
          \<lparr>rsn_verb = ''SnapshotRestore'', rsn_subject = i\<rparr> dm) = Inr safety \<and>
        ss_replaceAll lib (pl_entries (snap_payload snap)) (dm_state dm) = (Inl e, dm_state dm')))"
  using assms
proof (cases rule: svc_restore_cases)
  case (unreadable e2)
  then show ?thesis using svc_read_other by blast
next
  case (unsafe snap e2)
  then show ?thesis using put_snapshot_other by blast
next
  case (unsaved snap safety dm2 e2 st)
  then show ?thesis using put_snapshot_other [OF unsaved(3)] by simp
next
  case (converged snap safety dm2 st items1 mp items2 h1 items3 st1 h2)
  then show ?thesis by simp
qed



subsection \<open>A restore on a concrete daemon\<close>

text \<open>Hardware without state: every directory exists, nothing is enumerated, every call succeeds.\<close>

definition idleEnv :: "unit env" where
  "idleEnv = \<lparr>env_enumerate = (\<lambda>h. Inr []),
     env_probe = (\<lambda>h. Inr \<lparr>rootBackingPaths = [''/sys/a/1''], bootBackingPaths = [], keyboardPaths = [], pointerPaths = []\<rparr>),
     env_setEnabled = (\<lambda>p e hint h. (Inr None, h)), env_bindDriver = (\<lambda>p n h. (Inr (), h)),
     env_unbindDriver = (\<lambda>p h. (Inr (), h)), env_loadModule = (\<lambda>n h. (Inr (), h)),
     env_unloadModule = (\<lambda>n h. (Inr (), h)), env_listLoaded = (\<lambda>h. Inr []),
     env_devicesUsing = (\<lambda>n h. Inr []), env_checkAuthorized = (\<lambda>c a h. (Inr True, h)),
     env_weaklyCanonical = (\<lambda>p h. Some p), env_isDirectory = (\<lambda>p h. True), env_exists = (\<lambda>p h. False),
     env_firstLine = (\<lambda>p h. []), env_now = (\<lambda>h. 0)\<rparr>"

text \<open>A daemon with the two snapshots whose live state is the newer one.\<close>

definition twoDaemon :: "unit daemon" where
  "twoDaemon = \<lparr>dm_hw = (), dm_state = sampleStore, dm_snaps = twoDir,
     dm_modprobe = \<lparr>dir_path = ''/m'', dir_files = [(''devmgr-a.conf'', ''x''), (''other.conf'', ''y'')], dir_faults = []\<rparr>\<rparr>"

lemma two_capture: "capturePayload twoDaemon = payloadQ"
  by (simp add: capturePayload_def twoDaemon_def payloadQ_def sampleStore_def isDevmgrOwned_def
      starts_with_def ends_with_def smap_of_def)

lemma two_restore:
  obtains snap dm' items where "svc_read twoLib idleEnv idAbc twoDaemon = (Inr snap, twoDaemon)"
    "snap_payload snap = empty_payload"
    "svc_restore twoLib idleEnv idAbc twoDaemon
       = (Inr \<lparr>ro_snapshotId = idAbc, ro_safetySnapshotId = idEmpty, ro_items = items\<rparr>, dm')"
proof -
  obtain snap where v: "verified twoLib twoDir idAbc = Some snap" "snap_payload snap = empty_payload"
    using two_verified(1) by blast
  have now: "env_now idleEnv h = 0" for h by (simp add: idleEnv_def)
  have rd: "svc_read twoLib idleEnv idAbc twoDaemon = (Inr snap, twoDaemon)"
    using verified_read [OF v(1)] by (simp add: svc_read_def store_read_def twoDaemon_def now)
  have put: "put_snapshot twoLib idleEnv payloadQ Auto \<lparr>rsn_verb = ''SnapshotRestore'', rsn_subject = idAbc\<rparr> twoDaemon
      = (Inr idEmpty, twoDaemon)"
    using two_head two_ids(2) by (simp add: put_snapshot_def store_put_def Let_def twoDaemon_def now)
  obtain r st where rep: "ss_replaceAll twoLib (pl_entries empty_payload) (dm_state twoDaemon) = (r, st)" by fastforce
  have "r = Inr ()"
    using rep atomicWriteFile_ok_iff [of "ss_dir sampleStore" stateFile]
    by (cases r) (auto simp: ss_replaceAll_def ss_save_def twoDaemon_def sampleStore_def nextFault_def split: prod.splits,
        metis fst_conv has_value.simps(1))
  then show thesis
    using that [OF rd v(2)] rd put rep v(2)
    by (auto simp: svc_restore_def two_capture Let_def case_prod_beta)
qed



definition deniedRead :: "unit daemon" where
  "deniedRead = twoDaemon\<lparr>dm_snaps := emptyDir\<rparr>"

lemma restore_fails_closed_witness:
  "\<exists>e dm'. svc_restore twoLib idleEnv idAbc deniedRead = (Inl e, dm') \<and> dm_modprobe dm' = dm_modprobe deniedRead"
proof -
  obtain e where e: "(missingSnapshotError emptyDir idAbc (snapshotFileName idAbc) :: snapshot result) = Inl e"
    using missing_is_error by blast
  have "\<not> file_exists emptyDir (snapshotFileName idAbc)" by (simp add: file_exists_def emptyDir_def)
  then have "readLocked twoLib now idAbc emptyDir = (Inl e, emptyDir)" for now
    by (simp add: readLocked_def e)
  then have "svc_restore twoLib idleEnv idAbc deniedRead = (Inl e, deniedRead)"
    by (simp add: svc_restore_def svc_read_def store_read_def deniedRead_def)
  from restore_fails_closed [OF this] this show ?thesis by blast
qed

end
