(* ===== verification/Paths.thy ===== *)
theory Paths
  imports Critical_Guard
begin

text \<open>
  What the code uses of \<^verbatim>\<open>std::filesystem::path\<close> beyond joining: the elements of a path and
  \<^verbatim>\<open>lexically_relative\<close>, on which the containment checks of \<^verbatim>\<open>request_processor.cpp\<close> and
  \<^verbatim>\<open>sysfs_device_controller.cpp\<close> rest.
\<close>

subsection \<open>Paths and their elements\<close>

text \<open>
  \<^verbatim>\<open>std::filesystem::path\<close> as its iterator sees it: the root directory, the names between
  slashes, and an empty element for a trailing slash.
\<close>

fun slashRuns :: "string \<Rightarrow> string \<Rightarrow> string list" where
  "slashRuns acc [] = (if acc = [] then [] else [acc])"
| "slashRuns acc (c # s) =
     (if c = CHR ''/'' then (if acc = [] then slashRuns [] s else acc # slashRuns [] s)
      else slashRuns (acc @ [c]) s)"

definition pathElems :: "string \<Rightarrow> string list" where
  "pathElems p =
     (let names = slashRuns [] p in
      (if starts_with p ''/'' then [''/''] else []) @ names @
      (if names \<noteq> [] \<and> ends_with p ''/'' then [[]] else []))"

fun stripCommon :: "string list \<Rightarrow> string list \<Rightarrow> string list \<times> string list" where
  "stripCommon (a # as) (b # bs) = (if a = b then stripCommon as bs else (a # as, b # bs))"
| "stripCommon as bs = (as, bs)"

text \<open>The elements of \<^verbatim>\<open>p.lexically_relative(base)\<close>; the empty list is the empty path.\<close>

definition climbs :: "string list \<Rightarrow> int" where
  "climbs bs = foldl (\<lambda>n e. if e = ''..'' then n - 1 else if e \<noteq> [] \<and> e \<noteq> ''.'' then n + 1 else n) 0 bs"

definition lexicallyRelative :: "string \<Rightarrow> string \<Rightarrow> string list" where
  "lexicallyRelative p base =
     (if starts_with p ''/'' \<noteq> starts_with base ''/'' then []
      else case stripCommon (pathElems p) (pathElems base) of
        (as, bs) \<Rightarrow>
          if as = [] \<and> bs = [] then [''.'']
          else if climbs bs < 0 then []
          else if climbs bs = 0 \<and> (as = [] \<or> hd as = []) then [''.'']
          else replicate (nat (climbs bs)) ''..'' @ as)"

subsection \<open>Containment\<close>

text \<open>A path as \<^verbatim>\<open>weakly_canonical\<close> documents it: absolute, without dot names, without a
  trailing slash.\<close>

definition pathName :: "string \<Rightarrow> bool" where
  "pathName n \<longleftrightarrow> n \<noteq> [] \<and> CHR ''/'' \<notin> set n \<and> n \<noteq> ''.'' \<and> n \<noteq> ''..''"

definition pathOf :: "string list \<Rightarrow> string" where
  "pathOf names = (if names = [] then ''/'' else concat (map ((#) (CHR ''/'')) names))"

definition canonicalPath :: "string \<Rightarrow> bool" where
  "canonicalPath p \<longleftrightarrow> starts_with p ''/'' \<and> list_all pathName (slashRuns [] p) \<and>
     p = pathOf (slashRuns [] p)"

lemma slashRuns_name: "CHR ''/'' \<notin> set n \<Longrightarrow> slashRuns acc (n @ s) = slashRuns (acc @ n) s"
  by (induction n arbitrary: acc) auto

lemma slashRuns_pathOf: "list_all pathName names \<Longrightarrow> slashRuns [] (concat (map ((#) (CHR ''/'')) names)) = names"
proof (induction names)
  case (Cons n names)
  then have n: "n \<noteq> []" "CHR ''/'' \<notin> set n" by (auto simp: pathName_def)
  have "slashRuns [] (CHR ''/'' # n @ concat (map ((#) (CHR ''/'')) names))
      = slashRuns n (concat (map ((#) (CHR ''/'')) names))"
    using slashRuns_name [OF n(2), of "[]"] by simp
  also have "\<dots> = n # slashRuns [] (concat (map ((#) (CHR ''/'')) names))"
    using n(1) by (cases names) auto
  finally show ?case using Cons by simp
qed simp

lemma canonicalPath_pathOf: "list_all pathName names \<Longrightarrow> canonicalPath (pathOf names)"
  using slashRuns_pathOf [of names]
  by (cases names) (auto simp: canonicalPath_def pathOf_def starts_with_def)

lemma pathElems_canonical:
  assumes "canonicalPath p"
  shows "pathElems p = ''/'' # slashRuns [] p"
proof -
  let ?ns = "slashRuns [] p"
  have p: "p = pathOf ?ns" and ns: "list_all pathName ?ns" and s: "starts_with p ''/''"
    using assms unfolding canonicalPath_def by blast+
  have "\<not> ends_with p ''/''" if "?ns \<noteq> []"
  proof -
    have l: "pathName (last ?ns)" using ns that by (simp add: list_all_iff)
    have "p = concat (map ((#) (CHR ''/'')) (butlast ?ns @ [last ?ns]))"
      using p that by (simp add: pathOf_def)
    then have "p = concat (map ((#) (CHR ''/'')) (butlast ?ns)) @ CHR ''/'' # last ?ns" by simp
    then have "last p = last (last ?ns)" using l
      by (metis last.simps last_appendR list.distinct(1) pathName_def)
    moreover have "last (last ?ns) \<noteq> CHR ''/''" using l last_in_set by (metis pathName_def)
    ultimately show ?thesis by (auto simp: ends_with_iff)
  qed
  then show ?thesis using s by (auto simp: pathElems_def Let_def)
qed

lemma stripCommon_prefix:
  "stripCommon as bs = (as', bs') \<Longrightarrow> \<exists>pre. as = pre @ as' \<and> bs = pre @ bs'"
proof (induction as bs rule: stripCommon.induct)
  case (1 a as b bs)
  show ?case
  proof (cases "a = b")
    case True
    with 1 obtain pre where "as = pre @ as'" "bs = pre @ bs'" by auto
    with True have "a # as = (a # pre) @ as' \<and> b # bs = (a # pre) @ bs'" by simp
    then show ?thesis by blast
  next
    case False
    with 1 show ?thesis by auto
  qed
qed auto

lemma climbs_names: "list_all pathName bs \<Longrightarrow> climbs bs = int (length bs)"
proof -
  assume a: "list_all pathName bs"
  have "foldl (\<lambda>n e. if e = ''..'' then n - 1 else if e \<noteq> [] \<and> e \<noteq> ''.'' then n + 1 else n) k bs
      = k + int (length bs)" for k
    using a by (induction bs arbitrary: k) (auto simp: pathName_def)
  then show ?thesis by (simp add: climbs_def)
qed

lemma join_head: "starts_with (join sep (x # xs)) x"
  by (cases xs) (simp_all add: starts_with_def)

text \<open>The check both components make.\<close>

lemma lexicallyRelative_contained:
  assumes "canonicalPath p" "canonicalPath root"
    and "lexicallyRelative p root \<noteq> []" "\<not> starts_with (join ''/'' (lexicallyRelative p root)) ''..''"
  shows "\<exists>rest. slashRuns [] p = slashRuns [] root @ rest"
proof -
  have s: "starts_with p ''/''" "starts_with root ''/''" using assms(1,2) by (auto simp: canonicalPath_def)
  obtain as bs where sc: "stripCommon (pathElems p) (pathElems root) = (as, bs)" by fastforce
  have "slashRuns [] p = slashRuns [] p" by simp
  obtain as' bs' where sc': "stripCommon (slashRuns [] p) (slashRuns [] root) = (as', bs')" by fastforce
  have eq: "as' = as" "bs' = bs" using sc sc' assms(1,2) by (simp_all add: pathElems_canonical)
  obtain pre where pre: "slashRuns [] p = pre @ as" "slashRuns [] root = pre @ bs"
    using stripCommon_prefix [OF sc'] eq by blast
  have "list_all pathName bs" using assms(2) pre(2) by (simp add: canonicalPath_def)
  then have c: "climbs bs = int (length bs)" by (rule climbs_names)
  have "bs = []"
  proof (rule ccontr)
    assume b: "bs \<noteq> []"
    then obtain n where n: "nat (climbs bs) = Suc n" using c by (metis length_0_conv nat_int not0_implies_Suc)
    have "0 < climbs bs" using b c by (cases bs) auto
    then have "lexicallyRelative p root = replicate (nat (climbs bs)) ''..'' @ as"
      using s sc b by (auto simp: lexicallyRelative_def)
    then have "lexicallyRelative p root = ''..'' # (replicate n ''..'' @ as)"
      unfolding n by simp
    then show False using assms(4) by (simp add: join_head)
  qed
  then show ?thesis using pre by auto
qed

lemma contained_isUnder:
  assumes "canonicalPath p" "canonicalPath root"
    and "lexicallyRelative p root \<noteq> []" "\<not> starts_with (join ''/'' (lexicallyRelative p root)) ''..''"
  shows "root = ''/'' \<or> isUnder p root"
proof -
  obtain rest where r: "slashRuns [] p = slashRuns [] root @ rest"
    using lexicallyRelative_contained [OF assms] by blast
  have e: "p = pathOf (slashRuns [] p)" "root = pathOf (slashRuns [] root)"
    using assms(1,2) unfolding canonicalPath_def by blast+
  show ?thesis
  proof (cases "slashRuns [] root = []")
    case True
    then show ?thesis using e(2) by (simp add: pathOf_def)
  next
    case False
    have root: "root = concat (map ((#) (CHR ''/'')) (slashRuns [] root))"
      using e(2) False unfolding pathOf_def by metis
    have "p = concat (map ((#) (CHR ''/'')) (slashRuns [] root @ rest))"
      using e(1) False unfolding pathOf_def r by simp
    then have "p = root @ concat (map ((#) (CHR ''/'')) rest)"
      using root unfolding map_append concat_append by metis
    moreover have "root \<noteq> []" using assms(2) by (auto simp: canonicalPath_def starts_with_def)
    ultimately show ?thesis by (cases rest) (auto simp: isUnder_iff)
  qed
qed

end
