(* ===== verification/Request_Processor.thy ===== *)
theory Request_Processor
  imports Request_Validation Snapshot_Service_Facts Paths
begin

text \<open>
  \<^verbatim>\<open>daemon/src/request_processor.cpp\<close>: the verbs of the privileged daemon. A mutating verb
  validates its arguments, asks the guard, asks for authorization, and then, holding the apply
  mutex, takes the automatic snapshot and acts. The mutex makes everything after the
  authorization one step. The argument \<open>rt\<close> is the member \<^verbatim>\<open>sysfsRoot_\<close>.
\<close>

subsection \<open>Private operations\<close>

definition kActionSetDeviceEnabled :: string where
  "kActionSetDeviceEnabled = ''org.devmgr.set-device-enabled''"
definition kActionManageModules :: string where
  "kActionManageModules = ''org.devmgr.manage-modules''"
definition kActionManageDrivers :: string where
  "kActionManageDrivers = ''org.devmgr.manage-drivers''"
definition kActionManageSnapshots :: string where
  "kActionManageSnapshots = ''org.devmgr.manage-snapshots''"

definition snapshotBefore :: "json_lib \<Rightarrow> 'h env \<Rightarrow> string \<Rightarrow> string \<Rightarrow> 'h daemon
    \<Rightarrow> unit result \<times> 'h daemon" where
  "snapshotBefore lib env verb subject dm =
     (case svc_create lib env Auto \<lparr>rsn_verb = verb, rsn_subject = subject\<rparr> dm of
        (Inl e, dm1) \<Rightarrow> (makeError Io (''snapshot before '' @ verb @ '' failed ('' @ err_message e @
                           ''); mutation refused''), dm1)
      | (Inr _, dm1) \<Rightarrow> (Inr (), dm1))"

definition canonicalContained :: "'h env \<Rightarrow> string \<Rightarrow> string \<Rightarrow> 'h \<Rightarrow> string result" where
  "canonicalContained env rt sysfsPath h =
     (case env_weaklyCanonical env sysfsPath h of
        None \<Rightarrow> makeError NotFound (''cannot resolve '' @ sysfsPath)
      | Some canonical \<Rightarrow>
          let outside = makeError NotFound (''path outside sysfs root: '' @ sysfsPath) in
          (case env_weaklyCanonical env rt h of
             None \<Rightarrow> outside
           | Some root \<Rightarrow>
               let rel = lexicallyRelative canonical root in
               if rel = [] \<or> starts_with (join ''/'' rel) ''..'' then outside
               else if \<not> env_isDirectory env canonical h
                 then makeError NotFound (''device no longer present: '' @ sysfsPath)
               else Inr canonical))"

definition authorize :: "'h env \<Rightarrow> string \<Rightarrow> string \<Rightarrow> 'h daemon \<Rightarrow> unit result \<times> 'h daemon" where
  "authorize env caller action dm =
     (case env_checkAuthorized env caller action (dm_hw dm) of
        (Inl e, h) \<Rightarrow> (Inl e, dm\<lparr>dm_hw := h\<rparr>)
      | (Inr ok, h) \<Rightarrow>
          (if \<not> ok then makeError Permission ''authorization denied'' else Inr (), dm\<lparr>dm_hw := h\<rparr>))"

definition applyDisable :: "json_lib \<Rightarrow> 'h env \<Rightarrow> string \<Rightarrow> 'h daemon \<Rightarrow> unit result \<times> 'h daemon" where
  "applyDisable lib env canonical dm =
     (let ds = enumerated env (dm_hw dm);
          key = (case find (\<lambda>d. dev_sysfsPath d = canonical) ds of
                   Some d \<Rightarrow> makeDeviceKey d ds
                 | None \<Rightarrow> makeDeviceKey1 (deviceFromSysfs env (dm_hw dm) canonical))
      in case env_setEnabled env canonical False [] (dm_hw dm) of
           (Inl e, h) \<Rightarrow> (Inl e, dm\<lparr>dm_hw := h\<rparr>)
         | (Inr applied, h) \<Rightarrow>
             (case ss_upsert lib
                \<lparr>ent_key = key,
                 ent_mechanism = (if applied \<noteq> None then ''unbind'' else ''authorized''),
                 ent_lastDriver = (case applied of Some x \<Rightarrow> x | None \<Rightarrow> []),
                 ent_lastSysfsPath = canonical, ent_disabledAtUtc = env_now env h,
                 ent_guardSuspended = False\<rparr> (dm_state dm) of
                (r, st) \<Rightarrow> (r, dm\<lparr>dm_hw := h, dm_state := st\<rparr>)))"

definition applyEnable :: "json_lib \<Rightarrow> 'h env \<Rightarrow> string \<Rightarrow> 'h daemon \<Rightarrow> unit result \<times> 'h daemon" where
  "applyEnable lib env canonical dm =
     (let probable = env_isDirectory env canonical (dm_hw dm);
          probed = (if probable then deviceFromSysfs env (dm_hw dm) canonical else empty_device);
          act = (\<lambda>hint dm. case env_setEnabled env canonical True hint (dm_hw dm) of
                   (Inl e, h) \<Rightarrow> (Inl e, dm\<lparr>dm_hw := h\<rparr>)
                 | (Inr _, h) \<Rightarrow> (Inr (), dm\<lparr>dm_hw := h\<rparr>))
      in case find (\<lambda>e. ent_lastSysfsPath e = canonical \<or> probable \<and> matchesDevice (ent_key e) probed)
                (ss_entries (dm_state dm)) of
           None \<Rightarrow> act [] dm
         | Some e \<Rightarrow>
             (case ss_remove lib (ent_key e) (dm_state dm) of
                (Inl err, st) \<Rightarrow> (Inl err, dm\<lparr>dm_state := st\<rparr>)
              | (Inr _, st) \<Rightarrow> act (ent_lastDriver e) (dm\<lparr>dm_state := st\<rparr>)))"

text \<open>How a mutating verb ends: authorize, then snapshot, then act.\<close>

definition snapshotThen :: "json_lib \<Rightarrow> 'h env \<Rightarrow> string \<Rightarrow> string \<Rightarrow>
    ('h daemon \<Rightarrow> unit result \<times> 'h daemon) \<Rightarrow> 'h daemon \<Rightarrow> unit result \<times> 'h daemon" where
  "snapshotThen lib env verb subject act dm =
     (case snapshotBefore lib env verb subject dm of
        (Inl e, dm1) \<Rightarrow> (Inl e, dm1)
      | (Inr _, dm1) \<Rightarrow> act dm1)"

definition authorizedThen :: "'h env \<Rightarrow> string \<Rightarrow> string \<Rightarrow>
    ('h daemon \<Rightarrow> 'a result \<times> 'h daemon) \<Rightarrow> 'h daemon \<Rightarrow> 'a result \<times> 'h daemon" where
  "authorizedThen env caller action act dm =
     (case authorize env caller action dm of
        (Inl e, dm1) \<Rightarrow> (Inl e, dm1)
      | (Inr _, dm1) \<Rightarrow> act dm1)"

definition on_hw :: "('h \<Rightarrow> 'a result \<times> 'h) \<Rightarrow> 'h daemon \<Rightarrow> 'a result \<times> 'h daemon" where
  "on_hw f dm = (case f (dm_hw dm) of (r, h) \<Rightarrow> (r, dm\<lparr>dm_hw := h\<rparr>))"

text \<open>The guard as the two device verbs ask it.\<close>

definition guardDisable :: "'h env \<Rightarrow> string \<Rightarrow> 'h \<Rightarrow> unit result" where
  "guardDisable env canonical h =
     (case env_probe env h of
        Inl e \<Rightarrow> Inl e
      | Inr facts \<Rightarrow>
          let verdict = evaluateDisable facts canonical in
          if \<not> gv_allowed verdict then makeError Conflict (gv_reason verdict) else Inr ())"

subsection \<open>Verbs\<close>

definition setDeviceEnabled :: "json_lib \<Rightarrow> 'h env \<Rightarrow> string \<Rightarrow> string \<Rightarrow> string \<Rightarrow> bool \<Rightarrow> 'h daemon
    \<Rightarrow> unit result \<times> 'h daemon" where
  "setDeviceEnabled lib env rt caller sysfsPath enabled dm =
     (case valid_caller caller of Inl e \<Rightarrow> (Inl e, dm) | Inr _ \<Rightarrow>
      case valid_sysfsPath sysfsPath of Inl e \<Rightarrow> (Inl e, dm) | Inr _ \<Rightarrow>
      case canonicalContained env rt sysfsPath (dm_hw dm) of Inl e \<Rightarrow> (Inl e, dm) | Inr canonical \<Rightarrow>
      case (if \<not> enabled then guardDisable env canonical (dm_hw dm) else Inr ()) of
        Inl e \<Rightarrow> (Inl e, dm) | Inr _ \<Rightarrow>
      authorizedThen env caller kActionSetDeviceEnabled
        (snapshotThen lib env ''SetDeviceEnabled'' canonical
          (\<lambda>dm. if enabled then applyEnable lib env canonical dm else applyDisable lib env canonical dm)) dm)"

definition loadModule :: "json_lib \<Rightarrow> 'h env \<Rightarrow> string \<Rightarrow> string \<Rightarrow> 'h daemon
    \<Rightarrow> unit result \<times> 'h daemon" where
  "loadModule lib env caller name dm =
     (case valid_caller caller of Inl e \<Rightarrow> (Inl e, dm) | Inr _ \<Rightarrow>
      case valid_name name ''module'' of Inl e \<Rightarrow> (Inl e, dm) | Inr _ \<Rightarrow>
      authorizedThen env caller kActionManageModules
        (snapshotThen lib env ''LoadModule'' name (on_hw (env_loadModule env name))) dm)"

definition guardModuleUnload :: "'h env \<Rightarrow> string \<Rightarrow> 'h \<Rightarrow> unit result" where
  "guardModuleUnload env name h =
     (case env_listLoaded env h of Inl e \<Rightarrow> Inl e | Inr loaded \<Rightarrow>
      case find (\<lambda>m. lm_name m = name) loaded of
        None \<Rightarrow> makeError NotFound (''module '' @ [CHR 0x27] @ name @ [CHR 0x27] @ '' not loaded'')
      | Some m \<Rightarrow>
      case env_devicesUsing env name h of Inl e \<Rightarrow> Inl e | Inr affected \<Rightarrow>
      case env_probe env h of Inl e \<Rightarrow> Inl e | Inr facts \<Rightarrow>
      let verdict = evaluateModuleUnload facts
            \<lparr>muf_affectedDevicePaths = affected, muf_holders = lm_holders m, muf_refCount = lm_refCount m\<rparr>
      in if \<not> gv_allowed verdict then makeError Conflict (gv_reason verdict) else Inr ())"

definition unloadModule :: "json_lib \<Rightarrow> 'h env \<Rightarrow> string \<Rightarrow> string \<Rightarrow> 'h daemon
    \<Rightarrow> unit result \<times> 'h daemon" where
  "unloadModule lib env caller name dm =
     (case valid_caller caller of Inl e \<Rightarrow> (Inl e, dm) | Inr _ \<Rightarrow>
      case valid_name name ''module'' of Inl e \<Rightarrow> (Inl e, dm) | Inr _ \<Rightarrow>
      case guardModuleUnload env name (dm_hw dm) of Inl e \<Rightarrow> (Inl e, dm) | Inr _ \<Rightarrow>
      authorizedThen env caller kActionManageModules
        (snapshotThen lib env ''UnloadModule'' name (on_hw (env_unloadModule env name))) dm)"

definition bindDriver :: "json_lib \<Rightarrow> 'h env \<Rightarrow> string \<Rightarrow> string \<Rightarrow> string \<Rightarrow> string \<Rightarrow> 'h daemon
    \<Rightarrow> unit result \<times> 'h daemon" where
  "bindDriver lib env rt caller sysfsPath driverName dm =
     (case valid_caller caller of Inl e \<Rightarrow> (Inl e, dm) | Inr _ \<Rightarrow>
      case valid_sysfsPath sysfsPath of Inl e \<Rightarrow> (Inl e, dm) | Inr _ \<Rightarrow>
      case valid_name driverName ''driver'' of Inl e \<Rightarrow> (Inl e, dm) | Inr _ \<Rightarrow>
      case canonicalContained env rt sysfsPath (dm_hw dm) of Inl e \<Rightarrow> (Inl e, dm) | Inr canonical \<Rightarrow>
      authorizedThen env caller kActionManageDrivers
        (snapshotThen lib env ''BindDriver'' canonical (on_hw (env_bindDriver env canonical driverName))) dm)"

definition unbindDriver :: "json_lib \<Rightarrow> 'h env \<Rightarrow> string \<Rightarrow> string \<Rightarrow> string \<Rightarrow> 'h daemon
    \<Rightarrow> unit result \<times> 'h daemon" where
  "unbindDriver lib env rt caller sysfsPath dm =
     (case valid_caller caller of Inl e \<Rightarrow> (Inl e, dm) | Inr _ \<Rightarrow>
      case valid_sysfsPath sysfsPath of Inl e \<Rightarrow> (Inl e, dm) | Inr _ \<Rightarrow>
      case canonicalContained env rt sysfsPath (dm_hw dm) of Inl e \<Rightarrow> (Inl e, dm) | Inr canonical \<Rightarrow>
      case guardDisable env canonical (dm_hw dm) of Inl e \<Rightarrow> (Inl e, dm) | Inr _ \<Rightarrow>
      authorizedThen env caller kActionManageDrivers
        (snapshotThen lib env ''UnbindDriver'' canonical (on_hw (env_unbindDriver env canonical))) dm)"

definition listDisabledDevices :: "'h daemon \<Rightarrow> disabled_entry list" where
  "listDisabledDevices dm = ss_entries (dm_state dm)"

definition snapshotList :: "json_lib \<Rightarrow> 'h env \<Rightarrow> 'h daemon \<Rightarrow> snapshot_meta list result \<times> 'h daemon" where
  "snapshotList lib env dm = svc_list lib env dm"

definition snapshotDiff :: "json_lib \<Rightarrow> 'h env \<Rightarrow> string \<Rightarrow> string \<Rightarrow> 'h daemon
    \<Rightarrow> snapshot_diff result \<times> 'h daemon" where
  "snapshotDiff lib env baseId targetId dm =
     (case valid_snapshotId baseId of Inl e \<Rightarrow> (Inl e, dm) | Inr _ \<Rightarrow>
      case (if targetId \<noteq> [] then valid_snapshotId targetId else Inr ()) of
        Inl e \<Rightarrow> (Inl e, dm) | Inr _ \<Rightarrow> svc_diff lib env baseId targetId dm)"

definition snapshotCreate :: "json_lib \<Rightarrow> 'h env \<Rightarrow> string \<Rightarrow> string \<Rightarrow> 'h daemon
    \<Rightarrow> string result \<times> 'h daemon" where
  "snapshotCreate lib env caller label dm =
     (case valid_caller caller of Inl e \<Rightarrow> (Inl e, dm) | Inr _ \<Rightarrow>
      case valid_snapshotLabel label of Inl e \<Rightarrow> (Inl e, dm) | Inr _ \<Rightarrow>
      authorizedThen env caller kActionManageSnapshots
        (svc_create lib env Manual \<lparr>rsn_verb = [], rsn_subject = label\<rparr>) dm)"

definition snapshotRestore :: "json_lib \<Rightarrow> 'h env \<Rightarrow> string \<Rightarrow> string \<Rightarrow> 'h daemon
    \<Rightarrow> restore_outcome result \<times> 'h daemon" where
  "snapshotRestore lib env caller i dm =
     (case valid_caller caller of Inl e \<Rightarrow> (Inl e, dm) | Inr _ \<Rightarrow>
      case valid_snapshotId i of Inl e \<Rightarrow> (Inl e, dm) | Inr _ \<Rightarrow>
      authorizedThen env caller kActionManageSnapshots (svc_restore lib env i) dm)"

definition snapshotDelete :: "json_lib \<Rightarrow> 'h env \<Rightarrow> string \<Rightarrow> string \<Rightarrow> 'h daemon
    \<Rightarrow> unit result \<times> 'h daemon" where
  "snapshotDelete lib env caller i dm =
     (case valid_caller caller of Inl e \<Rightarrow> (Inl e, dm) | Inr _ \<Rightarrow>
      case valid_snapshotId i of Inl e \<Rightarrow> (Inl e, dm) | Inr _ \<Rightarrow>
      authorizedThen env caller kActionManageSnapshots (svc_remove lib env i) dm)"

end
