(* ===== verification/Dbus_Contract.thy ===== *)
theory Dbus_Contract
  imports Core_Models
begin

text \<open>
  \<^verbatim>\<open>platform/linux/include/devmgr/platform/linux/dbus_contract.hpp\<close>: the names of the bus
  contract and the two translations between core errors and bus error names.
\<close>

definition kBusName :: string where "kBusName = ''org.devmgr.Manager1''"
definition kObjectPath :: string where "kObjectPath = ''/org/devmgr/Manager1''"
definition kInterfaceName :: string where "kInterfaceName = ''org.devmgr.Manager1''"
definition kApiVersion :: nat where "kApiVersion = 4"
definition kErrCritical :: string where "kErrCritical = ''org.devmgr.Error.CriticalDevice''"
definition kErrNotAuthorized :: string where "kErrNotAuthorized = ''org.devmgr.Error.NotAuthorized''"
definition kErrNotFound :: string where "kErrNotFound = ''org.devmgr.Error.NotFound''"
definition kErrUnsupported :: string where "kErrUnsupported = ''org.devmgr.Error.Unsupported''"
definition kErrIo :: string where "kErrIo = ''org.devmgr.Error.Io''"
definition kErrInvalidArgs :: string where "kErrInvalidArgs = ''org.devmgr.Error.InvalidArgs''"

named_theorems dbus_names "the names of the bus contract"

lemmas [dbus_names] = kErrCritical_def kErrNotAuthorized_def kErrNotFound_def kErrUnsupported_def
  kErrIo_def kErrInvalidArgs_def

fun dbusErrorNameFor :: "code \<Rightarrow> string" where
  "dbusErrorNameFor Conflict = kErrCritical"
| "dbusErrorNameFor Permission = kErrNotAuthorized"
| "dbusErrorNameFor NotFound = kErrNotFound"
| "dbusErrorNameFor Unsupported = kErrUnsupported"
| "dbusErrorNameFor InvalidArgs = kErrInvalidArgs"
| "dbusErrorNameFor Io = kErrIo"
| "dbusErrorNameFor Busy = kErrIo"
| "dbusErrorNameFor Network = kErrIo"

text \<open>The names of a daemon that is not there or cannot be activated.\<close>

definition unreachableNames :: "string list" where
  "unreachableNames =
     [''org.freedesktop.systemd1.UnitMasked'', ''org.freedesktop.systemd1.NoSuchUnit'',
      ''org.freedesktop.systemd1.UnitInactive'', ''org.freedesktop.DBus.Error.NameHasNoOwner'',
      ''org.freedesktop.DBus.Error.NoServer'', ''org.freedesktop.DBus.Error.Disconnected'',
      ''org.freedesktop.DBus.Error.Spawn.ExecFailed'',
      ''org.freedesktop.DBus.Error.Spawn.ServiceNotValid'',
      ''org.freedesktop.DBus.Error.Spawn.FileNotFound'']"

definition coreErrorFor :: "string \<Rightarrow> string \<Rightarrow> error" where
  "coreErrorFor name message =
     (if name = kErrCritical then \<lparr>err_code = Conflict, err_message = message\<rparr>
      else if name = kErrNotAuthorized then \<lparr>err_code = Permission, err_message = message\<rparr>
      else if name = kErrNotFound then \<lparr>err_code = NotFound, err_message = message\<rparr>
      else if name = kErrUnsupported then \<lparr>err_code = Unsupported, err_message = message\<rparr>
      else if name = kErrInvalidArgs then \<lparr>err_code = InvalidArgs, err_message = message\<rparr>
      else if name = ''org.freedesktop.DBus.Error.ServiceUnknown''
        then \<lparr>err_code = Io, err_message = ''helper devmgrd is not available''\<rparr>
      else if name = ''org.freedesktop.DBus.Error.NoReply'' \<or>
              name = ''org.freedesktop.DBus.Error.Timeout''
        then \<lparr>err_code = Busy, err_message = ''helper timed out''\<rparr>
      else if name \<in> set unreachableNames then \<lparr>err_code = Busy, err_message = message\<rparr>
      else \<lparr>err_code = Io, err_message = message\<rparr>)"

text \<open>The code a client sees for an error of the daemon.\<close>

definition wireCode :: "code \<Rightarrow> code" where
  "wireCode c = (if c \<in> {Busy, Network} then Io else c)"

lemma coreErrorFor_dbus:
  "coreErrorFor (dbusErrorNameFor c) m = \<lparr>err_code = wireCode c, err_message = m\<rparr>"
  by (cases c) (simp_all add: coreErrorFor_def dbus_names wireCode_def unreachableNames_def)

end
