(* ===== verification/Snapshot_Json.thy ===== *)
theory Snapshot_Json
  imports Core_Models Json Json_Witness Snapshot_Diff
begin

text \<open>
  \<^verbatim>\<open>core/src/snapshot_json.cpp\<close>: the shapes the snapshot verbs have on the wire, printed by the
  daemon and parsed by its clients. A parser's outer \<open>Inl\<close> is an exception that leaves the
  function; the inner result is what it returns.
\<close>

definition metaToJson :: "snapshot_meta \<Rightarrow> json" where
  "metaToJson m =
     jobject [(''id'', JStr (meta_id m)),
              (''parent'', case meta_parent m of Some p \<Rightarrow> JStr p | None \<Rightarrow> JNull),
              (''createdAtUtc'', JInt (meta_createdAtUtc m)),
              (''trigger'', JStr (trigger_to_string (meta_trigger m))),
              (''reason'', jobject [(''verb'', JStr (rsn_verb (meta_reason m))),
                                    (''subject'', JStr (rsn_subject (meta_reason m)))]),
              (''corrupt'', JBool (meta_health m \<noteq> HealthOk)),
              (''health'', JStr (health_to_string (meta_health m))),
              (''entryCount'', JInt (int (meta_entryCount m))),
              (''modprobeFileCount'', JInt (int (meta_modprobeFileCount m)))]"

definition metaFromJson :: "json \<Rightarrow> jexn + snapshot_meta" where
  "metaFromJson j =
     bindE (at_string j ''id'') (\<lambda>i.
     bindE (at j ''parent'') (\<lambda>parent.
     bindE (bindE (at j ''createdAtUtc'') get_int64) (\<lambda>createdAtUtc.
     bindE (at_string j ''trigger'') (\<lambda>trigger.
     bindE (bindE (at j ''reason'') (\<lambda>r. at_string r ''verb'')) (\<lambda>verb.
     bindE (bindE (at j ''reason'') (\<lambda>r. at_string r ''subject'')) (\<lambda>subject.
     bindE (at_string j ''health'') (\<lambda>health.
     bindE (bindE (at j ''entryCount'') get_size) (\<lambda>entryCount.
     bindE (bindE (at j ''modprobeFileCount'') get_size) (\<lambda>modprobeFileCount.
       Inr \<lparr>meta_id = i,
            meta_parent = (case parent of JStr p \<Rightarrow> Some p | _ \<Rightarrow> None),
            meta_createdAtUtc = createdAtUtc,
            meta_trigger = (case snapshotTriggerFrom trigger of Some t \<Rightarrow> t | None \<Rightarrow> Auto),
            meta_reason = \<lparr>rsn_verb = verb, rsn_subject = subject\<rparr>,
            meta_health = (if health = ''corrupt'' then Corrupt
                           else if health = ''unsupported'' then UnsupportedFormat
                           else HealthOk),
            meta_entryCount = entryCount,
            meta_modprobeFileCount = modprobeFileCount\<rparr>)))))))))"

definition snapshotListToJson :: "json_lib \<Rightarrow> snapshot_meta list \<Rightarrow> string" where
  "snapshotListToJson lib metas = jl_dump lib (JArr (map metaToJson metas))"

definition snapshotListFromJson :: "json_lib \<Rightarrow> string \<Rightarrow> snapshot_meta list result" where
  "snapshotListFromJson lib text =
     (case jl_parse lib text of
        Some (JArr js) \<Rightarrow>
          (case mapE metaFromJson js of
             Inr metas \<Rightarrow> Inr metas
           | Inl e \<Rightarrow> makeError Io (''malformed snapshot list JSON: '' @ jl_what lib e))
      | _ \<Rightarrow> makeError Io ''malformed snapshot list JSON'')"

definition restoreItemToJson :: "restore_item \<Rightarrow> json" where
  "restoreItemToJson i =
     jobject [(''subject'', JStr (ri_subject i)), (''action'', JStr (ri_action i)),
              (''status'', JStr (ri_status i)), (''detail'', JStr (ri_detail i))]"

definition restoreItemFromJson :: "json \<Rightarrow> jexn + restore_item" where
  "restoreItemFromJson j =
     bindE (at_string j ''subject'') (\<lambda>subject.
     bindE (at_string j ''action'') (\<lambda>action.
     bindE (at_string j ''status'') (\<lambda>status.
     bindE (at_string j ''detail'') (\<lambda>detail.
       Inr \<lparr>ri_subject = subject, ri_action = action, ri_status = status, ri_detail = detail\<rparr>))))"

definition restoreOutcomeToJson :: "json_lib \<Rightarrow> restore_outcome \<Rightarrow> string" where
  "restoreOutcomeToJson lib ro =
     jl_dump lib (jobject [(''snapshotId'', JStr (ro_snapshotId ro)),
                           (''safetySnapshotId'', JStr (ro_safetySnapshotId ro)),
                           (''items'', JArr (map restoreItemToJson (ro_items ro)))])"

definition restoreOutcomeFromJson :: "json_lib \<Rightarrow> string \<Rightarrow> restore_outcome result" where
  "restoreOutcomeFromJson lib text =
     (case jl_parse lib text of
        Some (JObj kvs) \<Rightarrow>
          (case bindE (at_string (JObj kvs) ''snapshotId'') (\<lambda>sid.
                bindE (at_string (JObj kvs) ''safetySnapshotId'') (\<lambda>safety.
                bindE (at (JObj kvs) ''items'') (\<lambda>items.
                bindE (mapE restoreItemFromJson (elements items)) (\<lambda>is.
                  Inr \<lparr>ro_snapshotId = sid, ro_safetySnapshotId = safety, ro_items = is\<rparr>)))) of
             Inr ro \<Rightarrow> Inr ro
           | Inl e \<Rightarrow> makeError Io (''malformed restore outcome JSON: '' @ jl_what lib e))
      | _ \<Rightarrow> makeError Io ''malformed restore outcome JSON'')"

definition diffEntryToJson :: "diff_entry \<Rightarrow> json" where
  "diffEntryToJson e =
     jobject [(''kind'', JStr (de_kind e)), (''key'', JStr (de_key e)),
              (''before'', JStr (de_before e)), (''after'', JStr (de_after e))]"

definition diffEntryFromJson :: "json \<Rightarrow> jexn + diff_entry" where
  "diffEntryFromJson j =
     bindE (at_string j ''kind'') (\<lambda>kind.
     bindE (at_string j ''key'') (\<lambda>key.
     bindE (at_string j ''before'') (\<lambda>before.
     bindE (at_string j ''after'') (\<lambda>after.
       Inr \<lparr>de_kind = kind, de_key = key, de_before = before, de_after = after\<rparr>))))"

definition snapshotDiffToJson :: "json_lib \<Rightarrow> snapshot_diff \<Rightarrow> string" where
  "snapshotDiffToJson lib d =
     jl_dump lib (jobject [(''baseId'', JStr (sd_baseId d)), (''targetId'', JStr (sd_targetId d)),
                           (''differences'', JBool (\<not> identical d)),
                           (''entries'', JArr (map diffEntryToJson (sd_entries d)))])"

text \<open>The check of the marker after the guarded block reads \<^verbatim>\<open>differences\<close> unguarded.\<close>

definition snapshotDiffFromJson :: "json_lib \<Rightarrow> string \<Rightarrow> jexn + snapshot_diff result" where
  "snapshotDiffFromJson lib text =
     (case jl_parse lib text of
        Some (JObj kvs) \<Rightarrow>
          (case bindE (at_string (JObj kvs) ''baseId'') (\<lambda>baseId.
                bindE (at_string (JObj kvs) ''targetId'') (\<lambda>targetId.
                bindE (at (JObj kvs) ''entries'') (\<lambda>entries.
                bindE (mapE diffEntryFromJson (elements entries)) (\<lambda>es.
                  Inr \<lparr>sd_baseId = baseId, sd_targetId = targetId, sd_entries = es\<rparr>)))) of
             Inl e \<Rightarrow> Inr (makeError Io (''malformed snapshot diff JSON: '' @ jl_what lib e))
           | Inr out \<Rightarrow>
               bindE (value_bool (JObj kvs) ''differences'' (sd_entries out \<noteq> [])) (\<lambda>differences.
                 if differences = (sd_entries out = [])
                 then Inr (makeError Io ''snapshot diff JSON contradicts its differences marker'')
                 else Inr (Inr out)))
      | _ \<Rightarrow> Inr (makeError Io ''malformed snapshot diff JSON''))"

subsection \<open>Round trips\<close>

definition meta_ok :: "snapshot_meta \<Rightarrow> bool" where
  "meta_ok m \<longleftrightarrow>
     utf8 (meta_id m) \<and> (case meta_parent m of Some p \<Rightarrow> utf8 p | None \<Rightarrow> True) \<and>
     - (2 ^ 63) \<le> meta_createdAtUtc m \<and> meta_createdAtUtc m < 2 ^ 63 \<and>
     utf8 (rsn_verb (meta_reason m)) \<and> utf8 (rsn_subject (meta_reason m)) \<and>
     meta_entryCount m < 2 ^ 64 \<and> meta_modprobeFileCount m < 2 ^ 64"

definition restore_item_ok :: "restore_item \<Rightarrow> bool" where
  "restore_item_ok i \<longleftrightarrow>
     utf8 (ri_subject i) \<and> utf8 (ri_action i) \<and> utf8 (ri_status i) \<and> utf8 (ri_detail i)"

definition restore_outcome_ok :: "restore_outcome \<Rightarrow> bool" where
  "restore_outcome_ok ro \<longleftrightarrow>
     utf8 (ro_snapshotId ro) \<and> utf8 (ro_safetySnapshotId ro) \<and> list_all restore_item_ok (ro_items ro)"

definition diff_entry_ok :: "diff_entry \<Rightarrow> bool" where
  "diff_entry_ok e \<longleftrightarrow>
     utf8 (de_kind e) \<and> utf8 (de_key e) \<and> utf8 (de_before e) \<and> utf8 (de_after e)"

definition diff_ok :: "snapshot_diff \<Rightarrow> bool" where
  "diff_ok d \<longleftrightarrow> utf8 (sd_baseId d) \<and> utf8 (sd_targetId d) \<and> list_all diff_entry_ok (sd_entries d)"

lemma metaFromJson_ToJson: "meta_ok m \<Longrightarrow> metaFromJson (metaToJson m) = Inr m"
  by (cases "meta_health m"; cases "meta_parent m")
    (simp_all add: metaFromJson_def metaToJson_def at_string_def at_jobject meta_ok_def
      get_int64_range get_size_range del: get_int64.simps get_size.simps)

lemma metaToJson_ok: "meta_ok m \<Longrightarrow> json_ok (metaToJson m)"
  unfolding metaToJson_def
  by (rule json_ok_jobject; cases "meta_health m"; cases "meta_trigger m")
    (auto simp: meta_ok_def json_ok_jobject split: option.split)

lemma restoreItem_roundtrip: "restoreItemFromJson (restoreItemToJson i) = Inr i"
  by (simp add: restoreItemFromJson_def restoreItemToJson_def at_string_def at_jobject)

lemma restoreItemToJson_ok: "restore_item_ok i \<Longrightarrow> json_ok (restoreItemToJson i)"
  unfolding restoreItemToJson_def by (rule json_ok_jobject) (simp add: restore_item_ok_def)

lemma diffEntry_roundtrip: "diffEntryFromJson (diffEntryToJson e) = Inr e"
  by (simp add: diffEntryFromJson_def diffEntryToJson_def at_string_def at_jobject)

lemma diffEntryToJson_ok: "diff_entry_ok e \<Longrightarrow> json_ok (diffEntryToJson e)"
  unfolding diffEntryToJson_def by (rule json_ok_jobject) (simp add: diff_entry_ok_def)

lemma mapE_map_id: "(\<And>x. x \<in> set xs \<Longrightarrow> f (g x) = Inr x) \<Longrightarrow> mapE f (map g xs) = Inr xs"
  using mapE_map [where h = id] by auto

lemma list_all_map_ok: "list_all P xs \<Longrightarrow> (\<And>x. P x \<Longrightarrow> Q (f x)) \<Longrightarrow> list_all Q (map f xs)"
  by (auto simp: list_all_iff)

lemma metas_roundtrip: "list_all meta_ok ms \<Longrightarrow> mapE metaFromJson (map metaToJson ms) = Inr ms"
  by (rule mapE_map_id) (auto simp: metaFromJson_ToJson list_all_iff)

lemma snapshotList_roundtrip:
  assumes "codec_ok lib" "list_all meta_ok metas"
  shows "snapshotListFromJson lib (snapshotListToJson lib metas) = Inr metas"
proof -
  have ok: "json_ok (JArr (map metaToJson metas))"
    using assms(2) by (simp add: list_all_map_ok metaToJson_ok)
  show "snapshotListFromJson lib (snapshotListToJson lib metas) = Inr metas"
    using metas_roundtrip [OF assms(2)]
    by (simp add: snapshotListFromJson_def snapshotListToJson_def codec_dump [OF assms(1) ok])
qed

lemma restoreOutcome_roundtrip:
  assumes "codec_ok lib" "restore_outcome_ok ro"
  shows "restoreOutcomeFromJson lib (restoreOutcomeToJson lib ro) = Inr ro"
proof -
  let ?kvs = "[(''snapshotId'', JStr (ro_snapshotId ro)), (''safetySnapshotId'', JStr (ro_safetySnapshotId ro)),
               (''items'', JArr (map restoreItemToJson (ro_items ro)))]"
  have ok: "json_ok (jobject ?kvs)"
    using assms(2) by (intro json_ok_jobject)
      (auto simp: restore_outcome_ok_def intro: list_all_map_ok restoreItemToJson_ok)
  have items: "mapE restoreItemFromJson (map restoreItemToJson (ro_items ro)) = Inr (ro_items ro)"
    by (rule mapE_map_id) (rule restoreItem_roundtrip)
  obtain kvs where k: "jobject ?kvs = JObj kvs" by (simp add: jobject_def)
  have at: "at (JObj kvs) key = at (jobject ?kvs) key" for key by (simp only: k)
  show "restoreOutcomeFromJson lib (restoreOutcomeToJson lib ro) = Inr ro"
    unfolding restoreOutcomeFromJson_def restoreOutcomeToJson_def codec_dump [OF assms(1) ok]
    unfolding k option.case json.case at_string_def
    unfolding at at_jobject
    by (simp add: items)
qed

lemma snapshotDiff_roundtrip:
  assumes "codec_ok lib" "diff_ok d"
  shows "snapshotDiffFromJson lib (snapshotDiffToJson lib d) = Inr (Inr d)"
proof -
  let ?kvs = "[(''baseId'', JStr (sd_baseId d)), (''targetId'', JStr (sd_targetId d)),
               (''differences'', JBool (\<not> identical d)),
               (''entries'', JArr (map diffEntryToJson (sd_entries d)))]"
  have ok: "json_ok (jobject ?kvs)"
    using assms(2) by (intro json_ok_jobject)
      (auto simp: diff_ok_def intro: list_all_map_ok diffEntryToJson_ok)
  have entries: "mapE diffEntryFromJson (map diffEntryToJson (sd_entries d)) = Inr (sd_entries d)"
    by (rule mapE_map_id) (rule diffEntry_roundtrip)
  obtain kvs where k: "jobject ?kvs = JObj kvs" by (simp add: jobject_def)
  have at: "at (JObj kvs) key = at (jobject ?kvs) key" for key by (simp only: k)
  have v: "value_bool (JObj kvs) ''differences'' b = Inr (\<not> identical d)" for b
  proof -
    have "at (JObj kvs) ''differences'' = Inr (JBool (\<not> identical d))"
      unfolding at at_jobject by simp
    then show ?thesis by (auto split: option.splits)
  qed
  show "snapshotDiffFromJson lib (snapshotDiffToJson lib d) = Inr (Inr d)"
    unfolding snapshotDiffFromJson_def snapshotDiffToJson_def codec_dump [OF assms(1) ok]
    unfolding k option.case json.case at_string_def
    unfolding at at_jobject
    by (simp add: entries v identical_def del: value_bool.simps)
qed

text \<open>C38: every wire shape read back is what was printed, for any printer and parser that are
  inverse on well-formed documents.\<close>

lemma wire_roundtrips:
  assumes "codec_ok lib" "list_all meta_ok metas" "restore_outcome_ok ro" "diff_ok d"
  shows "snapshotListFromJson lib (snapshotListToJson lib metas) = Inr metas \<and>
         restoreOutcomeFromJson lib (restoreOutcomeToJson lib ro) = Inr ro \<and>
         snapshotDiffFromJson lib (snapshotDiffToJson lib d) = Inr (Inr d)"
  using snapshotList_roundtrip restoreOutcome_roundtrip snapshotDiff_roundtrip assms by blast

lemma wire_roundtrips_witness:
  "snapshotListFromJson (wit_lib []) (snapshotListToJson (wit_lib [])
     [empty_meta\<lparr>meta_id := ''ab'', meta_parent := Some ''cd'', meta_health := Corrupt\<rparr>])
   = Inr [empty_meta\<lparr>meta_id := ''ab'', meta_parent := Some ''cd'', meta_health := Corrupt\<rparr>]"
proof -
  have "list_all meta_ok [empty_meta\<lparr>meta_id := ''ab'', meta_parent := Some ''cd'', meta_health := Corrupt\<rparr>]"
    by (simp add: meta_ok_def empty_meta_def)
  moreover have "restore_outcome_ok \<lparr>ro_snapshotId = ''ab'', ro_safetySnapshotId = ''cd'', ro_items = []\<rparr>"
    by code_simp
  moreover have "diff_ok \<lparr>sd_baseId = ''ab'', sd_targetId = [], sd_entries = []\<rparr>" by code_simp
  ultimately show ?thesis using wire_roundtrips [OF wit_lib_Nil_ok] by blast
qed

definition badMarkerDoc :: json where
  "badMarkerDoc = jobject [(''baseId'', JStr []), (''targetId'', JStr []),
     (''differences'', JStr ''yes''), (''entries'', JArr [])]"

text \<open>A diff document whose marker is not a boolean makes the parser throw past its own
  error handling instead of returning an error.\<close>

lemma diff_marker_exception_escapes:
  assumes "codec_ok lib"
  shows "snapshotDiffFromJson lib (jl_dump lib badMarkerDoc) = Inl TypeError"
proof -
  have ok: "json_ok badMarkerDoc" unfolding badMarkerDoc_def by (rule json_ok_jobject) simp
  have obj: "badMarkerDoc = JObj [(''baseId'', JStr []), (''differences'', JStr ''yes''),
      (''entries'', JArr []), (''targetId'', JStr [])]"
    by code_simp
  show ?thesis
    unfolding snapshotDiffFromJson_def codec_dump [OF assms ok] unfolding obj
    by (simp add: at_string_def)
qed

lemma diff_marker_exception_escapes_witness:
  "snapshotDiffFromJson (wit_lib [(badMarkerDoc, ''abc'')]) ''abc'' = Inl TypeError"
proof -
  have "codec_ok (wit_lib [(badMarkerDoc, ''abc'')])"
    by (rule wit_lib_ok) (simp add: wit_table_def starts_with_def)
  from diff_marker_exception_escapes [OF this] show ?thesis by (simp add: wit_lib_def wit_dump_def)
qed

end
