(* ===== verification/Manager_Adaptor.thy ===== *)
theory Manager_Adaptor
  imports Request_Processor Dbus_Contract Snapshot_Json
begin

text \<open>
  \<^verbatim>\<open>daemon/src/manager_adaptor.cpp\<close>: the methods the daemon registers on the bus, what each hands
  to the request processor and what it replies. A C++ exception of type \<^verbatim>\<open>sdbus::Error\<close> is the
  left value of a reply, its name and its message. The sender the bus reports is an argument.
\<close>

datatype variant = VString string | VInt64 int | VBool bool

datatype bus_method =
    CallSetDeviceEnabled string bool
  | CallLoadModule string
  | CallUnloadModule string
  | CallBindDriver string string
  | CallUnbindDriver string
  | CallListDisabledDevices
  | CallSnapshotList
  | CallSnapshotCreate string
  | CallSnapshotRestore string
  | CallSnapshotDiff string string
  | CallSnapshotDelete string

datatype bus_reply =
    ReplyNothing
  | ReplyText string
  | ReplyEntries "(string \<times> variant) list list"

type_synonym bus_error = "string \<times> string"

definition valueOrThrow :: "'a result \<Rightarrow> bus_error + 'a" where
  "valueOrThrow r = (case r of Inl e \<Rightarrow> Inl (dbusErrorNameFor (err_code e), err_message e) | Inr x \<Rightarrow> Inr x)"

definition throwIfFailed :: "unit result \<Rightarrow> bus_error + bus_reply" where
  "throwIfFailed r = map_sum id (\<lambda>_. ReplyNothing) (valueOrThrow r)"

definition entryVariants :: "disabled_entry \<Rightarrow> (string \<times> variant) list" where
  "entryVariants e = smap_of
     [(''bus'', VString (key_bus (ent_key e))), (''vendor_id'', VString (key_vendorId (ent_key e))),
      (''product_id'', VString (key_productId (ent_key e))), (''serial'', VString (key_serial (ent_key e))),
      (''position'', VString (key_position (ent_key e))), (''mechanism'', VString (ent_mechanism e)),
      (''last_driver'', VString (ent_lastDriver e)), (''last_sysfs_path'', VString (ent_lastSysfsPath e)),
      (''disabled_at_utc'', VInt64 (ent_disabledAtUtc e)), (''guard_suspended'', VBool (ent_guardSuspended e))]"

fun handleMethod :: "json_lib \<Rightarrow> 'h env \<Rightarrow> string \<Rightarrow> string \<Rightarrow> bus_method \<Rightarrow> 'h daemon
    \<Rightarrow> (bus_error + bus_reply) \<times> 'h daemon" where
  "handleMethod lib env rt sender (CallSetDeviceEnabled path enabled) dm =
     apfst throwIfFailed (setDeviceEnabled lib env rt sender path enabled dm)"
| "handleMethod lib env rt sender (CallLoadModule name) dm =
     apfst throwIfFailed (loadModule lib env sender name dm)"
| "handleMethod lib env rt sender (CallUnloadModule name) dm =
     apfst throwIfFailed (unloadModule lib env sender name dm)"
| "handleMethod lib env rt sender (CallBindDriver path drv) dm =
     apfst throwIfFailed (bindDriver lib env rt sender path drv dm)"
| "handleMethod lib env rt sender (CallUnbindDriver path) dm =
     apfst throwIfFailed (unbindDriver lib env rt sender path dm)"
| "handleMethod lib env rt sender CallListDisabledDevices dm =
     (Inr (ReplyEntries (map entryVariants (listDisabledDevices dm))), dm)"
| "handleMethod lib env rt sender CallSnapshotList dm =
     apfst (\<lambda>r. map_sum id (\<lambda>ms. ReplyText (snapshotListToJson lib ms)) (valueOrThrow r)) (snapshotList lib env dm)"
| "handleMethod lib env rt sender (CallSnapshotCreate label) dm =
     apfst (\<lambda>r. map_sum id ReplyText (valueOrThrow r)) (snapshotCreate lib env sender label dm)"
| "handleMethod lib env rt sender (CallSnapshotRestore i) dm =
     apfst (\<lambda>r. map_sum id (\<lambda>x. ReplyText (restoreOutcomeToJson lib x)) (valueOrThrow r))
       (snapshotRestore lib env sender i dm)"
| "handleMethod lib env rt sender (CallSnapshotDiff b t) dm =
     apfst (\<lambda>r. map_sum id (\<lambda>x. ReplyText (snapshotDiffToJson lib x)) (valueOrThrow r))
       (snapshotDiff lib env b t dm)"
| "handleMethod lib env rt sender (CallSnapshotDelete i) dm =
     apfst throwIfFailed (snapshotDelete lib env sender i dm)"

text \<open>The methods that authorize nothing.\<close>

fun unprivileged :: "bus_method \<Rightarrow> bool" where
  "unprivileged CallListDisabledDevices = True"
| "unprivileged CallSnapshotList = True"
| "unprivileged (CallSnapshotDiff b t) = True"
| "unprivileged _ = False"

text \<open>The polkit action each of the others requires.\<close>

fun requiredAction :: "bus_method \<Rightarrow> string" where
  "requiredAction (CallSetDeviceEnabled p e) = kActionSetDeviceEnabled"
| "requiredAction (CallLoadModule n) = kActionManageModules"
| "requiredAction (CallUnloadModule n) = kActionManageModules"
| "requiredAction (CallBindDriver p d) = kActionManageDrivers"
| "requiredAction (CallUnbindDriver p) = kActionManageDrivers"
| "requiredAction _ = kActionManageSnapshots"

text \<open>The names the methods are registered under.\<close>

fun methodName :: "bus_method \<Rightarrow> string" where
  "methodName (CallSetDeviceEnabled p e) = ''SetDeviceEnabled''"
| "methodName (CallLoadModule n) = ''LoadModule''"
| "methodName (CallUnloadModule n) = ''UnloadModule''"
| "methodName (CallBindDriver p d) = ''BindDriver''"
| "methodName (CallUnbindDriver p) = ''UnbindDriver''"
| "methodName CallListDisabledDevices = ''ListDisabledDevices''"
| "methodName CallSnapshotList = ''SnapshotList''"
| "methodName (CallSnapshotCreate l) = ''SnapshotCreate''"
| "methodName (CallSnapshotRestore i) = ''SnapshotRestore''"
| "methodName (CallSnapshotDiff b t) = ''SnapshotDiff''"
| "methodName (CallSnapshotDelete i) = ''SnapshotDelete''"

text \<open>The methods that change devices or modules.\<close>

fun mutatesHardware :: "bus_method \<Rightarrow> bool" where
  "mutatesHardware (CallSetDeviceEnabled p e) = True"
| "mutatesHardware (CallLoadModule n) = True"
| "mutatesHardware (CallUnloadModule n) = True"
| "mutatesHardware (CallBindDriver p d) = True"
| "mutatesHardware (CallUnbindDriver p) = True"
| "mutatesHardware _ = False"

end
