(* ===== verification/Privileged_Channel.thy ===== *)
theory Privileged_Channel
  imports Manager_Adaptor
begin

text \<open>
  \<^verbatim>\<open>platform/linux/src/dbus_privileged_channel.cpp\<close>: the client side of the bus contract. The
  connection is a record of two functions over a state of its own; an \<^verbatim>\<open>sdbus::Error\<close> is the left
  value of bad they return. The channel caches the api version of the daemon.
\<close>

record 'w bus =
  bus_call :: "bus_method \<Rightarrow> 'w \<Rightarrow> (bus_error + bus_reply) \<times> 'w"
  bus_apiVersion :: "'w \<Rightarrow> bus_error + nat"

record 'w channel =
  ch_cachedApi :: "nat option"
  ch_world :: 'w

definition apiTooOldMessage :: "nat \<Rightarrow> nat \<Rightarrow> string" where
  "apiTooOldMessage api minVersion =
     ''devmgrd too old (API '' @ show_nat api @ '' < '' @ show_nat minVersion @ '') '' @ dash @
     '' restart the daemon''"

definition ensureApi :: "'w bus \<Rightarrow> nat \<Rightarrow> 'w channel \<Rightarrow> unit result \<times> 'w channel" where
  "ensureApi bus minVersion ch =
     (let checked = (\<lambda>api. if api \<ge> minVersion then Inr ()
                      else makeError Unsupported (apiTooOldMessage api minVersion)) in
      case ch_cachedApi ch of
        Some api \<Rightarrow> (checked api, ch)
      | None \<Rightarrow>
          (case bus_apiVersion bus (ch_world ch) of
             Inl (n, m) \<Rightarrow> (Inl (coreErrorFor n m), ch)
           | Inr api \<Rightarrow> (checked api, ch\<lparr>ch_cachedApi := Some api\<rparr>)))"

text \<open>A call with its errors translated; \<open>afterApi\<close> is the version check before it.\<close>

definition busCall :: "'w bus \<Rightarrow> bus_method \<Rightarrow> 'w channel \<Rightarrow> bus_reply result \<times> 'w channel" where
  "busCall bus m ch =
     (case bus_call bus m (ch_world ch) of
        (Inl (name, msg), w) \<Rightarrow> (Inl (coreErrorFor name msg), ch\<lparr>ch_world := w\<rparr>)
      | (Inr reply, w) \<Rightarrow> (Inr reply, ch\<lparr>ch_world := w\<rparr>))"

definition afterApi :: "'w bus \<Rightarrow> nat \<Rightarrow> ('w channel \<Rightarrow> 'a result \<times> 'w channel) \<Rightarrow> 'w channel
    \<Rightarrow> 'a result \<times> 'w channel" where
  "afterApi bus minVersion act ch =
     (case ensureApi bus minVersion ch of
        (Inl e, ch1) \<Rightarrow> (Inl e, ch1)
      | (Inr _, ch1) \<Rightarrow> act ch1)"

text \<open>\<^verbatim>\<open>storeResultsTo\<close> a value of another type than the reply's throws an \<^verbatim>\<open>sdbus::Error\<close>,
  the argument \<open>bad\<close>.\<close>

definition thrown :: "bus_error \<Rightarrow> 'a result" where
  "thrown bad = Inl (coreErrorFor (fst bad) (snd bad))"

definition textCall :: "bus_error \<Rightarrow> 'w bus \<Rightarrow> bus_method \<Rightarrow> 'w channel \<Rightarrow> string result \<times> 'w channel" where
  "textCall bad bus m ch =
     (case busCall bus m ch of
        (Inl e, ch1) \<Rightarrow> (Inl e, ch1)
      | (Inr (ReplyText s), ch1) \<Rightarrow> (Inr s, ch1)
      | (Inr _, ch1) \<Rightarrow> (thrown bad, ch1))"

definition unitCall :: "'w bus \<Rightarrow> bus_method \<Rightarrow> 'w channel \<Rightarrow> unit result \<times> 'w channel" where
  "unitCall bus m ch = apfst (map_sum id (\<lambda>_. ())) (busCall bus m ch)"

subsection \<open>Verbs\<close>

definition ch_setDeviceEnabled :: "'w bus \<Rightarrow> device \<Rightarrow> bool \<Rightarrow> 'w channel \<Rightarrow> unit result \<times> 'w channel" where
  "ch_setDeviceEnabled bus d enabled ch = unitCall bus (CallSetDeviceEnabled (dev_sysfsPath d) enabled) ch"

definition ch_loadModule :: "'w bus \<Rightarrow> string \<Rightarrow> 'w channel \<Rightarrow> unit result \<times> 'w channel" where
  "ch_loadModule bus name = afterApi bus 2 (unitCall bus (CallLoadModule name))"

definition ch_unloadModule :: "'w bus \<Rightarrow> string \<Rightarrow> 'w channel \<Rightarrow> unit result \<times> 'w channel" where
  "ch_unloadModule bus name = afterApi bus 2 (unitCall bus (CallUnloadModule name))"

definition ch_bindDriver :: "'w bus \<Rightarrow> device \<Rightarrow> string \<Rightarrow> 'w channel \<Rightarrow> unit result \<times> 'w channel" where
  "ch_bindDriver bus d drv = afterApi bus 2 (unitCall bus (CallBindDriver (dev_sysfsPath d) drv))"

definition ch_unbindDriver :: "'w bus \<Rightarrow> device \<Rightarrow> 'w channel \<Rightarrow> unit result \<times> 'w channel" where
  "ch_unbindDriver bus d = afterApi bus 2 (unitCall bus (CallUnbindDriver (dev_sysfsPath d)))"

text \<open>\<^verbatim>\<open>m.at(key).get<T>()\<close>: a missing key is a \<^verbatim>\<open>std::out_of_range\<close>, a value of another
  type an \<^verbatim>\<open>sdbus::Error\<close>.\<close>

datatype entry_fault = MissingKey | WrongType

fun stringAt :: "(string \<times> variant) list \<Rightarrow> string \<Rightarrow> entry_fault + string" where
  "stringAt m k = (case map_of m k of None \<Rightarrow> Inl MissingKey | Some (VString s) \<Rightarrow> Inr s | Some _ \<Rightarrow> Inl WrongType)"

fun intAt :: "(string \<times> variant) list \<Rightarrow> string \<Rightarrow> entry_fault + int" where
  "intAt m k = (case map_of m k of None \<Rightarrow> Inl MissingKey | Some (VInt64 i) \<Rightarrow> Inr i | Some _ \<Rightarrow> Inl WrongType)"

fun boolAt :: "(string \<times> variant) list \<Rightarrow> string \<Rightarrow> entry_fault + bool" where
  "boolAt m k = (case map_of m k of None \<Rightarrow> Inl MissingKey | Some (VBool b) \<Rightarrow> Inr b | Some _ \<Rightarrow> Inl WrongType)"

definition entryFromVariants :: "(string \<times> variant) list \<Rightarrow> entry_fault + disabled_entry" where
  "entryFromVariants m =
     (bindE (stringAt m ''bus'') (\<lambda>bus.
      bindE (stringAt m ''vendor_id'') (\<lambda>vendor.
      bindE (stringAt m ''product_id'') (\<lambda>product.
      bindE (stringAt m ''serial'') (\<lambda>serial.
      bindE (stringAt m ''position'') (\<lambda>position.
      bindE (stringAt m ''mechanism'') (\<lambda>mechanism.
      bindE (stringAt m ''last_driver'') (\<lambda>lastDriver.
      bindE (stringAt m ''last_sysfs_path'') (\<lambda>lastPath.
      bindE (intAt m ''disabled_at_utc'') (\<lambda>at.
      bindE (boolAt m ''guard_suspended'') (\<lambda>suspended.
      Inr \<lparr>ent_key = \<lparr>key_bus = bus, key_vendorId = vendor, key_productId = product, key_serial = serial,
                       key_position = position\<rparr>,
           ent_mechanism = mechanism, ent_lastDriver = lastDriver, ent_lastSysfsPath = lastPath,
           ent_disabledAtUtc = at, ent_guardSuspended = suspended\<rparr>)))))))))))"

fun entriesFromVariants :: "(string \<times> variant) list list \<Rightarrow> entry_fault + disabled_entry list" where
  "entriesFromVariants [] = Inr []"
| "entriesFromVariants (m # ms) =
     (case entryFromVariants m of
        Inl f \<Rightarrow> Inl f
      | Inr e \<Rightarrow> map_sum id ((#) e) (entriesFromVariants ms))"

definition ch_listDisabledDevices :: "bus_error \<Rightarrow> string \<Rightarrow> 'w bus \<Rightarrow> 'w channel
    \<Rightarrow> disabled_entry list result \<times> 'w channel" where
  "ch_listDisabledDevices bad missing bus = afterApi bus 2 (\<lambda>ch.
     case busCall bus CallListDisabledDevices ch of
       (Inl e, ch1) \<Rightarrow> (Inl e, ch1)
     | (Inr (ReplyEntries raw), ch1) \<Rightarrow>
         (case entriesFromVariants raw of
            Inr es \<Rightarrow> (Inr es, ch1)
          | Inl WrongType \<Rightarrow> (thrown bad, ch1)
          | Inl MissingKey \<Rightarrow> (makeError Io (''malformed ListDisabledDevices reply: '' @ missing), ch1))
     | (Inr _, ch1) \<Rightarrow> (thrown bad, ch1))"

definition ch_snapshotList :: "bus_error \<Rightarrow> json_lib \<Rightarrow> 'w bus \<Rightarrow> 'w channel
    \<Rightarrow> snapshot_meta list result \<times> 'w channel" where
  "ch_snapshotList bad lib bus = afterApi bus 3 (\<lambda>ch.
     case textCall bad bus CallSnapshotList ch of
       (Inl e, ch1) \<Rightarrow> (Inl e, ch1)
     | (Inr text, ch1) \<Rightarrow> (snapshotListFromJson lib text, ch1))"

text \<open>\<^verbatim>\<open>snapshotDiffFromJson\<close> can throw an exception this function's catch clause does not name.\<close>

definition ch_snapshotDiff :: "bus_error \<Rightarrow> json_lib \<Rightarrow> 'w bus \<Rightarrow> string \<Rightarrow> string \<Rightarrow> 'w channel
    \<Rightarrow> (jexn + snapshot_diff result) \<times> 'w channel" where
  "ch_snapshotDiff bad lib bus b t ch =
     (case ensureApi bus 4 ch of
        (Inl e, ch1) \<Rightarrow> (Inr (Inl e), ch1)
      | (Inr _, ch1) \<Rightarrow>
          (case textCall bad bus (CallSnapshotDiff b t) ch1 of
             (Inl e, ch2) \<Rightarrow> (Inr (Inl e), ch2)
           | (Inr text, ch2) \<Rightarrow> (snapshotDiffFromJson lib text, ch2)))"

definition ch_snapshotCreate :: "bus_error \<Rightarrow> 'w bus \<Rightarrow> string \<Rightarrow> 'w channel \<Rightarrow> string result \<times> 'w channel" where
  "ch_snapshotCreate bad bus label = afterApi bus 3 (textCall bad bus (CallSnapshotCreate label))"

definition ch_snapshotRestore :: "bus_error \<Rightarrow> json_lib \<Rightarrow> 'w bus \<Rightarrow> string \<Rightarrow> 'w channel
    \<Rightarrow> restore_outcome result \<times> 'w channel" where
  "ch_snapshotRestore bad lib bus i = afterApi bus 3 (\<lambda>ch.
     case textCall bad bus (CallSnapshotRestore i) ch of
       (Inl e, ch1) \<Rightarrow> (Inl e, ch1)
     | (Inr text, ch1) \<Rightarrow> (restoreOutcomeFromJson lib text, ch1))"

definition ch_snapshotDelete :: "'w bus \<Rightarrow> string \<Rightarrow> 'w channel \<Rightarrow> unit result \<times> 'w channel" where
  "ch_snapshotDelete bus i = afterApi bus 3 (unitCall bus (CallSnapshotDelete i))"

subsection \<open>A channel connected to the daemon\<close>

text \<open>The bus with the adaptor at its other end, the caller known to it as \<open>sender\<close>.\<close>

definition daemonBus :: "json_lib \<Rightarrow> 'h env \<Rightarrow> string \<Rightarrow> string \<Rightarrow> 'h daemon bus" where
  "daemonBus lib env rt sender =
     \<lparr>bus_call = handleMethod lib env rt sender, bus_apiVersion = (\<lambda>_. Inr kApiVersion)\<rparr>"

text \<open>What a client sees of a result of the daemon.\<close>

definition seen :: "'a result \<Rightarrow> 'a result" where
  "seen r = map_sum (\<lambda>e. e\<lparr>err_code := wireCode (err_code e)\<rparr>) id r"

definition connected :: "'w channel \<Rightarrow> bool" where
  "connected ch \<longleftrightarrow> ch_cachedApi ch \<in> {None, Some kApiVersion}"

lemma seen_thrown: "map_sum (\<lambda>(n, m). coreErrorFor n m) id (valueOrThrow r) = seen r"
  by (cases r) (auto simp: valueOrThrow_def seen_def coreErrorFor_dbus)

lemma ensureApi_daemon:
  assumes "connected ch" "v \<le> 4"
  shows "ensureApi (daemonBus lib env rt sender) v ch = (Inr (), ch\<lparr>ch_cachedApi := Some kApiVersion\<rparr>)"
  using assms by (cases "ch_cachedApi ch") (auto simp: ensureApi_def daemonBus_def connected_def kApiVersion_def)

lemma afterApi_daemon:
  assumes "connected ch" "v \<le> 4"
  shows "afterApi (daemonBus lib env rt sender) v act ch = act (ch\<lparr>ch_cachedApi := Some kApiVersion\<rparr>)"
  using ensureApi_daemon [OF assms] by (simp add: afterApi_def)

lemma unitCall_daemon:
  assumes "handleMethod lib env rt sender m (ch_world ch) = apfst throwIfFailed (r, dm)"
  shows "unitCall (daemonBus lib env rt sender) m ch = (seen r, ch\<lparr>ch_world := dm\<rparr>)"
  using assms
  by (cases r) (auto simp: unitCall_def busCall_def daemonBus_def throwIfFailed_def valueOrThrow_def seen_def coreErrorFor_dbus)

lemma textCall_daemon:
  assumes "handleMethod lib env rt sender m (ch_world ch)
    = apfst (\<lambda>r. map_sum id (\<lambda>x. ReplyText (f x)) (valueOrThrow r)) (r, dm)"
  shows "textCall bad (daemonBus lib env rt sender) m ch = (map_sum id f (seen r), ch\<lparr>ch_world := dm\<rparr>)"
  using assms
  by (cases r) (auto simp: textCall_def busCall_def daemonBus_def valueOrThrow_def seen_def coreErrorFor_dbus)

lemma entryVariants_roundtrip: "entryFromVariants (entryVariants e) = Inr e"
  by (simp add: entryFromVariants_def entryVariants_def map_of_smap_of)

lemma entriesVariants_roundtrip: "entriesFromVariants (map entryVariants es) = Inr es"
  by (induction es) (simp_all add: entryVariants_roundtrip)

definition clientView :: "'w channel \<Rightarrow> 'a result \<times> 'w \<Rightarrow> 'a result \<times> 'w channel" where
  "clientView ch p = (seen (fst p), ch\<lparr>ch_world := snd p\<rparr>)"

lemma map_sum_ident: "map_sum id (\<lambda>x. x) r = r"
  by (cases r) simp_all

lemma seen_bind:
  assumes "\<And>x. r = Inr x \<Longrightarrow> g (f x) = Inr x"
  shows "(case map_sum id f (seen r) of Inl e \<Rightarrow> Inl e | Inr t \<Rightarrow> g t) = seen r"
  using assms by (cases r) (auto simp: seen_def)

lemma ch_snapshotList_daemon:
  assumes "connected ch" "codec_ok lib"
    and "\<And>ms dm'. snapshotList lib env (ch_world ch) = (Inr ms, dm') \<Longrightarrow> list_all meta_ok ms"
  shows "ch_snapshotList bad lib (daemonBus lib env rt me) ch
    = clientView (ch\<lparr>ch_cachedApi := Some kApiVersion\<rparr>) (snapshotList lib env (ch_world ch))"
proof -
  obtain r dm' where r: "snapshotList lib env (ch_world ch) = (r, dm')" by fastforce
  have "(case map_sum id (snapshotListToJson lib) (seen r) of Inl e \<Rightarrow> Inl e | Inr t \<Rightarrow> snapshotListFromJson lib t) = seen r"
    by (rule seen_bind) (use assms r snapshotList_roundtrip in blast)
  then show ?thesis
    using r textCall_daemon [of lib env rt me CallSnapshotList "ch\<lparr>ch_cachedApi := Some kApiVersion\<rparr>"
        "snapshotListToJson lib" r dm' bad]
    by (cases r) (auto simp: ch_snapshotList_def afterApi_daemon [OF assms(1)] clientView_def seen_def)
qed

lemma ch_snapshotRestore_daemon:
  assumes "connected ch" "codec_ok lib"
    and "\<And>ro dm'. snapshotRestore lib env me i (ch_world ch) = (Inr ro, dm') \<Longrightarrow> restore_outcome_ok ro"
  shows "ch_snapshotRestore bad lib (daemonBus lib env rt me) i ch
    = clientView (ch\<lparr>ch_cachedApi := Some kApiVersion\<rparr>) (snapshotRestore lib env me i (ch_world ch))"
proof -
  obtain r dm' where r: "snapshotRestore lib env me i (ch_world ch) = (r, dm')" by fastforce
  have "(case map_sum id (restoreOutcomeToJson lib) (seen r) of Inl e \<Rightarrow> Inl e | Inr t \<Rightarrow> restoreOutcomeFromJson lib t) = seen r"
    by (rule seen_bind) (use assms r restoreOutcome_roundtrip in blast)
  then show ?thesis
    using r textCall_daemon [of lib env rt me "CallSnapshotRestore i" "ch\<lparr>ch_cachedApi := Some kApiVersion\<rparr>"
        "restoreOutcomeToJson lib" r dm' bad]
    by (cases r) (auto simp: ch_snapshotRestore_def afterApi_daemon [OF assms(1)] clientView_def seen_def)
qed

lemma ch_snapshotDiff_daemon:
  assumes "connected ch" "codec_ok lib"
    and "\<And>d dm'. snapshotDiff lib env i j (ch_world ch) = (Inr d, dm') \<Longrightarrow> diff_ok d"
  shows "ch_snapshotDiff bad lib (daemonBus lib env rt me) i j ch
    = apfst Inr (clientView (ch\<lparr>ch_cachedApi := Some kApiVersion\<rparr>) (snapshotDiff lib env i j (ch_world ch)))"
proof -
  obtain r dm' where r: "snapshotDiff lib env i j (ch_world ch) = (r, dm')" by fastforce
  have "snapshotDiffFromJson lib (snapshotDiffToJson lib d) = Inr (Inr d)" if "r = Inr d" for d
    using assms r that snapshotDiff_roundtrip by blast
  then show ?thesis
    using r textCall_daemon [of lib env rt me "CallSnapshotDiff i j" "ch\<lparr>ch_cachedApi := Some kApiVersion\<rparr>"
        "snapshotDiffToJson lib" r dm' bad]
    by (cases r) (auto simp: ch_snapshotDiff_def ensureApi_daemon [OF assms(1)] clientView_def seen_def)
qed

text \<open>C6: a client connected to the daemon sees, verb by verb, the result and the state change of the
  request processor for its bus name: values unchanged through their encodings, errors with their
  message and with busy and network errors turned into I/O errors.\<close>

lemma client_sees_processor:
  assumes "connected ch" "codec_ok lib"
    and "\<And>ms dm'. snapshotList lib env (ch_world ch) = (Inr ms, dm') \<Longrightarrow> list_all meta_ok ms"
    and "\<And>ro dm'. snapshotRestore lib env me i (ch_world ch) = (Inr ro, dm') \<Longrightarrow> restore_outcome_ok ro"
    and "\<And>df dm'. snapshotDiff lib env i j (ch_world ch) = (Inr df, dm') \<Longrightarrow> diff_ok df"
    and "ch1 = ch\<lparr>ch_cachedApi := Some kApiVersion\<rparr>" "bus = daemonBus lib env rt me" "w = ch_world ch"
  shows "ch_setDeviceEnabled bus d on ch = clientView ch (setDeviceEnabled lib env rt me (dev_sysfsPath d) on w) \<and>
    ch_loadModule bus n ch = clientView ch1 (loadModule lib env me n w) \<and>
    ch_unloadModule bus n ch = clientView ch1 (unloadModule lib env me n w) \<and>
    ch_bindDriver bus d n ch = clientView ch1 (bindDriver lib env rt me (dev_sysfsPath d) n w) \<and>
    ch_unbindDriver bus d ch = clientView ch1 (unbindDriver lib env rt me (dev_sysfsPath d) w) \<and>
    ch_listDisabledDevices bad missing bus ch = (Inr (listDisabledDevices w), ch1) \<and>
    ch_snapshotList bad lib bus ch = clientView ch1 (snapshotList lib env w) \<and>
    ch_snapshotCreate bad bus n ch = clientView ch1 (snapshotCreate lib env me n w) \<and>
    ch_snapshotRestore bad lib bus i ch = clientView ch1 (snapshotRestore lib env me i w) \<and>
    ch_snapshotDiff bad lib bus i j ch = apfst Inr (clientView ch1 (snapshotDiff lib env i j w)) \<and>
    ch_snapshotDelete bus i ch = clientView ch1 (snapshotDelete lib env me i w)"
proof -
  have u: "unitCall bus m c = clientView c p" if "handleMethod lib env rt me m (ch_world c) = apfst throwIfFailed p" for m c p
    using unitCall_daemon [of lib env rt me m c "fst p" "snd p"] that by (simp add: assms(7) clientView_def)
  have c: "textCall bad bus (CallSnapshotCreate n) ch1 = clientView ch1 (snapshotCreate lib env me n w)"
    using textCall_daemon [of lib env rt me "CallSnapshotCreate n" ch1 "\<lambda>x. x" "fst (snapshotCreate lib env me n w)"
        "snd (snapshotCreate lib env me n w)" bad]
    by (simp add: assms(6-8) clientView_def map_sum_ident)
  have l: "ch_listDisabledDevices bad missing bus ch = (Inr (listDisabledDevices w), ch1)"
    unfolding ch_listDisabledDevices_def assms(7)
    by (subst afterApi_daemon [OF assms(1)])
      (simp_all add: busCall_def daemonBus_def entriesVariants_roundtrip assms(6,8))
  have sl: "ch_snapshotList bad lib bus ch = clientView ch1 (snapshotList lib env w)"
    unfolding assms(6-8) by (rule ch_snapshotList_daemon [OF assms(1,2)]) (rule assms(3))
  have sr: "ch_snapshotRestore bad lib bus i ch = clientView ch1 (snapshotRestore lib env me i w)"
    unfolding assms(6-8) by (rule ch_snapshotRestore_daemon [OF assms(1,2)]) (rule assms(4))
  have sd: "ch_snapshotDiff bad lib bus i j ch = apfst Inr (clientView ch1 (snapshotDiff lib env i j w))"
    unfolding assms(6-8) by (rule ch_snapshotDiff_daemon [OF assms(1,2)]) (rule assms(5))
  note api = afterApi_daemon [OF assms(1), of _ lib env rt me, folded assms(6,7)]
  show ?thesis
    using sl sr sd l c
    by (simp add: assms(6,7)[symmetric] assms(8)[symmetric] api u ch_setDeviceEnabled_def ch_loadModule_def
        ch_unloadModule_def ch_bindDriver_def ch_unbindDriver_def ch_snapshotCreate_def ch_snapshotDelete_def)
      (simp add: assms(6,8) u)
qed

lemma client_sees_processor_witness:
  "ch_snapshotList (''n'', ''m'') twoLib (daemonBus twoLib idleEnv ''/sys'' '':1.2'')
      \<lparr>ch_cachedApi = None, ch_world = deniedRead\<rparr> = (Inr [], \<lparr>ch_cachedApi = Some kApiVersion, ch_world = deniedRead\<rparr>)"
proof -
  let ?ch = "\<lparr>ch_cachedApi = None, ch_world = deniedRead\<rparr>"
  have l: "snapshotList twoLib idleEnv deniedRead = (Inr [], deniedRead)"
    by (simp add: snapshotList_def svc_list_def deniedRead_def emptyDir_def store_list_def
        scanLocked_def headLocked_def file_content_def orderNewestFirst_def)
  have "connected ?ch" by (simp add: connected_def)
  moreover have "list_all meta_ok ms" if "snapshotList twoLib idleEnv (ch_world ?ch) = (Inr ms, dm')" for ms dm'
    using that l by simp
  moreover have "restore_outcome_ok ro" if "snapshotRestore twoLib idleEnv '':1.2'' [] (ch_world ?ch) = (Inr ro, dm')" for ro dm'
    using that by (simp add: snapshotRestore_def valid_caller_def kCallerMaxLength_def valid_snapshotId_def invalid_def makeError_def)
  moreover have "diff_ok df" if "snapshotDiff twoLib idleEnv [] [] (ch_world ?ch) = (Inr df, dm')" for df dm'
    using that by (simp add: snapshotDiff_def valid_snapshotId_def invalid_def makeError_def)
  ultimately show ?thesis
    using client_sees_processor [OF _ twoLib_ok, where ch = ?ch and env = idleEnv and me = "'':1.2''" and i = "[]" and j = "[]" and rt = "''/sys''"] l
    by (simp add: clientView_def seen_def)
qed

end
