(* ===== verification/Snapshot_Presentation.thy ===== *)
theory Snapshot_Presentation
  imports Snapshot_Diff Snapshot_History
begin

text \<open>
  \<^verbatim>\<open>core/src/snapshot_presentation.cpp\<close> and \<^verbatim>\<open>core/src/backend_wording.cpp\<close>: the lines a
  user reads about a diff, a restore and a backend that cannot serve.
\<close>

subsection \<open>Diff lines\<close>

definition kKindColumnWidth :: nat where
  "kKindColumnWidth = 9"

definition cstr :: "string \<Rightarrow> string" where
  "cstr s = takeWhile (\<lambda>c. c \<noteq> CHR 0x00) s"

definition padRight :: "nat \<Rightarrow> string \<Rightarrow> string" where
  "padRight n s = s @ replicate (n - length s) CHR '' ''"

text \<open>\<^verbatim>\<open>snprintf\<close> into 256 bytes: at most 255 characters are kept.\<close>

definition diffEntryLine :: "diff_entry \<Rightarrow> string" where
  "diffEntryLine e =
     take 255 (padRight kKindColumnWidth (cstr (de_kind e)) @ cstr (de_key e) @ '': ''
               @ cstr (de_before e) @ '' -> '' @ cstr (de_after e))"

definition diffLines :: "snapshot_diff \<Rightarrow> string list" where
  "diffLines d = (if identical d then [''No differences.''] else map diffEntryLine (sd_entries d))"

definition chainMarkers :: "chain_row \<Rightarrow> string" where
  "chainMarkers row =
     (let marks = (if cr_chainStart row then [''chain start''] else [])
                @ (if cr_head row then [''HEAD''] else [])
                @ (if cr_lastGood row then [''last good''] else [])
      in if marks = [] then [] else ''  ['' @ join '', '' marks @ '']'')"

definition restorePreviewChangeLines :: "snapshot_diff option \<Rightarrow> string list" where
  "restorePreviewChangeLines diff =
     (case diff of
        None \<Rightarrow> [''What will change is unavailable '' @ dash @ '' the diff could not be computed.'']
      | Some d \<Rightarrow>
          if identical d then [''This snapshot already matches the current state; nothing would change.'']
          else [''Differences (snapshot -> current state):'']
               @ map (\<lambda>line. ''  '' @ line) (diffLines d)
               @ [''Restoring re-applies the snapshot side of every row above.''])"

definition restorePreviewConvergenceNote :: string where
  "restorePreviewConvergenceNote =
     ''Convergence may be partial: the critical-device guard can refuse individual items. '' @
     ''The restore still completes and reports every item.''"

subsection \<open>Restore outcomes\<close>

text \<open>The counting loop: the four tallies in the order ok, refused, failed, absent.\<close>

definition tally :: "nat \<times> nat \<times> nat \<times> nat \<Rightarrow> restore_item \<Rightarrow> nat \<times> nat \<times> nat \<times> nat" where
  "tally counts item = (case counts of (ok, refused, failed, absent) \<Rightarrow>
     if ri_status item = ''ok'' then (ok + 1, refused, failed, absent)
     else if ri_status item = ''guard-refused'' then (ok, refused + 1, failed, absent)
     else if ri_status item = ''failed'' then (ok, refused, failed + 1, absent)
     else if ri_status item = ''device-absent'' then (ok, refused, failed, absent + 1)
     else counts)"

definition restoreSummary :: "restore_outcome \<Rightarrow> string" where
  "restoreSummary outcome =
     (case foldl tally (0, 0, 0, 0) (ro_items outcome) of (ok, refused, failed, absent) \<Rightarrow>
        ''Restored '' @ snapshotShortId (ro_snapshotId outcome) @ '': '' @
        (if ro_items outcome = [] then ''no changes needed''
         else show_nat ok @ '' ok''
              @ (if refused > 0 then '', '' @ show_nat refused @ '' guard-refused'' else [])
              @ (if failed > 0 then '', '' @ show_nat failed @ '' failed'' else [])
              @ (if absent > 0 then '', '' @ show_nat absent @ '' device-absent'' else []))
        @ ''; safety snapshot '' @ snapshotShortId (ro_safetySnapshotId outcome))"

definition restoreRecoveryCommand :: "restore_outcome \<Rightarrow> string" where
  "restoreRecoveryCommand outcome =
     ''devmgr snapshot restore '' @ snapshotShortId (ro_safetySnapshotId outcome)"

definition unconvergedLine :: "restore_item \<Rightarrow> string" where
  "unconvergedLine item =
     ''  '' @ ri_status item @ ''  '' @ ri_subject item @ '' ('' @ ri_action item @ '')''
     @ (if ri_detail item \<noteq> [] then '': '' @ ri_detail item else [])"

definition restoreGuidanceLines :: "restore_outcome \<Rightarrow> string list" where
  "restoreGuidanceLines outcome =
     (let unconverged = map unconvergedLine (filter (\<lambda>i. ri_status i \<noteq> ''ok'') (ro_items outcome)) in
      if unconverged = [] then []
      else [''Restore of '' @ snapshotShortId (ro_snapshotId outcome) @ '' left ''
              @ show_nat (length unconverged)
              @ (if length unconverged = 1 then '' item unconverged:'' else '' items unconverged:'')]
           @ unconverged
           @ [''The state from before this restore is kept as safety snapshot ''
                @ snapshotShortId (ro_safetySnapshotId outcome) @ ''.'',
              ''To go back, run: '' @ restoreRecoveryCommand outcome])"

subsection \<open>Backends that cannot serve\<close>

datatype backend_id = Devmgrd | Fwupd | Dkms

datatype unavailability_kind = Absent | Unreachable | NotPermitted | UnsupportedKind

fun kindFor :: "code \<Rightarrow> unavailability_kind" where
  "kindFor NotFound = Absent"
| "kindFor Permission = NotPermitted"
| "kindFor Unsupported = UnsupportedKind"
| "kindFor Io = Unreachable"
| "kindFor Network = Unreachable"
| "kindFor Busy = Unreachable"
| "kindFor Conflict = Unreachable"
| "kindFor InvalidArgs = Unreachable"

fun backendName :: "backend_id \<Rightarrow> string" where
  "backendName Devmgrd = ''Device service''"
| "backendName Fwupd = ''Firmware updates''"
| "backendName Dkms = ''DKMS status''"

definition unavailabilityText :: "backend_id \<Rightarrow> unavailability_kind \<Rightarrow> string" where
  "unavailabilityText backend kind =
     (if backend = Devmgrd \<and> kind = Unreachable then
        ''Device service unavailable '' @ dash @ '' showing read-only system state.''
      else if backend = Fwupd \<and> kind = Unreachable then
        ''Firmware updates unavailable '' @ dash @ '' the fwupd service is not responding.''
      else if backend = Dkms \<and> kind = Absent then
        ''DKMS status unavailable '' @ dash @ '' DKMS is not installed on this system.''
      else backendName backend @ '' unavailable '' @ dash @ '' this cannot be read right now.'')"

definition backendForProvider :: "string \<Rightarrow> backend_id option" where
  "backendForProvider providerId =
     (if providerId = ''fwupd'' then Some Fwupd
      else if providerId = ''dkms'' then Some Dkms
      else None)"

subsection \<open>What the wording promises\<close>

lemma tally_total:
  "foldl tally (a, b, c, d) items = (a', b', c', d') \<Longrightarrow>
     a' = a + length (filter (\<lambda>i. ri_status i = ''ok'') items) \<and>
     b' = b + length (filter (\<lambda>i. ri_status i = ''guard-refused'') items) \<and>
     c' = c + length (filter (\<lambda>i. ri_status i = ''failed'') items) \<and>
     d' = d + length (filter (\<lambda>i. ri_status i = ''device-absent'') items)"
proof (induction items arbitrary: a b c d)
  case (Cons i items)
  obtain a1 b1 c1 d1 where t: "tally (a, b, c, d) i = (a1, b1, c1, d1)" by (metis surj_pair)
  show ?case
    using Cons.IH [of a1 b1 c1 d1] Cons.prems t by (simp add: tally_def) (auto split: if_splits)
qed simp

text \<open>Guidance is empty exactly when every item converged, and otherwise it is a heading, one
  line for every item that did not end ok, the safety snapshot and the command that goes back.\<close>

lemma guidance_lines_complete:
  "(restoreGuidanceLines ro = [] \<longleftrightarrow> filter (\<lambda>i. ri_status i \<noteq> ''ok'') (ro_items ro) = []) \<and>
   (restoreGuidanceLines ro = [] \<or>
    length (restoreGuidanceLines ro) = 3 + length (filter (\<lambda>i. ri_status i \<noteq> ''ok'') (ro_items ro)) \<and>
    list_all (\<lambda>i. ri_status i = ''ok'' \<or> unconvergedLine i \<in> set (restoreGuidanceLines ro)) (ro_items ro) \<and>
    last (restoreGuidanceLines ro)
      = ''To go back, run: devmgr snapshot restore '' @ take 12 (ro_safetySnapshotId ro))"
  by (auto simp: restoreGuidanceLines_def Let_def restoreRecoveryCommand_def snapshotShortId_def
      kSnapshotShortIdLength_def list_all_iff)

text \<open>A restore preview whose diff could not be computed prints a byte outside ASCII.\<close>

lemma preview_line_not_ascii:
  "\<not> list_all (list_all (\<lambda>c. c < CHR 0x80)) (restorePreviewChangeLines None)"
  by code_simp

lemma unavailabilityText_names_backend:
  "starts_with (unavailabilityText b k) (backendName b @ '' unavailable '' @ dash)"
  by (cases b) (auto simp: unavailabilityText_def starts_with_def dash_def)

end
