(* ===== verification/Cli.thy ===== *)
theory Cli
  imports Privileged_Channel Snapshot_Presentation
begin

text \<open>
  \<^verbatim>\<open>cli/src/cli.cpp\<close> and \<^verbatim>\<open>cli/src/main.cpp\<close>: the recovery command line. The channel is a
  record of functions over a state of its own; a verb returns its exit code, or the exception that
  leaves it, what it wrote to the two streams, and the state. Local time (\<^verbatim>\<open>localtime_r\<close> and
  \<^verbatim>\<open>strftime\<close>) is the argument \<open>lt\<close>.
\<close>

record 'w client =
  cl_list :: "'w \<Rightarrow> snapshot_meta list result \<times> 'w"
  cl_create :: "string \<Rightarrow> 'w \<Rightarrow> string result \<times> 'w"
  cl_diff :: "string \<Rightarrow> string \<Rightarrow> 'w \<Rightarrow> (jexn + snapshot_diff result) \<times> 'w"
  cl_restore :: "string \<Rightarrow> 'w \<Rightarrow> restore_outcome result \<times> 'w"
  cl_delete :: "string \<Rightarrow> 'w \<Rightarrow> unit result \<times> 'w"

definition kOk :: nat where "kOk = 0"
definition kUsage :: nat where "kUsage = 1"
definition kNotFound :: nat where "kNotFound = 2"
definition kNotAuthorized :: nat where "kNotAuthorized = 3"
definition kUnreachable :: nat where "kUnreachable = 4"
definition kFailed :: nat where "kFailed = 5"

named_theorems exit_codes "the exit codes"

lemmas [exit_codes] = kOk_def kUsage_def kNotFound_def kNotAuthorized_def kUnreachable_def kFailed_def

datatype exit = Exit nat | Escaped jexn

record 'w run =
  run_exit :: exit
  run_out :: string
  run_err :: string
  run_world :: 'w

definition nl :: string where "nl = [CHR 0x0A]"

definition quoted :: "string \<Rightarrow> string" where
  "quoted s = [CHR 0x27] @ s @ [CHR 0x27]"

definition endl :: "string list \<Rightarrow> string" where
  "endl ls = concat (map (\<lambda>l. l @ nl) ls)"

subsection \<open>Errors\<close>

definition kUnreachableMarkers :: "string list" where
  "kUnreachableMarkers =
     [''systemd1.unitmasked'', ''systemd1.nosuchunit'', ''systemd1.unitinactive'',
      ''dbus.error.serviceunknown'', ''dbus.error.namehasnoowner'', ''dbus.error.noreply'',
      ''dbus.error.spawn.'',
      ''dbus.error.noserver'', ''dbus.error.disconnected'',
      ''helper devmgrd is not available'', ''is masked'', ''devmgrd.service not found'',
      ''activation via systemd failed'', ''failed to activate service'',
      ''was not provided by any .service files'', ''disconnected from message bus without replying'',
      ''failed to connect to socket'', ''could not connect to bus'']"

definition isDaemonUnavailableError :: "error \<Rightarrow> bool" where
  "isDaemonUnavailableError e =
     (if err_code e = Busy then True
      else if err_code e \<noteq> Io then False
      else list_ex (\<lambda>marker. contains (map tolowerC (err_message e)) marker) kUnreachableMarkers)"

definition kUsageText :: string where
  "kUsageText = endl
     [''usage: devmgr [--bus system|session] snapshot <command>'',
      ''  list [--json]              list snapshots (short id, date, trigger, reason)'',
      ''  history [--json]           list snapshots as a parent chain (HEAD, last good marked)'',
      ''  create [--label <text>]    take a manual snapshot, print its id'',
      ''  diff <a> [<b>] [--json]    show what changed between <a> and <b> (<b> omitted = live state)'',
      ''  restore [--preview] <id>   restore a snapshot, or --preview to show the change without restoring'',
      ''  delete <id>                delete a snapshot (id may be any unique prefix)'']"

definition exitCodeFor :: "error \<Rightarrow> nat" where
  "exitCodeFor e =
     (case err_code e of
        Permission \<Rightarrow> kNotAuthorized
      | NotFound \<Rightarrow> kNotFound
      | InvalidArgs \<Rightarrow> kUsage
      | Busy \<Rightarrow> (if isDaemonUnavailableError e then kUnreachable else kFailed)
      | Io \<Rightarrow> (if isDaemonUnavailableError e then kUnreachable else kFailed)
      | _ \<Rightarrow> kFailed)"

text \<open>The ways a verb ends: usage with a line before it, a usage line of its own, an error, success.\<close>

definition okRun :: "string \<Rightarrow> 'w \<Rightarrow> 'w run" where
  "okRun out w = \<lparr>run_exit = Exit kOk, run_out = out, run_err = [], run_world = w\<rparr>"

definition usage :: "string \<Rightarrow> 'w \<Rightarrow> 'w run" where
  "usage err w = \<lparr>run_exit = Exit kUsage, run_out = [], run_err = err @ kUsageText, run_world = w\<rparr>"

definition stopWith :: "nat \<Rightarrow> string \<Rightarrow> 'w \<Rightarrow> 'w run" where
  "stopWith code err w = \<lparr>run_exit = Exit code, run_out = [], run_err = err, run_world = w\<rparr>"

definition errorLine :: "error \<Rightarrow> string" where
  "errorLine e = ''devmgr: '' @ err_message e @ nl"

definition reportError :: "error \<Rightarrow> 'w \<Rightarrow> 'w run" where
  "reportError e w = stopWith (exitCodeFor e) (errorLine e) w"

definition unexpected :: "string \<Rightarrow> string" where
  "unexpected a = ''devmgr: unexpected argument '' @ quoted a @ nl"

subsection \<open>Rows\<close>

definition reasonCell :: "snapshot_meta \<Rightarrow> string" where
  "reasonCell m =
     (if rsn_verb (meta_reason m) = [] then rsn_subject (meta_reason m)
      else if rsn_subject (meta_reason m) = [] then rsn_verb (meta_reason m)
      else rsn_verb (meta_reason m) @ '' '' @ rsn_subject (meta_reason m))"

definition listRow :: "(int \<Rightarrow> string) \<Rightarrow> snapshot_meta \<Rightarrow> string" where
  "listRow lt m =
     snapshotShortId (meta_id m) @ ''  '' @ lt (meta_createdAtUtc m) @ ''  '' @
     trigger_to_string (meta_trigger m) @ ''  '' @ reasonCell m @
     (if meta_health m \<noteq> HealthOk then ''  ('' @ health_to_string (meta_health m) @ '')'' else [])"

subsection \<open>Resolving an id\<close>

text \<open>The id, or the exit code and the error text; a match is an id that starts with the prefix.\<close>

definition resolveId :: "'w client \<Rightarrow> string \<Rightarrow> 'w \<Rightarrow> (nat \<times> string + string) \<times> 'w" where
  "resolveId ch prfx w =
     (case cl_list ch w of
        (Inl e, w1) \<Rightarrow> (Inl (exitCodeFor e, errorLine e), w1)
      | (Inr metas, w1) \<Rightarrow>
          (case filter (\<lambda>i. starts_with i prfx) (map meta_id metas) of
             [] \<Rightarrow> (Inl (kNotFound, ''devmgr: no snapshot matches id '' @ quoted prfx @ nl), w1)
           | [i] \<Rightarrow> (Inr i, w1)
           | matches \<Rightarrow> (Inl (kNotFound, ''devmgr: id '' @ quoted prfx @ '' is ambiguous, matches:'' @ nl @
                             endl (map (\<lambda>i. ''  '' @ i) matches)), w1)))"

subsection \<open>Verbs\<close>

definition doList :: "json_lib \<Rightarrow> (int \<Rightarrow> string) \<Rightarrow> 'w client \<Rightarrow> string list \<Rightarrow> 'w \<Rightarrow> 'w run" where
  "doList lib lt ch rest w =
     (case find (\<lambda>a. a \<noteq> ''--json'') rest of
        Some a \<Rightarrow> usage (unexpected a) w
      | None \<Rightarrow>
          (case cl_list ch w of
             (Inl e, w1) \<Rightarrow> reportError e w1
           | (Inr metas, w1) \<Rightarrow>
               if rest \<noteq> [] then okRun (snapshotListToJson lib metas @ nl) w1
               else if metas = [] then okRun (''(no snapshots)'' @ nl) w1
               else okRun (endl (map (listRow lt) metas)) w1))"

definition doHistory :: "json_lib \<Rightarrow> (int \<Rightarrow> string) \<Rightarrow> 'w client \<Rightarrow> string list \<Rightarrow> 'w \<Rightarrow> 'w run" where
  "doHistory lib lt ch rest w =
     (case find (\<lambda>a. a \<noteq> ''--json'') rest of
        Some a \<Rightarrow> usage (unexpected a) w
      | None \<Rightarrow>
          (case cl_list ch w of
             (Inl e, w1) \<Rightarrow> reportError e w1
           | (Inr metas, w1) \<Rightarrow>
               if rest \<noteq> [] then okRun (snapshotListToJson lib metas @ nl) w1
               else if metas = [] then okRun (''(no snapshots)'' @ nl) w1
               else okRun (endl (map (\<lambda>row. listRow lt (cr_meta row) @ chainMarkers row)
                                 (buildSnapshotChain metas))) w1))"

fun createLabel :: "string list \<Rightarrow> string \<Rightarrow> string + string" where
  "createLabel [] label = Inr label"
| "createLabel [a] label =
     (if a = ''--label'' then Inl (''devmgr: --label needs a value'' @ nl) else Inl (unexpected a))"
| "createLabel (a # v # rest) label =
     (if a = ''--label'' then createLabel rest v else Inl (unexpected a))"

definition doCreate :: "'w client \<Rightarrow> string list \<Rightarrow> 'w \<Rightarrow> 'w run" where
  "doCreate ch rest w =
     (case createLabel rest [] of
        Inl msg \<Rightarrow> usage msg w
      | Inr label \<Rightarrow>
          (case cl_create ch label w of
             (Inl e, w1) \<Rightarrow> reportError e w1
           | (Inr i, w1) \<Rightarrow> okRun (i @ nl) w1))"

definition printOutcome :: "restore_outcome \<Rightarrow> string" where
  "printOutcome oc =
     ''restored '' @ snapshotShortId (ro_snapshotId oc) @ '' (safety snapshot '' @
     snapshotShortId (ro_safetySnapshotId oc) @ '')'' @ nl @
     (if ro_items oc = [] then ''  (state already matched; no changes needed)'' @ nl
      else endl (map (\<lambda>i. ''  '' @ ri_status i @ ''  '' @ ri_action i @ ''  '' @ ri_subject i @
             (if ri_detail i \<noteq> [] then '' '' @ dash @ '' '' @ ri_detail i else [])) (ro_items oc)))"

text \<open>\<^verbatim>\<open>splitArgs\<close> with a flag: whether the flag occurred and the positionals, or the unexpected one.\<close>

fun splitArgs :: "string \<Rightarrow> string list \<Rightarrow> string + bool \<times> string list" where
  "splitArgs flag [] = Inr (False, [])"
| "splitArgs flag (a # rest) =
     (if a = flag then map_sum id (\<lambda>(f, ps). (True, ps)) (splitArgs flag rest)
      else if starts_with a ''--'' then Inl a
      else map_sum id (\<lambda>(f, ps). (f, a # ps)) (splitArgs flag rest))"

definition showDiff :: "(snapshot_diff \<Rightarrow> string) \<Rightarrow> (jexn + snapshot_diff result) \<times> 'w \<Rightarrow> 'w run" where
  "showDiff text r =
     (case r of
        (Inl x, w) \<Rightarrow> \<lparr>run_exit = Escaped x, run_out = [], run_err = [], run_world = w\<rparr>
      | (Inr (Inl e), w) \<Rightarrow> reportError e w
      | (Inr (Inr d), w) \<Rightarrow> okRun (text d) w)"

definition doDiff :: "json_lib \<Rightarrow> 'w client \<Rightarrow> string list \<Rightarrow> 'w \<Rightarrow> 'w run" where
  "doDiff lib ch rest w =
     (case splitArgs ''--json'' rest of
        Inl a \<Rightarrow> usage (unexpected a) w
      | Inr (json, positionals) \<Rightarrow>
          if positionals = [] \<or> length positionals > 2
          then stopWith kUsage (''usage: devmgr snapshot diff <a> [<b>]'' @ nl) w
          else case resolveId ch (positionals ! 0) w of
            (Inl (code, err), w1) \<Rightarrow> stopWith code err w1
          | (Inr baseFull, w1) \<Rightarrow>
              (case (if length positionals = 2 then resolveId ch (positionals ! 1) w1 else (Inr [], w1)) of
                 (Inl (code, err), w2) \<Rightarrow> stopWith code err w2
               | (Inr targetFull, w2) \<Rightarrow>
                   showDiff (\<lambda>d. if json then snapshotDiffToJson lib d @ nl else endl (diffLines d))
                     (cl_diff ch baseFull targetFull w2)))"

definition printRestorePreview :: "'w client \<Rightarrow> string \<Rightarrow> 'w \<Rightarrow> 'w run" where
  "printRestorePreview ch i w =
     showDiff (\<lambda>d. ''Restore preview for '' @ snapshotShortId i @ '' (nothing is restored):'' @ nl @
         endl (restorePreviewChangeLines (Some d)) @ nl @ restorePreviewConvergenceNote @ nl)
       (cl_diff ch i [] w)"

definition doRestore :: "'w client \<Rightarrow> string list \<Rightarrow> 'w \<Rightarrow> 'w run" where
  "doRestore ch rest w =
     (case splitArgs ''--preview'' rest of
        Inl a \<Rightarrow> usage (unexpected a) w
      | Inr (preview, positionals) \<Rightarrow>
          if length positionals \<noteq> 1 \<or> hd positionals = []
          then stopWith kUsage (''usage: devmgr snapshot restore [--preview] <id>'' @ nl) w
          else case resolveId ch (hd positionals) w of
            (Inl (code, err), w1) \<Rightarrow> stopWith code err w1
          | (Inr full, w1) \<Rightarrow>
              if preview then printRestorePreview ch full w1
              else case cl_restore ch full w1 of
                (Inl e, w2) \<Rightarrow> reportError e w2
              | (Inr oc, w2) \<Rightarrow> okRun (printOutcome oc) w2)"

definition doDelete :: "'w client \<Rightarrow> string list \<Rightarrow> 'w \<Rightarrow> 'w run" where
  "doDelete ch rest w =
     (if length rest \<noteq> 1 \<or> hd rest = []
      then stopWith kUsage (''usage: devmgr snapshot delete <id>'' @ nl) w
      else case resolveId ch (hd rest) w of
        (Inl (code, err), w1) \<Rightarrow> stopWith code err w1
      | (Inr full, w1) \<Rightarrow>
          (case cl_delete ch full w1 of
             (Inl e, w2) \<Rightarrow> reportError e w2
           | (Inr _, w2) \<Rightarrow> okRun (''deleted '' @ snapshotShortId full @ nl) w2))"

definition cliRun :: "json_lib \<Rightarrow> (int \<Rightarrow> string) \<Rightarrow> 'w client \<Rightarrow> string list \<Rightarrow> 'w \<Rightarrow> 'w run" where
  "cliRun lib lt ch args w =
     (if args = [] \<or> hd args \<noteq> ''snapshot'' then usage [] w
      else if length args < 2 then usage [] w
      else let verb = args ! 1; rest = drop 2 args in
        if verb = ''list'' then doList lib lt ch rest w
        else if verb = ''history'' then doHistory lib lt ch rest w
        else if verb = ''create'' then doCreate ch rest w
        else if verb = ''diff'' then doDiff lib ch rest w
        else if verb = ''restore'' then doRestore ch rest w
        else if verb = ''delete'' then doDelete ch rest w
        else usage (''devmgr: unknown snapshot command '' @ quoted verb @ nl) w)"

subsection \<open>The program\<close>

text \<open>\<^verbatim>\<open>main\<close>: the arguments after the program name; \<open>connect\<close> is the channel on the chosen bus,
  \<open>what\<close> the text of an exception, \<open>version\<close> the version line.\<close>

definition catchAll :: "(jexn \<Rightarrow> string) \<Rightarrow> 'w run \<Rightarrow> 'w run" where
  "catchAll what r =
     (case run_exit r of
        Exit _ \<Rightarrow> r
      | Escaped x \<Rightarrow> r\<lparr>run_exit := Exit kFailed, run_err := run_err r @ ''devmgr: '' @ what x @ nl\<rparr>)"

datatype cli_bus = SystemBus | SessionBus

definition cliMain :: "json_lib \<Rightarrow> (int \<Rightarrow> string) \<Rightarrow> string \<Rightarrow> (jexn \<Rightarrow> string) \<Rightarrow> (cli_bus \<Rightarrow> 'w client)
    \<Rightarrow> string list \<Rightarrow> 'w \<Rightarrow> 'w run" where
  "cliMain lib lt version what connect tokens w =
     (if tokens \<noteq> [] \<and> hd tokens = ''--version'' then okRun (version @ nl) w
      else case (if tokens \<noteq> [] \<and> hd tokens = ''--bus'' then
                   if length tokens < 2 then Inl (''devmgr: --bus needs a value (system|session)'' @ nl)
                   else if tokens ! 1 = ''system'' then Inr (SystemBus, drop 2 tokens)
                   else if tokens ! 1 = ''session'' then Inr (SessionBus, drop 2 tokens)
                   else Inl (''devmgr: unknown bus '' @ quoted (tokens ! 1) @ '' (want system|session)'' @ nl)
                 else Inr (SystemBus, tokens)) of
        Inl msg \<Rightarrow> stopWith kUsage msg w
      | Inr (bus, args) \<Rightarrow>
          catchAll what (cliRun lib lt (connect bus) args w))"

end
