(* ===== verification/Cli_Facts.thy ===== *)
theory Cli_Facts
  imports Cli
begin

text \<open>
  What the command line guarantees its caller: which verbs can change anything and on which
  snapshot, and what the exit code says.
\<close>

subsection \<open>Exit codes\<close>

named_theorems run_defs "the ways a verb ends"

lemmas [run_defs] = okRun_def usage_def stopWith_def reportError_def errorLine_def unexpected_def

text \<open>A verb ends well-formed: an exit code of the table, zero exactly when nothing was written to
  the error stream.\<close>

definition well_ended :: "'w run \<Rightarrow> bool" where
  "well_ended r \<longleftrightarrow>
     (case run_exit r of Exit n \<Rightarrow> n \<le> kFailed \<and> (n = kOk \<longleftrightarrow> run_err r = []) | Escaped _ \<Rightarrow> run_err r = [])"

lemma exitCodeFor_range: "exitCodeFor e \<in> {1..5}"
  by (simp add: exitCodeFor_def exit_codes split: code.split)

lemma well_ended_simps [simp]:
  "well_ended (okRun out w)" "well_ended (usage err w)" "well_ended (reportError e w)"
  using exitCodeFor_range [of e]
  by (auto simp: well_ended_def run_defs exit_codes kUsageText_def endl_def)

lemma well_ended_stopWith [simp]: "well_ended (stopWith code err w) \<longleftrightarrow> code \<le> kFailed \<and> (code = kOk \<longleftrightarrow> err = [])"
  by (simp add: well_ended_def run_defs)

lemma resolveId_error: "resolveId ch p w = (Inl (code, err), w1) \<Longrightarrow> code \<in> {1..5} \<and> err \<noteq> []"
  using exitCodeFor_range
  by (auto simp: resolveId_def errorLine_def kNotFound_def split: prod.splits sum.splits list.splits)

lemma well_ended_resolved:
  assumes "\<And>code err w1. r = (Inl (code, err), w1) \<Longrightarrow> code \<in> {1..5} \<and> err \<noteq> []"
    and "\<And>i w1. well_ended (f i w1)"
  shows "well_ended (case r of (Inl (code, err), w1) \<Rightarrow> stopWith code err w1 | (Inr i, w1) \<Rightarrow> f i w1)"
  using assms by (cases r; cases "fst r") (auto simp: exit_codes)

lemmas well_ended_resolve = well_ended_resolved [OF resolveId_error]

lemma well_ended_showDiff: "well_ended (showDiff f r)"
proof -
  obtain q w where "r = (q, w)" by fastforce
  then show ?thesis by (simp add: showDiff_def split: sum.split) (simp add: well_ended_def)
qed

lemma stop_usage [simp]: "kUsage \<le> kFailed" "kUsage \<noteq> kOk"
  by (simp_all add: exit_codes)

lemma well_ended_call:
  "well_ended (case q of (Inl e, w2) \<Rightarrow> reportError e w2 | (Inr x, w2) \<Rightarrow> okRun (f x) w2)"
  by (cases q; cases "fst q") auto

lemma cliRun_well_ended: "well_ended (cliRun lib lt ch args w)"
proof -
  have l: "well_ended (doList lib lt ch rest w)" "well_ended (doHistory lib lt ch rest w)"
    "well_ended (doCreate ch rest w)" for rest
    by (auto simp: doList_def doHistory_def doCreate_def split: option.split prod.split sum.split)
  have t: "code \<in> {1..5} \<and> err \<noteq> []"
    if "(if b then resolveId ch p w' else (Inr [], w')) = (Inl (code, err), w1)" for b p w' code err w1
    using that resolveId_error [of ch p w' code err w1] by (cases b) auto
  have d: "well_ended (doDiff lib ch rest w)" for rest
    unfolding doDiff_def
    by (auto split: sum.split intro!: well_ended_resolve well_ended_resolved [OF t] well_ended_showDiff)
  have r: "well_ended (doRestore ch rest w)" for rest
    unfolding doRestore_def printRestorePreview_def
    by (auto split: sum.split intro!: well_ended_resolve well_ended_showDiff well_ended_call)
  have x: "well_ended (doDelete ch rest w)" for rest
    unfolding doDelete_def by (auto intro!: well_ended_resolve well_ended_call)
  show ?thesis using l d r x by (simp add: cliRun_def Let_def)
qed

definition documented :: "'w run \<Rightarrow> bool" where
  "documented r \<longleftrightarrow> (\<exists>n. run_exit r = Exit n \<and> n \<le> 5 \<and> (n = 0 \<longleftrightarrow> run_err r = []))"

lemma documented_simps:
  "documented (okRun out w)" "documented (stopWith kUsage (c # err) w)" "documented (catchAll what (cliRun lib lt ch args w))"
proof -
  show "documented (catchAll what (cliRun lib lt ch args w))"
    using cliRun_well_ended [of lib lt ch args w]
    by (auto simp: documented_def well_ended_def catchAll_def exit_codes split: exit.splits)
qed (auto simp: documented_def run_defs exit_codes)

text \<open>C40: the program always ends with one of the six documented exit codes, and the code is zero
  exactly when nothing was written to the error stream; no exception leaves it.\<close>

lemma exit_code_documented:
  "\<exists>n. run_exit (cliMain lib lt version what connect tokens w) = Exit n \<and> n \<le> 5 \<and>
     (n = 0 \<longleftrightarrow> run_err (cliMain lib lt version what connect tokens w) = [])"
  unfolding documented_def [symmetric]
  by (simp add: cliMain_def documented_simps)

subsection \<open>What can change\<close>

text \<open>The states that listing and comparing alone lead to.\<close>

inductive reads :: "'w client \<Rightarrow> 'w \<Rightarrow> 'w \<Rightarrow> bool" for ch where
  none: "reads ch w w"
| list: "reads ch w w1 \<Longrightarrow> reads ch w (snd (cl_list ch w1))"
| diff: "reads ch w w1 \<Longrightarrow> reads ch w (snd (cl_diff ch i j w1))"

lemma reads_list: "cl_list ch w1 = (r, w2) \<Longrightarrow> reads ch w w1 \<Longrightarrow> reads ch w w2"
  using reads.list [of ch w w1] by simp

lemma reads_diff: "cl_diff ch i j w1 = (r, w2) \<Longrightarrow> reads ch w w1 \<Longrightarrow> reads ch w w2"
  using reads.diff [of ch w w1 i j] by simp

text \<open>The listing names exactly one snapshot by the prefix.\<close>

definition uniqueMatch :: "'w client \<Rightarrow> string \<Rightarrow> 'w \<Rightarrow> string \<Rightarrow> 'w \<Rightarrow> bool" where
  "uniqueMatch ch prfx w i w1 \<longleftrightarrow>
     (\<exists>metas. cl_list ch w = (Inr metas, w1) \<and> filter (\<lambda>j. starts_with j prfx) (map meta_id metas) = [i])"

lemma resolveId_Inr: "resolveId ch p w = (Inr i, w1) \<longleftrightarrow> uniqueMatch ch p w i w1"
  by (auto simp: resolveId_def uniqueMatch_def split: prod.splits sum.splits list.splits)

lemma resolveId_reads: "resolveId ch p w1 = (r, w2) \<Longrightarrow> reads ch w w1 \<Longrightarrow> reads ch w w2"
  by (auto simp: resolveId_def split: prod.splits sum.splits list.splits intro: reads_list)

lemma world_simps [simp]:
  "run_world (okRun out w) = w" "run_world (usage err w) = w" "run_world (stopWith c err w) = w"
  "run_world (reportError e w) = w"
  by (simp_all add: run_defs)

lemma showDiff_world: "run_world (showDiff f r) = snd r"
  by (cases r) (simp add: showDiff_def split: sum.split)

lemma doDiff_reads: "reads ch w (run_world (doDiff lib ch rest w))"
proof -
  have d: "reads ch w (run_world (showDiff f (cl_diff ch i j w2)))" if "reads ch w w2" for f i j w2
    using reads.diff [OF that] by (simp add: showDiff_world)
  show ?thesis
  proof (cases "splitArgs ''--json'' rest")
    case (Inr jp)
    obtain json ps where jp: "jp = (json, ps)" by fastforce
    obtain r1 w1 where 1: "resolveId ch (ps ! 0) w = (r1, w1)" by fastforce
    obtain r2 w2 where 2: "(if length ps = 2 then resolveId ch (ps ! 1) w1 else (Inr [], w1)) = (r2, w2)" by fastforce
    have w1: "reads ch w w1" by (rule resolveId_reads [OF 1 reads.none])
    have w2: "reads ch w w2"
      using 2 resolveId_reads [OF _ w1, of "ps ! 1" r2 w2] w1 by (cases "length ps = 2") auto
    have e: "doDiff lib ch rest w =
      (if ps = [] \<or> length ps > 2 then stopWith kUsage (''usage: devmgr snapshot diff <a> [<b>]'' @ nl) w
       else case (r1, w1) of
         (Inl (code, err), w1) \<Rightarrow> stopWith code err w1
       | (Inr b, w1) \<Rightarrow> (case (r2, w2) of
             (Inl (code, err), w2) \<Rightarrow> stopWith code err w2
           | (Inr t, w2) \<Rightarrow> showDiff (\<lambda>d. if json then snapshotDiffToJson lib d @ nl else endl (diffLines d)) (cl_diff ch b t w2)))"
      unfolding doDiff_def Inr jp sum.case prod.case 1
      by (cases r1) (simp_all only: sum.case prod.case 2)
    show ?thesis
      unfolding e using w1 w2 d by (cases r1; cases r2) (auto simp: reads.none)
  qed (simp add: doDiff_def reads.none)
qed

lemma doRestore_world:
  "reads ch w (run_world (doRestore ch rest w)) \<or>
   (\<exists>p i w1. splitArgs ''--preview'' rest = Inr (False, [p]) \<and> uniqueMatch ch p w i w1 \<and>
      run_world (doRestore ch rest w) = snd (cl_restore ch i w1))"
proof (cases "splitArgs ''--preview'' rest")
  case (Inr fp)
  obtain preview ps where fp: "fp = (preview, ps)" by fastforce
  show ?thesis
  proof (cases "\<exists>p. ps = [p] \<and> p \<noteq> []")
    case True
    then obtain p where p: "ps = [p]" "p \<noteq> []" by blast
    obtain r1 w1 where 1: "resolveId ch p w = (r1, w1)" by fastforce
    have w1: "reads ch w w1" by (rule resolveId_reads [OF 1 reads.none])
    have eq: "doRestore ch rest w = (case (r1, w1) of
          (Inl (code, err), w1) \<Rightarrow> stopWith code err w1
        | (Inr full, w1) \<Rightarrow>
            if preview then printRestorePreview ch full w1
            else case cl_restore ch full w1 of
              (Inl e, w2) \<Rightarrow> reportError e w2
            | (Inr oc, w2) \<Rightarrow> okRun (printOutcome oc) w2)"
      by (simp add: doRestore_def Inr fp p 1)
    show ?thesis
    proof (cases r1)
      case (Inl e)
      then show ?thesis using w1 unfolding eq by (cases e) simp
    next
      case (Inr i)
      have u: "uniqueMatch ch p w i w1" using 1 Inr resolveId_Inr [of ch p w i w1] by simp
      show ?thesis
      proof (cases preview)
        case True
        then show ?thesis
          unfolding eq using reads.diff [OF w1, of i "[]"] Inr by (simp add: printRestorePreview_def showDiff_world)
      next
        case False
        then have "run_world (doRestore ch rest w) = snd (cl_restore ch i w1)"
          unfolding eq using Inr by (simp split: prod.split sum.split)
        then show ?thesis using u False \<open>splitArgs _ rest = Inr fp\<close> fp p(1) by auto
      qed
    qed
  next
    case False
    then have "length ps \<noteq> 1 \<or> hd ps = []" by (cases ps) auto
    then show ?thesis by (simp add: doRestore_def Inr fp reads.none)
  qed
qed (simp add: doRestore_def reads.none)

lemma doDelete_world:
  "reads ch w (run_world (doDelete ch rest w)) \<or>
   (\<exists>p i w1. rest = [p] \<and> uniqueMatch ch p w i w1 \<and> run_world (doDelete ch rest w) = snd (cl_delete ch i w1))"
proof (cases "\<exists>p. rest = [p] \<and> p \<noteq> []")
  case True
  then obtain p where p: "rest = [p]" "p \<noteq> []" by blast
  obtain r1 w1 where 1: "resolveId ch p w = (r1, w1)" by fastforce
  have w1: "reads ch w w1" by (rule resolveId_reads [OF 1 reads.none])
  have eq: "doDelete ch rest w = (case (r1, w1) of
        (Inl (code, err), w1) \<Rightarrow> stopWith code err w1
      | (Inr full, w1) \<Rightarrow> (case cl_delete ch full w1 of
          (Inl e, w2) \<Rightarrow> reportError e w2
        | (Inr _, w2) \<Rightarrow> okRun (''deleted '' @ snapshotShortId full @ nl) w2))"
    by (simp add: doDelete_def p 1)
  show ?thesis
  proof (cases r1)
    case (Inl e)
    then show ?thesis using w1 unfolding eq by (cases e) simp
  next
    case (Inr i)
    have u: "uniqueMatch ch p w i w1" using 1 Inr resolveId_Inr [of ch p w i w1] by simp
    have "run_world (doDelete ch rest w) = snd (cl_delete ch i w1)"
      unfolding eq using Inr by (simp split: prod.split sum.split)
    then show ?thesis using u p(1) by blast
  qed
next
  case False
  then have "length rest \<noteq> 1 \<or> hd rest = []" by (cases rest) auto
  then show ?thesis by (simp add: doDelete_def reads.none)
qed

lemma doList_reads: "reads ch w (run_world (doList lib lt ch rest w))" "reads ch w (run_world (doHistory lib lt ch rest w))"
  using reads.list [OF reads.none, of ch w]
  by (auto simp: doList_def doHistory_def reads.none split: option.split prod.split sum.split)

lemma doCreate_world:
  "reads ch w (run_world (doCreate ch rest w)) \<or>
   (\<exists>label. createLabel rest [] = Inr label \<and> run_world (doCreate ch rest w) = snd (cl_create ch label w))"
  by (auto simp: doCreate_def reads.none split: prod.split sum.split)

text \<open>C35: whatever its arguments, the command line does nothing but list and compare snapshots, except for
  \<open>create\<close>, for \<open>restore\<close> without \<open>--preview\<close> and for \<open>delete\<close>; these two act only on
  the one snapshot the listing names by the prefix, and on nothing when it names none or several.\<close>

lemma cli_changes_only_what_was_named:
  "reads ch w (run_world (cliRun lib lt ch args w)) \<or>
   (\<exists>rest label. args = ''snapshot'' # ''create'' # rest \<and> createLabel rest [] = Inr label \<and>
      run_world (cliRun lib lt ch args w) = snd (cl_create ch label w)) \<or>
   (\<exists>rest p i w1. args = ''snapshot'' # ''restore'' # rest \<and> splitArgs ''--preview'' rest = Inr (False, [p]) \<and>
      uniqueMatch ch p w i w1 \<and> run_world (cliRun lib lt ch args w) = snd (cl_restore ch i w1)) \<or>
   (\<exists>p i w1. args = [''snapshot'', ''delete'', p] \<and> uniqueMatch ch p w i w1 \<and>
      run_world (cliRun lib lt ch args w) = snd (cl_delete ch i w1))"
proof (cases "\<exists>verb rest. args = ''snapshot'' # verb # rest")
  case False
  then have "args = [] \<or> hd args \<noteq> ''snapshot'' \<or> length args < 2"
    by (cases args; cases "tl args") auto
  then show ?thesis by (auto simp: cliRun_def reads.none)
next
  case True
  then obtain verb rest where a: "args = ''snapshot'' # verb # rest" by blast
  have r: "cliRun lib lt ch (''snapshot'' # verb # rest) w =
    (if verb = ''list'' then doList lib lt ch rest w else if verb = ''history'' then doHistory lib lt ch rest w
     else if verb = ''create'' then doCreate ch rest w else if verb = ''diff'' then doDiff lib ch rest w
     else if verb = ''restore'' then doRestore ch rest w else if verb = ''delete'' then doDelete ch rest w
     else usage (''devmgr: unknown snapshot command '' @ quoted verb @ nl) w)"
    by (simp add: cliRun_def)
  consider "verb = ''create''" | "verb = ''restore''" | "verb = ''delete''" | "verb \<notin> {''create'', ''restore'', ''delete''}"
    by blast
  then show ?thesis
  proof cases
    case 1
    then show ?thesis using doCreate_world [of ch w rest] unfolding a r by simp
  next
    case 2
    then show ?thesis using doRestore_world [of ch w rest] unfolding a r by simp
  next
    case 3
    then show ?thesis using doDelete_world [of ch w rest] unfolding a r by simp
  next
    case 4
    then have "reads ch w (run_world (cliRun lib lt ch (''snapshot'' # verb # rest) w))"
      using doList_reads [of ch w lib lt rest] doDiff_reads [of ch w lib rest] reads.none [of ch w]
      unfolding r by simp
    then show ?thesis unfolding a by blast
  qed
qed

end
