(* ===== verification/Request_Facts.thy ===== *)
theory Request_Facts
  imports Request_Processor
begin

text \<open>
  What the verbs of \<^verbatim>\<open>request_processor.cpp\<close> guarantee. The five verbs that change devices or
  modules share one pipeline, check, authorize, snapshot, act; the locale \<open>mutating_verb\<close>
  states it, proves its consequences once, and is interpreted on every one of them.
\<close>

subsection \<open>The pipeline\<close>

locale mutating_verb =
  fixes lib :: json_lib and env :: "'h env" and caller action verb :: string
    and check :: "'h \<Rightarrow> string result"
    and act :: "string \<Rightarrow> 'h daemon \<Rightarrow> unit result \<times> 'h daemon"
    and run :: "'h daemon \<Rightarrow> unit result \<times> 'h daemon"
  assumes run_eq: "run dm =
    (case check (dm_hw dm) of
       Inl e \<Rightarrow> (Inl e, dm)
     | Inr subject \<Rightarrow> authorizedThen env caller action (snapshotThen lib env verb subject (act subject)) dm)"
begin

text \<open>The four ways a verb ends.\<close>

lemma run_cases:
  assumes "run dm = (r, dm')"
  obtains (refused) e where "check (dm_hw dm) = Inl e" "r = Inl e" "dm' = dm"
  | (denied) subject e h where "check (dm_hw dm) = Inr subject" "r = Inl e" "dm' = dm\<lparr>dm_hw := h\<rparr>"
      "env_checkAuthorized env caller action (dm_hw dm) = (Inr False, h) \<or>
       env_checkAuthorized env caller action (dm_hw dm) = (Inl e, h)"
  | (unsaved) subject h e m where "check (dm_hw dm) = Inr subject" "r = makeError Io m"
      "env_checkAuthorized env caller action (dm_hw dm) = (Inr True, h)"
      "svc_create lib env Auto \<lparr>rsn_verb = verb, rsn_subject = subject\<rparr> (dm\<lparr>dm_hw := h\<rparr>) = (Inl e, dm')"
  | (acted) subject h sid dm2 where "check (dm_hw dm) = Inr subject"
      "env_checkAuthorized env caller action (dm_hw dm) = (Inr True, h)"
      "svc_create lib env Auto \<lparr>rsn_verb = verb, rsn_subject = subject\<rparr> (dm\<lparr>dm_hw := h\<rparr>) = (Inr sid, dm2)"
      "act subject dm2 = (r, dm')"
proof (cases "check (dm_hw dm)")
  case (Inl e)
  then show thesis using assms by (intro refused) (auto simp: run_eq)
next
  case (Inr subject)
  obtain ra h where au: "env_checkAuthorized env caller action (dm_hw dm) = (ra, h)" by fastforce
  show thesis
  proof (cases "ra = Inr True")
    case False
    then have "\<exists>e. r = Inl e \<and> dm' = dm\<lparr>dm_hw := h\<rparr> \<and> (ra = Inr False \<or> ra = Inl e)"
      using assms Inr au by (cases ra) (auto simp: run_eq authorizedThen_def authorize_def makeError_def)
    then show thesis using denied [OF Inr] au by blast
  next
    case True
    obtain rs dm2 where cr: "svc_create lib env Auto \<lparr>rsn_verb = verb, rsn_subject = subject\<rparr> (dm\<lparr>dm_hw := h\<rparr>) = (rs, dm2)"
      by fastforce
    show thesis
    proof (cases rs)
      case (Inl e)
      then obtain m where "r = makeError Io m" "dm' = dm2"
        using assms \<open>check (dm_hw dm) = Inr subject\<close> au True cr
        by (auto simp: run_eq authorizedThen_def authorize_def snapshotThen_def snapshotBefore_def makeError_def)
      then show thesis
        using unsaved [OF \<open>check (dm_hw dm) = Inr subject\<close>, of m h e] au True cr Inl by blast
    next
      case (Inr sid)
      then show thesis using assms \<open>check (dm_hw dm) = Inr subject\<close> au True cr
        by (intro acted [of subject h sid dm2])
          (auto simp: run_eq authorizedThen_def authorize_def snapshotThen_def snapshotBefore_def)
    qed
  qed
qed

text \<open>Nothing but the authorization prompt happens before the automatic snapshot is stored.\<close>

lemma changes_are_snapshotted:
  assumes "run dm = (r, dm')"
  shows "(dm_state dm' = dm_state dm \<and> dm_modprobe dm' = dm_modprobe dm \<and> \<not> has_value r \<and>
      dm_hw dm' \<in> {dm_hw dm, snd (env_checkAuthorized env caller action (dm_hw dm))}) \<or>
    (\<exists>subject h sid dm2. check (dm_hw dm) = Inr subject \<and>
      env_checkAuthorized env caller action (dm_hw dm) = (Inr True, h) \<and>
      svc_create lib env Auto \<lparr>rsn_verb = verb, rsn_subject = subject\<rparr> (dm\<lparr>dm_hw := h\<rparr>) = (Inr sid, dm2) \<and>
      act subject dm2 = (r, dm'))"
  using assms
proof (cases rule: run_cases)
  case (unsaved subject h e m)
  then show ?thesis using put_snapshot_other [OF unsaved(4) [unfolded svc_create_def]]
    by (simp add: makeError_def)
qed auto

end

subsection \<open>The verbs as instances\<close>

definition checkSetEnabled :: "'h env \<Rightarrow> string \<Rightarrow> string \<Rightarrow> string \<Rightarrow> bool \<Rightarrow> 'h \<Rightarrow> string result" where
  "checkSetEnabled env rt caller path enabled h =
     (case valid_caller caller of Inl e \<Rightarrow> Inl e | Inr _ \<Rightarrow>
      case valid_sysfsPath path of Inl e \<Rightarrow> Inl e | Inr _ \<Rightarrow>
      case canonicalContained env rt path h of Inl e \<Rightarrow> Inl e | Inr canonical \<Rightarrow>
      case (if \<not> enabled then guardDisable env canonical h else Inr ()) of
        Inl e \<Rightarrow> Inl e | Inr _ \<Rightarrow> Inr canonical)"

interpretation set_enabled: mutating_verb lib env caller kActionSetDeviceEnabled "''SetDeviceEnabled''"
  "checkSetEnabled env rt caller path enabled"
  "\<lambda>canonical dm. if enabled then applyEnable lib env canonical dm else applyDisable lib env canonical dm"
  "setDeviceEnabled lib env rt caller path enabled"
  for lib env rt caller path enabled
  by unfold_locales (simp add: setDeviceEnabled_def checkSetEnabled_def split: sum.split)

interpretation load_module: mutating_verb lib env caller kActionManageModules "''LoadModule''"
  "\<lambda>h. case valid_caller caller of Inl e \<Rightarrow> Inl e | Inr _ \<Rightarrow>
      case valid_name name ''module'' of Inl e \<Rightarrow> Inl e | Inr _ \<Rightarrow> Inr name"
  "\<lambda>subject. on_hw (env_loadModule env subject)" "loadModule lib env caller name"
  for lib env caller name
  by unfold_locales (simp add: loadModule_def split: sum.split)

interpretation unload_module: mutating_verb lib env caller kActionManageModules "''UnloadModule''"
  "\<lambda>h. case valid_caller caller of Inl e \<Rightarrow> Inl e | Inr _ \<Rightarrow>
      case valid_name name ''module'' of Inl e \<Rightarrow> Inl e | Inr _ \<Rightarrow>
      case guardModuleUnload env name h of Inl e \<Rightarrow> Inl e | Inr _ \<Rightarrow> Inr name"
  "\<lambda>subject. on_hw (env_unloadModule env subject)" "unloadModule lib env caller name"
  for lib env caller name
  by unfold_locales (simp add: unloadModule_def split: sum.split)

interpretation bind_driver: mutating_verb lib env caller kActionManageDrivers "''BindDriver''"
  "\<lambda>h. case valid_caller caller of Inl e \<Rightarrow> Inl e | Inr _ \<Rightarrow>
      case valid_sysfsPath path of Inl e \<Rightarrow> Inl e | Inr _ \<Rightarrow>
      case valid_name drv ''driver'' of Inl e \<Rightarrow> Inl e | Inr _ \<Rightarrow> canonicalContained env rt path h"
  "\<lambda>subject. on_hw (env_bindDriver env subject drv)" "bindDriver lib env rt caller path drv"
  for lib env rt caller path drv
  by unfold_locales (simp add: bindDriver_def split: sum.split)

interpretation unbind_driver: mutating_verb lib env caller kActionManageDrivers "''UnbindDriver''"
  "\<lambda>h. case valid_caller caller of Inl e \<Rightarrow> Inl e | Inr _ \<Rightarrow>
      case valid_sysfsPath path of Inl e \<Rightarrow> Inl e | Inr _ \<Rightarrow>
      case canonicalContained env rt path h of Inl e \<Rightarrow> Inl e | Inr canonical \<Rightarrow>
      case guardDisable env canonical h of Inl e \<Rightarrow> Inl e | Inr _ \<Rightarrow> Inr canonical"
  "\<lambda>subject. on_hw (env_unbindDriver env subject)" "unbindDriver lib env rt caller path"
  for lib env rt caller path
  by unfold_locales (simp add: unbindDriver_def split: sum.split)

end
