(* ===== verification/Enforcement.thy ===== *)
theory Enforcement
  imports Request_Facts
begin

text \<open>
  \<^verbatim>\<open>daemon/src/enforcement_service.cpp\<close>: the recorded disables re-applied at startup (\<open>sweep\<close>)
  and when a device reappears (\<open>onHotplug\<close>). A re-apply is two steps, because only the second
  holds the apply mutex: \<open>decideReapply\<close> looks at the device and asks the guard,
  \<open>reapplyLocked\<close> acts. Log messages are left out.
\<close>

subsection \<open>Operations\<close>

text \<open>What the part before the lock comes to.\<close>

datatype decision = Settled | ProbeFailed | Suspend | Reapply

definition decideReapply :: "'h env \<Rightarrow> disabled_entry \<Rightarrow> device \<Rightarrow> 'h \<Rightarrow> decision" where
  "decideReapply env entry d h =
     (if \<not> needsApply entry d then Settled
      else case env_probe env h of
        Inl _ \<Rightarrow> ProbeFailed
      | Inr facts \<Rightarrow> if \<not> gv_allowed (evaluateDisable facts (dev_sysfsPath d)) then Suspend else Reapply)"

definition reapplyLocked :: "json_lib \<Rightarrow> 'h env \<Rightarrow> disabled_entry \<Rightarrow> device \<Rightarrow> 'h daemon \<Rightarrow> 'h daemon" where
  "reapplyLocked lib env entry d dm =
     (case env_setEnabled env (dev_sysfsPath d) False [] (dm_hw dm) of
        (Inl _, h) \<Rightarrow> dm\<lparr>dm_hw := h\<rparr>
      | (Inr _, h) \<Rightarrow>
          (let st1 = (if ent_lastSysfsPath entry \<noteq> dev_sysfsPath d
                      then snd (ss_setLastSysfsPath lib (ent_key entry) (dev_sysfsPath d) (dm_state dm))
                      else dm_state dm);
               st2 = (if ent_guardSuspended entry then snd (ss_setGuardSuspended lib (ent_key entry) False st1)
                      else st1)
           in dm\<lparr>dm_hw := h, dm_state := st2\<rparr>))"

definition maybeReapply :: "json_lib \<Rightarrow> 'h env \<Rightarrow> disabled_entry \<Rightarrow> device \<Rightarrow> 'h daemon \<Rightarrow> 'h daemon" where
  "maybeReapply lib env entry d dm =
     (case decideReapply env entry d (dm_hw dm) of
        Settled \<Rightarrow> dm
      | ProbeFailed \<Rightarrow> dm
      | Suspend \<Rightarrow> dm\<lparr>dm_state := snd (ss_setGuardSuspended lib (ent_key entry) True (dm_state dm))\<rparr>
      | Reapply \<Rightarrow> reapplyLocked lib env entry d dm)"

fun sweepEntries :: "json_lib \<Rightarrow> 'h env \<Rightarrow> device list \<Rightarrow> disabled_entry list \<Rightarrow> 'h daemon \<Rightarrow> 'h daemon" where
  "sweepEntries lib env ds [] dm = dm"
| "sweepEntries lib env ds (e # es) dm =
     (case matchEntry e ds of
        Some d \<Rightarrow> sweepEntries lib env ds es (maybeReapply lib env e d dm)
      | None \<Rightarrow>
          if ent_lastSysfsPath e = [] \<or> \<not> env_isDirectory env (ent_lastSysfsPath e) (dm_hw dm)
          then sweepEntries lib env ds es dm
          else sweepEntries lib env ds es
                 (maybeReapply lib env e (deviceFromSysfs env (dm_hw dm) (ent_lastSysfsPath e)) dm))"

definition sweep :: "json_lib \<Rightarrow> 'h env \<Rightarrow> 'h daemon \<Rightarrow> 'h daemon" where
  "sweep lib env dm = sweepEntries lib env (enumerated env (dm_hw dm)) (ss_entries (dm_state dm)) dm"

definition onHotplug :: "json_lib \<Rightarrow> 'h env \<Rightarrow> hotplug_event \<Rightarrow> 'h daemon \<Rightarrow> 'h daemon" where
  "onHotplug lib env ev dm =
     (if hp_action ev = Removed then dm
      else case ss_findFor (hp_device ev) (dm_state dm) of
        None \<Rightarrow> dm
      | Some entry \<Rightarrow> maybeReapply lib env entry (hp_device ev) dm)"

subsection \<open>What every re-apply keeps\<close>

lemma maybeReapply_guarded: "guarded_run env (dm_hw dm) (dm_hw (maybeReapply lib env e d dm))"
proof (cases "decideReapply env e d (dm_hw dm)")
  case Reapply
  then obtain facts where f: "env_probe env (dm_hw dm) = Inr facts"
    "gv_allowed (evaluateDisable facts (dev_sysfsPath d))"
    by (auto simp: decideReapply_def split: if_splits sum.splits)
  obtain r h where s: "env_setEnabled env (dev_sysfsPath d) False [] (dm_hw dm) = (r, h)" by fastforce
  have "guarded_run env (dm_hw dm) h" by (rule guarded_run_one, rule guarded_step.disable [OF f s])
  then show ?thesis using Reapply s by (auto simp: maybeReapply_def reapplyLocked_def Let_def split: sum.split)
qed (simp_all add: maybeReapply_def guarded_run.none)

lemma maybeReapply_core:
  "map entry_core (ss_entries (dm_state (maybeReapply lib env e d dm))) = map entry_core (ss_entries (dm_state dm))"
  by (auto simp: maybeReapply_def reapplyLocked_def Let_def setGuardSuspended_core setLastSysfsPath_core
      split: decision.split prod.split sum.split)

lemma maybeReapply_dirs:
  "dm_snaps (maybeReapply lib env e d dm) = dm_snaps dm \<and> dm_modprobe (maybeReapply lib env e d dm) = dm_modprobe dm"
  by (simp add: maybeReapply_def reapplyLocked_def Let_def split: decision.split prod.split sum.split)

text \<open>A relation every re-apply stays in, the whole sweep stays in.\<close>

lemma sweepEntries_run:
  assumes refl: "\<And>x. R x x" and trans: "\<And>x y z. R x y \<Longrightarrow> R y z \<Longrightarrow> R x z"
    and one: "\<And>e d x. R x (maybeReapply lib env e d x)"
  shows "R dm (sweepEntries lib env ds es dm)"
proof (induction es arbitrary: dm)
  case Nil
  show ?case by (simp add: refl)
next
  case (Cons e es)
  then show ?case using one trans by (auto split: option.split) blast+
qed

lemma enforcement_facts:
  assumes "dm' = sweep lib env dm \<or> dm' = onHotplug lib env ev dm"
  shows "guarded_run env (dm_hw dm) (dm_hw dm') \<and>
    map entry_core (ss_entries (dm_state dm')) = map entry_core (ss_entries (dm_state dm)) \<and>
    dm_snaps dm' = dm_snaps dm \<and> dm_modprobe dm' = dm_modprobe dm"
proof -
  let ?R = "\<lambda>x y. guarded_run env (dm_hw x) (dm_hw y) \<and>
    map entry_core (ss_entries (dm_state y)) = map entry_core (ss_entries (dm_state x)) \<and>
    dm_snaps y = dm_snaps x \<and> dm_modprobe y = dm_modprobe x"
  have one: "?R x (maybeReapply lib env e d x)" for e d x
    using maybeReapply_guarded maybeReapply_core maybeReapply_dirs by blast
  have refl: "?R x x" for x by (simp add: guarded_run.none)
  have "?R dm (sweep lib env dm)"
    unfolding sweep_def
  proof (rule sweepEntries_run [of ?R])
    show "?R x z" if "?R x y" "?R y z" for x y z using that guarded_run_trans by metis
  qed (use refl one in blast)+
  moreover have "?R dm (onHotplug lib env ev dm)"
    using one refl by (auto simp: onHotplug_def split: option.split)
  ultimately show ?thesis using assms by blast
qed

text \<open>Enforcement, at startup and on a hotplug event, changes the hardware only by disables the
  guard allows in the state they are made in, never adds, drops or reorders an entry or changes
  more of one than its path and suspension, and touches neither snapshots nor \<open>modprobe.d\<close>.\<close>

lemma enforcement_is_guarded:
  assumes "dm' = sweep lib env dm \<or> dm' = onHotplug lib env ev dm"
  shows "guarded_run env (dm_hw dm) (dm_hw dm') \<and>
    map entry_core (ss_entries (dm_state dm')) = map entry_core (ss_entries (dm_state dm)) \<and>
    dm_snaps dm' = dm_snaps dm \<and> dm_modprobe dm' = dm_modprobe dm"
  using enforcement_facts [OF assms] .

lemma enforcement_is_guarded_witness:
  "dm_modprobe (sweep twoLib idleEnv twoDaemon) = dm_modprobe twoDaemon"
  using enforcement_is_guarded [of "sweep twoLib idleEnv twoDaemon" twoLib idleEnv twoDaemon] by blast

end
