(* ===== verification/Enforcement_Facts.thy ===== *)
theory Enforcement_Facts
  imports Enforcement
begin

text \<open>
  Enforcement together with the verbs: what a sweep reaches, and two sequences of operations after
  which the recorded state and the user's last request disagree.
\<close>

subsection \<open>A sweep reaches every recorded device\<close>

text \<open>Hardware that does what it reports: a disable that succeeds turns the device off, and no
  disable turns another one on.\<close>

definition obedient :: "'h env \<Rightarrow> ('h \<Rightarrow> string \<Rightarrow> bool) \<Rightarrow> bool" where
  "obedient env off \<longleftrightarrow> (\<forall>p h r h'. env_setEnabled env p False [] h = (r, h') \<longrightarrow>
     (has_value r \<longrightarrow> off h' p) \<and> (\<forall>q. off h q \<longrightarrow> off h' q))"

definition blocked :: "'h env \<Rightarrow> disabled_entry \<Rightarrow> device \<Rightarrow> 'h \<Rightarrow> bool" where
  "blocked env e d h \<longleftrightarrow> decideReapply env e d h \<in> {ProbeFailed, Suspend} \<or>
     \<not> has_value (fst (env_setEnabled env (dev_sysfsPath d) False [] h))"

lemma maybeReapply_off:
  assumes "obedient env off"
  shows "off (dm_hw dm) q \<Longrightarrow> off (dm_hw (maybeReapply lib env e d dm)) q"
    and "\<not> needsApply e d \<or> off (dm_hw (maybeReapply lib env e d dm)) (dev_sysfsPath d) \<or> blocked env e d (dm_hw dm)"
proof -
  obtain r h where s: "env_setEnabled env (dev_sysfsPath d) False [] (dm_hw dm) = (r, h)" by fastforce
  have o: "has_value r \<Longrightarrow> off h (dev_sysfsPath d)" "off (dm_hw dm) q \<Longrightarrow> off h q" for q
    using assms s unfolding obedient_def by blast+
  show "off (dm_hw dm) q \<Longrightarrow> off (dm_hw (maybeReapply lib env e d dm)) q"
    using s o by (auto simp: maybeReapply_def reapplyLocked_def Let_def split: decision.split sum.split)
  show "\<not> needsApply e d \<or> off (dm_hw (maybeReapply lib env e d dm)) (dev_sysfsPath d) \<or> blocked env e d (dm_hw dm)"
  proof (cases "decideReapply env e d (dm_hw dm)")
    case Settled
    then show ?thesis by (auto simp: decideReapply_def split: if_splits sum.splits)
  next
    case Reapply
    then show ?thesis using s o(1)
      by (cases r) (auto simp: maybeReapply_def reapplyLocked_def Let_def blocked_def)
  qed (simp_all add: blocked_def)
qed

lemma sweepEntries_mono:
  assumes "obedient env off" "off (dm_hw dm) q"
  shows "off (dm_hw (sweepEntries lib env ds es dm)) q"
proof -
  have "off (dm_hw x) q \<longrightarrow> off (dm_hw y) q" if "y = maybeReapply lib env e d x" for x y e d
    using maybeReapply_off(1) [OF assms(1)] that by blast
  then have "off (dm_hw dm) q \<longrightarrow> off (dm_hw (sweepEntries lib env ds es dm)) q"
    by (intro sweepEntries_run [of "\<lambda>x y. off (dm_hw x) q \<longrightarrow> off (dm_hw y) q"]) auto
  then show ?thesis using assms(2) by blast
qed

lemma sweepEntries_reaches:
  assumes ob: "obedient env off" and "e \<in> set es" "matchEntry e ds = Some d" "needsApply e d"
  shows "off (dm_hw (sweepEntries lib env ds es dm)) (dev_sysfsPath d) \<or>
    (\<exists>h. guarded_run env (dm_hw dm) h \<and> blocked env e d h)"
  using assms(2)
proof (induction es arbitrary: dm)
  case (Cons x es)
  show ?case
  proof (cases "x = e")
    case True
    have "off (dm_hw (maybeReapply lib env e d dm)) (dev_sysfsPath d) \<or> blocked env e d (dm_hw dm)"
      using maybeReapply_off(2) [OF ob, of e d lib dm] assms(4) by blast
    then show ?thesis
      using sweepEntries_mono [OF ob] assms(3) True guarded_run.none by fastforce
  next
    case False
    then have e: "e \<in> set es" using Cons.prems by simp
    have "\<exists>dm1. sweepEntries lib env ds (x # es) dm = sweepEntries lib env ds es dm1 \<and>
        (dm1 = dm \<or> (\<exists>d. dm1 = maybeReapply lib env x d dm))"
      by (auto split: option.split)
    then obtain dm1 where "sweepEntries lib env ds (x # es) dm = sweepEntries lib env ds es dm1"
      and "guarded_run env (dm_hw dm) (dm_hw dm1)"
      using maybeReapply_guarded guarded_run.none by metis
    then show ?thesis using Cons.IH [OF e, of dm1] guarded_run_trans by metis
  qed
qed simp


subsection \<open>One port, two sticks\<close>

text \<open>Hardware with one USB port: the serial of the stick in it and whether it is authorized.\<close>

definition portPath :: string where "portPath = ''/sys/1-1''"

definition portEnv :: "(string \<times> bool) env" where
  "portEnv = \<lparr>env_enumerate = (\<lambda>h. makeError Io ''udev''),
     env_probe = (\<lambda>h. Inr \<lparr>rootBackingPaths = [], bootBackingPaths = [], keyboardPaths = [], pointerPaths = []\<rparr>),
     env_setEnabled = (\<lambda>p e hint h. (Inr None, (fst h, e))), env_bindDriver = (\<lambda>p n h. (Inr (), h)),
     env_unbindDriver = (\<lambda>p h. (Inr (), h)), env_loadModule = (\<lambda>n h. (Inr (), h)),
     env_unloadModule = (\<lambda>n h. (Inr (), h)), env_listLoaded = (\<lambda>h. Inr []),
     env_devicesUsing = (\<lambda>n h. Inr []), env_checkAuthorized = (\<lambda>c a h. (Inr True, h)),
     env_weaklyCanonical = (\<lambda>p h. Some (if p = ''/sys/1-1/subsystem'' then ''/sys/bus/usb'' else p)),
     env_isDirectory = (\<lambda>p h. True), env_exists = (\<lambda>p h. False),
     env_firstLine = (\<lambda>p h. if p = ''/sys/1-1/serial'' then fst h
        else if p = ''/sys/1-1/authorized'' then (if snd h then ''1'' else ''0'') else []),
     env_now = (\<lambda>h. 0)\<rparr>"

definition stick :: "string \<Rightarrow> bool \<Rightarrow> device" where
  "stick s on = empty_device\<lparr>dev_sysfsPath := portPath, dev_bus := Usb, dev_serial := s,
     dev_status := (if on then Active else Disabled)\<rparr>"

definition stickEntry :: "string \<Rightarrow> disabled_entry" where
  "stickEntry s = \<lparr>ent_key = \<lparr>key_bus = ''usb'', key_vendorId = [], key_productId = [], key_serial = s,
       key_position = ''1-1''\<rparr>, ent_mechanism = ''authorized'', ent_lastDriver = [],
     ent_lastSysfsPath = portPath, ent_disabledAtUtc = 0, ent_guardSuspended = False\<rparr>"

lemma stick_probed:
  assumes "s \<in> {''A'', ''B''}"
  shows "deviceFromSysfs portEnv (s, on) portPath = stick s on"
  using assms
  by (auto simp: deviceFromSysfs_def sysfsAttr_def busTypeFromPath_def portEnv_def stick_def portPath_def
      pathJoin_def ends_with_def lastSegment_def starts_with_def empty_device_def)

lemma stick_key: "makeDeviceKey1 (stick s on) = ent_key (stickEntry s)"
  by (simp add: makeDeviceKey1_def stick_def stickEntry_def empty_device_def positionFor_def portPath_def lastSegment_def)

lemma portEnv_simps:
  "env_setEnabled portEnv p e hint h = (Inr None, (fst h, e))" "env_isDirectory portEnv p h"
  "env_now portEnv h = 0" "enumerated portEnv h = []" "env_enumerate portEnv h = makeError Io ''udev''"
  by (simp_all add: portEnv_def enumerated_def makeError_def)

lemma ss_save_faultless:
  assumes "dir_faults (ss_dir st) = []"
  shows "fst (ss_save lib st) = Inr () \<and> dir_faults (ss_dir (snd (ss_save lib st))) = []"
proof -
  obtain r d where w: "atomicWriteFile (ss_dir st) stateFile (jl_dump2 lib (stateDoc (ss_entries st))) = (r, d)"
    by fastforce
  have "has_value r"
    using atomicWriteFile_ok_iff [of "ss_dir st" stateFile] w assms by (metis fst_conv nextFault_def list.simps(4))
  moreover have "dir_faults d = []" using atomicWriteFile_dir(2) [OF w] assms by simp
  ultimately show ?thesis using w by (cases r) (simp_all add: ss_save_def)
qed

text \<open>A daemon whose state directory has no faults.\<close>

definition at_port :: "'h \<Rightarrow> disabled_entry list \<Rightarrow> 'h daemon \<Rightarrow> bool" where
  "at_port h es dm \<longleftrightarrow> dm_hw dm = h \<and> ss_entries (dm_state dm) = es \<and> dir_faults (ss_dir (dm_state dm)) = []"

lemma disable_stick:
  assumes "at_port (s, on) es dm" "s \<in> {''A'', ''B''}" "stickEntry s \<notin> set es" "set es \<subseteq> range stickEntry"
  shows "fst (applyDisable lib portEnv portPath dm) = Inr () \<and>
    at_port (s, False) (es @ [stickEntry s]) (snd (applyDisable lib portEnv portPath dm))"
proof -
  have "ent_key (stickEntry s) \<notin> ent_key ` set es"
    using assms(3,4) by (auto simp: stickEntry_def)
  then have u: "updateFirst (ent_key (stickEntry s)) (\<lambda>_. stickEntry s) es = None"
    unfolding updateFirst_None .
  have e: "\<lparr>ent_key = ent_key (stickEntry s), ent_mechanism = ''authorized'', ent_lastDriver = [],
      ent_lastSysfsPath = portPath, ent_disabledAtUtc = 0, ent_guardSuspended = False\<rparr> = stickEntry s"
    by (simp add: stickEntry_def)
  have "ss_upsert lib (stickEntry s) (dm_state dm)
      = ss_save lib ((dm_state dm)\<lparr>ss_entries := es @ [stickEntry s]\<rparr>)"
    using assms(1) u by (simp add: ss_upsert_def at_port_def)
  then show ?thesis
    using ss_save_faultless [of "(dm_state dm)\<lparr>ss_entries := es @ [stickEntry s]\<rparr>" lib] assms(1,2)
    by (auto simp: applyDisable_def portEnv_simps at_port_def stick_probed stick_key e Let_def case_prod_beta)
qed

lemma enable_stick:
  assumes "at_port (s, on) (e # es) dm" "ent_lastSysfsPath e = portPath" "ent_lastDriver e = []"
  shows "fst (applyEnable lib portEnv portPath dm) = Inr () \<and>
    at_port (s, True) (filter (\<lambda>x. ent_key x \<noteq> ent_key e) es) (snd (applyEnable lib portEnv portPath dm))"
proof -
  obtain r st where r: "ss_remove lib (ent_key e) (dm_state dm) = (r, st)" by fastforce
  have "ss_entries st = filter (\<lambda>x. ent_key x \<noteq> ent_key e) es"
    using remove_entries [of lib "ent_key e" "dm_state dm"] r assms(1) by (simp add: at_port_def)
  moreover have "r = Inr () \<and> dir_faults (ss_dir st) = []"
    using ss_save_faultless [of "(dm_state dm)\<lparr>ss_entries := filter (\<lambda>x. ent_key x \<noteq> ent_key e) (ss_entries (dm_state dm))\<rparr>" lib]
      r assms(1) by (simp add: ss_remove_def at_port_def)
  ultimately show ?thesis
    using assms r by (simp add: applyEnable_def Let_def at_port_def portEnv_simps)
qed

lemma hotplug_stick:
  assumes "at_port (s, True) [stickEntry s] dm"
  shows "at_port (s, False) [stickEntry s] (onHotplug lib portEnv \<lparr>hp_action = Added, hp_device = stick s True\<rparr> dm)"
proof -
  have "decideReapply portEnv (stickEntry s) (stick s True) (s, True) = Reapply"
    by (simp add: decideReapply_def needsApply_def stickEntry_def stick_def portEnv_def evaluateDisable_def
        anyUnder_def wouldRemoveAll_def)
  then show ?thesis
    using assms
    by (simp add: onHotplug_def ss_findFor_def at_port_def maybeReapply_def reapplyLocked_def portEnv_simps Let_def)
      (simp add: stickEntry_def stick_def)
qed

text \<open>Enabling a device can forget the wrong entry: two sticks disabled one after the other in the
  same port leave two entries with that path; enabling the second removes the entry of the first,
  which was recorded earlier, keeps its own, and so the next hotplug event of the enabled stick
  disables it again, while the first will come back enabled.\<close>

lemma enable_forgets_wrong_device:
  assumes "at_port (''A'', True) [] dm0"
    and "(r1, dm1) = applyDisable lib portEnv portPath dm0"
    and "(r2, dm2) = applyDisable lib portEnv portPath (dm1\<lparr>dm_hw := (''B'', True)\<rparr>)"
    and "(r3, dm3) = applyEnable lib portEnv portPath dm2"
    and "dm4 = onHotplug lib portEnv \<lparr>hp_action = Added, hp_device = stick ''B'' True\<rparr> dm3"
  shows "r1 = Inr () \<and> r2 = Inr () \<and> r3 = Inr () \<and> dm_hw dm3 = (''B'', True) \<and>
    ss_entries (dm_state dm2) = [stickEntry ''A'', stickEntry ''B''] \<and>
    ss_entries (dm_state dm3) = [stickEntry ''B''] \<and> dm_hw dm4 = (''B'', False)"
proof -
  have ne: "stickEntry ''A'' \<noteq> stickEntry ''B''" "ent_key (stickEntry ''A'') \<noteq> ent_key (stickEntry ''B'')"
    by (simp_all add: stickEntry_def)
  have 1: "r1 = Inr ()" "at_port (''A'', False) [stickEntry ''A''] dm1"
    using disable_stick [OF assms(1), of lib] assms(2) by (metis (mono_tags) append_Nil empty_iff empty_set
        empty_subsetI fst_conv insertI1 snd_conv)+
  have "at_port (''B'', True) [stickEntry ''A''] (dm1\<lparr>dm_hw := (''B'', True)\<rparr>)"
    using 1(2) by (simp add: at_port_def)
  from disable_stick [OF this, of lib] have 2: "r2 = Inr ()" "at_port (''B'', False) [stickEntry ''A'', stickEntry ''B''] dm2"
    using assms(3) [symmetric] ne(1) by simp_all
  have 3: "r3 = Inr ()" "at_port (''B'', True) [stickEntry ''B''] dm3"
    using enable_stick [OF 2(2), of lib] assms(4) [symmetric] ne(2) by (simp_all add: stickEntry_def)
  show ?thesis using 1 2 3 hotplug_stick [OF 3(2), of lib] assms(5) by (simp add: at_port_def)
qed

text \<open>A daemon with a fault-free state directory holding the given entries.\<close>

definition portDaemon :: "(string \<times> bool) \<Rightarrow> disabled_entry list \<Rightarrow> (string \<times> bool) daemon" where
  "portDaemon h es = \<lparr>dm_hw = h, dm_state = \<lparr>ss_dir = emptyDir, ss_entries = es\<rparr>,
     dm_snaps = emptyDir, dm_modprobe = emptyDir\<rparr>"

lemma portDaemon_at: "at_port h es (portDaemon h es)"
  by (simp add: at_port_def portDaemon_def emptyDir_def)

lemma enable_forgets_wrong_device_witness:
  "\<exists>dm0 dm1 dm2 dm3. dm1 = snd (applyDisable (wit_lib []) portEnv portPath dm0) \<and>
     dm2 = snd (applyDisable (wit_lib []) portEnv portPath (dm1\<lparr>dm_hw := (''B'', True)\<rparr>)) \<and>
     dm3 = snd (applyEnable (wit_lib []) portEnv portPath dm2) \<and> ss_entries (dm_state dm3) = [stickEntry ''B'']"
  using enable_forgets_wrong_device [OF portDaemon_at surjective_pairing [symmetric] surjective_pairing [symmetric]
      surjective_pairing [symmetric] refl, of "wit_lib []"]
  by blast

definition listedPortEnv :: "(string \<times> bool) env" where
  "listedPortEnv = portEnv\<lparr>env_enumerate := (\<lambda>h. Inr [stick (fst h) (snd h)])\<rparr>"


subsection \<open>A hotplug event against an enable\<close>

text \<open>The decision to re-apply is taken before the apply mutex: a hotplug thread that has decided
  for a disabled stick, overtaken by the user's enable, disables the stick after the enable has
  returned success, with no entry left that says so.\<close>

lemma hotplug_overtaken_by_enable:
  assumes "at_port (s, True) [stickEntry s] dm0"
    and "(r, dm1) = applyEnable lib portEnv portPath dm0"
    and "dm2 = reapplyLocked lib portEnv (stickEntry s) (stick s True) dm1"
  shows "decideReapply portEnv (stickEntry s) (stick s True) (dm_hw dm0) = Reapply \<and> r = Inr () \<and>
    dm_hw dm1 = (s, True) \<and> dm_hw dm2 = (s, False) \<and> ss_entries (dm_state dm2) = []"
proof -
  have "r = Inr ()" "at_port (s, True) [] dm1"
    using enable_stick [OF assms(1), of lib] assms(2) [symmetric] by (simp_all add: stickEntry_def)
  moreover have "decideReapply portEnv (stickEntry s) (stick s True) h = Reapply" for h
    by (simp add: decideReapply_def needsApply_def stickEntry_def stick_def portEnv_def evaluateDisable_def
        anyUnder_def wouldRemoveAll_def)
  ultimately show ?thesis
    using assms(3)
    by (simp add: at_port_def reapplyLocked_def portEnv_simps Let_def) (simp add: stickEntry_def stick_def)
qed

lemma hotplug_overtaken_by_enable_witness:
  "dm_hw (reapplyLocked (wit_lib []) portEnv (stickEntry ''A'') (stick ''A'' True)
     (snd (applyEnable (wit_lib []) portEnv portPath (portDaemon (''A'', True) [stickEntry ''A''])))) = (''A'', False)"
  using hotplug_overtaken_by_enable [OF portDaemon_at surjective_pairing [symmetric] refl] by blast

end
