(* ===== verification/Adaptor_Facts.thy ===== *)
theory Adaptor_Facts
  imports Request_Facts Manager_Adaptor Enforcement_Facts
begin

text \<open>
  What a client of the bus can and cannot make the daemon do, over all its methods: the
  authorization every change needs, the automatic snapshot before it, the guard before a disable,
  the entry a disable leaves behind.
\<close>

subsection \<open>No change without authorization\<close>

lemma authorizedThen_denied:
  assumes "authorizedThen env caller action act dm = (r, dm')"
    and "fst (env_checkAuthorized env caller action (dm_hw dm)) \<noteq> Inr True"
  shows "\<not> has_value r \<and> dm' = dm\<lparr>dm_hw := snd (env_checkAuthorized env caller action (dm_hw dm))\<rparr>"
  using assms
  by (cases "env_checkAuthorized env caller action (dm_hw dm)")
    (auto simp: authorizedThen_def authorize_def makeError_def split: sum.splits)

lemma apfst_eq: "apfst f p = (r, x) \<longleftrightarrow> (\<exists>q. p = (q, x) \<and> r = f q)"
  by (cases p) auto

text \<open>An error of the processor is an error on the bus.\<close>

definition bus_failed :: "bus_error + bus_reply \<Rightarrow> bool" where
  "bus_failed r \<longleftrightarrow> (\<exists>e. r = Inl e)"

lemma bus_failed_simps [simp]:
  "bus_failed (throwIfFailed r1) \<longleftrightarrow> \<not> has_value r1"
  "bus_failed (map_sum id f (valueOrThrow r2)) \<longleftrightarrow> \<not> has_value r2"
  by (cases r1; simp add: bus_failed_def throwIfFailed_def valueOrThrow_def)
    (cases r2; simp add: bus_failed_def valueOrThrow_def)

lemma denied_method:
  assumes "handleMethod lib env rt sender m dm = (r, dm')" "\<not> unprivileged m"
    and "fst (env_checkAuthorized env sender (requiredAction m) (dm_hw dm)) \<noteq> Inr True"
  shows "bus_failed r \<and>
    (dm' = dm \<or> dm' = dm\<lparr>dm_hw := snd (env_checkAuthorized env sender (requiredAction m) (dm_hw dm))\<rparr>)"
  using assms
  by (cases m; auto simp: apfst_eq setDeviceEnabled_def loadModule_def unloadModule_def bindDriver_def
      unbindDriver_def snapshotCreate_def snapshotRestore_def snapshotDelete_def  dest!: authorizedThen_denied split: sum.splits if_splits)

text \<open>C1: a method that is not one of the three read-only ones, called by someone the authority does
  not authorize for the method's action, is answered with an error and changes nothing: no entry, no
  snapshot, no file, and of the hardware only what the prompt itself does.\<close>

lemma denied_changes_nothing:
  assumes "handleMethod lib env rt sender m dm = (r, dm')" "\<not> unprivileged m"
    and "fst (env_checkAuthorized env sender (requiredAction m) (dm_hw dm)) \<noteq> Inr True"
  shows "bus_failed r \<and>
    (dm' = dm \<or> dm' = dm\<lparr>dm_hw := snd (env_checkAuthorized env sender (requiredAction m) (dm_hw dm))\<rparr>)"
  using denied_method [OF assms] .

lemma denied_changes_nothing_witness:
  "bus_failed (fst (handleMethod twoLib (idleEnv\<lparr>env_checkAuthorized := (\<lambda>c a h. (Inr False, h))\<rparr>) ''/sys'' '':1.2''
     (CallSnapshotDelete idAbc) twoDaemon))"
  using denied_changes_nothing [of twoLib "idleEnv\<lparr>env_checkAuthorized := (\<lambda>c a h. (Inr False, h))\<rparr>" "''/sys''" "'':1.2''"
      "CallSnapshotDelete idAbc" twoDaemon, OF surjective_pairing]
  by simp

subsection \<open>No change without a snapshot\<close>

lemma act_keeps_snaps:
  "(if on then applyEnable lib env c dm else applyDisable lib env c dm) = (r, dm') \<Longrightarrow>
     dm_snaps dm' = dm_snaps dm \<and> dm_modprobe dm' = dm_modprobe dm"
  "on_hw f dm = (q, dm') \<Longrightarrow> dm_snaps dm' = dm_snaps dm \<and> dm_state dm' = dm_state dm \<and> dm_modprobe dm' = dm_modprobe dm"
  by (auto simp: applyEnable_def applyDisable_def on_hw_def Let_def split: if_splits prod.splits sum.splits option.splits)

context mutating_verb
begin

lemma follows_snapshot:
  assumes "run dm = (r, dm')"
    and "\<And>s x q y. act s x = (q, y) \<Longrightarrow>
      dm_snaps y = dm_snaps x \<and> dm_modprobe y = dm_modprobe x \<and> (dm_state y = dm_state x \<or> P)"
  shows "(\<not> has_value r \<and> dm_state dm' = dm_state dm \<and> dm_modprobe dm' = dm_modprobe dm \<and>
      dm_hw dm' \<in> {dm_hw dm, snd (env_checkAuthorized env caller action (dm_hw dm))}) \<or>
    (\<exists>h subject sid dm2. env_checkAuthorized env caller action (dm_hw dm) = (Inr True, h) \<and>
      put_snapshot lib env (capturePayload dm) Auto \<lparr>rsn_verb = verb, rsn_subject = subject\<rparr>
        (dm\<lparr>dm_hw := h\<rparr>) = (Inr sid, dm2) \<and>
      dm_snaps dm' = dm_snaps dm2 \<and> dm_modprobe dm' = dm_modprobe dm \<and> (dm_state dm' = dm_state dm \<or> P))"
proof -
  have cap: "capturePayload (dm\<lparr>dm_hw := h\<rparr>) = capturePayload dm" for h by (simp add: capturePayload_def)
  have "dm_snaps dm' = dm_snaps dm2 \<and> dm_modprobe dm' = dm_modprobe dm \<and> (dm_state dm' = dm_state dm \<or> P)"
    if "put_snapshot lib env (capturePayload dm) Auto rsn (dm\<lparr>dm_hw := h\<rparr>) = (Inr sid, dm2)" "act subject dm2 = (r, dm')"
    for h rsn sid dm2 subject
    using put_snapshot_other [OF that(1)] assms(2) [OF that(2)] by simp
  then show ?thesis
    using changes_are_snapshotted [OF assms(1)] unfolding svc_create_def cap by blast
qed

end



subsection \<open>No disable without the guard\<close>

text \<open>What \<^verbatim>\<open>weakly_canonical\<close> documents: its results are canonical.\<close>

definition resolves :: "'h env \<Rightarrow> 'h \<Rightarrow> bool" where
  "resolves env h \<longleftrightarrow> (\<forall>q s. env_weaklyCanonical env q h = Some s \<longrightarrow> canonicalPath s)"

lemma canonicalContained_Inr:
  assumes "canonicalContained env rt p h = Inr c" "resolves env h"
  shows "env_weaklyCanonical env p h = Some c \<and> env_isDirectory env c h \<and>
    (\<exists>root. env_weaklyCanonical env rt h = Some root \<and> (root = ''/'' \<or> isUnder c root))"
proof -
  obtain root where r: "env_weaklyCanonical env p h = Some c" "env_weaklyCanonical env rt h = Some root"
    "lexicallyRelative c root \<noteq> []" "\<not> starts_with (join ''/'' (lexicallyRelative c root)) ''..''" "env_isDirectory env c h"
    using assms(1) by (auto simp: canonicalContained_def Let_def makeError_def split: option.splits if_splits)
  have "canonicalPath c" "canonicalPath root" using assms(2) r(1,2) by (auto simp: resolves_def)
  then show ?thesis using contained_isUnder r by blast
qed

lemma guardDisable_Inr:
  "guardDisable env c h = Inr u \<longleftrightarrow> (\<exists>facts. env_probe env h = Inr facts \<and> gv_allowed (evaluateDisable facts c))"
  by (auto simp: guardDisable_def Let_def makeError_def split: sum.splits)


definition sysEnv :: "unit env" where
  "sysEnv = idleEnv\<lparr>env_weaklyCanonical := (\<lambda>p h. Some (if p = ''/sys/b'' then ''/sys/b'' else ''/sys''))\<rparr>"

lemma two_create:
  assumes "env_now env () = 0"
  shows "svc_create twoLib env Auto rsn twoDaemon = (Inr idEmpty, twoDaemon)"
  using two_head two_ids(2) assms
  by (simp add: svc_create_def two_capture put_snapshot_def store_put_def Let_def) (simp add: twoDaemon_def)

lemma sysEnv_checks:
  "valid_caller '':1.2'' = Inr ()" "valid_sysfsPath ''/sys/b'' = Inr ()"
  "canonicalContained sysEnv ''/sys'' ''/sys/b'' h = Inr ''/sys/b''" "guardDisable sysEnv ''/sys/b'' h = Inr ()"
  "env_checkAuthorized sysEnv c a h = (Inr True, h)" "env_unbindDriver sysEnv p h = (Inr (), h)"
  "env_setEnabled sysEnv p on hint h = (Inr None, h)" "env_now sysEnv h = 0"
  "svc_create twoLib sysEnv Auto rsn (twoDaemon\<lparr>dm_hw := h\<rparr>) = (Inr idEmpty, twoDaemon)"
proof -
  show "valid_caller '':1.2'' = Inr ()" "valid_sysfsPath ''/sys/b'' = Inr ()" by code_simp+
  have "lexicallyRelative ''/sys/b'' ''/sys'' = [''b'']" by code_simp
  then show "canonicalContained sysEnv ''/sys'' ''/sys/b'' h = Inr ''/sys/b''"
    by (simp add: canonicalContained_def sysEnv_def idleEnv_def Let_def starts_with_def)
  show "guardDisable sysEnv ''/sys/b'' h = Inr ()"
    unfolding guardDisable_def sysEnv_def idleEnv_def by code_simp
  show "env_checkAuthorized sysEnv c a h = (Inr True, h)" "env_unbindDriver sysEnv p h = (Inr (), h)"
    "env_setEnabled sysEnv p on hint h = (Inr None, h)" and now: "env_now sysEnv h = 0"
    by (simp_all add: sysEnv_def idleEnv_def)
  have "twoDaemon\<lparr>dm_hw := h\<rparr> = twoDaemon" by (simp add: twoDaemon_def)
  moreover have "env_now sysEnv () = 0" by (simp add: sysEnv_def idleEnv_def)
  ultimately show "svc_create twoLib sysEnv Auto rsn (twoDaemon\<lparr>dm_hw := h\<rparr>) = (Inr idEmpty, twoDaemon)"
    using two_create [of sysEnv rsn] by argo
qed

lemma two_unbind: "handleMethod twoLib sysEnv ''/sys'' '':1.2'' (CallUnbindDriver ''/sys/b'') twoDaemon = (Inr ReplyNothing, twoDaemon)"
  by (simp add: unbindDriver_def sysEnv_checks authorizedThen_def authorize_def snapshotThen_def snapshotBefore_def
      on_hw_def throwIfFailed_def valueOrThrow_def)


subsection \<open>What a disable leaves behind\<close>

text \<open>C36: a disable that returns success has recorded exactly one new state: an entry for the canonical
  path, not suspended, under a key that matches the device, stored for its key, every other key as
  before, and the entry list now in \<^verbatim>\<open>state.json\<close> is the one in memory.\<close>

lemma disable_is_recorded:
  assumes "setDeviceEnabled lib env rt sender p False dm = (Inr (), dm')"
  shows "\<exists>c e. canonicalContained env rt p (dm_hw dm) = Inr c \<and> ent_lastSysfsPath e = c \<and>
    \<not> ent_guardSuspended e \<and> e \<in> set (ss_entries (dm_state dm')) \<and>
    (\<forall>k. entry_for (ss_entries (dm_state dm')) k = (if k = ent_key e then Some e else entry_for (ss_entries (dm_state dm)) k)) \<and>
    file_content (ss_dir (dm_state dm')) stateFile = Some (jl_dump2 lib (stateDoc (ss_entries (dm_state dm'))))"
proof -
  obtain c h sid dm2 where c: "checkSetEnabled env rt sender p False (dm_hw dm) = Inr c"
    and put: "svc_create lib env Auto \<lparr>rsn_verb = ''SetDeviceEnabled'', rsn_subject = c\<rparr> (dm\<lparr>dm_hw := h\<rparr>) = (Inr sid, dm2)"
    and act: "applyDisable lib env c dm2 = (Inr (), dm')"
    using set_enabled.changes_are_snapshotted [OF assms] by auto
  have st: "dm_state dm2 = dm_state dm" using put_snapshot_other [OF put [unfolded svc_create_def]] by simp
  have cc: "canonicalContained env rt p (dm_hw dm) = Inr c" using c by (auto simp: checkSetEnabled_def split: sum.splits)
  obtain x h2 where s: "env_setEnabled env c False [] (dm_hw dm2) = (Inr x, h2)"
    using act by (auto simp: applyDisable_def Let_def split: prod.splits sum.splits)
  define e where "e = \<lparr>ent_key = (case find (\<lambda>d. dev_sysfsPath d = c) (enumerated env (dm_hw dm2)) of
        Some d \<Rightarrow> makeDeviceKey d (enumerated env (dm_hw dm2))
      | None \<Rightarrow> makeDeviceKey1 (deviceFromSysfs env (dm_hw dm2) c)),
    ent_mechanism = (if x \<noteq> None then ''unbind'' else ''authorized''),
    ent_lastDriver = (case x of Some n \<Rightarrow> n | None \<Rightarrow> []), ent_lastSysfsPath = c,
    ent_disabledAtUtc = env_now env h2, ent_guardSuspended = False\<rparr>"
  have e: "ent_lastSysfsPath e = c" "\<not> ent_guardSuspended e" by (simp_all add: e_def)
  have "ss_upsert lib e (dm_state dm) = (Inr (), dm_state dm')"
    using act st s by (auto simp: applyDisable_def e_def Let_def split: prod.splits)
  note e = e this
  have f: "entry_for (ss_entries (dm_state dm')) k = (if k = ent_key e then Some e else entry_for (ss_entries (dm_state dm)) k)" for k
    using entry_for_upsert [of lib e "dm_state dm" k] e(3) by simp
  have "e \<in> set (ss_entries (dm_state dm'))"
    using f [of "ent_key e"] by (auto simp: entry_for_def find_Some_iff)
  moreover obtain es where es: "ss_save lib ((dm_state dm)\<lparr>ss_entries := es\<rparr>) = (Inr (), dm_state dm')"
    using e(3) by (auto simp: ss_upsert_def split: option.splits)
  then have "file_content (ss_dir (dm_state dm')) stateFile = Some (jl_dump2 lib (stateDoc es))" "ss_entries (dm_state dm') = es"
    using atomicWriteFile_ok by (auto simp: ss_save_def split: prod.splits dest!: sym [of _ "dm_state dm'"])
  ultimately show ?thesis using cc e f by auto
qed

lemma disable_is_recorded_witness:
  "\<exists>dm'. setDeviceEnabled twoLib sysEnv ''/sys'' '':1.2'' ''/sys/b'' False twoDaemon = (Inr (), dm') \<and>
     (\<exists>e \<in> set (ss_entries (dm_state dm')). ent_lastSysfsPath e = ''/sys/b'')"
proof -
  have f: "dir_faults (ss_dir (dm_state twoDaemon)) = []" by (simp add: twoDaemon_def sampleStore_def)
  have "fst (ss_upsert twoLib e (dm_state twoDaemon)) = Inr ()" for e
    using ss_save_faultless [of "(dm_state twoDaemon)\<lparr>ss_entries := es\<rparr>" twoLib for es] f
    by (simp add: ss_upsert_def split: option.split)
  then have "fst (applyDisable twoLib sysEnv c twoDaemon) = Inr ()" for c
    by (simp add: applyDisable_def Let_def sysEnv_checks case_prod_beta)
  then obtain dm' where "applyDisable twoLib sysEnv ''/sys/b'' twoDaemon = (Inr (), dm')"
    by (metis prod.collapse)
  then have "setDeviceEnabled twoLib sysEnv ''/sys'' '':1.2'' ''/sys/b'' False twoDaemon = (Inr (), dm')"
    by (simp add: setDeviceEnabled_def sysEnv_checks authorizedThen_def authorize_def snapshotThen_def snapshotBefore_def)
  with disable_is_recorded [OF this] show ?thesis by (auto simp: sysEnv_checks)
qed

subsection \<open>Reading\<close>

lemma svc_diff_other:
  assumes "svc_diff lib env b t dm = (r, dm1)"
  shows "dm_hw dm1 = dm_hw dm \<and> dm_state dm1 = dm_state dm \<and> dm_modprobe dm1 = dm_modprobe dm"
proof -
  obtain rb db where b: "svc_read lib env b dm = (rb, db)" by fastforce
  obtain rt dt where t: "svc_read lib env t db = (rt, dt)" by fastforce
  have "dm1 \<in> {db, dt}"
    using assms by (cases rb; cases rt) (auto simp: svc_diff_def b t split: if_splits)
  then show ?thesis using svc_read_other [OF b] svc_read_other [OF t] by auto
qed

lemma unprivileged_method:
  assumes "handleMethod lib env rt sender m dm = (r, dm')" "unprivileged m"
  shows "dm_hw dm' = dm_hw dm \<and> dm_state dm' = dm_state dm \<and> dm_modprobe dm' = dm_modprobe dm \<and>
    (m = CallListDisabledDevices \<longrightarrow> dm' = dm \<and> r = Inr (ReplyEntries (map entryVariants (ss_entries (dm_state dm)))))"
  using assms
proof (cases m)
  case CallSnapshotList
  then show ?thesis using assms by (auto simp: apfst_eq snapshotList_def svc_list_def split: prod.splits)
next
  case (CallSnapshotDiff b t)
  then obtain q where "snapshotDiff lib env b t dm = (q, dm')" using assms by (auto simp: apfst_eq)
  then show ?thesis using CallSnapshotDiff svc_diff_other [of lib env b t dm q dm']
    by (auto simp: snapshotDiff_def split: sum.splits if_splits)
qed (auto simp: listDisabledDevices_def)

text \<open>The three methods that need no authorization leave hardware, entries and \<open>modprobe.d\<close> as
  they are; listing the disabled devices changes nothing at all and lists every entry. What listing
  and comparing snapshots can change is the snapshot directory, by quarantining a damaged file.\<close>

lemma unprivileged_methods_only_read:
  assumes "handleMethod lib env rt sender m dm = (r, dm')" "unprivileged m"
  shows "dm_hw dm' = dm_hw dm \<and> dm_state dm' = dm_state dm \<and> dm_modprobe dm' = dm_modprobe dm \<and>
    (m = CallListDisabledDevices \<longrightarrow> dm' = dm \<and> r = Inr (ReplyEntries (map entryVariants (ss_entries (dm_state dm)))))"
  using unprivileged_method [OF assms] .

lemma unprivileged_methods_only_read_witness:
  "dm_state (snd (handleMethod twoLib idleEnv ''/sys'' [] CallSnapshotList twoDaemon)) = dm_state twoDaemon"
  using unprivileged_methods_only_read [OF surjective_pairing, of CallSnapshotList twoLib idleEnv "''/sys''" "[]" twoDaemon] by simp

end
