(* ===== verification/Sysfs_Controller.thy ===== *)
theory Sysfs_Controller
  imports Adaptor_Facts
begin

text \<open>
  \<^verbatim>\<open>platform/linux/src/sysfs_device_controller.cpp\<close>: how a device is turned off and on, bound and
  unbound, by writing attributes under the sysfs root. The tree is a record of the queries and the
  write the code makes; a write is an open, which may fail with a message, and a store, which the
  kernel accepts or not and which can change the tree either way.
\<close>

record 'h sysfs =
  sf_weaklyCanonical :: "string \<Rightarrow> 'h \<Rightarrow> string option"
  sf_isDirectory :: "string \<Rightarrow> 'h \<Rightarrow> bool"
  sf_exists :: "string \<Rightarrow> 'h \<Rightarrow> bool"
  sf_symlink :: "string \<Rightarrow> 'h \<Rightarrow> string option option"
  sf_openError :: "string \<Rightarrow> 'h \<Rightarrow> string option"
  sf_store :: "string \<Rightarrow> string \<Rightarrow> 'h \<Rightarrow> bool \<times> 'h"

subsection \<open>Operations\<close>

text \<open>\<open>sf_symlink\<close> is \<open>None\<close> for what is no symlink and \<open>Some None\<close> for one that cannot be read.\<close>

definition isContained :: "string \<Rightarrow> string \<Rightarrow> bool" where
  "isContained canonicalP canonicalRoot \<longleftrightarrow>
     (let rel = lexicallyRelative canonicalP canonicalRoot
      in rel \<noteq> [] \<and> \<not> starts_with (join ''/'' rel) ''..'')"

definition writeAttr :: "'h sysfs \<Rightarrow> string \<Rightarrow> string \<Rightarrow> 'h \<Rightarrow> unit result \<times> 'h" where
  "writeAttr fs attr value h =
     (case sf_openError fs attr h of
        Some msg \<Rightarrow> (makeError Io (''cannot open '' @ attr @ '': '' @ msg), h)
      | None \<Rightarrow>
          (case sf_store fs attr value h of
             (ok, h1) \<Rightarrow> (if \<not> ok then makeError Io (''write failed: '' @ attr) else Inr (), h1)))"

definition busDirFor :: "'h sysfs \<Rightarrow> string \<Rightarrow> 'h \<Rightarrow> string result" where
  "busDirFor fs dv h =
     (case sf_weaklyCanonical fs (pathJoin dv ''subsystem'') h of
        Some bus \<Rightarrow>
          if \<not> sf_isDirectory fs bus h then makeError Unsupported (''no subsystem link at '' @ dv) else Inr bus
      | None \<Rightarrow> makeError Unsupported (''no subsystem link at '' @ dv))"

definition boundDriverName :: "'h sysfs \<Rightarrow> string \<Rightarrow> 'h \<Rightarrow> string option" where
  "boundDriverName fs dv h =
     (case sf_symlink fs (pathJoin dv ''driver'') h of
        None \<Rightarrow> None
      | Some None \<Rightarrow> None
      | Some (Some target) \<Rightarrow> Some (lastSegment target))"

definition viaAuthorized :: "'h sysfs \<Rightarrow> string \<Rightarrow> bool \<Rightarrow> 'h \<Rightarrow> string option result \<times> 'h" where
  "viaAuthorized fs attr enabled h =
     (case writeAttr fs attr (if enabled then ''1'' else ''0'') h of
        (Inl e, h1) \<Rightarrow> (Inl e, h1)
      | (Inr _, h1) \<Rightarrow> (Inr None, h1))"

definition unbindAttr :: "string \<Rightarrow> string \<Rightarrow> string" where
  "unbindAttr bus drv = pathJoin (pathJoin (pathJoin bus ''drivers'') drv) ''unbind''"

definition disableViaUnbind :: "'h sysfs \<Rightarrow> string \<Rightarrow> string \<Rightarrow> 'h \<Rightarrow> string option result \<times> 'h" where
  "disableViaUnbind fs dv bus h =
     (case boundDriverName fs dv h of
        None \<Rightarrow> (Inr (Some []), h)
      | Some drv \<Rightarrow>
          (case writeAttr fs (unbindAttr bus drv) (lastSegment dv) h of
             (Inl e, h1) \<Rightarrow> (Inl e, h1)
           | (Inr _, h1) \<Rightarrow> (Inr (Some drv), h1)))"

definition enableViaProbe :: "'h sysfs \<Rightarrow> string \<Rightarrow> string \<Rightarrow> string \<Rightarrow> 'h \<Rightarrow> string option result \<times> 'h" where
  "enableViaProbe fs dv bus hint h =
     (let override = pathJoin dv ''driver_override'';
          useOverride = (hint \<noteq> [] \<and> sf_exists fs override h) in
      case (if useOverride then writeAttr fs override hint h else (Inr (), h)) of
        (Inl e, h1) \<Rightarrow> (Inl e, h1)
      | (Inr _, h1) \<Rightarrow>
          (case writeAttr fs (pathJoin bus ''drivers_probe'') (lastSegment dv) h1 of
             (probe, h2) \<Rightarrow>
               (case (if useOverride then writeAttr fs override [] h2 else (Inr (), h2)) of
                  (clear, h3) \<Rightarrow>
                    (case probe of
                       Inl e \<Rightarrow> (Inl e, h3)
                     | Inr _ \<Rightarrow> (case clear of Inl e \<Rightarrow> (Inl e, h3) | Inr _ \<Rightarrow> (Inr None, h3))))))"

definition canonicalDevice :: "'h sysfs \<Rightarrow> string \<Rightarrow> string \<Rightarrow> 'h \<Rightarrow> string result" where
  "canonicalDevice fs rt sysfsPath h =
     (case sf_weaklyCanonical fs sysfsPath h of
        None \<Rightarrow> makeError NotFound (''cannot resolve '' @ sysfsPath)
      | Some canonical \<Rightarrow>
          (case sf_weaklyCanonical fs rt h of
             None \<Rightarrow> makeError NotFound (''path outside sysfs root: '' @ sysfsPath)
           | Some root \<Rightarrow>
               if \<not> isContained canonical root then makeError NotFound (''path outside sysfs root: '' @ sysfsPath)
               else if \<not> sf_isDirectory fs canonical h
                 then makeError NotFound (''device no longer present: '' @ sysfsPath)
               else Inr canonical))"

definition ctl_setEnabled :: "'h sysfs \<Rightarrow> string \<Rightarrow> string \<Rightarrow> bool \<Rightarrow> string \<Rightarrow> 'h
    \<Rightarrow> string option result \<times> 'h" where
  "ctl_setEnabled fs rt sysfsPath enabled hint h =
     (case canonicalDevice fs rt sysfsPath h of Inl e \<Rightarrow> (Inl e, h) | Inr dv \<Rightarrow>
      if sf_exists fs (pathJoin dv ''authorized'') h
      then viaAuthorized fs (pathJoin dv ''authorized'') enabled h
      else case busDirFor fs dv h of Inl e \<Rightarrow> (Inl e, h) | Inr bus \<Rightarrow>
        if \<not> enabled then disableViaUnbind fs dv bus h else enableViaProbe fs dv bus hint h)"

definition ctl_unbindDriver :: "'h sysfs \<Rightarrow> string \<Rightarrow> string \<Rightarrow> 'h \<Rightarrow> unit result \<times> 'h" where
  "ctl_unbindDriver fs rt sysfsPath h =
     (case canonicalDevice fs rt sysfsPath h of Inl e \<Rightarrow> (Inl e, h) | Inr dv \<Rightarrow>
      case boundDriverName fs dv h of
        None \<Rightarrow> (makeError NotFound (''no driver bound at '' @ dv), h)
      | Some drv \<Rightarrow>
      case busDirFor fs dv h of Inl e \<Rightarrow> (Inl e, h) | Inr bus \<Rightarrow>
        writeAttr fs (unbindAttr bus drv) (lastSegment dv) h)"

definition ctl_bindDriver :: "'h sysfs \<Rightarrow> string \<Rightarrow> string \<Rightarrow> string \<Rightarrow> 'h \<Rightarrow> unit result \<times> 'h" where
  "ctl_bindDriver fs rt sysfsPath driverName h =
     (case canonicalDevice fs rt sysfsPath h of Inl e \<Rightarrow> (Inl e, h) | Inr dv \<Rightarrow>
      case busDirFor fs dv h of Inl e \<Rightarrow> (Inl e, h) | Inr bus \<Rightarrow>
        let bindAttr = pathJoin (pathJoin (pathJoin bus ''drivers'') driverName) ''bind'' in
        if \<not> sf_exists fs bindAttr h then (makeError NotFound (''no such driver on this bus: '' @ driverName), h)
        else writeAttr fs bindAttr (lastSegment dv) h)"

subsection \<open>What is written\<close>

text \<open>The tree with a log of the attributes written, in order.\<close>

definition logged :: "'h sysfs \<Rightarrow> ('h \<times> (string \<times> string) list) sysfs" where
  "logged fs =
     \<lparr>sf_weaklyCanonical = (\<lambda>p h. sf_weaklyCanonical fs p (fst h)), sf_isDirectory = (\<lambda>p h. sf_isDirectory fs p (fst h)),
      sf_exists = (\<lambda>p h. sf_exists fs p (fst h)), sf_symlink = (\<lambda>p h. sf_symlink fs p (fst h)),
      sf_openError = (\<lambda>p h. sf_openError fs p (fst h)),
      sf_store = (\<lambda>p v h. (fst (sf_store fs p v (fst h)), (snd (sf_store fs p v (fst h)), snd h @ [(p, v)])))\<rparr>"

lemma logged_simps [simp]:
  "sf_weaklyCanonical (logged fs) p h = sf_weaklyCanonical fs p (fst h)"
  "sf_isDirectory (logged fs) p h = sf_isDirectory fs p (fst h)" "sf_exists (logged fs) p h = sf_exists fs p (fst h)"
  "sf_symlink (logged fs) p h = sf_symlink fs p (fst h)" "sf_openError (logged fs) p h = sf_openError fs p (fst h)"
  "sf_store (logged fs) p v h = (fst (sf_store fs p v (fst h)), (snd (sf_store fs p v (fst h)), snd h @ [(p, v)]))"
  by (simp_all add: logged_def)

lemma writeAttr_log:
  "writeAttr (logged fs) a v (h, l) = (r, (h1, l1)) \<Longrightarrow>
     (l1 = l \<and> h1 = h \<and> \<not> has_value r) \<or> l1 = l @ [(a, v)]"
  by (auto simp: writeAttr_def makeError_def split: option.splits if_splits)

text \<open>A driver override the controller sets is cleared again before it returns, whether or not the
  probe succeeded: once the write that sets it has been accepted, the last write to the attribute
  is the empty one, unless the attribute cannot be opened any more.\<close>

lemma override_never_sticky:
  assumes "enableViaProbe (logged fs) dv bus hint (h, []) = (r, (h', log))"
    and "(pathJoin dv ''driver_override'', hint) \<in> set log" "hint \<noteq> []"
    and "\<And>x. sf_openError fs (pathJoin dv ''driver_override'') x = None"
    and "\<And>x. fst (sf_store fs (pathJoin dv ''driver_override'') hint x)"
    and "pathJoin bus ''drivers_probe'' \<noteq> pathJoin dv ''driver_override''"
  shows "last log = (pathJoin dv ''driver_override'', [])"
proof -
  let ?o = "pathJoin dv ''driver_override''"
  have w: "writeAttr (logged fs) ?o v x = (if fst (sf_store fs ?o v (fst x)) then Inr () else makeError Io (''write failed: '' @ ?o),
      (snd (sf_store fs ?o v (fst x)), snd x @ [(?o, v)]))" for v x
    by (simp add: writeAttr_def assms(4))
  show ?thesis
  proof (cases "sf_exists fs ?o h")
    case True
    obtain p h2 l2 where 2: "writeAttr (logged fs) (pathJoin bus ''drivers_probe'') (lastSegment dv)
        (snd (sf_store fs ?o hint h), [(?o, hint)]) = (p, (h2, l2))" by (metis surj_pair)
    show ?thesis
      using assms(1) 2 True assms(3,5)
      by (cases p) (auto simp: enableViaProbe_def w Let_def makeError_def split: if_splits)
  next
    case False
    obtain p h2 l2 where 2: "writeAttr (logged fs) (pathJoin bus ''drivers_probe'') (lastSegment dv) (h, []) = (p, (h2, l2))"
      by (metis surj_pair)
    have "log = l2" using assms(1) 2 False by (cases p) (auto simp: enableViaProbe_def Let_def)
    then have False using writeAttr_log [OF 2] assms(2,6) by auto
    then show ?thesis ..
  qed
qed

text \<open>The attributes and values one call may write.\<close>

definition mayWrite :: "'h sysfs \<Rightarrow> string \<Rightarrow> bool \<Rightarrow> string \<Rightarrow> 'h \<Rightarrow> string \<times> string \<Rightarrow> bool" where
  "mayWrite fs dv on hint h w \<longleftrightarrow>
     w = (pathJoin dv ''authorized'', if on then ''1'' else ''0'') \<or>
     (\<not> on \<and> (\<exists>bus drv. busDirFor fs dv h = Inr bus \<and> boundDriverName fs dv h = Some drv \<and>
        w = (unbindAttr bus drv, lastSegment dv))) \<or>
     (on \<and> (\<exists>bus. busDirFor fs dv h = Inr bus \<and> w = (pathJoin bus ''drivers_probe'', lastSegment dv))) \<or>
     (on \<and> fst w = pathJoin dv ''driver_override'' \<and> snd w \<in> {hint, []})"

lemma writeAttr_logged: "writeAttr (logged fs) a v (h, l) = (r, hl) \<Longrightarrow> snd hl = l \<or> snd hl = l @ [(a, v)]"
  using writeAttr_log [of fs a v h l r "fst hl" "snd hl"] by auto

lemma queries_logged:
  "canonicalDevice (logged fs) rt p h = canonicalDevice fs rt p (fst h)"
  "busDirFor (logged fs) dv h = busDirFor fs dv (fst h)"
  "boundDriverName (logged fs) dv h = boundDriverName fs dv (fst h)"
  by (simp_all add: canonicalDevice_def busDirFor_def boundDriverName_def split: option.split)

lemma enableViaProbe_writes:
  assumes "enableViaProbe (logged fs) dv bus hint (h, []) = (r, hl)" "w \<in> set (snd hl)"
  shows "w = (pathJoin bus ''drivers_probe'', lastSegment dv) \<or>
    fst w = pathJoin dv ''driver_override'' \<and> snd w \<in> {hint, []}"
proof -
  let ?o = "pathJoin dv ''driver_override''" and ?p = "(pathJoin bus ''drivers_probe'', lastSegment dv)"
  let ?use = "hint \<noteq> [] \<and> sf_exists fs ?o h"
  obtain r1 s1 where 1: "(if ?use then writeAttr (logged fs) ?o hint (h, []) else (Inr (), (h, []))) = (r1, s1)" by (metis surj_pair)
  obtain r2 s2 where 2: "writeAttr (logged fs) (pathJoin bus ''drivers_probe'') (lastSegment dv) s1 = (r2, s2)" by (metis surj_pair)
  obtain r3 s3 where 3: "(if ?use then writeAttr (logged fs) ?o [] s2 else (Inr (), s2)) = (r3, s3)" by (metis surj_pair)
  have l1: "set (snd s1) \<subseteq> {(?o, hint)}"
    using 1 writeAttr_logged [of fs ?o hint h "[]" r1 s1] by (auto split: if_splits)
  have l2: "set (snd s2) \<subseteq> insert ?p (set (snd s1))"
    using writeAttr_logged [of fs _ _ "fst s1" "snd s1", unfolded prod.collapse, OF 2] by auto
  have l3: "set (snd s3) \<subseteq> insert (?o, []) (set (snd s2))"
    using 3 writeAttr_logged [of fs ?o "[]" "fst s2" "snd s2" r3 s3] by (auto split: if_splits)
  have "hl \<in> {s1, s3}"
    using assms(1) unfolding enableViaProbe_def Let_def logged_simps fst_conv 1
    by (cases r1) (simp_all add: 2 3 [simplified] split: sum.splits)
  then have "w \<in> set (snd s1) \<union> set (snd s3)" using assms(2) by auto
  then have "w \<in> {(?o, hint), ?p, (?o, [])}" using l1 l2 l3 by blast
  then show ?thesis by auto
qed


subsection \<open>A concrete tree\<close>

text \<open>One device on a bus without an \<open>authorized\<close> attribute, with every other file present.\<close>

definition oneTree :: "unit sysfs" where
  "oneTree = \<lparr>sf_weaklyCanonical = (\<lambda>p h. Some (if p = ''/sys/d/subsystem'' then ''/sys/bus/pci'' else p)),
     sf_isDirectory = (\<lambda>p h. True), sf_exists = (\<lambda>p h. p \<noteq> ''/sys/d/authorized''),
     sf_symlink = (\<lambda>p h. Some (Some ''../drivers/snd'')), sf_openError = (\<lambda>p h. None), sf_store = (\<lambda>p v h. (True, h))\<rparr>"

lemma oneTree_enable:
  "ctl_setEnabled (logged oneTree) ''/sys'' ''/sys/d'' True ''snd'' ((), []) = (Inr None, ((),
     [(''/sys/d/driver_override'', ''snd''), (''/sys/bus/pci/drivers_probe'', ''d''), (''/sys/d/driver_override'', [])]))"
  by code_simp


lemma override_never_sticky_witness:
  "last [(''/sys/d/driver_override'', ''snd''), (''/sys/bus/pci/drivers_probe'', ''d''), (''/sys/d/driver_override'', [])]
     = (pathJoin ''/sys/d'' ''driver_override'', [])"
proof (rule override_never_sticky)
  show "enableViaProbe (logged oneTree) ''/sys/d'' ''/sys/bus/pci'' ''snd'' ((), []) = (Inr None, ((),
     [(''/sys/d/driver_override'', ''snd''), (''/sys/bus/pci/drivers_probe'', ''d''), (''/sys/d/driver_override'', [])]))"
    by code_simp
  show "pathJoin ''/sys/bus/pci'' ''drivers_probe'' \<noteq> pathJoin ''/sys/d'' ''driver_override''" by code_simp
qed (simp_all add: oneTree_def pathJoin_def ends_with_def)

end
