(* ===== verification/Daemon_Main.thy ===== *)
theory Daemon_Main
  imports Adaptor_Facts
begin

text \<open>
  \<^verbatim>\<open>daemon/src/main.cpp\<close>: the options of the daemon, the authority they choose, how it starts, and
  the event loop as a step relation: bus calls and hotplug events handled by the daemon, interleaved
  with changes of the hardware it does not make.
\<close>

subsection \<open>Options\<close>

record options =
  opt_bus :: string
  opt_sysfsRoot :: string
  opt_mountsPath :: string
  opt_authority :: string
  opt_stateDir :: string
  opt_modprobeDir :: string
  opt_valid :: bool

definition defaultOptions :: options where
  "defaultOptions = \<lparr>opt_bus = ''system'', opt_sysfsRoot = ''/sys'', opt_mountsPath = ''/proc/self/mounts'',
     opt_authority = ''polkit'', opt_stateDir = ''/var/lib/devmgrd'', opt_modprobeDir = ''/etc/modprobe.d'',
     opt_valid = True\<rparr>"

text \<open>The table from flags to members.\<close>

definition setFlag :: "string \<Rightarrow> string \<Rightarrow> options \<Rightarrow> options option" where
  "setFlag flag v opts =
     (if flag = ''--bus'' then Some (opts\<lparr>opt_bus := v\<rparr>)
      else if flag = ''--sysfs-root'' then Some (opts\<lparr>opt_sysfsRoot := v\<rparr>)
      else if flag = ''--mounts-path'' then Some (opts\<lparr>opt_mountsPath := v\<rparr>)
      else if flag = ''--authority'' then Some (opts\<lparr>opt_authority := v\<rparr>)
      else if flag = ''--state-dir'' then Some (opts\<lparr>opt_stateDir := v\<rparr>)
      else if flag = ''--modprobe-dir'' then Some (opts\<lparr>opt_modprobeDir := v\<rparr>)
      else None)"

text \<open>The loop over the arguments after the program name.\<close>

fun parseFlags :: "string list \<Rightarrow> options \<Rightarrow> options" where
  "parseFlags [] opts = opts"
| "parseFlags [flag] opts = opts\<lparr>opt_valid := False\<rparr>"
| "parseFlags (flag # v # rest) opts =
     (case setFlag flag v opts of
        None \<Rightarrow> opts\<lparr>opt_valid := False\<rparr>
      | Some opts1 \<Rightarrow> parseFlags rest opts1)"

definition parseOptions :: "string list \<Rightarrow> options" where
  "parseOptions args =
     (let opts = parseFlags args defaultOptions;
          opts1 = (if opt_bus opts \<noteq> ''system'' \<and> opt_bus opts \<noteq> ''session'' then opts\<lparr>opt_valid := False\<rparr> else opts)
      in if opt_authority opts1 \<noteq> ''polkit'' \<and> opt_authority opts1 \<noteq> ''allow-all'' \<and>
            opt_authority opts1 \<noteq> ''deny-all''
         then opts1\<lparr>opt_valid := False\<rparr> else opts1)"

text \<open>\<open>polkit\<close> is the authority of \<^verbatim>\<open>polkit_authority.cpp\<close>, a call of a service.\<close>

definition makeAuthority :: "(string \<Rightarrow> string \<Rightarrow> 'h \<Rightarrow> bool result \<times> 'h) \<Rightarrow> string
    \<Rightarrow> string \<Rightarrow> string \<Rightarrow> 'h \<Rightarrow> bool result \<times> 'h" where
  "makeAuthority polkit kind =
     (if kind = ''allow-all'' then (\<lambda>caller action h. (Inr True, h))
      else if kind = ''deny-all'' then (\<lambda>caller action h. (Inr False, h))
      else polkit)"

definition nonDefaultSeams :: "options \<Rightarrow> bool" where
  "nonDefaultSeams opts \<longleftrightarrow> \<not> (opt_bus opts = ''system'' \<and> opt_sysfsRoot opts = ''/sys'' \<and>
     opt_mountsPath opts = ''/proc/self/mounts'' \<and> opt_authority opts = ''polkit'' \<and>
     opt_stateDir opts = ''/var/lib/devmgrd'' \<and> opt_modprobeDir opts = ''/etc/modprobe.d'')"

definition handleVersionFlag :: "string list \<Rightarrow> bool" where
  "handleVersionFlag args \<longleftrightarrow> ''--version'' \<in> set args"

subsection \<open>Start and event loop\<close>

text \<open>The stores are opened, the recorded entries loaded (a failure is only logged) and re-applied.\<close>

definition startDaemon :: "json_lib \<Rightarrow> 'h env \<Rightarrow> 'h daemon \<Rightarrow> 'h daemon" where
  "startDaemon lib env dm =
     sweep lib env (dm\<lparr>dm_state := snd (ss_load lib (env_now env (dm_hw dm)) (dm_state dm))\<rparr>)"

text \<open>What can happen: a call with its sender, and whether the authority granted it what it needs; a
  hotplug event; a change of the hardware from outside.\<close>

datatype occurrence = Call string bus_method bool | Hotplug hotplug_event | World

inductive daemon_step :: "json_lib \<Rightarrow> 'h env \<Rightarrow> string \<Rightarrow> occurrence \<Rightarrow> 'h daemon \<Rightarrow> 'h daemon \<Rightarrow> bool"
  for lib env rt where
  call: "handleMethod lib env rt sender m dm = (r, dm') \<Longrightarrow>
    ok = (\<not> unprivileged m \<and> fst (env_checkAuthorized env sender (requiredAction m) (dm_hw dm)) = Inr True) \<Longrightarrow>
    daemon_step lib env rt (Call sender m ok) dm dm'"
| hotplug: "daemon_step lib env rt (Hotplug ev) dm (onHotplug lib env ev dm)"
| world: "daemon_step lib env rt World dm (dm\<lparr>dm_hw := h\<rparr>)"

inductive daemon_run :: "json_lib \<Rightarrow> 'h env \<Rightarrow> string \<Rightarrow> occurrence list \<Rightarrow> 'h daemon \<Rightarrow> 'h daemon \<Rightarrow> bool"
  for lib env rt where
  start: "daemon_run lib env rt [] dm dm"
| step: "daemon_run lib env rt os dm dm1 \<Longrightarrow> daemon_step lib env rt oc dm1 dm2 \<Longrightarrow>
    daemon_run lib env rt (os @ [oc]) dm dm2"

inductive_cases daemon_stepE: "daemon_step lib env rt oc dm dm'"

subsection \<open>Options that are accepted\<close>

lemma setFlag_authority:
  "setFlag flag v opts = Some opts' \<Longrightarrow>
     opt_valid opts' = opt_valid opts \<and>
     (opt_authority opts' = opt_authority opts \<or> flag = ''--authority'' \<and> opt_authority opts' = v)"
  by (auto simp: setFlag_def split: if_splits)

lemma parseFlags_authority:
  "opt_authority (parseFlags args opts) = opt_authority opts \<or>
   (\<exists>i. Suc i < length args \<and> even i \<and> args ! i = ''--authority'' \<and> args ! Suc i = opt_authority (parseFlags args opts))"
proof (induction args opts rule: parseFlags.induct)
  case (3 flag v rest opts)
  show ?case
  proof (cases "setFlag flag v opts")
    case (Some opts1)
    let ?res = "opt_authority (parseFlags rest opts1)"
    consider "?res = opt_authority opts1"
      | i where "Suc i < length rest" "even i" "rest ! i = ''--authority''" "rest ! Suc i = ?res"
      using "3.IH" [OF Some] by blast
    then show ?thesis
    proof cases
      case 1
      then show ?thesis using setFlag_authority [OF Some] Some by fastforce
    next
      case 2
      then have "Suc (i + 2) < length (flag # v # rest) \<and> even (i + 2) \<and>
          (flag # v # rest) ! (i + 2) = ''--authority'' \<and> (flag # v # rest) ! Suc (i + 2) = ?res" by simp
      then show ?thesis using Some by auto
    qed
  qed simp
qed simp_all

text \<open>The daemon accepts only the two buses and the three authorities, runs with another authority
  than polkit only if an \<open>--authority\<close> argument names it, and reads back every configuration
  written out as flags.\<close>

lemma options_are_explicit:
  "(opt_valid (parseOptions args) \<longrightarrow>
      opt_bus (parseOptions args) \<in> {''system'', ''session''} \<and>
      opt_authority (parseOptions args) \<in> {''polkit'', ''allow-all'', ''deny-all''}) \<and>
   (opt_authority (parseOptions args) \<noteq> ''polkit'' \<longrightarrow>
      (\<exists>i. Suc i < length args \<and> args ! i = ''--authority'' \<and> args ! Suc i = opt_authority (parseOptions args))) \<and>
   (opt_valid opts \<longrightarrow> opt_bus opts \<in> {''system'', ''session''} \<longrightarrow>
      opt_authority opts \<in> {''polkit'', ''allow-all'', ''deny-all''} \<longrightarrow>
      parseOptions [''--bus'', opt_bus opts, ''--sysfs-root'', opt_sysfsRoot opts, ''--mounts-path'', opt_mountsPath opts,
        ''--authority'', opt_authority opts, ''--state-dir'', opt_stateDir opts, ''--modprobe-dir'', opt_modprobeDir opts]
      = opts)"
proof (intro conjI impI)
  assume "opt_authority (parseOptions args) \<noteq> ''polkit''"
  moreover have "opt_authority (parseOptions args) = opt_authority (parseFlags args defaultOptions)"
    by (simp add: parseOptions_def Let_def)
  ultimately show "\<exists>i. Suc i < length args \<and> args ! i = ''--authority'' \<and> args ! Suc i = opt_authority (parseOptions args)"
    using parseFlags_authority [of args defaultOptions] by (auto simp: defaultOptions_def)
next
  assume o: "opt_valid opts" "opt_bus opts \<in> {''system'', ''session''}" "opt_authority opts \<in> {''polkit'', ''allow-all'', ''deny-all''}"
  show "parseOptions [''--bus'', opt_bus opts, ''--sysfs-root'', opt_sysfsRoot opts, ''--mounts-path'', opt_mountsPath opts,
        ''--authority'', opt_authority opts, ''--state-dir'', opt_stateDir opts, ''--modprobe-dir'', opt_modprobeDir opts] = opts"
    using o by (cases opts) (auto simp: parseOptions_def setFlag_def defaultOptions_def Let_def)
qed (auto simp: parseOptions_def Let_def split: if_splits)

lemma options_are_explicit_witness:
  "opt_authority (parseOptions [''--authority'', ''deny-all'']) = ''deny-all'' \<and>
   (\<exists>i. Suc i < 2 \<and> [''--authority'', ''deny-all''] ! i = ''--authority'')"
proof -
  have a: "opt_authority (parseOptions [''--authority'', ''deny-all'']) = ''deny-all''" by code_simp
  then have "opt_authority (parseOptions [''--authority'', ''deny-all'']) \<noteq> ''polkit''" by simp
  then show ?thesis
    using options_are_explicit [of "[''--authority'', ''deny-all'']" defaultOptions] a by auto
qed

subsection \<open>Nothing without an authorized call\<close>

lemma daemon_step_unauthorized:
  assumes "daemon_step lib env rt oc dm dm'" "\<And>sender m. oc \<noteq> Call sender m True"
  shows "map entry_core (ss_entries (dm_state dm')) = map entry_core (ss_entries (dm_state dm)) \<and>
    dm_modprobe dm' = dm_modprobe dm"
proof -
  consider (call) sender m r where "handleMethod lib env rt sender m dm = (r, dm')"
      "oc = Call sender m (\<not> unprivileged m \<and> fst (env_checkAuthorized env sender (requiredAction m) (dm_hw dm)) = Inr True)"
    | (hotplug) ev where "dm' = onHotplug lib env ev dm"
    | (world) h where "dm' = dm\<lparr>dm_hw := h\<rparr>"
    using assms(1) by (cases rule: daemon_stepE) blast+
  then show ?thesis
  proof cases
    case call
    show ?thesis
    proof (cases "unprivileged m")
      case True
      then show ?thesis using unprivileged_method [OF call(1)] by simp
    next
      case False
      then have "fst (env_checkAuthorized env sender (requiredAction m) (dm_hw dm)) \<noteq> Inr True"
        using call(2) assms(2) by metis
      then show ?thesis using denied_method [OF call(1) False] by auto
    qed
  next
    case hotplug
    then show ?thesis using enforcement_facts [of dm' lib env dm ev] by blast
  qed simp
qed

text \<open>C5: over any interleaving of bus calls, hotplug events and changes of the hardware, as long as no
  privileged call is authorized, the recorded entries stay the same up to the path and suspension
  that enforcement keeps in them, and \<open>modprobe.d\<close> stays byte for byte the same.\<close>

lemma nothing_without_authorized_call:
  assumes "daemon_run lib env rt os dm dm'" "\<And>sender m. Call sender m True \<notin> set os"
  shows "map entry_core (ss_entries (dm_state dm')) = map entry_core (ss_entries (dm_state dm)) \<and>
    dm_modprobe dm' = dm_modprobe dm"
  using assms
proof induction
  case (step os dm dm1 oc dm2)
  then have "oc \<noteq> Call sender m True" for sender m by auto
  from daemon_step_unauthorized [OF step.hyps(2) this] step show ?case by auto
qed simp

lemma nothing_without_authorized_call_witness:
  "\<exists>dm'. daemon_run twoLib sysEnv ''/sys'' [World, Hotplug \<lparr>hp_action = Removed, hp_device = empty_device\<rparr>] twoDaemon dm' \<and>
     dm_modprobe dm' = dm_modprobe twoDaemon"
proof -
  let ?ev = "\<lparr>hp_action = Removed, hp_device = empty_device\<rparr>"
  have "daemon_run twoLib sysEnv ''/sys'' ([] @ [World]) twoDaemon (twoDaemon\<lparr>dm_hw := ()\<rparr>)"
    by (rule daemon_run.step [OF daemon_run.start daemon_step.world])
  then have r: "daemon_run twoLib sysEnv ''/sys'' (([] @ [World]) @ [Hotplug ?ev]) twoDaemon
      (onHotplug twoLib sysEnv ?ev (twoDaemon\<lparr>dm_hw := ()\<rparr>))"
    by (rule daemon_run.step [OF _ daemon_step.hotplug])
  from nothing_without_authorized_call [OF r] r show ?thesis by auto
qed

end
