(* ===== verification/Scheduler.thy ===== *)
theory Scheduler
  imports Prelude
begin

text \<open>
  \<^verbatim>\<open>core/src/delayed_scheduler.cpp\<close>: callbacks that run after a delay on one worker thread.
  Every operation is one critical section of the class's mutex, hence one function on its state;
  the worker's loop is given turn by turn. Time is a number of milliseconds, a handle a natural
  number (the counter of the code has 64 bits and starts at 1).
\<close>

section \<open>The delayed scheduler\<close>

text \<open>\<open>sc_queue\<close> is the multimap in its order, each entry with its deadline, handle and callback;
  \<open>sc_index\<close> holds the keys of \<^verbatim>\<open>index_\<close>, whose iterators lead to the entry of that handle.\<close>

record 'f sched =
  sc_queue :: "(nat \<times> nat \<times> 'f) list"
  sc_index :: "nat list"
  sc_nextId :: nat
  sc_stopping :: bool
  sc_joinStarted :: bool

definition idle_sched :: "'f sched" where
  "idle_sched = \<lparr>sc_queue = [], sc_index = [], sc_nextId = 1, sc_stopping = False, sc_joinStarted = False\<rparr>"

text \<open>\<^verbatim>\<open>std::multimap::emplace\<close>: after the entries that are due no later.\<close>

fun emplaceDue :: "nat \<Rightarrow> nat \<times> 'f \<Rightarrow> (nat \<times> nat \<times> 'f) list \<Rightarrow> (nat \<times> nat \<times> 'f) list" where
  "emplaceDue due e [] = [(due, e)]"
| "emplaceDue due e (x # q) = (if fst x \<le> due then x # emplaceDue due e q else (due, e) # x # q)"

definition sched_schedule :: "nat \<Rightarrow> nat \<Rightarrow> 'f \<Rightarrow> 'f sched \<Rightarrow> nat \<times> 'f sched" where
  "sched_schedule now delay fn sc =
     (let due = now + delay; i = sc_nextId sc
      in (i, sc\<lparr>sc_nextId := i + 1, sc_queue := emplaceDue due (i, fn) (sc_queue sc),
             sc_index := i # sc_index sc\<rparr>))"

fun eraseEntry :: "nat \<Rightarrow> (nat \<times> nat \<times> 'f) list \<Rightarrow> (nat \<times> nat \<times> 'f) list" where
  "eraseEntry h [] = []"
| "eraseEntry h (x # q) = (if fst (snd x) = h then q else x # eraseEntry h q)"

definition sched_cancel :: "nat \<Rightarrow> 'f sched \<Rightarrow> bool \<times> 'f sched" where
  "sched_cancel handle sc =
     (if handle \<notin> set (sc_index sc) then (False, sc)
      else (True, sc\<lparr>sc_queue := eraseEntry handle (sc_queue sc), sc_index := remove1 handle (sc_index sc)\<rparr>))"

text \<open>Whether this call is the one that joins the worker.\<close>

definition sched_shutdown :: "bool \<Rightarrow> 'f sched \<Rightarrow> bool \<times> 'f sched" where
  "sched_shutdown selfCall sc =
     (let sc1 = sc\<lparr>sc_stopping := True\<rparr> in
      if \<not> selfCall \<and> \<not> sc_joinStarted sc1 then (True, sc1\<lparr>sc_joinStarted := True\<rparr>) else (False, sc1))"

text \<open>One pass of the worker's loop under the lock: it leaves, waits, or takes everything due to run
  it without the lock.\<close>

datatype 'f turn = Leave | Wait | Run "'f list"

fun collectDue :: "nat \<Rightarrow> 'f sched \<Rightarrow> nat \<Rightarrow> 'f list \<times> 'f sched" where
  "collectDue now sc 0 = ([], sc)"
| "collectDue now sc (Suc n) =
     (case sc_queue sc of
        [] \<Rightarrow> ([], sc)
      | (due, i, fn) # q \<Rightarrow>
          if due \<le> now
          then apfst (Cons fn) (collectDue now (sc\<lparr>sc_index := remove1 i (sc_index sc), sc_queue := q\<rparr>) n)
          else ([], sc))"

definition workerTurn :: "nat \<Rightarrow> 'f sched \<Rightarrow> 'f turn \<times> 'f sched" where
  "workerTurn now sc =
     (if sc_stopping sc then (Leave, sc)
      else case sc_queue sc of
        [] \<Rightarrow> (Wait, sc)
      | (due, _) # _ \<Rightarrow>
          if now < due then (Wait, sc)
          else apfst Run (collectDue now sc (length (sc_queue sc))))"

subsection \<open>What a client of a timer relies on\<close>

text \<open>\<open>queued\<close> is the callback a handle stands for while it waits; \<open>armed\<close> counts the waiting
  callbacks of a client.\<close>

definition armed :: "('f \<Rightarrow> bool) \<Rightarrow> (nat \<Rightarrow> 'f option) \<Rightarrow> nat" where
  "armed P q = card {h. \<exists>f. q h = Some f \<and> P f}"

locale timer =
  fixes schedule :: "nat \<Rightarrow> nat \<Rightarrow> 'f \<Rightarrow> 's \<Rightarrow> nat \<times> 's"
    and cancel :: "nat \<Rightarrow> 's \<Rightarrow> bool \<times> 's"
    and queued :: "'s \<Rightarrow> nat \<Rightarrow> 'f option"
    and ok :: "'s \<Rightarrow> bool"
  assumes finite_queued: "ok s \<Longrightarrow> finite (dom (queued s))"
    and schedule_fresh: "ok s \<Longrightarrow> schedule now delay f s = (h, s') \<Longrightarrow>
      queued s h = None \<and> queued s' = (queued s)(h \<mapsto> f) \<and> ok s' \<and> h \<noteq> 0"
    and cancel_queued: "ok s \<Longrightarrow> cancel h s = (b, s') \<Longrightarrow>
      (b \<longleftrightarrow> queued s h \<noteq> None) \<and> queued s' = (queued s)(h := None) \<and> ok s'"
    and zero_free: "ok s \<Longrightarrow> queued s 0 = None"
begin

text \<open>The counting that a client's completion barrier rests on: what was scheduled is outstanding until
  a cancellation answers true, or the timer takes it.\<close>

lemma armed_schedule:
  assumes "ok s" "schedule now delay f s = (h, s')"
  shows "armed P (queued s') = armed P (queued s) + (if P f then 1 else 0)"
proof -
  have q: "queued s h = None" "queued s' = (queued s)(h \<mapsto> f)" using schedule_fresh [OF assms] by auto
  have fin: "finite {k. \<exists>g. queued s k = Some g \<and> P g}"
    by (rule finite_subset [OF _ finite_queued [OF assms(1)]]) auto
  have "{k. \<exists>g. queued s' k = Some g \<and> P g} =
      (if P f then insert h {k. \<exists>g. queued s k = Some g \<and> P g} else {k. \<exists>g. queued s k = Some g \<and> P g})"
    using q by auto
  moreover have "h \<notin> {k. \<exists>g. queued s k = Some g \<and> P g}" using q(1) by simp
  ultimately show ?thesis using fin by (simp add: armed_def)
qed

lemma armed_cancel:
  assumes "ok s" "cancel h s = (b, s')"
  shows "armed P (queued s) = armed P (queued s') + (if b \<and> P (the (queued s h)) then 1 else 0)"
proof -
  let ?A = "\<lambda>q. {k. \<exists>g. q k = Some g \<and> P g}"
  have q: "b \<longleftrightarrow> queued s h \<noteq> None" "queued s' = (queued s)(h := None)" using cancel_queued [OF assms] by auto
  have fin: "finite (?A (queued s'))"
    by (rule finite_subset [OF _ finite_queued [of s']]) (use cancel_queued [OF assms] in auto)
  have "?A (queued s) = (if b \<and> P (the (queued s h)) then insert h (?A (queued s')) else ?A (queued s'))"
    using q by auto
  moreover have "h \<notin> ?A (queued s')" using q(2) by simp
  ultimately show ?thesis using fin by (simp add: armed_def)
qed

text \<open>A client that replaces its own callback, deciding by the answer of \<open>cancel\<close> whether the old one
  still counts.\<close>

lemma armed_replace:
  assumes "ok s" "cancel h s = (b, s1)" "schedule now delay f s1 = (h', s2)" "P f"
    and "\<And>g. queued s h = Some g \<Longrightarrow> P g"
  shows "int (armed P (queued s2)) = int (armed P (queued s)) - (if b then 1 else 0) + 1"
proof -
  have ok1: "ok s1" and b: "b \<longleftrightarrow> queued s h \<noteq> None" using cancel_queued [OF assms(1,2)] by auto
  have "armed P (queued s) = armed P (queued s1) + (if b then 1 else 0)"
    using armed_cancel [OF assms(1,2), of P] b assms(5) by (auto split: if_splits)
  then show ?thesis using armed_schedule [OF ok1 assms(3), of P] assms(4) by simp
qed

end

subsection \<open>The scheduler keeps that contract\<close>

definition queuedIn :: "'f sched \<Rightarrow> nat \<Rightarrow> 'f option" where
  "queuedIn sc = map_of (map snd (sc_queue sc))"

definition sched_ok :: "'f sched \<Rightarrow> bool" where
  "sched_ok sc \<longleftrightarrow> set (sc_index sc) = set (map (fst \<circ> snd) (sc_queue sc)) \<and>
     distinct (map (fst \<circ> snd) (sc_queue sc)) \<and> distinct (sc_index sc) \<and> sorted (map fst (sc_queue sc)) \<and>
     (\<forall>i \<in> set (sc_index sc). 1 \<le> i \<and> i < sc_nextId sc) \<and> 1 \<le> sc_nextId sc"

lemma idle_sched_ok [simp]: "sched_ok idle_sched"
  by (simp add: sched_ok_def idle_sched_def)

lemma emplaceDue_split:
  "emplaceDue due e q = takeWhile (\<lambda>x. fst x \<le> due) q @ (due, e) # dropWhile (\<lambda>x. fst x \<le> due) q"
  by (induction q) auto

lemma set_emplaceDue [simp]: "set (emplaceDue due e q) = insert (due, e) (set q)"
  by (induction q) auto

lemma distinct_emplaceDue [simp]:
  "distinct (map (fst \<circ> snd) (emplaceDue due e q)) \<longleftrightarrow>
   distinct (map (fst \<circ> snd) q) \<and> fst e \<notin> (fst \<circ> snd) ` set q"
  by (induction q) auto

lemma sorted_emplaceDue [simp]: "sorted (map fst q) \<Longrightarrow> sorted (map fst (emplaceDue due e q))"
  by (induction q) fastforce+

lemma map_of_emplaceDue:
  "fst e \<notin> (fst \<circ> snd) ` set q \<Longrightarrow>
   map_of (map snd (emplaceDue due e q)) = (map_of (map snd q))(fst e \<mapsto> snd e)"
  by (induction q) auto

lemma eraseEntry_filter:
  "distinct (map (fst \<circ> snd) q) \<Longrightarrow> eraseEntry h q = filter (\<lambda>x. fst (snd x) \<noteq> h) q"
proof (induction q)
  case (Cons x q)
  have "filter (\<lambda>y. fst (snd y) \<noteq> fst (snd x)) q = q"
    using Cons.prems by (intro filter_True) (simp add: image_iff, metis)
  with Cons show ?case by auto
qed simp

lemma map_of_eraseEntry:
  "distinct (map (fst \<circ> snd) q) \<Longrightarrow> map_of (map snd (eraseEntry h q)) = (map_of (map snd q))(h := None)"
  by (induction q) (auto simp: fun_eq_iff map_of_eq_None_iff image_image)

lemma queuedIn_dom: "sched_ok sc \<Longrightarrow> dom (queuedIn sc) = set (sc_index sc)"
  by (simp add: queuedIn_def sched_ok_def dom_map_of_conv_image_fst image_image)

lemma armed_list: "distinct (map fst xs) \<Longrightarrow> armed P (map_of xs) = length (filter (\<lambda>x. P (snd x)) xs)"
proof (induction xs)
  case Nil
  then show ?case by (simp add: armed_def)
next
  case (Cons x xs)
  let ?A = "{h. \<exists>f. map_of xs h = Some f \<and> P f}"
  have new: "map_of xs (fst x) = None" using Cons.prems by (simp add: map_of_eq_None_iff)
  have fin: "finite ?A" by (rule finite_subset [OF _ finite_dom_map_of [of xs]]) auto
  have "{h. \<exists>f. map_of (x # xs) h = Some f \<and> P f} = (if P (snd x) then insert (fst x) ?A else ?A)"
    using new by (cases x) (auto split: if_splits)
  moreover have "fst x \<notin> ?A" using new by simp
  ultimately show ?case using Cons fin by (simp add: armed_def)
qed

lemma armed_queue:
  "sched_ok sc \<Longrightarrow> armed P (queuedIn sc) = length (filter P (map (snd \<circ> snd) (sc_queue sc)))"
  by (simp add: queuedIn_def armed_list sched_ok_def filter_map comp_def)

lemma sched_schedule_ok:
  assumes "sched_ok sc" "sched_schedule now delay f sc = (h, sc')"
  shows "queuedIn sc h = None \<and> queuedIn sc' = (queuedIn sc)(h \<mapsto> f) \<and> sched_ok sc' \<and> h \<noteq> 0"
proof -
  have e: "h = sc_nextId sc" "sc' = sc\<lparr>sc_nextId := Suc h, sc_queue := emplaceDue (now + delay) (h, f) (sc_queue sc),
      sc_index := h # sc_index sc\<rparr>"
    using assms(2) by (auto simp: sched_schedule_def Let_def)
  have new: "h \<notin> set (sc_index sc)" using assms(1) e(1) by (auto simp: sched_ok_def)
  then have newq: "h \<notin> (fst \<circ> snd) ` set (sc_queue sc)" using assms(1) by (auto simp: sched_ok_def)
  have "queuedIn sc h = None" using new queuedIn_dom [OF assms(1)] by (metis domIff)
  moreover have "sched_ok sc'"
    using assms(1) new newq unfolding sched_ok_def e(2) by (auto simp: e(1) less_Suc_eq)
  ultimately show ?thesis
    using newq assms(1) e by (simp add: queuedIn_def map_of_emplaceDue sched_ok_def)
qed

lemma sched_cancel_ok:
  assumes "sched_ok sc" "sched_cancel h sc = (b, sc')"
  shows "(b \<longleftrightarrow> queuedIn sc h \<noteq> None) \<and> queuedIn sc' = (queuedIn sc)(h := None) \<and> sched_ok sc'"
proof (cases "h \<in> set (sc_index sc)")
  case True
  then have e: "b" "sc' = sc\<lparr>sc_queue := eraseEntry h (sc_queue sc), sc_index := remove1 h (sc_index sc)\<rparr>"
    using assms(2) by (auto simp: sched_cancel_def)
  have d: "distinct (map (fst \<circ> snd) (sc_queue sc))" using assms(1) by (simp add: sched_ok_def)
  have "sched_ok sc'"
    using assms(1) unfolding sched_ok_def e(2) eraseEntry_filter [OF d]
    by (auto simp: set_remove1_eq sorted_filter distinct_map_filter)
  moreover have "queuedIn sc h \<noteq> None" using True queuedIn_dom [OF assms(1)] by (metis domIff)
  moreover have "queuedIn sc' = (queuedIn sc)(h := None)" by (simp add: queuedIn_def e(2) map_of_eraseEntry [OF d])
  ultimately show ?thesis using e(1) by blast
next
  case False
  then show ?thesis
    using assms queuedIn_dom [OF assms(1)] by (auto simp: sched_cancel_def fun_eq_iff domIff)
qed

interpretation sc: timer sched_schedule sched_cancel queuedIn sched_ok
proof
  show "finite (dom (queuedIn s))" if "sched_ok s" for s :: "'a sched"
    by (simp add: queuedIn_def finite_dom_map_of)
  show "queuedIn s 0 = None" if "sched_ok s" for s :: "'a sched"
  proof -
    have "0 \<notin> set (sc_index s)" using that by (auto simp: sched_ok_def)
    then show ?thesis using queuedIn_dom [OF that] by (metis domIff)
  qed
  show "queuedIn s h = None \<and> queuedIn s' = (queuedIn s)(h \<mapsto> f) \<and> sched_ok s' \<and> h \<noteq> 0"
    if "sched_ok s" "sched_schedule now delay f s = (h, s')" for s s' :: "'a sched" and now delay f h
    using that by (rule sched_schedule_ok)
  show "(b \<longleftrightarrow> queuedIn s h \<noteq> None) \<and> queuedIn s' = (queuedIn s)(h := None) \<and> sched_ok s'"
    if "sched_ok s" "sched_cancel h s = (b, s')" for s s' :: "'a sched" and h b
    using that by (rule sched_cancel_ok)
qed

subsection \<open>The worker\<close>

lemma collectDue_eq:
  assumes "sched_ok sc" "collectDue now sc n = (fs, sc')" "length (sc_queue sc) \<le> n"
  shows "fs = map (snd \<circ> snd) (takeWhile (\<lambda>e. fst e \<le> now) (sc_queue sc)) \<and>
    sc_queue sc' = dropWhile (\<lambda>e. fst e \<le> now) (sc_queue sc) \<and> sched_ok sc' \<and>
    sc_nextId sc' = sc_nextId sc \<and> sc_stopping sc' = sc_stopping sc"
  using assms
proof (induction n arbitrary: sc fs)
  case 0
  then show ?case by simp
next
  case (Suc n)
  show ?case
  proof (cases "sc_queue sc")
    case Nil
    then show ?thesis using Suc.prems by simp
  next
    case (Cons e q)
    obtain due i fn where e: "e = (due, i, fn)" by (metis prod.exhaust)
    show ?thesis
    proof (cases "due \<le> now")
      case True
      let ?sc = "sc\<lparr>sc_index := remove1 i (sc_index sc), sc_queue := q\<rparr>"
      obtain gs where g: "collectDue now ?sc n = (gs, sc')" "fs = fn # gs"
        using Suc.prems(2) Cons e True by (cases "collectDue now ?sc n") auto
      have "sched_ok ?sc"
        using Suc.prems(1) Cons e unfolding sched_ok_def by (auto simp: set_remove1_eq)
      from Suc.IH [OF this g(1)] Suc.prems(3) Cons e g(2) True show ?thesis by simp
    next
      case False
      then show ?thesis using Suc.prems Cons e by simp
    qed
  qed
qed

lemma workerTurn_Run:
  assumes "sched_ok sc" "workerTurn now sc = (Run fs, sc')"
  shows "fs = map (snd \<circ> snd) (takeWhile (\<lambda>e. fst e \<le> now) (sc_queue sc)) \<and> fs \<noteq> [] \<and>
    sc_queue sc' = dropWhile (\<lambda>e. fst e \<le> now) (sc_queue sc) \<and> sched_ok sc' \<and>
    sc_nextId sc' = sc_nextId sc \<and> \<not> sc_stopping sc \<and> \<not> sc_stopping sc'"
proof -
  obtain e q where q: "sc_queue sc = e # q" using assms(2)
    by (cases "sc_queue sc") (auto simp: workerTurn_def split: if_splits)
  have n: "\<not> sc_stopping sc" "fst e \<le> now"
    using assms(2) q by (auto simp: workerTurn_def not_less split: if_splits prod.splits)
  have c: "collectDue now sc (length (sc_queue sc)) = (fs, sc')"
    using assms(2) q n
    by (cases "collectDue now sc (length (sc_queue sc))"; cases e) (simp add: workerTurn_def)
  from collectDue_eq [OF assms(1) c] n q show ?thesis by simp
qed

lemma ran_queuedIn: "sched_ok sc \<Longrightarrow> ran (queuedIn sc) = set (map (snd \<circ> snd) (sc_queue sc))"
  by (simp add: queuedIn_def sched_ok_def ran_distinct image_image comp_def)

text \<open>What the worker takes leaves the queue and is in its batch: no callback is lost or doubled.\<close>

lemma workerTurn_claims:
  assumes "sched_ok sc" "workerTurn now sc = (Run fs, sc')"
  shows "armed P (queuedIn sc) = armed P (queuedIn sc') + length (filter P fs) \<and>
    ran (queuedIn sc) = ran (queuedIn sc') \<union> set fs \<and>
    (\<forall>k f. queuedIn sc' k = Some f \<longrightarrow> queuedIn sc k = Some f)"
proof -
  note r = workerTurn_Run [OF assms]
  let ?q = "sc_queue sc" and ?t = "takeWhile (\<lambda>e. fst e \<le> now) (sc_queue sc)"
  have q: "?q = ?t @ sc_queue sc'" using r by simp
  have fs: "fs = map (snd \<circ> snd) ?t" using r by blast
  have "length (filter P (map (snd \<circ> snd) (?t @ sc_queue sc'))) =
      length (filter P fs) + length (filter P (map (snd \<circ> snd) (sc_queue sc')))"
    unfolding fs map_append filter_append length_append ..
  then have "length (filter P (map (snd \<circ> snd) ?q)) =
      length (filter P fs) + length (filter P (map (snd \<circ> snd) (sc_queue sc')))"
    by (simp only: q [symmetric])
  moreover have "set (map (snd \<circ> snd) (?t @ sc_queue sc')) = set fs \<union> set (map (snd \<circ> snd) (sc_queue sc'))"
    unfolding fs map_append set_append ..
  then have "set (map (snd \<circ> snd) ?q) = set fs \<union> set (map (snd \<circ> snd) (sc_queue sc'))"
    by (simp only: q [symmetric])
  moreover have "queuedIn sc k = Some f" if "queuedIn sc' k = Some f" for k f
  proof -
    have "distinct (map fst (map snd ?q))" using assms(1) by (simp add: sched_ok_def comp_def)
    moreover have "(k, f) \<in> set (map snd ?q)"
      using map_of_SomeD [OF that [unfolded queuedIn_def]] by (subst q) auto
    ultimately show ?thesis by (simp add: queuedIn_def)
  qed
  ultimately show ?thesis
    using r assms(1) by (auto simp: armed_queue ran_queuedIn)
qed

lemma workerTurn_other:
  "workerTurn now sc = (Leave, sc') \<Longrightarrow> sc' = sc \<and> sc_stopping sc"
  "workerTurn now sc = (Wait, sc') \<Longrightarrow> sc' = sc \<and> \<not> sc_stopping sc"
  by (auto simp: workerTurn_def apfst_def map_prod_def split_beta split: if_splits list.splits)

end
