(* ===== verification/Device_Service.thy ===== *)
theory Device_Service
  imports Core_Models Device_Key
begin

text \<open>
  \<^verbatim>\<open>app/src/device_service.cpp\<close> and \<^verbatim>\<open>app/src/disabled_overlay.cpp\<close>: the front end's model of the
  devices, reconciled with whole enumerations and with single hotplug deltas, and the overlay that
  marks what the helper keeps disabled. An operation returns the model it leaves and the events it
  publishes after it has released the lock. The list stands for \<^verbatim>\<open>std::unordered_map\<close>; its order is
  the order of iteration, which the standard leaves open and no statement depends on.
\<close>

type_synonym device_model = "(string \<times> device) list"

definition model_emplace :: "string \<Rightarrow> device \<Rightarrow> device_model \<Rightarrow> device_model" where
  "model_emplace key d m = (if map_of m key = None then m @ [(key, d)] else m)"

fun model_erase :: "string \<Rightarrow> device_model \<Rightarrow> device_model" where
  "model_erase key [] = []"
| "model_erase key (kv # m) = (if fst kv = key then m else kv # model_erase key m)"

fun model_assign :: "string \<Rightarrow> device \<Rightarrow> device_model \<Rightarrow> device_model" where
  "model_assign key d [] = []"
| "model_assign key d (kv # m) = (if fst kv = key then (key, d) # m else kv # model_assign key d m)"

subsection \<open>Operations\<close>

text \<open>The loop over an enumeration: what is new, what differs, and the next model.\<close>

fun reconcile :: "device_model \<Rightarrow> device list \<Rightarrow> device list \<Rightarrow> device list \<Rightarrow> device_model
    \<Rightarrow> device list \<times> device list \<times> device_model" where
  "reconcile model [] added changed nxt = (added, changed, nxt)"
| "reconcile model (d # ds) added changed nxt =
     (let key = dev_id d;
          nxt1 = model_emplace key d nxt
      in case map_of model key of
           None \<Rightarrow> reconcile model ds (added @ [d]) changed nxt1
         | Some prev \<Rightarrow>
             if prev \<noteq> d then reconcile model ds added (changed @ [d]) nxt1
             else reconcile model ds added changed nxt1)"

definition applyEnumeration :: "device list \<Rightarrow> device_model \<Rightarrow> event list \<times> device_model" where
  "applyEnumeration snapshot model =
     (case reconcile model snapshot [] [] [] of
        (added, changed, nxt) \<Rightarrow>
          (let removed = map (\<lambda>kv. dev_id (snd kv)) (filter (\<lambda>kv. map_of nxt (fst kv) = None) model)
           in (map DeviceRemovedEvent removed @ map DeviceAddedEvent added @ map DeviceChangedEvent changed, nxt)))"

definition applyDelta :: "hotplug_event \<Rightarrow> device_model \<Rightarrow> event list \<times> device_model" where
  "applyDelta ev model =
     (let d = hp_device ev; key = dev_id d in
      if hp_action ev = Removed then
        (case map_of model key of
           Some prev \<Rightarrow> ([DeviceRemovedEvent (dev_id prev)], model_erase key model)
         | None \<Rightarrow> ([], model))
      else
        (case map_of model key of
           None \<Rightarrow> ([DeviceAddedEvent d], model_emplace key d model)
         | Some prev \<Rightarrow>
             if prev \<noteq> d then ([DeviceChangedEvent d], model_assign key d model) else ([], model)))"

definition model_devices :: "device_model \<Rightarrow> device list" where
  "model_devices model = map snd model"

definition model_findById :: "device_model \<Rightarrow> device_id \<Rightarrow> device option" where
  "model_findById model i = map_of model i"

text \<open>\<^verbatim>\<open>applyDisabledOverlay\<close>, one device at a time: the first entry that matches it decides.\<close>

definition kSuspendedNote :: string where
  "kSuspendedNote = ''disabled '' @ dash @ '' enforcement suspended (guard refused re-apply)''"

fun overlayDevice :: "disabled_entry list \<Rightarrow> device \<Rightarrow> device" where
  "overlayDevice [] d = d"
| "overlayDevice (e # es) d =
     (if matchesDevice (ent_key e) d \<or> ent_lastSysfsPath e = dev_sysfsPath d then
        (let d1 = d\<lparr>dev_status := Disabled\<rparr> in
         if ent_guardSuspended e then d1\<lparr>dev_errorNote := Some kSuspendedNote\<rparr> else d1)
      else overlayDevice es d)"

definition applyDisabledOverlay :: "disabled_entry list \<Rightarrow> device list \<Rightarrow> device list" where
  "applyDisabledOverlay entries devices = map (overlayDevice entries) devices"

subsection \<open>The model as a map\<close>

text \<open>Every key of the model is the id of its device, once.\<close>

definition model_ok :: "device_model \<Rightarrow> bool" where
  "model_ok m \<longleftrightarrow> distinct (map fst m) \<and> list_all (\<lambda>kv. fst kv = dev_id (snd kv)) m"

text \<open>What an event makes of the lookup of its device.\<close>

definition event_effect :: "hotplug_event \<Rightarrow> device option" where
  "event_effect ev = (if hp_action ev = Removed then None else Some (hp_device ev))"

lemma map_of_emplace: "map_of (model_emplace k d m) k' =
    (if map_of m k = None \<and> k' = k then Some d else map_of m k')"
  by (auto simp: model_emplace_def map_add_def split: option.splits)

lemma map_of_erase: "distinct (map fst m) \<Longrightarrow> map_of (model_erase k m) = (map_of m)(k := None)"
  by (induction m) (auto simp: fun_eq_iff map_of_eq_None_iff)

lemma map_of_assign: "map_of m k \<noteq> None \<Longrightarrow> map_of (model_assign k d m) = (map_of m)(k \<mapsto> d)"
  by (induction m) (auto simp: fun_eq_iff)

lemma keys_assign [simp]: "map fst (model_assign k d m) = map fst m"
  by (induction m) auto

lemma erase_subset: "set (model_erase k m) \<subseteq> set m"
  by (induction m) auto

lemma erase_distinct: "distinct (map fst m) \<Longrightarrow> distinct (map fst (model_erase k m))"
  by (induction m) (use erase_subset in \<open>auto simp: image_iff subset_iff\<close>)

lemma model_ok_emplace: "model_ok m \<Longrightarrow> model_ok (model_emplace (dev_id d) d m)"
  by (auto simp: model_ok_def model_emplace_def map_of_eq_None_iff)

lemma model_ok_erase: "model_ok m \<Longrightarrow> model_ok (model_erase k m)"
  using erase_subset [of k m] erase_distinct [of m k] by (auto simp: model_ok_def list_all_iff)

lemma model_ok_assign: "model_ok m \<Longrightarrow> model_ok (model_assign (dev_id d) d m)"
proof -
  have "list_all (\<lambda>kv. fst kv = dev_id (snd kv)) m \<Longrightarrow>
      list_all (\<lambda>kv. fst kv = dev_id (snd kv)) (model_assign (dev_id d) d m)"
    by (induction m) auto
  then show "model_ok m \<Longrightarrow> model_ok (model_assign (dev_id d) d m)" by (simp add: model_ok_def)
qed

lemma map_of_ok: "model_ok m \<Longrightarrow> map_of m k = Some d \<Longrightarrow> dev_id d = k"
  by (auto simp: model_ok_def list_all_iff dest!: map_of_SomeD)

lemma applyDelta_facts:
  assumes "model_ok m" "applyDelta ev m = (evs, m')"
  shows "model_ok m' \<and> map_of m' = (map_of m)(dev_id (hp_device ev) := event_effect ev) \<and>
    evs = (case (map_of m (dev_id (hp_device ev)), event_effect ev) of
             (None, Some d) \<Rightarrow> [DeviceAddedEvent d]
           | (Some p, Some d) \<Rightarrow> (if p = d then [] else [DeviceChangedEvent d])
           | (Some p, None) \<Rightarrow> [DeviceRemovedEvent (dev_id (hp_device ev))]
           | (None, None) \<Rightarrow> [])"
proof (cases "hp_action ev = Removed")
  case True
  show ?thesis
  proof (cases "map_of m (dev_id (hp_device ev))")
    case None
    with True assms show ?thesis
      by (auto simp: applyDelta_def event_effect_def fun_eq_iff)
  next
    case (Some p)
    with True assms have e: "evs = [DeviceRemovedEvent (dev_id p)]" "m' = model_erase (dev_id (hp_device ev)) m"
      by (auto simp: applyDelta_def)
    show ?thesis
      using assms(1) Some True map_of_ok [OF assms(1) Some]
      by (simp add: e model_ok_erase map_of_erase event_effect_def model_ok_def [of m])
  qed
next
  case False
  show ?thesis
  proof (cases "map_of m (dev_id (hp_device ev))")
    case None
    with False assms have e: "evs = [DeviceAddedEvent (hp_device ev)]"
        "m' = model_emplace (dev_id (hp_device ev)) (hp_device ev) m"
      by (auto simp: applyDelta_def Let_def)
    show ?thesis
      using assms(1) None False by (simp add: e model_ok_emplace event_effect_def map_of_emplace fun_eq_iff)
  next
    case (Some p)
    with False assms have e: "evs = (if p = hp_device ev then [] else [DeviceChangedEvent (hp_device ev)])"
        "m' = (if p = hp_device ev then m else model_assign (dev_id (hp_device ev)) (hp_device ev) m)"
      by (auto simp: applyDelta_def Let_def split: if_splits)
    show ?thesis
      using assms(1) Some False
      by (auto simp: e model_ok_assign map_of_assign event_effect_def)
  qed
qed

lemma reconcile_next:
  "reconcile model ds added changed nxt = (a, c, nxt') \<Longrightarrow> model_ok nxt \<Longrightarrow>
   model_ok nxt' \<and> map_of nxt' = map_of (map (\<lambda>d. (dev_id d, d)) ds) ++ map_of nxt"
proof (induction ds arbitrary: added changed nxt)
  case (Cons d ds)
  have "model_ok (model_emplace (dev_id d) d nxt)" by (rule model_ok_emplace [OF Cons.prems(2)])
  moreover have "\<exists>x y. reconcile model ds x y (model_emplace (dev_id d) d nxt) = (a, c, nxt')"
    using Cons.prems(1) by (auto simp: Let_def split: option.splits if_splits)
  ultimately have "model_ok nxt'"
      "map_of nxt' = map_of (map (\<lambda>d. (dev_id d, d)) ds) ++ map_of (model_emplace (dev_id d) d nxt)"
    using Cons.IH by blast+
  moreover have "map_of (map (\<lambda>d. (dev_id d, d)) ds) ++ map_of (model_emplace (dev_id d) d nxt) =
      map_of (map (\<lambda>d. (dev_id d, d)) (d # ds)) ++ map_of nxt"
    by (auto simp: fun_eq_iff map_add_def map_of_emplace split: option.splits)
  ultimately show ?case by metis
qed simp

lemma reconcile_lists:
  "reconcile model ds added changed nxt = (a, c, nxt') \<Longrightarrow>
   a = added @ filter (\<lambda>d. map_of model (dev_id d) = None) ds \<and>
   c = changed @ filter (\<lambda>d. map_of model (dev_id d) \<noteq> None \<and> map_of model (dev_id d) \<noteq> Some d) ds"
proof (induction ds arbitrary: added changed nxt)
  case (Cons d ds)
  show ?case
  proof (cases "map_of model (dev_id d)")
    case None
    with Cons.prems have "reconcile model ds (added @ [d]) changed (model_emplace (dev_id d) d nxt) = (a, c, nxt')"
      by (simp add: Let_def)
    from Cons.IH [OF this] None show ?thesis by simp
  next
    case (Some prev)
    with Cons.prems have "reconcile model ds added (if prev \<noteq> d then changed @ [d] else changed)
        (model_emplace (dev_id d) d nxt) = (a, c, nxt')"
      by (auto simp: Let_def split: if_splits)
    from Cons.IH [OF this] Some show ?thesis by auto
  qed
qed simp

subsection \<open>Subscribers can follow the model\<close>

text \<open>What a subscriber that keeps a copy of the model does with an event.\<close>

fun mirror :: "(string \<Rightarrow> device option) \<Rightarrow> event \<Rightarrow> string \<Rightarrow> device option" where
  "mirror m (DeviceAddedEvent d) = m(dev_id d \<mapsto> d)"
| "mirror m (DeviceChangedEvent d) = m(dev_id d \<mapsto> d)"
| "mirror m (DeviceRemovedEvent i) = m(i := None)"
| "mirror m _ = m"

lemma foldl_mirror_removed:
  "foldl mirror m (map DeviceRemovedEvent is) k = (if k \<in> set is then None else m k)"
  by (induction "is" arbitrary: m) auto

lemma foldl_mirror_put:
  assumes "f = DeviceAddedEvent \<or> f = DeviceChangedEvent" "distinct (map dev_id ds)"
  shows "foldl mirror m (map f ds) k = (case map_of (map (\<lambda>d. (dev_id d, d)) ds) k of Some d \<Rightarrow> Some d | None \<Rightarrow> m k)"
  using assms(2)
proof (induction ds arbitrary: m)
  case (Cons d ds)
  have "mirror m (f d) = m(dev_id d \<mapsto> d)" using assms(1) by auto
  moreover have "map_of (map (\<lambda>d. (dev_id d, d)) ds) (dev_id d) = None"
    using Cons.prems by (auto simp: map_of_eq_None_iff image_image)
  ultimately show ?case using Cons by (auto split: option.splits)
qed simp

lemma enumeration_facts:
  assumes "model_ok m" "distinct (map dev_id ds)" "applyEnumeration ds m = (evs, m')"
  shows "model_ok m' \<and> map_of m' = map_of (map (\<lambda>d. (dev_id d, d)) ds) \<and> foldl mirror (map_of m) evs = map_of m'"
proof -
  let ?T = "map_of (map (\<lambda>d. (dev_id d, d)) ds)"
  obtain a c nxt where r: "reconcile m ds [] [] [] = (a, c, nxt)" by (metis prod.exhaust)
  have m': "m' = nxt" and evs: "evs = map DeviceRemovedEvent (map (\<lambda>kv. dev_id (snd kv)) (filter (\<lambda>kv. map_of nxt (fst kv) = None) m))
      @ map DeviceAddedEvent a @ map DeviceChangedEvent c"
    using assms(3) r by (auto simp: applyEnumeration_def Let_def)
  have ok: "model_ok m'" and lk: "map_of m' = ?T"
    using reconcile_next [OF r] m' by (auto simp: model_ok_def)
  have ac: "a = filter (\<lambda>d. map_of m (dev_id d) = None) ds"
      "c = filter (\<lambda>d. map_of m (dev_id d) \<noteq> None \<and> map_of m (dev_id d) \<noteq> Some d) ds"
    using reconcile_lists [OF r] by auto
  have dis: "distinct (map dev_id (filter P ds))" for P using assms(2) by (simp add: distinct_map_filter)
  have sel: "map_of (map (\<lambda>d. (dev_id d, d)) (filter P ds)) k =
      (case ?T k of Some d \<Rightarrow> if P d then Some d else None | None \<Rightarrow> None)" for P k
    using assms(2) by (induction ds) (auto simp: map_of_eq_None_iff image_image split: option.splits)
  have rem: "set (map (\<lambda>kv. dev_id (snd kv)) (filter (\<lambda>kv. map_of nxt (fst kv) = None) m)) =
      {k. map_of m k \<noteq> None \<and> ?T k = None}"
  proof -
    have "map (\<lambda>kv. dev_id (snd kv)) (filter (\<lambda>kv. map_of nxt (fst kv) = None) m) =
        map fst (filter (\<lambda>kv. ?T (fst kv) = None) m)"
      using assms(1) lk unfolding m' by (intro map_cong) (auto simp: model_ok_def list_all_iff)
    then have "set (map (\<lambda>kv. dev_id (snd kv)) (filter (\<lambda>kv. map_of nxt (fst kv) = None) m)) =
        fst ` {kv \<in> set m. ?T (fst kv) = None}"
      by (simp only: set_map set_filter)
    also have "\<dots> = {k \<in> fst ` set m. ?T k = None}"
    proof -
      have "fst ` {kv \<in> S. P (fst kv)} = {k \<in> fst ` S. P k}" for S :: "(string \<times> device) set" and P
        by blast
      then show ?thesis .
    qed
    also have "\<dots> = {k. map_of m k \<noteq> None \<and> ?T k = None}"
      by (rule Collect_cong) (simp only: map_of_eq_None_iff [of m] not_not)
    finally show ?thesis .
  qed
  have id: "dev_id d = k" if "?T k = Some d" for k d
    using that by (auto dest!: map_of_SomeD)
  have "foldl mirror (map_of m) evs k = ?T k" for k
  proof -
    have "foldl mirror (map_of m) evs k = (case map_of (map (\<lambda>d. (dev_id d, d)) c) k of Some d \<Rightarrow> Some d
        | None \<Rightarrow> (case map_of (map (\<lambda>d. (dev_id d, d)) a) k of Some d \<Rightarrow> Some d
        | None \<Rightarrow> (if map_of m k \<noteq> None \<and> ?T k = None then None else map_of m k)))"
      unfolding evs foldl_append
      by (simp only: foldl_mirror_put [OF disjI2 [OF refl] dis] foldl_mirror_put [OF disjI1 [OF refl] dis]
          foldl_mirror_removed rem ac mem_Collect_eq)
    also have "\<dots> = ?T k"
    proof (cases "?T k")
      case None
      then show ?thesis unfolding ac sel by simp
    next
      case (Some d)
      with id have "dev_id d = k" by blast
      then show ?thesis unfolding ac sel Some by (cases "map_of m k") simp_all
    qed
    finally show ?thesis .
  qed
  then show ?thesis using ok lk by auto
qed

end
