(* ===== verification/Hotplug_Service.thy ===== *)
theory Hotplug_Service
  imports Scheduler Device_Service
begin

text \<open>
  \<^verbatim>\<open>app/src/hotplug_service.cpp\<close>: events of the monitor are held back per device for a window and
  the latest is applied from the timer thread. Each critical section of the class's mutex is one
  function on its state and the timer's; a flush is two of them around the call of the device
  service. The timer is shared, so its callbacks are those of both its clients.
\<close>

datatype callback = Flush string | ClearLine nat

fun is_flush :: "callback \<Rightarrow> bool" where
  "is_flush (Flush _) = True"
| "is_flush (ClearLine _) = False"

definition kDebounceWindow :: nat where
  "kDebounceWindow = 250"

text \<open>\<open>hs_pending\<close> stands for \<^verbatim>\<open>std::unordered_map\<close>, keyed by device id: the latest event and the handle of
  its timer.\<close>

record hotplug_service =
  hs_pending :: "(string \<times> hotplug_event \<times> nat) list"
  hs_outstanding :: int

definition idle_hotplug :: hotplug_service where
  "idle_hotplug = \<lparr>hs_pending = [], hs_outstanding = 0\<rparr>"

fun pending_put :: "string \<Rightarrow> hotplug_event \<times> nat \<Rightarrow> (string \<times> hotplug_event \<times> nat) list
    \<Rightarrow> (string \<times> hotplug_event \<times> nat) list" where
  "pending_put i p [] = [(i, p)]"
| "pending_put i p (x # xs) = (if fst x = i then (i, p) # xs else x # pending_put i p xs)"

subsection \<open>Critical sections\<close>

definition hs_onEvent :: "nat \<Rightarrow> nat \<Rightarrow> hotplug_event \<Rightarrow> hotplug_service \<times> callback sched
    \<Rightarrow> hotplug_service \<times> callback sched" where
  "hs_onEvent now window ev s = (case s of (hs, sc) \<Rightarrow>
     let i = dev_id (hp_device ev) in
     case (case map_of (hs_pending hs) i of
             Some (_, handle) \<Rightarrow>
               (case sched_cancel handle sc of
                  (c, sc1) \<Rightarrow> (if c then hs_outstanding hs - 1 else hs_outstanding hs, sc1))
           | None \<Rightarrow> (hs_outstanding hs, sc)) of
       (out, sc1) \<Rightarrow>
         (case sched_schedule now window (Flush i) sc1 of
            (handle, sc2) \<Rightarrow>
              (hs\<lparr>hs_pending := pending_put i (ev, handle) (hs_pending hs), hs_outstanding := out + 1\<rparr>, sc2)))"

text \<open>The two ends of a flush; in between the event, if there is one, is applied.\<close>

definition hs_flushTake :: "string \<Rightarrow> hotplug_service \<Rightarrow> hotplug_event option \<times> hotplug_service" where
  "hs_flushTake i hs =
     (case map_of (hs_pending hs) i of
        Some (ev, _) \<Rightarrow> (Some ev, hs\<lparr>hs_pending := filter (\<lambda>x. fst x \<noteq> i) (hs_pending hs)\<rparr>)
      | None \<Rightarrow> (None, hs))"

definition hs_flushDone :: "hotplug_service \<Rightarrow> hotplug_service" where
  "hs_flushDone hs = hs\<lparr>hs_outstanding := hs_outstanding hs - 1\<rparr>"

text \<open>\<^verbatim>\<open>stop\<close> after the monitor has been joined: every pending timer is cancelled, then it waits until
  nothing is outstanding.\<close>

fun cancelAll :: "(string \<times> hotplug_event \<times> nat) list \<Rightarrow> int \<Rightarrow> callback sched \<Rightarrow> int \<times> callback sched" where
  "cancelAll [] out sc = (out, sc)"
| "cancelAll ((_, _, handle) # ps) out sc =
     (case sched_cancel handle sc of
        (c, sc1) \<Rightarrow> cancelAll ps (if c then out - 1 else out) sc1)"

definition hs_stop :: "hotplug_service \<times> callback sched \<Rightarrow> hotplug_service \<times> callback sched" where
  "hs_stop s = (case s of (hs, sc) \<Rightarrow>
     case cancelAll (hs_pending hs) (hs_outstanding hs) sc of
       (out, sc1) \<Rightarrow> (hs\<lparr>hs_pending := [], hs_outstanding := out\<rparr>, sc1))"

definition hs_stopReturns :: "hotplug_service \<Rightarrow> bool" where
  "hs_stopReturns hs \<longleftrightarrow> hs_outstanding hs = 0"

subsection \<open>What a critical section does to the counters\<close>

text \<open>Every pending entry belongs to a handle that the timer gave out and that, while it waits, is a
  flush of its device.\<close>

definition pending_ok :: "hotplug_service \<Rightarrow> callback sched \<Rightarrow> bool" where
  "pending_ok hs sc \<longleftrightarrow> distinct (map fst (hs_pending hs)) \<and>
     (\<forall>i ev h. (i, ev, h) \<in> set (hs_pending hs) \<longrightarrow> dev_id (hp_device ev) = i \<and> h < sc_nextId sc \<and>
        (\<forall>f. queuedIn sc h = Some f \<longrightarrow> f = Flush i))"

lemma sched_schedule_next:
  "sched_schedule now delay f sc = (h, sc') \<Longrightarrow>
   h = sc_nextId sc \<and> sc_nextId sc' = Suc h \<and> sc_stopping sc' = sc_stopping sc"
  by (auto simp: sched_schedule_def Let_def)

lemma sched_cancel_next:
  "sched_cancel h sc = (b, sc') \<Longrightarrow> sc_nextId sc' = sc_nextId sc \<and> sc_stopping sc' = sc_stopping sc"
  by (auto simp: sched_cancel_def split: if_splits)

lemma map_of_pending_put: "map_of (pending_put i p ps) = (map_of ps)(i \<mapsto> p)"
  by (induction ps) (auto simp: fun_eq_iff)

lemma keys_pending_put: "set (map fst (pending_put i p ps)) = insert i (set (map fst ps))"
  by (induction ps) auto

lemma distinct_pending_put: "distinct (map fst ps) \<Longrightarrow> distinct (map fst (pending_put i p ps))"
proof (induction ps)
  case (Cons x ps)
  then show ?case using keys_pending_put [of i p ps] by auto
qed simp

lemma set_pending_put: "distinct (map fst ps) \<Longrightarrow>
    set (pending_put i p ps) = insert (i, p) {x \<in> set ps. fst x \<noteq> i}"
  by (induction ps) (auto simp: image_iff)

lemma pending_okD:
  assumes "pending_ok hs sc" "map_of (hs_pending hs) i = Some (ev, h)"
  shows "dev_id (hp_device ev) = i" "h < sc_nextId sc" "queuedIn sc h = Some f \<Longrightarrow> f = Flush i"
  using assms(1) map_of_SomeD [OF assms(2)] unfolding pending_ok_def by blast+

text \<open>The invariant survives whatever only removes waiting callbacks, or adds them under new handles.\<close>

lemma pending_ok_mono:
  assumes "pending_ok hs sc" "sc_nextId sc \<le> sc_nextId sc'"
    and "\<And>h f. h < sc_nextId sc \<Longrightarrow> queuedIn sc' h = Some f \<Longrightarrow> queuedIn sc h = Some f"
  shows "pending_ok hs sc'"
  unfolding pending_ok_def
proof (intro conjI allI impI)
  show "distinct (map fst (hs_pending hs))" using assms(1) by (simp add: pending_ok_def)
  fix i ev h assume "(i, ev, h) \<in> set (hs_pending hs)"
  then have p: "dev_id (hp_device ev) = i" "h < sc_nextId sc" "\<And>f. queuedIn sc h = Some f \<Longrightarrow> f = Flush i"
    using assms(1) unfolding pending_ok_def by blast+
  show "dev_id (hp_device ev) = i" by (rule p(1))
  show "h < sc_nextId sc'" using p(2) assms(2) by simp
  show "f = Flush i" if "queuedIn sc' h = Some f" for f
    using assms(3) [OF p(2) that] p(3) by blast
qed

lemma hs_onEvent_facts:
  assumes sok: "sched_ok sc" and pok: "pending_ok hs sc"
    and ev: "hs_onEvent now window ev (hs, sc) = (hs', sc')" and i: "i = dev_id (hp_device ev)"
  shows "sched_ok sc'" "pending_ok hs' sc'" "sc_stopping sc' = sc_stopping sc" "sc_nextId sc \<le> sc_nextId sc'"
    and "hs_outstanding hs' - int (armed is_flush (queuedIn sc')) =
      hs_outstanding hs - int (armed is_flush (queuedIn sc))"
    and "\<exists>h. map_of (hs_pending hs') = (map_of (hs_pending hs))(i \<mapsto> (ev, h)) \<and> queuedIn sc' h = Some (Flush i)"
    and "queuedIn sc k = Some f \<Longrightarrow> f \<noteq> Flush i \<Longrightarrow> queuedIn sc' k = Some f"
    and "queuedIn sc' k = Some f \<Longrightarrow> f \<noteq> Flush i \<Longrightarrow> queuedIn sc k = Some f"
    and "queuedIn sc' k = Some f \<Longrightarrow> k < sc_nextId sc \<Longrightarrow> queuedIn sc k = Some f"
proof -
  define cancelled where "cancelled \<equiv> (case map_of (hs_pending hs) i of
      Some (_, h) \<Rightarrow> sched_cancel h sc | None \<Rightarrow> (False, sc))"
  obtain c sc1 where c: "cancelled = (c, sc1)" by (cases cancelled)
  have step1: "sched_ok sc1 \<and> sc_nextId sc1 = sc_nextId sc \<and> sc_stopping sc1 = sc_stopping sc \<and>
      armed is_flush (queuedIn sc) = armed is_flush (queuedIn sc1) + (if c then 1 else 0) \<and>
      (\<forall>k. queuedIn sc1 k = queuedIn sc k \<or> queuedIn sc1 k = None \<and> queuedIn sc k = Some (Flush i))"
  proof (cases "map_of (hs_pending hs) i")
    case None
    then show ?thesis using c sok by (simp add: cancelled_def)
  next
    case (Some p)
    obtain ev0 h where p: "p = (ev0, h)" by (cases p)
    have cc: "sched_cancel h sc = (c, sc1)" using c Some p by (simp add: cancelled_def)
    note q = sched_cancel_ok [OF sok cc]
    have "queuedIn sc h = Some (Flush i)" if c
      using q that pending_okD(3) [OF pok, of i ev0 h] Some p by auto
    then show ?thesis
      using q sched_cancel_next [OF cc] sc.armed_cancel [OF sok cc, of is_flush] by (auto split: if_splits)
  qed
  obtain h sc2 where s: "sched_schedule now window (Flush i) sc1 = (h, sc2)"
    by (cases "sched_schedule now window (Flush i) sc1")
  have res: "hs' = hs\<lparr>hs_pending := pending_put i (ev, h) (hs_pending hs),
        hs_outstanding := (if c then hs_outstanding hs - 1 else hs_outstanding hs) + 1\<rparr>" "sc' = sc2"
    using ev s c unfolding hs_onEvent_def cancelled_def i [symmetric]
    by (auto simp: Let_def split: option.splits prod.splits)
  from step1 have sok1: "sched_ok sc1" by simp
  note q = sched_schedule_ok [OF sok1 s] and n = sched_schedule_next [OF s]
  have count: "int (armed is_flush (queuedIn sc2)) = int (armed is_flush (queuedIn sc)) - (if c then 1 else 0) + 1"
    using sc.armed_schedule [OF sok1 s, of is_flush] step1 by (simp split: if_splits)
  have older: "queuedIn sc2 k = Some f \<Longrightarrow> k \<noteq> h \<Longrightarrow> queuedIn sc k = Some f" for k f
    using q step1 by (metis fun_upd_other option.distinct(1))
  have pok2: "pending_ok hs sc2"
    by (rule pending_ok_mono [OF pok]) (use n step1 older in auto)
  have r1: "pending_ok hs' sc2"
    unfolding pending_ok_def
  proof (intro conjI allI impI)
    have dis: "distinct (map fst (hs_pending hs))" using pok by (simp add: pending_ok_def)
    then show "distinct (map fst (hs_pending hs'))" by (simp add: res distinct_pending_put)
    fix j e k assume "(j, e, k) \<in> set (hs_pending hs')"
    then consider (new) "j = i" "e = ev" "k = h" | (old) "(j, e, k) \<in> set (hs_pending hs)"
      using dis by (auto simp: res set_pending_put)
    note elem = this
    show "dev_id (hp_device e) = j"
      using elem i pok2 by cases (auto simp: pending_ok_def)
    show "k < sc_nextId sc2" using elem n pok2 by cases (auto simp: pending_ok_def)
    show "f = Flush j" if "queuedIn sc2 k = Some f" for f
      using elem
    proof cases
      case new
      then show ?thesis using that q by simp
    next
      case old
      then show ?thesis using that pok2 unfolding pending_ok_def by blast
    qed
  qed
  have r2: "hs_outstanding hs' - int (armed is_flush (queuedIn sc2)) =
      hs_outstanding hs - int (armed is_flush (queuedIn sc))"
    using count by (simp add: res split: if_splits)
  have r3: "\<exists>h. map_of (hs_pending hs') = (map_of (hs_pending hs))(i \<mapsto> (ev, h)) \<and> queuedIn sc2 h = Some (Flush i)"
    using q by (intro exI [of _ h]) (simp add: res map_of_pending_put)
  show "queuedIn sc' k = Some f" if "queuedIn sc k = Some f" "f \<noteq> Flush i" for k f
  proof -
    have "queuedIn sc1 k = Some f" using step1 that by (metis option.inject)
    with q show ?thesis unfolding res(2) by (cases "k = h") auto
  qed
  show "queuedIn sc k = Some f" if "queuedIn sc' k = Some f" "f \<noteq> Flush i" for k f
  proof -
    have "k \<noteq> h" using that q unfolding res(2) by auto
    then show ?thesis using older [of k f] that(1) unfolding res(2) by blast
  qed
  show "queuedIn sc k = Some f" if "queuedIn sc' k = Some f" "k < sc_nextId sc" for k f
    using older [of k f] that n step1 unfolding res(2) by simp
  show "sched_ok sc'" "sc_stopping sc' = sc_stopping sc" "sc_nextId sc \<le> sc_nextId sc'"
    using q n step1 unfolding res(2) by auto
  show "pending_ok hs' sc'" "hs_outstanding hs' - int (armed is_flush (queuedIn sc')) =
      hs_outstanding hs - int (armed is_flush (queuedIn sc))"
    unfolding res(2) by (rule r1 r2)+
  show "\<exists>h. map_of (hs_pending hs') = (map_of (hs_pending hs))(i \<mapsto> (ev, h)) \<and> queuedIn sc' h = Some (Flush i)"
    unfolding res(2) by (rule r3)
qed

text \<open>A flush takes the pending event of its device, and nothing of another device's.\<close>

lemma hs_flushTake_facts:
  assumes "hs_flushTake i hs = (r, hs')" "pending_ok hs sc"
  shows "pending_ok hs' sc \<and> hs_outstanding hs' = hs_outstanding hs \<and>
    r = map_option fst (map_of (hs_pending hs) i) \<and> map_of (hs_pending hs') = (map_of (hs_pending hs))(i := None)"
proof (cases "map_of (hs_pending hs) i")
  case None
  then show ?thesis using assms by (auto simp: hs_flushTake_def fun_eq_iff)
next
  case (Some p)
  then have e: "hs' = hs\<lparr>hs_pending := filter (\<lambda>x. fst x \<noteq> i) (hs_pending hs)\<rparr>" "r = Some (fst p)"
    using assms(1) by (auto simp: hs_flushTake_def split: prod.splits)
  have "map_of (filter (\<lambda>x. fst x \<noteq> i) ps) = (map_of ps)(i := None)" for ps :: "(string \<times> hotplug_event \<times> nat) list"
    by (induction ps) (auto simp: fun_eq_iff)
  then show ?thesis using assms(2) Some unfolding e pending_ok_def by (auto simp: distinct_map_filter)
qed

text \<open>\<^verbatim>\<open>stop\<close> resolves exactly the claims of the timers it reaches.\<close>

lemma cancelAll_facts:
  assumes "sched_ok sc" "\<And>i ev h f. (i, ev, h) \<in> set ps \<Longrightarrow> queuedIn sc h = Some f \<Longrightarrow> is_flush f"
    and "cancelAll ps out sc = (out', sc')"
  shows "sched_ok sc' \<and> sc_stopping sc' = sc_stopping sc \<and> sc_nextId sc' = sc_nextId sc \<and>
    out' - int (armed is_flush (queuedIn sc')) = out - int (armed is_flush (queuedIn sc)) \<and>
    (\<forall>k. queuedIn sc' k = queuedIn sc k \<or> queuedIn sc' k = None \<and> (\<exists>f. queuedIn sc k = Some f \<and> is_flush f))"
  using assms
proof (induction ps arbitrary: out sc)
  case (Cons p ps)
  obtain i ev h where p: "p = (i, ev, h)" by (cases p)
  obtain c sc1 where c: "sched_cancel h sc = (c, sc1)" by (cases "sched_cancel h sc")
  note q = sched_cancel_ok [OF Cons.prems(1) c]
  have fl: "queuedIn sc h = Some f \<Longrightarrow> is_flush f" for f using Cons.prems(2) p by auto
  have rest: "cancelAll ps (if c then out - 1 else out) sc1 = (out', sc')"
    using Cons.prems(3) p c by simp
  have "sched_ok sc' \<and> sc_stopping sc' = sc_stopping sc1 \<and> sc_nextId sc' = sc_nextId sc1 \<and>
    out' - int (armed is_flush (queuedIn sc')) = (if c then out - 1 else out) - int (armed is_flush (queuedIn sc1)) \<and>
    (\<forall>k. queuedIn sc' k = queuedIn sc1 k \<or> queuedIn sc' k = None \<and> (\<exists>f. queuedIn sc1 k = Some f \<and> is_flush f))"
    by (rule Cons.IH [OF _ _ rest]) (use q Cons.prems(2) p in \<open>auto split: if_splits\<close>)
  moreover have "armed is_flush (queuedIn sc) = armed is_flush (queuedIn sc1) + (if c then 1 else 0)"
    using sc.armed_cancel [OF Cons.prems(1) c, of is_flush] q fl by (auto split: if_splits)
  moreover have "queuedIn sc1 k = queuedIn sc k \<or> queuedIn sc1 k = None \<and> (\<exists>f. queuedIn sc k = Some f \<and> is_flush f)" for k
    using q fl by (cases "queuedIn sc k") auto
  ultimately show ?case using sched_cancel_next [OF c] by (auto split: if_splits) metis+
qed simp

lemma hs_stop_facts:
  assumes sok: "sched_ok sc" and pok: "pending_ok hs sc" and s: "hs_stop (hs, sc) = (hs', sc')"
  shows "sched_ok sc'" "hs_pending hs' = []" "sc_stopping sc' = sc_stopping sc" "sc_nextId sc' = sc_nextId sc"
    and "hs_outstanding hs' - int (armed is_flush (queuedIn sc')) =
      hs_outstanding hs - int (armed is_flush (queuedIn sc))"
    and "queuedIn sc' k = Some f \<Longrightarrow> queuedIn sc k = Some f"
    and "queuedIn sc k = Some f \<Longrightarrow> \<not> is_flush f \<Longrightarrow> queuedIn sc' k = Some f"
proof -
  obtain out sc1 where c: "cancelAll (hs_pending hs) (hs_outstanding hs) sc = (out, sc1)" by (metis surj_pair)
  have res: "hs' = hs\<lparr>hs_pending := [], hs_outstanding := out\<rparr>" "sc' = sc1"
    using s c by (simp_all add: hs_stop_def)
  have "is_flush f" if "(i, ev, h) \<in> set (hs_pending hs)" "queuedIn sc h = Some f" for i ev h f
    using pok that unfolding pending_ok_def by fastforce
  then have f: "sched_ok sc1" "sc_stopping sc1 = sc_stopping sc" "sc_nextId sc1 = sc_nextId sc"
      "out - int (armed is_flush (queuedIn sc1)) = hs_outstanding hs - int (armed is_flush (queuedIn sc))"
      "\<And>k. queuedIn sc1 k = queuedIn sc k \<or> queuedIn sc1 k = None \<and> (\<exists>f. queuedIn sc k = Some f \<and> is_flush f)"
    using cancelAll_facts [OF sok _ c] by blast+
  show "sched_ok sc'" "hs_pending hs' = []" "sc_stopping sc' = sc_stopping sc" "sc_nextId sc' = sc_nextId sc"
      "hs_outstanding hs' - int (armed is_flush (queuedIn sc')) =
      hs_outstanding hs - int (armed is_flush (queuedIn sc))"
    using f by (simp_all add: res)
  show "queuedIn sc k = Some f" if "queuedIn sc' k = Some f" for k f
    using f(5) [of k] that unfolding res by auto
  show "queuedIn sc' k = Some f" if "queuedIn sc k = Some f" "\<not> is_flush f" for k f
    using f(5) [of k] that unfolding res by auto
qed

end
