(* ===== verification/Status_Line.thy ===== *)
theory Status_Line
  imports Hotplug_Service
begin

text \<open>
  \<^verbatim>\<open>app/src/status_line_vm.cpp\<close>: the transient status line, cleared by the shared timer. The
  generation tells a clear that was overtaken by a newer message from the current one.
\<close>

datatype status_severity = SevOk | SevSuccess | SevWarning | SevDanger | SevInfo

definition kStatusTtl :: nat where
  "kStatusTtl = 4000"

definition status_describe :: "device \<Rightarrow> string \<Rightarrow> string" where
  "status_describe d verb =
     map tolowerC (displayBus (dev_bus d)) @ '' device '' @ verb @ '': '' @ dev_name d"

text \<open>\<open>sl_posts\<close> counts the wake-ups posted to the user-interface thread.\<close>

record status_line =
  sl_armed :: bool
  sl_subscribed :: bool
  sl_text :: string
  sl_severity :: status_severity
  sl_clearHandle :: nat
  sl_generation :: nat
  sl_outstanding :: int
  sl_posts :: nat

definition new_status_line :: status_line where
  "new_status_line = \<lparr>sl_armed = False, sl_subscribed = True, sl_text = [], sl_severity = SevOk, sl_clearHandle = 0,
     sl_generation = 0, sl_outstanding = 0, sl_posts = 0\<rparr>"

definition sl_arm :: "status_line \<Rightarrow> status_line" where
  "sl_arm sl = sl\<lparr>sl_armed := True\<rparr>"

definition status_text :: "status_line \<Rightarrow> string" where
  "status_text sl = sl_text sl"

definition currentSeverity :: "status_line \<Rightarrow> status_severity" where
  "currentSeverity sl = (if sl_text sl = [] then SevOk else sl_severity sl)"

definition sl_setMessage :: "nat \<Rightarrow> nat \<Rightarrow> string \<Rightarrow> status_severity \<Rightarrow> status_line \<times> callback sched
    \<Rightarrow> status_line \<times> callback sched" where
  "sl_setMessage now ttl message severity s = (case s of (sl, sc) \<Rightarrow>
     case (if sl_clearHandle sl \<noteq> 0 then sched_cancel (sl_clearHandle sl) sc else (False, sc)) of
       (c, sc1) \<Rightarrow>
         (let myGeneration = sl_generation sl + 1 in
          case sched_schedule now ttl (ClearLine myGeneration) sc1 of
            (handle, sc2) \<Rightarrow>
              (sl\<lparr>sl_text := message, sl_severity := severity, sl_generation := myGeneration,
                  sl_outstanding := (if c then sl_outstanding sl - 1 else sl_outstanding sl) + 1,
                  sl_clearHandle := handle, sl_posts := sl_posts sl + 1\<rparr>, sc2)))"

definition sl_onClearFired :: "nat \<Rightarrow> status_line \<Rightarrow> status_line" where
  "sl_onClearFired generation sl =
     (let sl1 = (if generation = sl_generation sl
                 then sl\<lparr>sl_text := [], sl_severity := SevOk, sl_clearHandle := 0, sl_posts := sl_posts sl + 1\<rparr>
                 else sl)
      in sl1\<lparr>sl_outstanding := sl_outstanding sl1 - 1\<rparr>)"

text \<open>The handlers of the four subscriptions.\<close>

definition sl_handle :: "nat \<Rightarrow> nat \<Rightarrow> event \<Rightarrow> status_line \<times> callback sched \<Rightarrow> status_line \<times> callback sched" where
  "sl_handle now ttl ev s =
     (if \<not> sl_subscribed (fst s) \<or> \<not> sl_armed (fst s) then s
      else case ev of
        DeviceAddedEvent d \<Rightarrow> sl_setMessage now ttl (status_describe d ''added'') SevInfo s
      | DeviceChangedEvent d \<Rightarrow> sl_setMessage now ttl (status_describe d ''changed'') SevInfo s
      | DeviceRemovedEvent _ \<Rightarrow> sl_setMessage now ttl ''device removed'' SevInfo s
      | TaskCompletedEvent _ ok message \<Rightarrow> sl_setMessage now ttl message (if ok then SevSuccess else SevDanger) s
      | _ \<Rightarrow> s)"

text \<open>The destructor: it unsubscribes, cancels, supersedes what it could not cancel, and waits.\<close>

definition sl_unsubscribe :: "status_line \<Rightarrow> status_line" where
  "sl_unsubscribe sl = sl\<lparr>sl_subscribed := False\<rparr>"

definition sl_close :: "status_line \<times> callback sched \<Rightarrow> status_line \<times> callback sched" where
  "sl_close s = (case s of (sl, sc) \<Rightarrow>
     case (if sl_clearHandle sl \<noteq> 0 then sched_cancel (sl_clearHandle sl) sc else (False, sc)) of
       (c, sc1) \<Rightarrow>
         (sl\<lparr>sl_outstanding := (if c then sl_outstanding sl - 1 else sl_outstanding sl),
             sl_generation := sl_generation sl + 1\<rparr>, sc1))"

definition sl_closeReturns :: "status_line \<Rightarrow> bool" where
  "sl_closeReturns sl \<longleftrightarrow> sl_outstanding sl = 0"

subsection \<open>What a critical section does to the counters\<close>

definition is_clear :: "callback \<Rightarrow> bool" where
  "is_clear f \<longleftrightarrow> \<not> is_flush f"

lemma is_clear_simps [simp]: "is_clear (ClearLine g)" "\<not> is_clear (Flush i)"
  by (simp_all add: is_clear_def)

text \<open>While the current handle waits, it is the clear of the current generation; no waiting clear is of
  a later generation.\<close>

definition status_ok :: "status_line \<Rightarrow> callback sched \<Rightarrow> bool" where
  "status_ok sl sc \<longleftrightarrow> sl_clearHandle sl < sc_nextId sc \<and>
     (\<forall>f. queuedIn sc (sl_clearHandle sl) = Some f \<longrightarrow> is_clear f) \<and>
     (\<forall>h g. queuedIn sc h = Some (ClearLine g) \<longrightarrow> g \<le> sl_generation sl)"

lemma status_ok_mono:
  assumes "status_ok sl sc" "sc_nextId sc \<le> sc_nextId sc'"
    and "\<And>k f. queuedIn sc' k = Some f \<Longrightarrow> queuedIn sc k = Some f"
  shows "status_ok sl sc'"
  unfolding status_ok_def
proof (intro conjI allI impI)
  show "sl_clearHandle sl < sc_nextId sc'" using assms(1,2) by (auto simp: status_ok_def)
  show "is_clear f" if "queuedIn sc' (sl_clearHandle sl) = Some f" for f
    using assms(3) [OF that] assms(1) by (auto simp: status_ok_def)
  show "g \<le> sl_generation sl" if "queuedIn sc' h = Some (ClearLine g)" for h g
    using assms(3) [OF that] assms(1) by (auto simp: status_ok_def)
qed

lemma cancel_current:
  assumes "sched_ok sc" "status_ok sl sc"
    and "(if sl_clearHandle sl \<noteq> 0 then sched_cancel (sl_clearHandle sl) sc else (False, sc)) = (c, sc1)"
  shows "sched_ok sc1 \<and> sc_nextId sc1 = sc_nextId sc \<and> sc_stopping sc1 = sc_stopping sc \<and>
    armed is_clear (queuedIn sc) = armed is_clear (queuedIn sc1) + (if c then 1 else 0) \<and>
    (\<forall>k. queuedIn sc1 k = queuedIn sc k \<or> queuedIn sc1 k = None \<and> (\<exists>f. queuedIn sc k = Some f \<and> is_clear f)) \<and>
    queuedIn sc1 (sl_clearHandle sl) = None"
proof (cases "sl_clearHandle sl = 0")
  case True
  then show ?thesis using assms(1,3) sc.zero_free by auto
next
  case False
  then have cc: "sched_cancel (sl_clearHandle sl) sc = (c, sc1)" using assms(3) by simp
  note q = sched_cancel_ok [OF assms(1) cc]
  have cl: "is_clear f" if "queuedIn sc (sl_clearHandle sl) = Some f" for f
    using assms(2) that by (auto simp: status_ok_def)
  show ?thesis
    using q cl sched_cancel_next [OF cc] sc.armed_cancel [OF assms(1) cc, of is_clear] by (auto split: if_splits)
qed

lemma sl_setMessage_facts:
  assumes sok: "sched_ok sc" and st: "status_ok sl sc"
    and m: "sl_setMessage now ttl message severity (sl, sc) = (sl', sc')"
  shows "sched_ok sc'" "status_ok sl' sc'" "sc_stopping sc' = sc_stopping sc" "sc_nextId sc \<le> sc_nextId sc'"
    and "sl_outstanding sl' - int (armed is_clear (queuedIn sc')) =
      sl_outstanding sl - int (armed is_clear (queuedIn sc))"
    and "queuedIn sc' k = Some f \<Longrightarrow> is_flush f \<Longrightarrow> queuedIn sc k = Some f"
    and "queuedIn sc k = Some f \<Longrightarrow> is_flush f \<Longrightarrow> queuedIn sc' k = Some f"
    and "queuedIn sc' k = Some f \<Longrightarrow> k < sc_nextId sc \<Longrightarrow> queuedIn sc k = Some f"
    and "(now + ttl, sc_nextId sc, ClearLine (sl_generation sl')) \<in> set (sc_queue sc')"
    and "sl_generation sl' = sl_generation sl + 1" "sl_text sl' = message" "sl_subscribed sl' = sl_subscribed sl"
proof -
  obtain c sc1 where c: "(if sl_clearHandle sl \<noteq> 0 then sched_cancel (sl_clearHandle sl) sc else (False, sc)) = (c, sc1)"
    by (metis surj_pair)
  note cur = cancel_current [OF sok st c]
  then have sok1: "sched_ok sc1" by simp
  obtain h sc2 where s: "sched_schedule now ttl (ClearLine (sl_generation sl + 1)) sc1 = (h, sc2)" by (metis surj_pair)
  note q = sched_schedule_ok [OF sok1 s] and n = sched_schedule_next [OF s]
  have res: "sl' = sl\<lparr>sl_text := message, sl_severity := severity, sl_generation := sl_generation sl + 1,
        sl_outstanding := (if c then sl_outstanding sl - 1 else sl_outstanding sl) + 1,
        sl_clearHandle := h, sl_posts := sl_posts sl + 1\<rparr>" "sc' = sc2"
    using m s unfolding sl_setMessage_def prod.case c by (simp_all add: Let_def)
  have older: "queuedIn sc k = Some f" if "queuedIn sc2 k = Some f" "k \<noteq> h" for k f
    using that q cur by (metis fun_upd_other option.distinct(1))
  have r1: "status_ok sl' sc2"
    unfolding status_ok_def
  proof (intro conjI allI impI)
    show "sl_clearHandle sl' < sc_nextId sc2" using n by (simp add: res)
    show "is_clear f" if "queuedIn sc2 (sl_clearHandle sl') = Some f" for f using that q by (auto simp: res)
    show "g \<le> sl_generation sl'" if "queuedIn sc2 j = Some (ClearLine g)" for j g
    proof (cases "j = h")
      case True
      then show ?thesis using that q by (simp add: res)
    next
      case False
      then have "g \<le> sl_generation sl" using older [OF that] st by (auto simp: status_ok_def)
      then show ?thesis by (simp add: res)
    qed
  qed
  have r2: "sl_outstanding sl' - int (armed is_clear (queuedIn sc2)) =
      sl_outstanding sl - int (armed is_clear (queuedIn sc))"
    using cur sc.armed_schedule [OF sok1 s, of is_clear] by (simp add: res split: if_splits)
  have taken: "queuedIn sc2 j = (if j = h then Some (ClearLine (sl_generation sl + 1)) else queuedIn sc1 j)" for j
    using q by simp
  show "queuedIn sc j = Some f" if "queuedIn sc' j = Some f" "is_flush f" for j f
  proof -
    have "j \<noteq> h" using that taken [of j] unfolding res(2) by auto
    then show ?thesis using older [of j f] that(1) unfolding res(2) by blast
  qed
  show "queuedIn sc' j = Some f" if "queuedIn sc j = Some f" "is_flush f" for j f
  proof -
    have "queuedIn sc1 j = Some f" using cur that by (metis is_clear_def option.inject)
    with q show ?thesis unfolding res(2) by (cases "j = h") auto
  qed
  show "queuedIn sc j = Some f" if "queuedIn sc' j = Some f" "j < sc_nextId sc" for j f
    using older [of j f] that n cur unfolding res(2) by simp
  show "(now + ttl, sc_nextId sc, ClearLine (sl_generation sl')) \<in> set (sc_queue sc')"
    using s n cur by (auto simp: res sched_schedule_def Let_def)
  show "sched_ok sc'" "sc_stopping sc' = sc_stopping sc" "sc_nextId sc \<le> sc_nextId sc'"
      "sl_generation sl' = sl_generation sl + 1" "sl_text sl' = message" "sl_subscribed sl' = sl_subscribed sl"
    using q n cur by (auto simp: res)
  show "status_ok sl' sc'" "sl_outstanding sl' - int (armed is_clear (queuedIn sc')) =
      sl_outstanding sl - int (armed is_clear (queuedIn sc))"
    unfolding res(2) by (rule r1 r2)+
qed

text \<open>The destructor's critical section.\<close>

lemma sl_close_facts:
  assumes sok: "sched_ok sc" and st: "status_ok sl sc" and m: "sl_close (sl, sc) = (sl', sc')"
  shows "sched_ok sc'" "status_ok sl' sc'" "sc_stopping sc' = sc_stopping sc" "sc_nextId sc' = sc_nextId sc"
    and "sl_outstanding sl' - int (armed is_clear (queuedIn sc')) =
      sl_outstanding sl - int (armed is_clear (queuedIn sc))"
    and "queuedIn sc' k = Some f \<Longrightarrow> queuedIn sc k = Some f"
    and "queuedIn sc k = Some f \<Longrightarrow> is_flush f \<Longrightarrow> queuedIn sc' k = Some f"
    and "sl_generation sl' = sl_generation sl + 1" "sl_subscribed sl' = sl_subscribed sl"
proof -
  obtain c sc1 where c: "(if sl_clearHandle sl \<noteq> 0 then sched_cancel (sl_clearHandle sl) sc else (False, sc)) = (c, sc1)"
    by (metis surj_pair)
  note cur = cancel_current [OF sok st c]
  have res: "sl' = sl\<lparr>sl_outstanding := (if c then sl_outstanding sl - 1 else sl_outstanding sl),
        sl_generation := sl_generation sl + 1\<rparr>" "sc' = sc1"
    using m unfolding sl_close_def prod.case c by simp_all
  show older: "queuedIn sc k = Some f" if "queuedIn sc' k = Some f" for k f
    using that cur unfolding res(2) by (metis option.distinct(1))
  show "queuedIn sc' k = Some f" if "queuedIn sc k = Some f" "is_flush f" for k f
    using that cur unfolding res(2) by (metis is_clear_def option.inject)
  show "sched_ok sc'" "sc_stopping sc' = sc_stopping sc" "sc_nextId sc' = sc_nextId sc"
      "sl_generation sl' = sl_generation sl + 1" "sl_subscribed sl' = sl_subscribed sl"
    using cur by (auto simp: res)
  show "sl_outstanding sl' - int (armed is_clear (queuedIn sc')) =
      sl_outstanding sl - int (armed is_clear (queuedIn sc))"
    using cur by (auto simp: res split: if_splits)
  show "status_ok sl' sc'"
    unfolding status_ok_def
  proof (intro conjI allI impI)
    show "sl_clearHandle sl' < sc_nextId sc'" using st cur by (auto simp: res status_ok_def)
    show "is_clear f" if "queuedIn sc' (sl_clearHandle sl') = Some f" for f
      using that cur by (auto simp: res)
    show "g \<le> sl_generation sl'" if "queuedIn sc' j = Some (ClearLine g)" for j g
    proof -
      have "g \<le> sl_generation sl" using older [OF that] st by (auto simp: status_ok_def)
      then show ?thesis by (simp add: res)
    qed
  qed
qed

end
