(* ===== verification/Timed_Services.thy ===== *)
theory Timed_Services
  imports Status_Line
begin

text \<open>
  The front end's background threads together: the monitor's reader thread, the timer thread with
  its batch of callbacks, and whatever thread publishes events, over the hotplug service, the status
  line and the device service (\<^verbatim>\<open>app/src/hotplug_service.cpp\<close>, \<^verbatim>\<open>app/src/status_line_vm.cpp\<close>,
  \<^verbatim>\<open>core/src/delayed_scheduler.cpp\<close>). A step is one critical section, one callback or one delivery;
  the threads interleave in any way.
\<close>

text \<open>Where the timer thread is: at the head of its loop, between two callbacks of its batch, or in a
  flush that is about to apply its event, to publish, or to resolve its claim.\<close>

datatype timer_thread = AtLoop | Batch "callback list" | Applying hotplug_event "callback list"
  | Publishing "event list" "callback list" | Resolving "callback list" | Gone

record app =
  ap_timer :: "callback sched"
  ap_worker :: timer_thread
  ap_hotplug :: hotplug_service
  ap_monitor :: bool
  ap_stopping :: bool
  ap_status :: status_line
  ap_closing :: bool
  ap_model :: device_model

definition start_app :: "device_model \<Rightarrow> app" where
  "start_app m = \<lparr>ap_timer = idle_sched, ap_worker = AtLoop, ap_hotplug = idle_hotplug, ap_monitor = False,
     ap_stopping = False, ap_status = new_status_line, ap_closing = False, ap_model = m\<rparr>"

definition deliver :: "nat \<Rightarrow> event \<Rightarrow> app \<Rightarrow> app" where
  "deliver now ev ap =
     (case sl_handle now kStatusTtl ev (ap_status ap, ap_timer ap) of
        (sl, sc) \<Rightarrow> ap\<lparr>ap_status := sl, ap_timer := sc\<rparr>)"

text \<open>\<^verbatim>\<open>DelayedScheduler::run\<close>, \<^verbatim>\<open>HotplugService::flush\<close> and \<^verbatim>\<open>StatusLineVM::onClearFired\<close> on the timer thread.\<close>

definition timerStep :: "nat \<Rightarrow> app \<Rightarrow> app" where
  "timerStep now ap =
     (case ap_worker ap of
        AtLoop \<Rightarrow>
          (case workerTurn now (ap_timer ap) of
             (Leave, sc) \<Rightarrow> ap\<lparr>ap_timer := sc, ap_worker := Gone\<rparr>
           | (Wait, sc) \<Rightarrow> ap\<lparr>ap_timer := sc\<rparr>
           | (Run fs, sc) \<Rightarrow> ap\<lparr>ap_timer := sc, ap_worker := Batch fs\<rparr>)
      | Batch [] \<Rightarrow> ap\<lparr>ap_worker := AtLoop\<rparr>
      | Batch (Flush i # fs) \<Rightarrow>
          (case hs_flushTake i (ap_hotplug ap) of
             (Some ev, hs) \<Rightarrow> ap\<lparr>ap_hotplug := hs, ap_worker := Applying ev fs\<rparr>
           | (None, hs) \<Rightarrow> ap\<lparr>ap_hotplug := hs, ap_worker := Resolving fs\<rparr>)
      | Batch (ClearLine g # fs) \<Rightarrow>
          ap\<lparr>ap_status := sl_onClearFired g (ap_status ap), ap_worker := Batch fs\<rparr>
      | Applying ev fs \<Rightarrow>
          (case applyDelta ev (ap_model ap) of
             (evs, m) \<Rightarrow> ap\<lparr>ap_model := m, ap_worker := Publishing evs fs\<rparr>)
      | Publishing [] fs \<Rightarrow> ap\<lparr>ap_worker := Resolving fs\<rparr>
      | Publishing (e # es) fs \<Rightarrow> deliver now e (ap\<lparr>ap_worker := Publishing es fs\<rparr>)
      | Resolving fs \<Rightarrow> ap\<lparr>ap_hotplug := hs_flushDone (ap_hotplug ap), ap_worker := Batch fs\<rparr>
      | Gone \<Rightarrow> ap)"

definition hotplugStop :: "app \<Rightarrow> app" where
  "hotplugStop ap =
     (case hs_stop (ap_hotplug ap, ap_timer ap) of
        (hs, sc) \<Rightarrow> ap\<lparr>ap_monitor := False, ap_hotplug := hs, ap_timer := sc, ap_stopping := True\<rparr>)"

definition statusClose :: "app \<Rightarrow> app" where
  "statusClose ap =
     (case sl_close (ap_status ap, ap_timer ap) of
        (sl, sc) \<Rightarrow> ap\<lparr>ap_status := sl, ap_timer := sc, ap_closing := True\<rparr>)"

definition monitorEvent :: "nat \<Rightarrow> hotplug_event \<Rightarrow> app \<Rightarrow> app" where
  "monitorEvent now ev ap =
     (case hs_onEvent now kDebounceWindow ev (ap_hotplug ap, ap_timer ap) of
        (hs, sc) \<Rightarrow> ap\<lparr>ap_hotplug := hs, ap_timer := sc\<rparr>)"

datatype action = MonitorStart | MonitorEvent hotplug_event | TimerTurn | Publish event | Enumerated "device list"
  | Arm | StopCalled | StopReturned | Unsubscribed | CloseCalled | CloseReturned | TimerShutdown

inductive app_step :: "nat \<Rightarrow> action \<Rightarrow> app \<Rightarrow> app \<Rightarrow> bool" where
  start: "\<not> ap_stopping ap \<Longrightarrow> app_step now MonitorStart ap (ap\<lparr>ap_monitor := True\<rparr>)"
| event: "ap_monitor ap \<Longrightarrow> app_step now (MonitorEvent ev) ap (monitorEvent now ev ap)"
| timer: "app_step now TimerTurn ap (timerStep now ap)"
| publish: "app_step now (Publish e) ap (deliver now e ap)"
| enumerated: "app_step now (Enumerated ds) ap (ap\<lparr>ap_model := snd (applyEnumeration ds (ap_model ap))\<rparr>)"
| arm: "app_step now Arm ap (ap\<lparr>ap_status := sl_arm (ap_status ap)\<rparr>)"
| stop: "\<not> ap_stopping ap \<Longrightarrow> app_step now StopCalled ap (hotplugStop ap)"
| stopped: "ap_stopping ap \<Longrightarrow> hs_stopReturns (ap_hotplug ap) \<Longrightarrow>
    app_step now StopReturned ap (ap\<lparr>ap_stopping := False\<rparr>)"
| unsubscribe: "app_step now Unsubscribed ap (ap\<lparr>ap_status := sl_unsubscribe (ap_status ap)\<rparr>)"
| close: "\<not> sl_subscribed (ap_status ap) \<Longrightarrow> \<not> ap_closing ap \<Longrightarrow> app_step now CloseCalled ap (statusClose ap)"
| closed: "ap_closing ap \<Longrightarrow> sl_closeReturns (ap_status ap) \<Longrightarrow> app_step now CloseReturned ap ap"
| shutdown: "app_step now TimerShutdown ap (ap\<lparr>ap_timer := snd (sched_shutdown selfCall (ap_timer ap))\<rparr>)"

inductive_cases app_stepE: "app_step now a ap ap'"

text \<open>A run is the list of its actions, each with its time.\<close>

inductive app_run :: "(nat \<times> action) list \<Rightarrow> app \<Rightarrow> app \<Rightarrow> bool" where
  none: "app_run [] ap ap"
| more: "app_run os ap ap1 \<Longrightarrow> app_step now a ap1 ap2 \<Longrightarrow> app_run (os @ [(now, a)]) ap ap2"

subsection \<open>The invariant of the claims\<close>

fun batchOf :: "timer_thread \<Rightarrow> callback list" where
  "batchOf (Batch fs) = fs"
| "batchOf (Applying _ fs) = fs"
| "batchOf (Publishing _ fs) = fs"
| "batchOf (Resolving fs) = fs"
| "batchOf _ = []"

fun flushing :: "timer_thread \<Rightarrow> bool" where
  "flushing (Applying _ _) = True"
| "flushing (Publishing _ _) = True"
| "flushing (Resolving _) = True"
| "flushing _ = False"

text \<open>The claims counted: what waits, what is in the batch, and the flush that is running.\<close>

definition flushClaims :: "app \<Rightarrow> nat" where
  "flushClaims ap = armed is_flush (queuedIn (ap_timer ap)) + length (filter is_flush (batchOf (ap_worker ap))) +
     (if flushing (ap_worker ap) then 1 else 0)"

definition clearClaims :: "app \<Rightarrow> nat" where
  "clearClaims ap = armed is_clear (queuedIn (ap_timer ap)) + length (filter is_clear (batchOf (ap_worker ap)))"

definition due_later :: "app \<Rightarrow> callback \<Rightarrow> bool" where
  "due_later ap f \<longleftrightarrow> f \<in> ran (queuedIn (ap_timer ap)) \<or> f \<in> set (batchOf (ap_worker ap))"

definition app_ok :: "app \<Rightarrow> bool" where
  "app_ok ap \<longleftrightarrow> sched_ok (ap_timer ap) \<and> pending_ok (ap_hotplug ap) (ap_timer ap) \<and>
     status_ok (ap_status ap) (ap_timer ap) \<and>
     hs_outstanding (ap_hotplug ap) = int (flushClaims ap) \<and>
     sl_outstanding (ap_status ap) = int (clearClaims ap) \<and>
     (\<forall>i. map_of (hs_pending (ap_hotplug ap)) i \<noteq> None \<longrightarrow> due_later ap (Flush i)) \<and>
     (\<not> ap_closing ap \<longrightarrow> sl_text (ap_status ap) \<noteq> [] \<longrightarrow> due_later ap (ClearLine (sl_generation (ap_status ap)))) \<and>
     (\<forall>g. ClearLine g \<in> set (batchOf (ap_worker ap)) \<longrightarrow> g \<le> sl_generation (ap_status ap)) \<and>
     (ap_stopping ap \<longrightarrow> \<not> ap_monitor ap) \<and> (ap_closing ap \<longrightarrow> \<not> sl_subscribed (ap_status ap)) \<and>
     model_ok (ap_model ap)"

lemma app_okI:
  assumes "sched_ok (ap_timer ap)" "pending_ok (ap_hotplug ap) (ap_timer ap)" "status_ok (ap_status ap) (ap_timer ap)"
    and "hs_outstanding (ap_hotplug ap) = int (flushClaims ap)" "sl_outstanding (ap_status ap) = int (clearClaims ap)"
    and "\<And>i. map_of (hs_pending (ap_hotplug ap)) i \<noteq> None \<Longrightarrow> due_later ap (Flush i)"
    and "\<not> ap_closing ap \<Longrightarrow> sl_text (ap_status ap) \<noteq> [] \<Longrightarrow> due_later ap (ClearLine (sl_generation (ap_status ap)))"
    and "\<And>g. ClearLine g \<in> set (batchOf (ap_worker ap)) \<Longrightarrow> g \<le> sl_generation (ap_status ap)"
    and "ap_stopping ap \<Longrightarrow> \<not> ap_monitor ap" "ap_closing ap \<Longrightarrow> \<not> sl_subscribed (ap_status ap)" "model_ok (ap_model ap)"
  shows "app_ok ap"
  using assms unfolding app_ok_def by blast

lemma app_okD:
  assumes "app_ok ap"
  shows "sched_ok (ap_timer ap)" "pending_ok (ap_hotplug ap) (ap_timer ap)" "status_ok (ap_status ap) (ap_timer ap)"
    and "hs_outstanding (ap_hotplug ap) = int (flushClaims ap)" "sl_outstanding (ap_status ap) = int (clearClaims ap)"
    and "map_of (hs_pending (ap_hotplug ap)) i \<noteq> None \<Longrightarrow> due_later ap (Flush i)"
    and "\<not> ap_closing ap \<Longrightarrow> sl_text (ap_status ap) \<noteq> [] \<Longrightarrow> due_later ap (ClearLine (sl_generation (ap_status ap)))"
    and "ClearLine g \<in> set (batchOf (ap_worker ap)) \<Longrightarrow> g \<le> sl_generation (ap_status ap)"
    and "ap_stopping ap \<Longrightarrow> \<not> ap_monitor ap" "ap_closing ap \<Longrightarrow> \<not> sl_subscribed (ap_status ap)" "model_ok (ap_model ap)"
  using assms unfolding app_ok_def by blast+

lemma start_app_ok: "model_ok m \<Longrightarrow> app_ok (start_app m)"
  by (rule app_okI)
    (auto simp: start_app_def idle_hotplug_def new_status_line_def pending_ok_def status_ok_def flushClaims_def
      clearClaims_def armed_def queuedIn_def idle_sched_def sched_ok_def)

subsection \<open>Every step keeps it\<close>

lemma armed_same:
  assumes "\<And>k f. P f \<Longrightarrow> q k = Some f \<longleftrightarrow> q' k = Some f"
  shows "armed P q = armed P q'"
  unfolding armed_def using assms by (intro arg_cong [where f = card] Collect_cong) blast

lemma due_later_mono:
  assumes "due_later ap f" "batchOf (ap_worker ap') = batchOf (ap_worker ap)"
    and "\<And>k. queuedIn (ap_timer ap) k = Some f \<Longrightarrow> queuedIn (ap_timer ap') k = Some f"
  shows "due_later ap' f"
  using assms unfolding due_later_def ran_def by auto

lemma monitorEvent_ok:
  assumes ok: "app_ok ap" and on: "ap_monitor ap"
  shows "app_ok (monitorEvent now ev ap)"
proof -
  note d = app_okD [OF ok]
  obtain hs sc where s: "hs_onEvent now kDebounceWindow ev (ap_hotplug ap, ap_timer ap) = (hs, sc)" by (metis surj_pair)
  define i where "i = dev_id (hp_device ev)"
  note f = hs_onEvent_facts [OF d(1,2) s i_def]
  let ?ap = "ap\<lparr>ap_hotplug := hs, ap_timer := sc\<rparr>"
  have e: "monitorEvent now ev ap = ?ap" by (simp add: monitorEvent_def s)
  obtain h where h: "map_of (hs_pending hs) = (map_of (hs_pending (ap_hotplug ap)))(i \<mapsto> (ev, h))"
      "queuedIn sc h = Some (Flush i)" using f(6) by blast
  have later: "due_later ?ap g" if "due_later ap g" for g
  proof (cases "g = Flush i")
    case True
    then show ?thesis using h(2) by (auto simp: due_later_def ran_def)
  next
    case False
    then show ?thesis using that f(7) unfolding due_later_def ran_def by auto
  qed
  have clears: "armed is_clear (queuedIn sc) = armed is_clear (queuedIn (ap_timer ap))"
  proof (rule armed_same)
    fix k f assume "is_clear f"
    then have "f \<noteq> Flush i" by auto
    then show "queuedIn sc k = Some f \<longleftrightarrow> queuedIn (ap_timer ap) k = Some f"
      using f(7) [of k f] f(8) [of k f] by auto
  qed
  have "status_ok (ap_status ap) sc"
    unfolding status_ok_def
  proof (intro conjI allI impI)
    show "sl_clearHandle (ap_status ap) < sc_nextId sc" using d(3) f(4) by (auto simp: status_ok_def)
    show "is_clear g" if "queuedIn sc (sl_clearHandle (ap_status ap)) = Some g" for g
    proof -
      have "sl_clearHandle (ap_status ap) < sc_nextId (ap_timer ap)" using d(3) by (auto simp: status_ok_def)
      then have "queuedIn (ap_timer ap) (sl_clearHandle (ap_status ap)) = Some g" by (rule f(9) [OF that])
      then show ?thesis using d(3) by (auto simp: status_ok_def)
    qed
    show "g \<le> sl_generation (ap_status ap)" if "queuedIn sc k = Some (ClearLine g)" for k g
      using f(8) [OF that] d(3) by (auto simp: status_ok_def)
  qed
  then show ?thesis unfolding e
  proof (intro app_okI)
    show "hs_outstanding (ap_hotplug ?ap) = int (flushClaims ?ap)"
      using d(4) f(5) by (simp add: flushClaims_def)
    show "sl_outstanding (ap_status ?ap) = int (clearClaims ?ap)"
      using d(5) clears by (simp add: clearClaims_def)
    show "due_later ?ap (Flush j)" if "map_of (hs_pending (ap_hotplug ?ap)) j \<noteq> None" for j
    proof (cases "j = i")
      case True
      then show ?thesis using h(2) by (auto simp: due_later_def ran_def)
    next
      case False
      then show ?thesis using that h(1) d(6) later by simp
    qed
  qed (use d f(1,2) later on in auto)
qed

text \<open>A change of the status line and the timer alone, as a delivery and the destructor make it.\<close>

lemma status_change_ok:
  assumes ok: "app_ok ap" and sok: "sched_ok sc" and st: "status_ok sl sc" and n: "sc_nextId (ap_timer ap) \<le> sc_nextId sc"
    and count: "sl_outstanding sl - int (armed is_clear (queuedIn sc)) =
      sl_outstanding (ap_status ap) - int (armed is_clear (queuedIn (ap_timer ap)))"
    and gen: "sl_generation (ap_status ap) \<le> sl_generation sl"
    and dn: "\<And>k f. queuedIn sc k = Some f \<Longrightarrow> is_flush f \<Longrightarrow> queuedIn (ap_timer ap) k = Some f"
    and up: "\<And>k f. queuedIn (ap_timer ap) k = Some f \<Longrightarrow> is_flush f \<Longrightarrow> queuedIn sc k = Some f"
    and old: "\<And>k f. queuedIn sc k = Some f \<Longrightarrow> k < sc_nextId (ap_timer ap) \<Longrightarrow> queuedIn (ap_timer ap) k = Some f"
    and shown: "\<not> c \<Longrightarrow> sl_text sl \<noteq> [] \<Longrightarrow> ClearLine (sl_generation sl) \<in> ran (queuedIn sc)"
    and c: "c \<Longrightarrow> \<not> sl_subscribed sl"
  shows "app_ok (ap\<lparr>ap_status := sl, ap_timer := sc, ap_closing := c\<rparr>)"
proof -
  let ?ap = "ap\<lparr>ap_status := sl, ap_timer := sc, ap_closing := c\<rparr>"
  note d = app_okD [OF ok]
  have flushes: "armed is_flush (queuedIn sc) = armed is_flush (queuedIn (ap_timer ap))"
    by (rule armed_same) (rule iffI; erule (1) dn up)
  show ?thesis
  proof (rule app_okI)
    show "pending_ok (ap_hotplug ?ap) (ap_timer ?ap)"
      using pending_ok_mono [OF d(2) n] old by simp
    show "hs_outstanding (ap_hotplug ?ap) = int (flushClaims ?ap)" using d(4) flushes by (simp add: flushClaims_def)
    show "sl_outstanding (ap_status ?ap) = int (clearClaims ?ap)" using d(5) count by (simp add: clearClaims_def)
    show "due_later ?ap (Flush i)" if "map_of (hs_pending (ap_hotplug ?ap)) i \<noteq> None" for i
    proof (rule due_later_mono)
      show "due_later ap (Flush i)" by (rule d(6)) (use that in simp)
    qed (use up in auto)
    show "g \<le> sl_generation (ap_status ?ap)" if "ClearLine g \<in> set (batchOf (ap_worker ?ap))" for g
      using d(8) [of g] that gen by simp
  qed (use sok st d(9,11) shown c in \<open>auto simp: due_later_def\<close>)
qed

lemma sl_handle_cases:
  "sl_handle now ttl ev s = s \<or>
   (\<exists>message severity. sl_handle now ttl ev s = sl_setMessage now ttl message severity s \<and> sl_subscribed (fst s))"
proof (cases "\<not> sl_subscribed (fst s) \<or> \<not> sl_armed (fst s)")
  case True
  then show ?thesis by (simp add: sl_handle_def)
next
  case False
  then show ?thesis by (cases ev) (simp_all add: sl_handle_def, blast+)
qed

lemma deliver_ok:
  assumes ok: "app_ok ap"
  shows "app_ok (deliver now ev ap)"
proof -
  note d = app_okD [OF ok]
  consider (idle) "sl_handle now kStatusTtl ev (ap_status ap, ap_timer ap) = (ap_status ap, ap_timer ap)"
    | (set) message severity where "sl_handle now kStatusTtl ev (ap_status ap, ap_timer ap) =
        sl_setMessage now kStatusTtl message severity (ap_status ap, ap_timer ap)" "sl_subscribed (ap_status ap)"
    using sl_handle_cases [of now kStatusTtl ev "(ap_status ap, ap_timer ap)"] by auto
  then show ?thesis
  proof cases
    case idle
    then show ?thesis using ok by (simp add: deliver_def)
  next
    case (set message severity)
    obtain sl sc where m: "sl_setMessage now kStatusTtl message severity (ap_status ap, ap_timer ap) = (sl, sc)"
      by (metis surj_pair)
    note f = sl_setMessage_facts [OF d(1,3) m]
    have opn: "\<not> ap_closing ap" using d(10) set(2) by auto
    have "app_ok (ap\<lparr>ap_status := sl, ap_timer := sc, ap_closing := False\<rparr>)"
    proof (rule status_change_ok [OF ok f(1,2,4,5)])
      show "sl_generation (ap_status ap) \<le> sl_generation sl" using f(10) by simp
      show "ClearLine (sl_generation sl) \<in> ran (queuedIn sc)"
        using f(9) by (force simp: ran_queuedIn [OF f(1)])
      show "queuedIn (ap_timer ap) k = Some f0" if "queuedIn sc k = Some f0" "is_flush f0" for k f0
        by (rule f(6) [OF that])
      show "queuedIn sc k = Some f0" if "queuedIn (ap_timer ap) k = Some f0" "is_flush f0" for k f0
        by (rule f(7) [OF that])
      show "queuedIn (ap_timer ap) k = Some f0" if "queuedIn sc k = Some f0" "k < sc_nextId (ap_timer ap)" for k f0
        by (rule f(8) [OF that])
    qed simp
    moreover have "ap\<lparr>ap_status := sl, ap_timer := sc, ap_closing := False\<rparr> = ap\<lparr>ap_status := sl, ap_timer := sc\<rparr>"
      using opn by (cases ap) simp
    ultimately show ?thesis by (simp add: deliver_def set m)
  qed
qed

lemma statusClose_ok:
  assumes ok: "app_ok ap" and un: "\<not> sl_subscribed (ap_status ap)"
  shows "app_ok (statusClose ap)"
proof -
  note d = app_okD [OF ok]
  obtain sl sc where m: "sl_close (ap_status ap, ap_timer ap) = (sl, sc)" by (metis surj_pair)
  note f = sl_close_facts [OF d(1,3) m]
  have "app_ok (ap\<lparr>ap_status := sl, ap_timer := sc, ap_closing := True\<rparr>)"
  proof (rule status_change_ok [OF ok f(1,2) _ f(5)])
    show "sc_nextId (ap_timer ap) \<le> sc_nextId sc" "sl_generation (ap_status ap) \<le> sl_generation sl"
      using f(4,8) by simp_all
    show "queuedIn (ap_timer ap) k = Some f0" if "queuedIn sc k = Some f0" for k f0
      by (rule f(6) [OF that])
    then show "queuedIn (ap_timer ap) k = Some f0" if "queuedIn sc k = Some f0" for k f0
      using that by blast
    show "queuedIn sc k = Some f0" if "queuedIn (ap_timer ap) k = Some f0" "is_flush f0" for k f0
      by (rule f(7) [OF that])
    show "\<not> sl_subscribed sl" using f(9) un by simp
  qed simp_all
  then show ?thesis by (simp add: statusClose_def m)
qed

lemma hotplugStop_ok:
  assumes ok: "app_ok ap"
  shows "app_ok (hotplugStop ap)"
proof -
  note d = app_okD [OF ok]
  obtain hs sc where s: "hs_stop (ap_hotplug ap, ap_timer ap) = (hs, sc)" by (metis surj_pair)
  note f = hs_stop_facts [OF d(1,2) s]
  let ?ap = "ap\<lparr>ap_monitor := False, ap_hotplug := hs, ap_timer := sc, ap_stopping := True\<rparr>"
  have clears: "armed is_clear (queuedIn sc) = armed is_clear (queuedIn (ap_timer ap))"
  proof (rule armed_same)
    fix k f0 assume "is_clear f0"
    then show "queuedIn sc k = Some f0 \<longleftrightarrow> queuedIn (ap_timer ap) k = Some f0"
      using f(6) [of k f0] f(7) [of k f0] by (auto simp: is_clear_def)
  qed
  have "app_ok ?ap"
  proof (rule app_okI)
    show "pending_ok (ap_hotplug ?ap) (ap_timer ?ap)" by (simp add: pending_ok_def f(2))
    show "status_ok (ap_status ?ap) (ap_timer ?ap)"
      using status_ok_mono [OF d(3), of sc] f(4,6) by simp
    show "hs_outstanding (ap_hotplug ?ap) = int (flushClaims ?ap)" using d(4) f(5) by (simp add: flushClaims_def)
    show "sl_outstanding (ap_status ?ap) = int (clearClaims ?ap)" using d(5) clears by (simp add: clearClaims_def)
    show "due_later ?ap (ClearLine (sl_generation (ap_status ?ap)))"
      if "\<not> ap_closing ?ap" "sl_text (ap_status ?ap) \<noteq> []"
    proof (rule due_later_mono)
      show "due_later ap (ClearLine (sl_generation (ap_status ?ap)))" using d(7) that by simp
    qed (use f(7) in auto)
  qed (use d f(1,2) in auto)
  then show ?thesis by (simp add: hotplugStop_def s)
qed

text \<open>The timer thread's own moves.\<close>

lemma worker_change_ok:
  assumes ok: "app_ok ap" and p: "pending_ok hs (ap_timer ap)"
    and hs: "hs_outstanding hs = int (flushClaims (ap\<lparr>ap_worker := w\<rparr>))"
    and b: "\<And>f. is_clear f \<Longrightarrow> f \<in> set (batchOf w) \<longleftrightarrow> f \<in> set (batchOf (ap_worker ap))"
    and n: "length (filter is_clear (batchOf w)) = length (filter is_clear (batchOf (ap_worker ap)))"
    and due: "\<And>i. map_of (hs_pending hs) i \<noteq> None \<Longrightarrow> due_later (ap\<lparr>ap_worker := w\<rparr>) (Flush i)"
    and m: "model_ok m"
  shows "app_ok (ap\<lparr>ap_hotplug := hs, ap_worker := w, ap_model := m\<rparr>)"
proof (rule app_okI)
  note d = app_okD [OF ok]
  let ?ap = "ap\<lparr>ap_hotplug := hs, ap_worker := w, ap_model := m\<rparr>"
  show "hs_outstanding (ap_hotplug ?ap) = int (flushClaims ?ap)" using hs by (simp add: flushClaims_def)
  show "sl_outstanding (ap_status ?ap) = int (clearClaims ?ap)" using d(5) n by (simp add: clearClaims_def)
  show "due_later ?ap (Flush i)" if "map_of (hs_pending (ap_hotplug ?ap)) i \<noteq> None" for i
    using due [of i] that by (simp add: due_later_def)
  show "due_later ?ap (ClearLine (sl_generation (ap_status ?ap)))"
    if "\<not> ap_closing ?ap" "sl_text (ap_status ?ap) \<noteq> []"
    using d(7) that b [of "ClearLine (sl_generation (ap_status ap))"] by (auto simp: due_later_def)
  show "g \<le> sl_generation (ap_status ?ap)" if "ClearLine g \<in> set (batchOf (ap_worker ?ap))" for g
    using d(8) [of g] that b [of "ClearLine g"] by simp
  show "sched_ok (ap_timer ?ap)" "status_ok (ap_status ?ap) (ap_timer ?ap)" using d(1,3) by simp_all
  show "ap_stopping ?ap \<Longrightarrow> \<not> ap_monitor ?ap" "ap_closing ?ap \<Longrightarrow> \<not> sl_subscribed (ap_status ?ap)"
    using d(9,10) by simp_all
qed (use p m in simp_all)

lemma pending_only_due: "due_later (ap\<lparr>ap_worker := w\<rparr>) f" if "due_later ap f"
    "f \<in> set (batchOf (ap_worker ap)) \<Longrightarrow> f \<in> set (batchOf w)"
  using that by (auto simp: due_later_def)

lemma take_batch_ok:
  assumes ok: "app_ok ap" and w: "ap_worker ap = AtLoop" and t: "workerTurn now (ap_timer ap) = (Run fs, sc)"
  shows "app_ok (ap\<lparr>ap_timer := sc, ap_worker := Batch fs\<rparr>)"
proof (rule app_okI)
  note d = app_okD [OF ok]
  note r = workerTurn_Run [OF d(1) t]
  from workerTurn_claims [OF d(1) t] have
    count: "armed P (queuedIn (ap_timer ap)) = armed P (queuedIn sc) + length (filter P fs)"
    and ran: "ran (queuedIn (ap_timer ap)) = ran (queuedIn sc) \<union> set fs"
    and old: "queuedIn sc k = Some f \<Longrightarrow> queuedIn (ap_timer ap) k = Some f" for P k f
    by blast+
  let ?ap = "ap\<lparr>ap_timer := sc, ap_worker := Batch fs\<rparr>"
  have due: "due_later ?ap f \<longleftrightarrow> due_later ap f" for f using ran w by (auto simp: due_later_def)
  show "sched_ok (ap_timer ?ap)" using r by simp
  show "pending_ok (ap_hotplug ?ap) (ap_timer ?ap)" using pending_ok_mono [OF d(2), of sc] r old by simp
  show st: "status_ok (ap_status ?ap) (ap_timer ?ap)" using status_ok_mono [OF d(3), of sc] r old by simp
  show "hs_outstanding (ap_hotplug ?ap) = int (flushClaims ?ap)"
    using d(4) count [of is_flush] w by (simp add: flushClaims_def)
  show "sl_outstanding (ap_status ?ap) = int (clearClaims ?ap)"
    using d(5) count [of is_clear] w by (simp add: clearClaims_def)
  show "due_later ?ap (Flush i)" if "map_of (hs_pending (ap_hotplug ?ap)) i \<noteq> None" for i
    unfolding due by (rule d(6)) (use that in simp)
  show "due_later ?ap (ClearLine (sl_generation (ap_status ?ap)))"
    if "\<not> ap_closing ?ap" "sl_text (ap_status ?ap) \<noteq> []"
    unfolding due using d(7) that by simp
  show "g \<le> sl_generation (ap_status ?ap)" if "ClearLine g \<in> set (batchOf (ap_worker ?ap))" for g
  proof -
    have "ClearLine g \<in> ran (queuedIn (ap_timer ap))" using that ran by simp
    then show ?thesis using d(3) by (auto simp: status_ok_def ran_def)
  qed
qed (use app_okD(9-11) [OF ok] in simp_all)

lemma clear_fired_ok:
  assumes ok: "app_ok ap" and w: "ap_worker ap = Batch (ClearLine c # fs)"
  shows "app_ok (ap\<lparr>ap_status := sl_onClearFired c (ap_status ap), ap_worker := Batch fs\<rparr>)"
proof (rule app_okI)
  note d = app_okD [OF ok]
  let ?ap = "ap\<lparr>ap_status := sl_onClearFired c (ap_status ap), ap_worker := Batch fs\<rparr>"
  have gen: "sl_generation (ap_status ?ap) = sl_generation (ap_status ap)"
    and sub: "sl_subscribed (ap_status ?ap) = sl_subscribed (ap_status ap)"
    by (simp_all add: sl_onClearFired_def Let_def)
  have due: "due_later ?ap f" if "due_later ap f" "f \<noteq> ClearLine c" for f
    using that w by (auto simp: due_later_def)
  show "sched_ok (ap_timer ?ap)" "pending_ok (ap_hotplug ?ap) (ap_timer ?ap)" using d(1,2) by simp_all
  show "status_ok (ap_status ?ap) (ap_timer ?ap)"
    using d(1,3) sc.zero_free [OF d(1)] by (auto simp: status_ok_def sl_onClearFired_def sched_ok_def Let_def)
  show "hs_outstanding (ap_hotplug ?ap) = int (flushClaims ?ap)" using d(4) w by (simp add: flushClaims_def)
  show "sl_outstanding (ap_status ?ap) = int (clearClaims ?ap)"
    using d(5) w by (simp add: clearClaims_def sl_onClearFired_def Let_def)
  show "due_later ?ap (Flush i)" if "map_of (hs_pending (ap_hotplug ?ap)) i \<noteq> None" for i
    by (rule due) (use d(6) [of i] that in simp_all)
  show "due_later ?ap (ClearLine (sl_generation (ap_status ?ap)))"
    if "\<not> ap_closing ?ap" "sl_text (ap_status ?ap) \<noteq> []"
    unfolding gen
  proof (rule due)
    have "c \<noteq> sl_generation (ap_status ap)" "sl_text (ap_status ap) \<noteq> []"
      using that(2) by (auto simp: sl_onClearFired_def Let_def split: if_splits)
    then show "ClearLine (sl_generation (ap_status ap)) \<noteq> ClearLine c"
        "due_later ap (ClearLine (sl_generation (ap_status ap)))"
      using d(7) that(1) by simp_all
  qed
  show "g \<le> sl_generation (ap_status ?ap)" if "ClearLine g \<in> set (batchOf (ap_worker ?ap))" for g
    unfolding gen using d(8) [of g] that w by simp
  show "ap_stopping ?ap \<Longrightarrow> \<not> ap_monitor ?ap" "model_ok (ap_model ?ap)" using d(9,11) by simp_all
  show "ap_closing ?ap \<Longrightarrow> \<not> sl_subscribed (ap_status ?ap)" using d(10) sub by simp
qed

lemma timerStep_ok:
  assumes ok: "app_ok ap"
  shows "app_ok (timerStep now ap)"
proof -
  note d = app_okD [OF ok]
  have pend: "due_later (ap\<lparr>ap_worker := w\<rparr>) (Flush i)"
    if "map_of (hs_pending (ap_hotplug ap)) i \<noteq> None" "set (batchOf w) = set (batchOf (ap_worker ap))" for w i
    by (rule pending_only_due) (use d(6) [OF that(1)] that(2) in auto)
  have move: "app_ok (ap\<lparr>ap_worker := w, ap_model := m\<rparr>)"
    if "set (batchOf w) = set (batchOf (ap_worker ap))" "length (filter is_flush (batchOf w)) = length (filter is_flush (batchOf (ap_worker ap)))"
      "length (filter is_clear (batchOf w)) = length (filter is_clear (batchOf (ap_worker ap)))"
      "flushing w = flushing (ap_worker ap)" "model_ok m" for w m
  proof -
    have "app_ok (ap\<lparr>ap_hotplug := ap_hotplug ap, ap_worker := w, ap_model := m\<rparr>)"
      by (rule worker_change_ok [OF ok d(2)]) (use that d(4) pend in \<open>auto simp: flushClaims_def\<close>)
    then show ?thesis by simp
  qed
  have stay: "ap_model ap = m \<Longrightarrow> ap\<lparr>ap_worker := w, ap_model := m\<rparr> = ap\<lparr>ap_worker := w\<rparr>" for w m
    by (cases ap) simp
  show ?thesis
  proof (cases "ap_worker ap")
    case AtLoop
    show ?thesis
    proof (cases "workerTurn now (ap_timer ap)")
      case (Pair t sc)
      then consider (Leave) "t = Leave" | (Wait) "t = Wait" | (Run) fs where "t = Run fs" by (cases t)
      then show ?thesis
      proof cases
        case Leave
        then have "sc = ap_timer ap" using workerTurn_other(1) Pair by blast
        moreover have "app_ok (ap\<lparr>ap_worker := Gone\<rparr>)"
          using move [of Gone "ap_model ap"] d(11) AtLoop by (simp add: stay)
        ultimately show ?thesis using AtLoop Leave Pair by (simp add: timerStep_def)
      next
        case Wait
        then have "sc = ap_timer ap" using workerTurn_other(2) Pair by blast
        then show ?thesis using AtLoop Wait Pair ok by (simp add: timerStep_def)
      next
        case Run
        then show ?thesis using take_batch_ok [OF ok AtLoop, of now fs sc] AtLoop Pair by (simp add: timerStep_def)
      qed
    qed
  next
    case (Batch gs)
    show ?thesis
    proof (cases gs)
      case Nil
      then show ?thesis using move [of AtLoop "ap_model ap"] d(11) Batch by (simp add: timerStep_def stay)
    next
      case (Cons g fs)
      show ?thesis
      proof (cases g)
        case (Flush i)
        obtain r hs where t: "hs_flushTake i (ap_hotplug ap) = (r, hs)" by (metis surj_pair)
        note f = hs_flushTake_facts [OF t d(2)]
        define w where "w = (case r of Some ev \<Rightarrow> Applying ev fs | None \<Rightarrow> Resolving fs)"
        have w: "batchOf w = fs" "flushing w" by (simp_all add: w_def split: option.splits)
        have "app_ok (ap\<lparr>ap_hotplug := hs, ap_worker := w, ap_model := ap_model ap\<rparr>)"
        proof (rule worker_change_ok [OF ok])
          show "hs_outstanding hs = int (flushClaims (ap\<lparr>ap_worker := w\<rparr>))"
            using d(4) f w Batch Cons Flush by (simp add: flushClaims_def)
          show "due_later (ap\<lparr>ap_worker := w\<rparr>) (Flush j)" if "map_of (hs_pending hs) j \<noteq> None" for j
          proof (rule pending_only_due)
            show "due_later ap (Flush j)" by (rule d(6)) (use that f in \<open>auto split: if_splits\<close>)
            show "Flush j \<in> set (batchOf w)" if "Flush j \<in> set (batchOf (ap_worker ap))"
              using that \<open>map_of (hs_pending hs) j \<noteq> None\<close> f w Batch Cons Flush by (auto split: if_splits)
          qed
        qed (use f w Batch Cons Flush d(11) in auto)
        moreover have "timerStep now ap = ap\<lparr>ap_hotplug := hs, ap_worker := w\<rparr>"
          using Batch Cons Flush t by (simp add: timerStep_def w_def split: option.splits)
        moreover have "ap\<lparr>ap_hotplug := hs, ap_worker := w, ap_model := ap_model ap\<rparr> = ap\<lparr>ap_hotplug := hs, ap_worker := w\<rparr>"
          by (cases ap) simp
        ultimately show ?thesis by simp
      next
        case (ClearLine c)
        let ?ap = "ap\<lparr>ap_status := sl_onClearFired c (ap_status ap), ap_worker := Batch fs\<rparr>"
        have "app_ok ?ap" by (rule clear_fired_ok [OF ok]) (use Batch Cons ClearLine in simp)
        then show ?thesis using Batch Cons ClearLine by (simp add: timerStep_def)
      qed
    qed
  next
    case (Applying ev fs)
    obtain evs m where a: "applyDelta ev (ap_model ap) = (evs, m)" by (metis surj_pair)
    have "model_ok m" using applyDelta_facts [OF d(11) a] by simp
    then have "app_ok (ap\<lparr>ap_worker := Publishing evs fs, ap_model := m\<rparr>)"
      using move [of "Publishing evs fs" m] Applying by simp
    moreover have "timerStep now ap = ap\<lparr>ap_worker := Publishing evs fs, ap_model := m\<rparr>"
      using Applying a by (cases ap) (simp add: timerStep_def)
    ultimately show ?thesis by simp
  next
    case (Publishing evs fs)
    show ?thesis
    proof (cases evs)
      case Nil
      then show ?thesis using move [of "Resolving fs" "ap_model ap"] d(11) Publishing by (simp add: timerStep_def stay)
    next
      case (Cons e es)
      have "app_ok (ap\<lparr>ap_worker := Publishing es fs\<rparr>)"
        using move [of "Publishing es fs" "ap_model ap"] d(11) Publishing by (simp add: stay)
      from deliver_ok [OF this] show ?thesis using Publishing Cons by (simp add: timerStep_def)
    qed
  next
    case (Resolving fs)
    let ?hs = "hs_flushDone (ap_hotplug ap)"
    have "app_ok (ap\<lparr>ap_hotplug := ?hs, ap_worker := Batch fs, ap_model := ap_model ap\<rparr>)"
    proof (rule worker_change_ok [OF ok])
      show "pending_ok ?hs (ap_timer ap)" using d(2) by (simp add: pending_ok_def hs_flushDone_def)
      show "hs_outstanding ?hs = int (flushClaims (ap\<lparr>ap_worker := Batch fs\<rparr>))"
        using d(4) Resolving by (simp add: flushClaims_def hs_flushDone_def)
      show "due_later (ap\<lparr>ap_worker := Batch fs\<rparr>) (Flush i)" if "map_of (hs_pending ?hs) i \<noteq> None" for i
        using pend [of i "Batch fs"] that Resolving by (simp add: hs_flushDone_def)
    qed (use Resolving d(11) in auto)
    moreover have "ap\<lparr>ap_hotplug := ?hs, ap_worker := Batch fs, ap_model := ap_model ap\<rparr> = ap\<lparr>ap_hotplug := ?hs, ap_worker := Batch fs\<rparr>"
      by (cases ap) simp
    ultimately show ?thesis using Resolving by (simp add: timerStep_def)
  next
    case Gone
    then show ?thesis using ok by (simp add: timerStep_def)
  qed
qed

text \<open>Reachable states are those of a run from the start.\<close>

lemma app_ok_eqI:
  assumes "app_ok ap" "ap_timer ap' = ap_timer ap" "ap_worker ap' = ap_worker ap" "ap_hotplug ap' = ap_hotplug ap"
    and "ap_status ap' = ap_status ap \<or>
      (\<exists>a b. ap_status ap' = ap_status ap\<lparr>sl_armed := a, sl_subscribed := b\<rparr> \<and> (b \<longrightarrow> sl_subscribed (ap_status ap)))"
    and "ap_closing ap' = ap_closing ap" "ap_stopping ap' \<Longrightarrow> \<not> ap_monitor ap'" "model_ok (ap_model ap')"
  shows "app_ok ap'"
proof (rule app_okI)
  note d = app_okD [OF assms(1)]
  have st: "sl_clearHandle (ap_status ap') = sl_clearHandle (ap_status ap)" "sl_text (ap_status ap') = sl_text (ap_status ap)"
      "sl_generation (ap_status ap') = sl_generation (ap_status ap)" "sl_outstanding (ap_status ap') = sl_outstanding (ap_status ap)"
      "sl_subscribed (ap_status ap') \<longrightarrow> sl_subscribed (ap_status ap)"
    using assms(5) by auto
  have due: "due_later ap' f = due_later ap f" for f by (simp add: due_later_def assms)
  show "sched_ok (ap_timer ap')" "pending_ok (ap_hotplug ap') (ap_timer ap')" using d(1,2) by (simp_all add: assms)
  show "status_ok (ap_status ap') (ap_timer ap')" using d(3) by (simp add: status_ok_def assms st)
  show "hs_outstanding (ap_hotplug ap') = int (flushClaims ap')" using d(4) by (simp add: flushClaims_def assms)
  show "sl_outstanding (ap_status ap') = int (clearClaims ap')" using d(5) by (simp add: clearClaims_def assms st)
  show "due_later ap' (Flush i)" if "map_of (hs_pending (ap_hotplug ap')) i \<noteq> None" for i
    unfolding due by (rule d(6)) (use that assms(4) in simp)
  show "due_later ap' (ClearLine (sl_generation (ap_status ap')))" if "\<not> ap_closing ap'" "sl_text (ap_status ap') \<noteq> []"
    unfolding due st using d(7) that assms(6) st by simp
  show "g \<le> sl_generation (ap_status ap')" if "ClearLine g \<in> set (batchOf (ap_worker ap'))" for g
    using d(8) [of g] that assms(3) st by simp
  show "ap_closing ap' \<Longrightarrow> \<not> sl_subscribed (ap_status ap')" using d(10) assms(6) st(5) by auto
qed (use assms in auto)

lemma app_step_ok:
  assumes "app_step now a ap ap'" "app_ok ap"
  shows "app_ok ap'"
proof -
  note d = app_okD [OF assms(2)]
  from assms(1) show ?thesis
  proof cases
  case start
  then show ?thesis using app_ok_eqI [OF assms(2), of ap'] d
    by simp
next
  case (event ev)
  then show ?thesis using monitorEvent_ok assms(2) by simp
next
  case timer
  then show ?thesis using timerStep_ok assms(2) by simp
next
  case (publish e)
  then show ?thesis using deliver_ok assms(2) by simp
next
  case (enumerated ds)
  obtain evs m where e: "applyEnumeration ds (ap_model ap) = (evs, m)" by (metis surj_pair)
  obtain x y nxt where r: "reconcile (ap_model ap) ds [] [] [] = (x, y, nxt)" by (metis prod.exhaust)
  have "m = nxt" using e r by (simp add: applyEnumeration_def Let_def)
  then have "model_ok m" using reconcile_next [OF r] by (simp add: model_ok_def)
  then show ?thesis
    using enumerated e app_ok_eqI [OF assms(2), of ap'] d
    by simp
next
  case arm
  have "ap_status ap' = ap_status ap\<lparr>sl_armed := True, sl_subscribed := sl_subscribed (ap_status ap)\<rparr>"
    by (cases "ap_status ap") (simp add: arm sl_arm_def)
  then have st: "ap_status ap' = ap_status ap \<or>
      (\<exists>a b. ap_status ap' = ap_status ap\<lparr>sl_armed := a, sl_subscribed := b\<rparr> \<and> (b \<longrightarrow> sl_subscribed (ap_status ap)))"
    by blast
  show ?thesis by (rule app_ok_eqI [OF assms(2) _ _ _ st]) (use arm d(9,11) in simp_all)
next
  case stop
  then show ?thesis using hotplugStop_ok assms(2) by simp
next
  case stopped
  then show ?thesis using app_ok_eqI [OF assms(2), of ap'] d
    by simp
next
  case unsubscribe
  have "ap_status ap' = ap_status ap\<lparr>sl_armed := sl_armed (ap_status ap), sl_subscribed := False\<rparr>"
    by (cases "ap_status ap") (simp add: unsubscribe sl_unsubscribe_def)
  then have st: "ap_status ap' = ap_status ap \<or>
      (\<exists>a b. ap_status ap' = ap_status ap\<lparr>sl_armed := a, sl_subscribed := b\<rparr> \<and> (b \<longrightarrow> sl_subscribed (ap_status ap)))"
    by blast
  show ?thesis by (rule app_ok_eqI [OF assms(2) _ _ _ st]) (use unsubscribe d(9,11) in simp_all)
next
  case close
  then show ?thesis using statusClose_ok assms(2) by simp
next
  case closed
  then show ?thesis using assms(2) by simp
next
  case (shutdown selfCall)
  let ?sc = "snd (sched_shutdown selfCall (ap_timer ap))"
  have same: "sc_queue ?sc = sc_queue (ap_timer ap)" "sc_index ?sc = sc_index (ap_timer ap)"
      "sc_nextId ?sc = sc_nextId (ap_timer ap)" "queuedIn ?sc = queuedIn (ap_timer ap)"
    by (simp_all add: sched_shutdown_def Let_def queuedIn_def)
  show ?thesis
    using assms(2) same unfolding shutdown app_ok_def
    by (simp add: sched_ok_def pending_ok_def status_ok_def flushClaims_def clearClaims_def due_later_def)
  qed
qed

lemma app_run_ok: "app_run os ap ap' \<Longrightarrow> app_ok ap \<Longrightarrow> app_ok ap'"
  by (induction rule: app_run.induct) (auto intro: app_step_ok)

end
