(* ===== verification/Timed_Facts.thy ===== *)
theory Timed_Facts
  imports Timed_Services
begin

text \<open>
  What the completion barriers of the hotplug service and the status line are for: after \<^verbatim>\<open>stop\<close> or the
  destructor has returned nothing of the timer's touches the object any more, both do return while
  the timer lives, and the delay loses no event.
\<close>

section \<open>The barriers hold\<close>

text \<open>Whether the timer thread can still reach the hotplug service, or the status line.\<close>

definition touchesHotplug :: "app \<Rightarrow> bool" where
  "touchesHotplug ap \<longleftrightarrow> (\<exists>i. due_later ap (Flush i)) \<or> flushing (ap_worker ap)"

definition touchesStatus :: "app \<Rightarrow> bool" where
  "touchesStatus ap \<longleftrightarrow> (\<exists>g. due_later ap (ClearLine g))"

lemma armed_zero: "finite (dom q) \<Longrightarrow> armed P q = 0 \<Longrightarrow> f \<in> ran q \<Longrightarrow> \<not> P f"
proof -
  assume fin: "finite (dom q)" and z: "armed P q = 0" and f: "f \<in> ran q"
  have "finite {h. \<exists>f. q h = Some f \<and> P f}" by (rule finite_subset [OF _ fin]) auto
  with z have "{h. \<exists>f. q h = Some f \<and> P f} = {}" by (simp add: armed_def)
  with f show "\<not> P f" by (auto simp: ran_def)
qed

lemma no_flush_claims: "app_ok ap \<Longrightarrow> flushClaims ap = 0 \<Longrightarrow> \<not> touchesHotplug ap"
proof -
  assume ok: "app_ok ap" and z: "flushClaims ap = 0"
  have "\<not> due_later ap (Flush i)" for i
    using z armed_zero [OF sc.finite_queued [OF app_okD(1) [OF ok]], of is_flush "Flush i"]
    by (auto simp: flushClaims_def due_later_def filter_empty_conv split: if_splits)
  then show ?thesis using z by (auto simp: touchesHotplug_def flushClaims_def split: if_splits)
qed

lemma no_clear_claims: "app_ok ap \<Longrightarrow> clearClaims ap = 0 \<Longrightarrow> \<not> touchesStatus ap"
proof -
  assume ok: "app_ok ap" and z: "clearClaims ap = 0"
  have "\<not> due_later ap (ClearLine g)" for g
    using z armed_zero [OF sc.finite_queued [OF app_okD(1) [OF ok]], of is_clear "ClearLine g"]
    by (auto simp: clearClaims_def due_later_def filter_empty_conv)
  then show ?thesis by (simp add: touchesStatus_def)
qed

text \<open>Only an event of the monitor adds a claim of the hotplug service, only a message one of the line.\<close>

lemma cancelAll_le: "cancelAll ps out sc = (out', sc') \<Longrightarrow> out' \<le> out"
  by (induction ps out sc arbitrary: out' sc' rule: cancelAll.induct) (auto split: prod.splits if_splits, force)

lemma deliver_hotplug [simp]:
  "ap_hotplug (deliver now e ap) = ap_hotplug ap" "ap_worker (deliver now e ap) = ap_worker ap"
  "ap_monitor (deliver now e ap) = ap_monitor ap" "ap_model (deliver now e ap) = ap_model ap"
  "ap_stopping (deliver now e ap) = ap_stopping ap" "ap_closing (deliver now e ap) = ap_closing ap"
  by (simp_all add: deliver_def split: prod.splits)

lemma deliver_unsubscribed: "\<not> sl_subscribed (ap_status ap) \<Longrightarrow> deliver now e ap = ap"
  by (cases ap) (simp add: deliver_def sl_handle_def)

lemma timerStep_frame:
  "hs_outstanding (ap_hotplug (timerStep now ap)) \<le> hs_outstanding (ap_hotplug ap)"
  "ap_monitor (timerStep now ap) = ap_monitor ap" "ap_closing (timerStep now ap) = ap_closing ap"
  "ap_stopping (timerStep now ap) = ap_stopping ap"
  "\<not> sl_subscribed (ap_status ap) \<Longrightarrow> \<not> sl_subscribed (ap_status (timerStep now ap)) \<and>
     sl_outstanding (ap_status (timerStep now ap)) \<le> sl_outstanding (ap_status ap)"
  by (auto simp: timerStep_def hs_flushTake_def hs_flushDone_def sl_onClearFired_def Let_def deliver_unsubscribed
      split: timer_thread.splits list.splits callback.splits turn.splits prod.splits option.splits)

lemma step_keeps_stopped:
  assumes "app_step now a ap ap'" "a \<noteq> MonitorStart" "\<not> ap_monitor ap"
  shows "\<not> ap_monitor ap' \<and> hs_outstanding (ap_hotplug ap') \<le> hs_outstanding (ap_hotplug ap)"
  using assms
proof cases
  case stop
  then show ?thesis using assms(3)
    by (auto simp: hotplugStop_def hs_stop_def split: prod.splits dest: cancelAll_le)
qed (auto simp: timerStep_frame statusClose_def split: prod.splits)

lemma step_keeps_closed:
  assumes "app_step now a ap ap'" "ap_closing ap" "app_ok ap"
  shows "ap_closing ap' \<and> sl_outstanding (ap_status ap') \<le> sl_outstanding (ap_status ap)"
proof -
  have un: "\<not> sl_subscribed (ap_status ap)" using app_okD(10) [OF assms(3)] assms(2) by blast
  from assms(1) show ?thesis
  proof cases
    case stop
    then show ?thesis using assms(2) by (auto simp: hotplugStop_def split: prod.splits)
  next
    case (event ev)
    then show ?thesis using assms(2) by (auto simp: monitorEvent_def split: prod.splits)
  qed (use assms(2) un timerStep_frame in \<open>auto simp: deliver_unsubscribed sl_arm_def sl_unsubscribe_def\<close>)
qed


section \<open>Both waits end\<close>

text \<open>One batch: the steps of a callback, counted.\<close>

fun batchSteps :: "timer_thread \<Rightarrow> nat" where
  "batchSteps AtLoop = 0"
| "batchSteps (Batch fs) = 1 + 6 * length fs"
| "batchSteps (Applying _ fs) = 6 + 6 * length fs"
| "batchSteps (Publishing evs fs) = 3 + length evs + 6 * length fs"
| "batchSteps (Resolving fs) = 2 + 6 * length fs"
| "batchSteps Gone = 0"

text \<open>A callback of a client that is waiting for its claims.\<close>

definition waited :: "app \<Rightarrow> callback \<Rightarrow> bool" where
  "waited ap f \<longleftrightarrow> is_flush f \<or> \<not> sl_subscribed (ap_status ap)"

definition due_by :: "nat \<Rightarrow> app \<Rightarrow> bool" where
  "due_by now ap \<longleftrightarrow> (\<forall>x \<in> set (sc_queue (ap_timer ap)). waited ap (snd (snd x)) \<longrightarrow> fst x \<le> now)"

lemma eraseEntry_subset: "set (eraseEntry h q) \<subseteq> set q"
  by (induction q) auto

lemma setMessage_queue:
  assumes "sl_setMessage now ttl message severity (sl, sc) = (sl', sc')" "x \<in> set (sc_queue sc')"
  shows "x \<in> set (sc_queue sc) \<or> is_clear (snd (snd x))"
  using assms eraseEntry_subset [of "sl_clearHandle sl" "sc_queue sc"]
  by (auto simp: sl_setMessage_def sched_cancel_def sched_schedule_def Let_def split: if_splits)

lemma deliver_queue:
  "(sl_subscribed (ap_status (deliver now e ap)) = sl_subscribed (ap_status ap)) \<and>
   sc_stopping (ap_timer (deliver now e ap)) = sc_stopping (ap_timer ap) \<and>
   (\<forall>x \<in> set (sc_queue (ap_timer (deliver now e ap))). waited ap (snd (snd x)) \<longrightarrow> x \<in> set (sc_queue (ap_timer ap)))"
proof (cases "sl_subscribed (ap_status ap)")
  case True
  consider (idle) "sl_handle now kStatusTtl e (ap_status ap, ap_timer ap) = (ap_status ap, ap_timer ap)"
    | (set) message severity where "sl_handle now kStatusTtl e (ap_status ap, ap_timer ap) =
        sl_setMessage now kStatusTtl message severity (ap_status ap, ap_timer ap)"
    using sl_handle_cases [of now kStatusTtl e "(ap_status ap, ap_timer ap)"] by auto
  then show ?thesis
  proof cases
    case idle
    then show ?thesis by (simp add: deliver_def)
  next
    case (set message severity)
    obtain sl sc where m: "sl_setMessage now kStatusTtl message severity (ap_status ap, ap_timer ap) = (sl, sc)"
      by (metis surj_pair)
    have "sl_subscribed sl = sl_subscribed (ap_status ap) \<and> sc_stopping sc = sc_stopping (ap_timer ap)"
      using m by (auto simp: sl_setMessage_def sched_cancel_def sched_schedule_def Let_def split: if_splits)
    then show ?thesis
      using set m setMessage_queue [OF m] True by (auto simp: deliver_def waited_def is_clear_def)
  qed
qed (simp add: deliver_unsubscribed)

lemma batch_step:
  assumes "ap_worker ap \<noteq> AtLoop" "ap_worker ap \<noteq> Gone" "due_by now ap" "app_ok ap"
  shows "batchSteps (ap_worker (timerStep now ap)) < batchSteps (ap_worker ap)"
    and "ap_worker (timerStep now ap) \<noteq> Gone"
    and "sc_stopping (ap_timer (timerStep now ap)) = sc_stopping (ap_timer ap)"
    and "sl_subscribed (ap_status (timerStep now ap)) = sl_subscribed (ap_status ap)"
    and "\<forall>x \<in> set (sc_queue (ap_timer (timerStep now ap))). waited ap (snd (snd x)) \<longrightarrow> x \<in> set (sc_queue (ap_timer ap))"
proof -
  have delta: "length (fst (applyDelta ev (ap_model ap))) \<le> 1" for ev
    by (auto simp: applyDelta_def Let_def split: option.splits)
  let ?G = "batchSteps (ap_worker (timerStep now ap)) < batchSteps (ap_worker ap) \<and>
    ap_worker (timerStep now ap) \<noteq> Gone \<and> sc_stopping (ap_timer (timerStep now ap)) = sc_stopping (ap_timer ap) \<and>
    sl_subscribed (ap_status (timerStep now ap)) = sl_subscribed (ap_status ap) \<and>
    (\<forall>x \<in> set (sc_queue (ap_timer (timerStep now ap))). waited ap (snd (snd x)) \<longrightarrow> x \<in> set (sc_queue (ap_timer ap)))"
  have ?G
  proof (cases "ap_worker ap")
    case (Batch gs)
    show ?thesis
    proof (cases gs)
      case Nil
      then show ?thesis using Batch by (simp add: timerStep_def)
    next
      case (Cons g fs)
      then show ?thesis using Batch
        by (cases g) (auto simp: timerStep_def hs_flushTake_def sl_onClearFired_def Let_def split: option.splits prod.splits)
    qed
  next
    case (Applying ev fs)
    then show ?thesis using delta [of ev] by (auto simp: timerStep_def split: prod.splits)
  next
    case (Publishing evs fs)
    show ?thesis
    proof (cases evs)
      case Nil
      then show ?thesis using Publishing by (simp add: timerStep_def)
    next
      case (Cons e es)
      then show ?thesis
        using Publishing deliver_queue [of now e "ap\<lparr>ap_worker := Publishing es fs\<rparr>"]
        by (simp add: timerStep_def waited_def)
    qed
  next
    case (Resolving fs)
    then show ?thesis by (simp add: timerStep_def)
  qed (use assms in simp_all)
  then show "batchSteps (ap_worker (timerStep now ap)) < batchSteps (ap_worker ap)"
    "ap_worker (timerStep now ap) \<noteq> Gone" "sc_stopping (ap_timer (timerStep now ap)) = sc_stopping (ap_timer ap)"
    "sl_subscribed (ap_status (timerStep now ap)) = sl_subscribed (ap_status ap)"
    "\<forall>x \<in> set (sc_queue (ap_timer (timerStep now ap))). waited ap (snd (snd x)) \<longrightarrow> x \<in> set (sc_queue (ap_timer ap))"
    by blast+
qed

lemma batch_ends:
  assumes "ap_worker ap \<noteq> Gone" "due_by now ap" "app_ok ap" "\<not> sc_stopping (ap_timer ap)"
  shows "\<exists>n. let ap' = (timerStep now ^^ n) ap in ap_worker ap' = AtLoop \<and> app_ok ap' \<and>
    \<not> sc_stopping (ap_timer ap') \<and> sl_subscribed (ap_status ap') = sl_subscribed (ap_status ap) \<and>
    (\<forall>x \<in> set (sc_queue (ap_timer ap')). waited ap (snd (snd x)) \<longrightarrow> x \<in> set (sc_queue (ap_timer ap)))"
  using assms
proof (induction "batchSteps (ap_worker ap)" arbitrary: ap rule: less_induct)
  case less
  show ?case
  proof (cases "ap_worker ap = AtLoop")
    case True
    then show ?thesis using less.prems by (intro exI [of _ 0]) simp
  next
    case False
    note b = batch_step [OF False less.prems(1-3)]
    let ?ap = "timerStep now ap"
    have w: "waited ?ap f = waited ap f" for f using b(4) by (simp add: waited_def)
    have "due_by now ?ap" using b(5) less.prems(2) by (auto simp: due_by_def w)
    then obtain n where n: "let ap' = (timerStep now ^^ n) ?ap in ap_worker ap' = AtLoop \<and> app_ok ap' \<and>
        \<not> sc_stopping (ap_timer ap') \<and> sl_subscribed (ap_status ap') = sl_subscribed (ap_status ?ap) \<and>
        (\<forall>x \<in> set (sc_queue (ap_timer ap')). waited ?ap (snd (snd x)) \<longrightarrow> x \<in> set (sc_queue (ap_timer ?ap)))"
      using less.hyps [of ?ap] b(1,2,3) less.prems(4) timerStep_ok [OF less.prems(3)] by blast
    show ?thesis
    proof (intro exI [of _ "Suc n"])
      show "let ap' = (timerStep now ^^ Suc n) ap in ap_worker ap' = AtLoop \<and> app_ok ap' \<and>
        \<not> sc_stopping (ap_timer ap') \<and> sl_subscribed (ap_status ap') = sl_subscribed (ap_status ap) \<and>
        (\<forall>x \<in> set (sc_queue (ap_timer ap')). waited ap (snd (snd x)) \<longrightarrow> x \<in> set (sc_queue (ap_timer ap)))"
        using n b(4,5) w by (simp add: Let_def funpow_swap1)
    qed
  qed
qed

lemma due_soon: "\<exists>now. due_by now ap"
proof
  show "due_by (Max (insert 0 (fst ` set (sc_queue (ap_timer ap))))) ap"
    by (auto simp: due_by_def intro: Max_ge)
qed

lemma sorted_dropWhile_late:
  "sorted (map fst q) \<Longrightarrow> x \<in> set (dropWhile (\<lambda>e. fst e \<le> (now :: nat)) q) \<Longrightarrow> now < fst x"
  by (induction q) (auto split: if_splits)

text \<open>Turning to its queue once, the worker leaves nothing that a client waits for.\<close>

lemma turn_empties:
  assumes "ap_worker ap = AtLoop" "due_by now ap" "app_ok ap" "\<not> sc_stopping (ap_timer ap)"
  shows "ap_worker (timerStep now ap) \<noteq> Gone \<and> \<not> sc_stopping (ap_timer (timerStep now ap)) \<and>
    sl_subscribed (ap_status (timerStep now ap)) = sl_subscribed (ap_status ap) \<and>
    (\<forall>x \<in> set (sc_queue (ap_timer (timerStep now ap))). \<not> waited ap (snd (snd x)))"
proof -
  have srt: "sorted (map fst (sc_queue (ap_timer ap)))" using app_okD(1) [OF assms(3)] by (simp add: sched_ok_def)
  obtain t sc where t: "workerTurn now (ap_timer ap) = (t, sc)" by (metis surj_pair)
  then consider (Leave) "t = Leave" | (Wait) "t = Wait" | (Run) fs where "t = Run fs" by (cases t)
  then show ?thesis
  proof cases
    case Leave
    then show ?thesis using workerTurn_other(1) [of now "ap_timer ap" sc] t assms(4) by simp
  next
    case Wait
    then have e: "timerStep now ap = ap"
      using workerTurn_other(2) [of now "ap_timer ap" sc] t assms(1) by (simp add: timerStep_def)
    have "dropWhile (\<lambda>e. fst e \<le> now) (sc_queue (ap_timer ap)) = sc_queue (ap_timer ap)"
      using t Wait assms(4) by (auto simp: workerTurn_def apfst_def map_prod_def split_beta split: list.splits if_splits)
    then have "now < fst x" if "x \<in> set (sc_queue (ap_timer ap))" for x
      using sorted_dropWhile_late [OF srt, of x now] that by simp
    then show ?thesis using e assms by (fastforce simp: due_by_def)
  next
    case Run
    have q: "sc_queue sc = dropWhile (\<lambda>e. fst e \<le> now) (sc_queue (ap_timer ap))" "\<not> sc_stopping sc"
      using workerTurn_Run [OF app_okD(1) [OF assms(3)], of now fs sc] t Run by simp_all
    have e: "timerStep now ap = ap\<lparr>ap_timer := sc, ap_worker := Batch fs\<rparr>"
      using t Run assms(1) by (simp add: timerStep_def)
    have "\<not> waited ap (snd (snd x))" if "x \<in> set (sc_queue sc)" for x
    proof -
      have "now < fst x" using sorted_dropWhile_late [OF srt, of x now] that q(1) by simp
      moreover have "x \<in> set (sc_queue (ap_timer ap))" using that q(1) by (metis set_dropWhileD)
      ultimately show ?thesis using assms(2) by (fastforce simp: due_by_def)
    qed
    then show ?thesis using e q(2) by simp
  qed
qed

lemma funpow_add_app: "(f ^^ n) ((f ^^ m) x) = (f ^^ (n + m)) x"
  by (simp add: funpow_add)

lemma claims_drain:
  assumes "ap_worker ap \<noteq> Gone" "app_ok ap" "\<not> sc_stopping (ap_timer ap)"
  shows "\<exists>now n. let ap' = (timerStep now ^^ n) ap in app_ok ap' \<and> flushClaims ap' = 0 \<and>
    (\<not> sl_subscribed (ap_status ap) \<longrightarrow> clearClaims ap' = 0)"
proof -
  obtain now where due: "due_by now ap" using due_soon by blast
  obtain n1 where n1: "let ap' = (timerStep now ^^ n1) ap in ap_worker ap' = AtLoop \<and> app_ok ap' \<and>
    \<not> sc_stopping (ap_timer ap') \<and> sl_subscribed (ap_status ap') = sl_subscribed (ap_status ap) \<and>
    (\<forall>x \<in> set (sc_queue (ap_timer ap')). waited ap (snd (snd x)) \<longrightarrow> x \<in> set (sc_queue (ap_timer ap)))"
    using batch_ends [OF assms(1) due assms(2,3)] by blast
  define ap1 where "ap1 = (timerStep now ^^ n1) ap"
  from n1 have a1: "ap_worker ap1 = AtLoop" "app_ok ap1" "\<not> sc_stopping (ap_timer ap1)"
      "sl_subscribed (ap_status ap1) = sl_subscribed (ap_status ap)"
    and q1: "\<forall>x \<in> set (sc_queue (ap_timer ap1)). waited ap (snd (snd x)) \<longrightarrow> x \<in> set (sc_queue (ap_timer ap))"
    by (simp_all add: Let_def ap1_def)
  have w1: "waited ap1 f = waited ap f" for f using a1(4) by (simp add: waited_def)
  have due1: "due_by now ap1" using q1 due by (auto simp: due_by_def w1)
  define ap2 where "ap2 = timerStep now ap1"
  note t = turn_empties [OF a1(1) due1 a1(2,3), folded ap2_def]
  have w2: "waited ap2 f = waited ap f" for f using a1(4) t by (simp add: waited_def)
  have ok2: "app_ok ap2" unfolding ap2_def by (rule timerStep_ok [OF a1(2)])
  have "due_by now ap2" using t by (auto simp: due_by_def w1 w2)
  then obtain n2 where n2: "let ap' = (timerStep now ^^ n2) ap2 in ap_worker ap' = AtLoop \<and> app_ok ap' \<and>
    \<not> sc_stopping (ap_timer ap') \<and> sl_subscribed (ap_status ap') = sl_subscribed (ap_status ap2) \<and>
    (\<forall>x \<in> set (sc_queue (ap_timer ap')). waited ap2 (snd (snd x)) \<longrightarrow> x \<in> set (sc_queue (ap_timer ap2)))"
    using batch_ends [of ap2 now] t ok2 by blast
  define ap3 where "ap3 = (timerStep now ^^ n2) ap2"
  from n2 have a3: "ap_worker ap3 = AtLoop" "app_ok ap3"
    and q3: "\<forall>x \<in> set (sc_queue (ap_timer ap3)). \<not> waited ap (snd (snd x))"
    using t by (auto simp: Let_def ap3_def w1 w2)
  have none: "armed P (queuedIn (ap_timer ap3)) = 0" if "\<And>f. P f \<Longrightarrow> waited ap f" for P
    using q3 that by (auto simp: armed_queue [OF app_okD(1) [OF a3(2)]] filter_empty_conv)
  have "flushClaims ap3 = 0" using none [of is_flush] a3(1) by (simp add: flushClaims_def waited_def)
  moreover have "clearClaims ap3 = 0" if "\<not> sl_subscribed (ap_status ap)"
    using none [of is_clear] a3(1) that by (simp add: clearClaims_def waited_def)
  moreover have "ap3 = (timerStep now ^^ (n2 + Suc n1)) ap"
    by (simp add: ap3_def ap2_def ap1_def funpow_add funpow_swap1)
  ultimately show ?thesis using a3(2) by (intro exI [of _ now] exI [of _ "n2 + Suc n1"]) (simp add: Let_def)
qed

text \<open>C30: while the timer thread lives, neither wait is for ever: from every reachable state some number
  of its steps, at some time, brings \<^verbatim>\<open>stop\<close>'s counter to zero, and the destructor's as well once the
  line is unsubscribed.\<close>

lemma waits_end:
  assumes "model_ok m" "app_run os (start_app m) ap" "ap_worker ap \<noteq> Gone" "\<not> sc_stopping (ap_timer ap)"
  shows "\<exists>now n. hs_stopReturns (ap_hotplug ((timerStep now ^^ n) ap)) \<and>
    (\<not> sl_subscribed (ap_status ap) \<longrightarrow> sl_closeReturns (ap_status ((timerStep now ^^ n) ap)))"
proof -
  have ok: "app_ok ap" using app_run_ok [OF assms(2) start_app_ok [OF assms(1)]] .
  obtain now n where n: "app_ok ((timerStep now ^^ n) ap)" "flushClaims ((timerStep now ^^ n) ap) = 0"
      "\<not> sl_subscribed (ap_status ap) \<longrightarrow> clearClaims ((timerStep now ^^ n) ap) = 0"
    using claims_drain [OF assms(3) ok assms(4)] by (auto simp: Let_def)
  show ?thesis
    using n app_okD(4,5) [OF n(1)] by (intro exI [of _ now] exI [of _ n]) (simp add: hs_stopReturns_def sl_closeReturns_def)
qed

section \<open>Debouncing loses nothing\<close>

fun monitorEvents :: "(nat \<times> action) list \<Rightarrow> hotplug_event list" where
  "monitorEvents [] = []"
| "monitorEvents ((_, MonitorEvent ev) # os) = ev # monitorEvents os"
| "monitorEvents (_ # os) = monitorEvents os"

definition applyAll :: "hotplug_event list \<Rightarrow> device_model \<Rightarrow> device_model" where
  "applyAll evs m = foldl (\<lambda>m ev. snd (applyDelta ev m)) m evs"

text \<open>What the model of a device will be once the flush that holds its event has run.\<close>

definition foreseen :: "app \<Rightarrow> string \<Rightarrow> device option" where
  "foreseen ap i =
     (case map_of (hs_pending (ap_hotplug ap)) i of
        Some (ev, _) \<Rightarrow> event_effect ev
      | None \<Rightarrow>
          (case ap_worker ap of
             Applying ev _ \<Rightarrow> if dev_id (hp_device ev) = i then event_effect ev else map_of (ap_model ap) i
           | _ \<Rightarrow> map_of (ap_model ap) i))"

fun debounced :: "action \<Rightarrow> bool" where
  "debounced (Enumerated _) = False"
| "debounced StopCalled = False"
| "debounced _ = True"

lemma monitorEvents_append: "monitorEvents (os @ os') = monitorEvents os @ monitorEvents os'"
  by (induction os rule: monitorEvents.induct) auto

lemma applyAll_snoc:
  assumes "model_ok (applyAll evs m)"
  shows "model_ok (applyAll (evs @ [ev]) m) \<and>
    map_of (applyAll (evs @ [ev]) m) = (map_of (applyAll evs m))(dev_id (hp_device ev) := event_effect ev)"
proof -
  obtain es m' where "applyDelta ev (applyAll evs m) = (es, m')" by (metis surj_pair)
  from applyDelta_facts [OF assms this] this show ?thesis by (simp add: applyAll_def)
qed

lemma foreseen_timer:
  assumes "app_ok ap"
  shows "foreseen (timerStep now ap) = foreseen ap"
proof
  fix i
  note d = app_okD [OF assms]
  show "foreseen (timerStep now ap) i = foreseen ap i"
  proof (cases "ap_worker ap")
    case AtLoop
    then show ?thesis by (auto simp: timerStep_def foreseen_def split: prod.splits turn.splits option.splits)
  next
    case (Batch gs)
    show ?thesis
    proof (cases gs)
      case Nil
      then show ?thesis using Batch by (auto simp: timerStep_def foreseen_def split: option.splits)
    next
      case (Cons g fs)
      show ?thesis
      proof (cases g)
        case (Flush j)
        obtain r hs where t: "hs_flushTake j (ap_hotplug ap) = (r, hs)" by (metis surj_pair)
        note f = hs_flushTake_facts [OF t d(2)]
        show ?thesis
        proof (cases "map_of (hs_pending (ap_hotplug ap)) j")
          case None
          then have "r = None" using f by simp
          then have "timerStep now ap = ap\<lparr>ap_hotplug := hs, ap_worker := Resolving fs\<rparr>"
            using Batch Cons Flush t by (simp add: timerStep_def)
          then show ?thesis using f None Batch by (auto simp: foreseen_def fun_upd_def split: option.splits)
        next
          case (Some p)
          then have "r = Some (fst p)" using f by simp
          then have e: "timerStep now ap = ap\<lparr>ap_hotplug := hs, ap_worker := Applying (fst p) fs\<rparr>"
            using Batch Cons Flush t by (simp add: timerStep_def)
          obtain ev h where p: "p = (ev, h)" by (cases p)
          have "dev_id (hp_device ev) = j" using pending_okD(1) [OF d(2)] Some p by simp
          then show ?thesis using e f Some p Batch by (auto simp: foreseen_def split: option.splits)
        qed
      next
        case (ClearLine c)
        then show ?thesis using Batch Cons by (auto simp: timerStep_def foreseen_def split: option.splits)
      qed
    qed
  next
    case (Applying ev fs)
    obtain evs m where a: "applyDelta ev (ap_model ap) = (evs, m)" by (metis surj_pair)
    have "map_of m = (map_of (ap_model ap))(dev_id (hp_device ev) := event_effect ev)"
      using applyDelta_facts [OF d(11) a] by blast
    then show ?thesis using Applying a by (auto simp: timerStep_def foreseen_def split: option.splits)
  next
    case (Publishing evs fs)
    then show ?thesis by (cases evs) (auto simp: timerStep_def foreseen_def split: option.splits)
  next
    case (Resolving fs)
    then show ?thesis by (auto simp: timerStep_def foreseen_def hs_flushDone_def split: option.splits)
  next
    case Gone
    then show ?thesis by (simp add: timerStep_def)
  qed
qed

lemma foreseen_step:
  assumes "app_step now a ap ap'" "app_ok ap" "debounced a"
  shows "foreseen ap' = (case a of
      MonitorEvent ev \<Rightarrow> (foreseen ap)(dev_id (hp_device ev) := event_effect ev) | _ \<Rightarrow> foreseen ap)"
  using assms(1)
proof cases
  case (event ev)
  obtain hs sc where s: "hs_onEvent now kDebounceWindow ev (ap_hotplug ap, ap_timer ap) = (hs, sc)" by (metis surj_pair)
  from hs_onEvent_facts(6) [OF app_okD(1,2) [OF assms(2)] s refl]
  obtain h where "map_of (hs_pending hs) = (map_of (hs_pending (ap_hotplug ap)))(dev_id (hp_device ev) \<mapsto> (ev, h))"
    by blast
  then show ?thesis using event s by (auto simp: monitorEvent_def foreseen_def fun_eq_iff split: option.splits timer_thread.splits)
next
  case timer
  then show ?thesis using foreseen_timer [OF assms(2)] by simp
next
  case (publish e)
  then show ?thesis by (auto simp: foreseen_def fun_eq_iff split: option.splits timer_thread.splits)
next
  case close
  then show ?thesis
    by (auto simp: statusClose_def foreseen_def fun_eq_iff split: prod.splits option.splits timer_thread.splits)
qed (use assms(3) in \<open>auto simp: foreseen_def fun_eq_iff split: option.splits timer_thread.splits\<close>)


section \<open>Messages\<close>

text \<open>C32: a message on the status line always has its own clear coming, and the timer thread removes it only
  by that clear, never by one that an older message left behind.\<close>

lemma message_has_its_clear:
  assumes "model_ok m" "app_run os (start_app m) ap" "\<not> ap_closing ap" "status_text (ap_status ap) \<noteq> []"
  shows "due_later ap (ClearLine (sl_generation (ap_status ap))) \<and>
    (status_text (ap_status (timerStep now ap)) = status_text (ap_status ap) \<or>
     (\<exists>fs. ap_worker ap = Batch (ClearLine (sl_generation (ap_status ap)) # fs)) \<or>
     (\<exists>e es fs. ap_worker ap = Publishing (e # es) fs))"
proof -
  have ok: "app_ok ap" using app_run_ok [OF assms(2) start_app_ok [OF assms(1)]] .
  have "due_later ap (ClearLine (sl_generation (ap_status ap)))"
    using app_okD(7) [OF ok] assms(3,4) by (simp add: status_text_def)
  moreover have "status_text (ap_status (timerStep now ap)) = status_text (ap_status ap) \<or>
     (\<exists>fs. ap_worker ap = Batch (ClearLine (sl_generation (ap_status ap)) # fs)) \<or>
     (\<exists>e es fs. ap_worker ap = Publishing (e # es) fs)"
    by (auto simp: timerStep_def status_text_def sl_onClearFired_def Let_def
        split: timer_thread.splits list.splits callback.splits turn.splits prod.splits option.splits)
  ultimately show ?thesis by blast
qed

section \<open>Concrete runs\<close>

text \<open>A run given by its actions, computed where every action is enabled.\<close>

fun actOn :: "nat \<Rightarrow> action \<Rightarrow> app \<Rightarrow> app option" where
  "actOn now MonitorStart ap = (if \<not> ap_stopping ap then Some (ap\<lparr>ap_monitor := True\<rparr>) else None)"
| "actOn now (MonitorEvent ev) ap = (if ap_monitor ap then Some (monitorEvent now ev ap) else None)"
| "actOn now TimerTurn ap = Some (timerStep now ap)"
| "actOn now (Publish e) ap = Some (deliver now e ap)"
| "actOn now (Enumerated ds) ap = Some (ap\<lparr>ap_model := snd (applyEnumeration ds (ap_model ap))\<rparr>)"
| "actOn now Arm ap = Some (ap\<lparr>ap_status := sl_arm (ap_status ap)\<rparr>)"
| "actOn now StopCalled ap = (if \<not> ap_stopping ap then Some (hotplugStop ap) else None)"
| "actOn now StopReturned ap =
     (if ap_stopping ap \<and> hs_stopReturns (ap_hotplug ap) then Some (ap\<lparr>ap_stopping := False\<rparr>) else None)"
| "actOn now Unsubscribed ap = Some (ap\<lparr>ap_status := sl_unsubscribe (ap_status ap)\<rparr>)"
| "actOn now CloseCalled ap =
     (if \<not> sl_subscribed (ap_status ap) \<and> \<not> ap_closing ap then Some (statusClose ap) else None)"
| "actOn now CloseReturned ap = (if ap_closing ap \<and> sl_closeReturns (ap_status ap) then Some ap else None)"
| "actOn now TimerShutdown ap = Some (ap\<lparr>ap_timer := snd (sched_shutdown False (ap_timer ap))\<rparr>)"

definition play :: "(nat \<times> action) list \<Rightarrow> app \<Rightarrow> app option" where
  "play os ap = foldl (\<lambda>r o1. case r of Some ap \<Rightarrow> actOn (fst o1) (snd o1) ap | None \<Rightarrow> None) (Some ap) os"

lemma actOn_step: "actOn now a ap = Some ap' \<Longrightarrow> app_step now a ap ap'"
  by (cases a) (auto split: if_splits intro: app_step.intros)

lemma play_run: "play os ap = Some ap' \<Longrightarrow> app_run os ap ap'"
proof (induction os arbitrary: ap' rule: rev_induct)
  case Nil
  then show ?case by (simp add: play_def app_run.none)
next
  case (snoc o1 os)
  then obtain ap1 where p: "play os ap = Some ap1" by (auto simp: play_def split: option.splits)
  then have "actOn (fst o1) (snd o1) ap1 = Some ap'" using snoc.prems by (simp add: play_def)
  from app_run.more [OF snoc.IH [OF p] actOn_step [OF this]] show ?case by simp
qed

definition plugDevice :: device where
  "plugDevice = empty_device\<lparr>dev_id := ''a'', dev_name := ''Stick'', dev_bus := Usb\<rparr>"

definition plugIn :: hotplug_event where
  "plugIn = \<lparr>hp_action = Added, hp_device = plugDevice\<rparr>"

definition plugAgain :: hotplug_event where
  "plugAgain = \<lparr>hp_action = Changed, hp_device = plugDevice\<rparr>"

text \<open>A second event while the first one's timer has been taken but not run.\<close>

definition overtaken :: "(nat \<times> action) list" where
  "overtaken = [(0, Arm), (0, MonitorStart), (0, MonitorEvent plugIn), (250, TimerTurn), (251, MonitorEvent plugAgain),
     (252, TimerTurn), (253, TimerTurn), (254, TimerTurn), (255, TimerTurn), (256, TimerTurn), (257, TimerTurn)]"

definition onApp :: "(app \<Rightarrow> bool) \<Rightarrow> (nat \<times> action) list \<Rightarrow> bool" where
  "onApp P os = (case play os (start_app []) of Some ap \<Rightarrow> P ap | None \<Rightarrow> False)"

lemma onApp_run: "onApp P os \<Longrightarrow> \<exists>ap. app_run os (start_app []) ap \<and> P ap"
  by (auto simp: onApp_def split: option.splits intro: play_run)

lemma overtaken_run:
  "onApp (\<lambda>ap. ap_worker ap = AtLoop \<and> map (\<lambda>x. (fst x, snd (snd x))) (sc_queue (ap_timer ap)) = [(501, Flush ''a''), (4254, ClearLine 1)] \<and>
     hs_pending (ap_hotplug ap) = [] \<and> hs_outstanding (ap_hotplug ap) = 1 \<and> \<not> ap_closing ap \<and>
     \<not> sc_stopping (ap_timer ap) \<and> status_text (ap_status ap) = ''usb device added: Stick'') overtaken"
  by code_simp

lemma model_ok_Nil [simp]: "model_ok []"
  by (simp add: model_ok_def)

text \<open>A timer that an event replaced while its callback was already taken is left without an entry, so
  \<^verbatim>\<open>stop\<close> does not cancel it but waits until it fires, although nothing is pending any more.\<close>

lemma stop_waits_for_an_orphan:
  "\<exists>ap. app_run (overtaken @ [(300, StopCalled), (301, TimerTurn)]) (start_app []) ap \<and>
     hs_pending (ap_hotplug ap) = [] \<and> ap_worker ap = AtLoop \<and>
     due_later ap (Flush ''a'') \<and> \<not> hs_stopReturns (ap_hotplug ap)"
proof -
  have "onApp (\<lambda>ap. hs_pending (ap_hotplug ap) = [] \<and> ap_worker ap = AtLoop \<and> hs_outstanding (ap_hotplug ap) = 1 \<and>
      Flush ''a'' \<in> set (map (snd \<circ> snd) (sc_queue (ap_timer ap))))
    (overtaken @ [(300, StopCalled), (301, TimerTurn)])"
    by code_simp
  from onApp_run [OF this] obtain ap where r: "app_run (overtaken @ [(300, StopCalled), (301, TimerTurn)]) (start_app []) ap"
    and p: "hs_pending (ap_hotplug ap) = []" "ap_worker ap = AtLoop" "hs_outstanding (ap_hotplug ap) = 1"
      "Flush ''a'' \<in> set (map (snd \<circ> snd) (sc_queue (ap_timer ap)))"
    by blast
  have "app_ok ap" using app_run_ok [OF r start_app_ok] by simp
  then show ?thesis
    using r p by (intro exI [of _ ap]) (simp add: due_later_def ran_queuedIn app_okD(1) hs_stopReturns_def)
qed

subsection \<open>Witnesses\<close>


lemma waits_end_witness:
  "\<exists>ap now n. app_run overtaken (start_app []) ap \<and> \<not> hs_stopReturns (ap_hotplug ap) \<and>
     hs_stopReturns (ap_hotplug ((timerStep now ^^ n) ap))"
proof -
  obtain ap where r: "app_run overtaken (start_app []) ap"
    and p: "ap_worker ap = AtLoop" "hs_outstanding (ap_hotplug ap) = 1" "\<not> sc_stopping (ap_timer ap)"
    using onApp_run [OF overtaken_run] by blast
  obtain now n where "hs_stopReturns (ap_hotplug ((timerStep now ^^ n) ap))"
    using waits_end [OF model_ok_Nil r _ p(3)] p(1) by auto
  then show ?thesis
    using r p by (intro exI [of _ ap] exI [of _ now] exI [of _ n]) (simp add: hs_stopReturns_def)
qed


lemma message_has_its_clear_witness:
  "\<exists>ap. app_run overtaken (start_app []) ap \<and> status_text (ap_status ap) = ''usb device added: Stick'' \<and>
     due_later ap (ClearLine (sl_generation (ap_status ap)))"
proof -
  obtain ap where r: "app_run overtaken (start_app []) ap"
    and p: "\<not> ap_closing ap" "status_text (ap_status ap) = ''usb device added: Stick''"
    using onApp_run [OF overtaken_run] by blast
  from message_has_its_clear [OF model_ok_Nil r p(1)] p(2) r show ?thesis by (intro exI [of _ ap]) simp
qed

end
