(* ===== verification/Event_Bus.thy ===== *)
theory Event_Bus
  imports Core_Models
begin

text \<open>
  \<^verbatim>\<open>core/include/devmgr/runtime/event_bus.hpp\<close>: publish and subscribe with a barrier in
  \<^verbatim>\<open>unsubscribe\<close>, as a step relation. The shared state is what the mutex guards; a thread is in the
  middle of the calls it has made, a stack of frames, since a handler may publish and unsubscribe
  itself. A step is one critical section, or one thread entering or leaving a handler.
\<close>

section \<open>State\<close>

text \<open>An entry by its id; \<open>be_running\<close> has the thread of each invocation in flight. The keys of
  \<^verbatim>\<open>handlers_\<close> are the types of events.\<close>

record bus_entry =
  be_inFlight :: nat
  be_running :: "nat list"
  be_removed :: bool

record event_bus =
  eb_entries :: "nat \<Rightarrow> bus_entry option"
  eb_handlers :: "nat \<Rightarrow> nat list"
  eb_nextId :: nat

text \<open>What a thread is doing, innermost first: publishing with the targets it has left, in a handler, or
  waiting in an unsubscribe.\<close>

datatype frame = Publishing_to "nat list" | Handler nat | Unsubscribing nat

record bus_state =
  bs_bus :: event_bus
  bs_stack :: "nat \<Rightarrow> frame list"

definition empty_bus :: event_bus where
  "empty_bus = \<lparr>eb_entries = (\<lambda>_. None), eb_handlers = (\<lambda>_. []), eb_nextId = 1\<rparr>"

definition start_bus :: bus_state where
  "start_bus = \<lparr>bs_bus = empty_bus, bs_stack = (\<lambda>_. [])\<rparr>"

section \<open>Critical sections\<close>

definition eb_subscribe :: "nat \<Rightarrow> event_bus \<Rightarrow> nat \<times> event_bus" where
  "eb_subscribe ty b =
     (let i = eb_nextId b in
      (i, b\<lparr>eb_nextId := i + 1, eb_entries := (eb_entries b)(i \<mapsto> \<lparr>be_inFlight = 0, be_running = [], be_removed = False\<rparr>),
            eb_handlers := (eb_handlers b)(ty := eb_handlers b ty @ [i])\<rparr>))"

text \<open>\<^verbatim>\<open>publish\<close> takes a copy of the handlers under the lock.\<close>

definition eb_targets :: "nat \<Rightarrow> event_bus \<Rightarrow> nat list" where
  "eb_targets ty b = eb_handlers b ty"

definition eb_beginInvoke :: "nat \<Rightarrow> nat \<Rightarrow> event_bus \<Rightarrow> bool \<times> event_bus" where
  "eb_beginInvoke th i b =
     (case eb_entries b i of
        None \<Rightarrow> (False, b)
      | Some e \<Rightarrow>
          if be_removed e then (False, b)
          else (True, b\<lparr>eb_entries := (eb_entries b)(i \<mapsto> e\<lparr>be_inFlight := be_inFlight e + 1, be_running := be_running e @ [th]\<rparr>)\<rparr>))"

definition eb_endInvoke :: "nat \<Rightarrow> nat \<Rightarrow> event_bus \<Rightarrow> event_bus" where
  "eb_endInvoke th i b =
     (case eb_entries b i of
        None \<Rightarrow> b
      | Some e \<Rightarrow> b\<lparr>eb_entries := (eb_entries b)(i \<mapsto> e\<lparr>be_inFlight := be_inFlight e - 1, be_running := remove1 th (be_running e)\<rparr>)\<rparr>)"

text \<open>The first part of \<^verbatim>\<open>unsubscribe\<close>: whether there is an entry to remove, and whether the caller has to
  wait for its invocations.\<close>

definition eb_unsubscribe :: "nat \<Rightarrow> nat \<Rightarrow> nat \<Rightarrow> event_bus \<Rightarrow> bool \<times> event_bus" where
  "eb_unsubscribe th ty i b =
     (if i \<notin> set (eb_handlers b ty) then (False, b)
      else case eb_entries b i of
        None \<Rightarrow> (False, b)
      | Some e \<Rightarrow>
          (th \<notin> set (be_running e),
           b\<lparr>eb_entries := (eb_entries b)(i \<mapsto> e\<lparr>be_removed := True\<rparr>),
             eb_handlers := (eb_handlers b)(ty := remove1 i (eb_handlers b ty))\<rparr>))"

definition eb_drained :: "nat \<Rightarrow> event_bus \<Rightarrow> bool" where
  "eb_drained i b \<longleftrightarrow> (case eb_entries b i of None \<Rightarrow> True | Some e \<Rightarrow> be_inFlight e = 0)"

section \<open>Threads\<close>

text \<open>A thread that is waiting does nothing else; any other may make a new call from where it is.\<close>

fun waiting :: "frame list \<Rightarrow> bool" where
  "waiting (Unsubscribing _ # _) = True"
| "waiting _ = False"

fun canCall :: "frame list \<Rightarrow> bool" where
  "canCall [] = True"
| "canCall (Handler _ # _) = True"
| "canCall _ = False"

datatype bus_action = Subscribe nat nat | PublishTo nat nat | Invoke nat nat | Skip nat nat | Published nat
  | Return nat nat | Throw nat nat | UnsubscribeCall nat nat nat | UnsubscribeReturn nat nat

definition push :: "nat \<Rightarrow> frame \<Rightarrow> (nat \<Rightarrow> frame list) \<Rightarrow> nat \<Rightarrow> frame list" where
  "push th f st = st(th := f # st th)"

inductive bus_step :: "bus_action \<Rightarrow> bus_state \<Rightarrow> bus_state \<Rightarrow> bool" where
  subscribe: "canCall (bs_stack s th) \<Longrightarrow> eb_subscribe ty (bs_bus s) = (i, b) \<Longrightarrow>
    bus_step (Subscribe th i) s (s\<lparr>bs_bus := b\<rparr>)"
| publish: "canCall (bs_stack s th) \<Longrightarrow>
    bus_step (PublishTo th ty) s (s\<lparr>bs_stack := push th (Publishing_to (eb_targets ty (bs_bus s))) (bs_stack s)\<rparr>)"
| invoke: "bs_stack s th = Publishing_to (i # is) # fs \<Longrightarrow> eb_beginInvoke th i (bs_bus s) = (True, b) \<Longrightarrow>
    bus_step (Invoke th i) s (s\<lparr>bs_bus := b, bs_stack := (bs_stack s)(th := Handler i # Publishing_to is # fs)\<rparr>)"
| skip: "bs_stack s th = Publishing_to (i # is) # fs \<Longrightarrow> eb_beginInvoke th i (bs_bus s) = (False, b) \<Longrightarrow>
    bus_step (Skip th i) s (s\<lparr>bs_bus := b, bs_stack := (bs_stack s)(th := Publishing_to is # fs)\<rparr>)"
| published: "bs_stack s th = Publishing_to [] # fs \<Longrightarrow>
    bus_step (Published th) s (s\<lparr>bs_stack := (bs_stack s)(th := fs)\<rparr>)"
| leave: "bs_stack s th = Handler i # fs \<Longrightarrow>
    bus_step (Return th i) s (s\<lparr>bs_bus := eb_endInvoke th i (bs_bus s), bs_stack := (bs_stack s)(th := fs)\<rparr>)"
| throw: "bs_stack s th = Handler i # Publishing_to is # fs \<Longrightarrow>
    bus_step (Throw th i) s (s\<lparr>bs_bus := eb_endInvoke th i (bs_bus s), bs_stack := (bs_stack s)(th := fs)\<rparr>)"
| unsubscribe: "canCall (bs_stack s th) \<Longrightarrow> eb_unsubscribe th ty i (bs_bus s) = (True, b) \<Longrightarrow>
    bus_step (UnsubscribeCall th ty i) s (s\<lparr>bs_bus := b, bs_stack := push th (Unsubscribing i) (bs_stack s)\<rparr>)"
| unsubscribe_now: "canCall (bs_stack s th) \<Longrightarrow> eb_unsubscribe th ty i (bs_bus s) = (False, b) \<Longrightarrow>
    bus_step (UnsubscribeCall th ty i) s (s\<lparr>bs_bus := b\<rparr>)"
| unsubscribed: "bs_stack s th = Unsubscribing i # fs \<Longrightarrow> eb_drained i (bs_bus s) \<Longrightarrow>
    bus_step (UnsubscribeReturn th i) s (s\<lparr>bs_stack := (bs_stack s)(th := fs)\<rparr>)"

inductive bus_run :: "bus_action list \<Rightarrow> bus_state \<Rightarrow> bus_state \<Rightarrow> bool" where
  bus_none: "bus_run [] s s"
| bus_more: "bus_run as s s1 \<Longrightarrow> bus_step a s1 s2 \<Longrightarrow> bus_run (as @ [a]) s s2"

inductive_cases bus_stepE: "bus_step a s s'"

section \<open>The barrier\<close>

text \<open>The counters agree with what the threads are in, and a thread waits only for a removed entry.\<close>

definition invocations :: "bus_state \<Rightarrow> nat \<Rightarrow> nat \<Rightarrow> nat" where
  "invocations s i th = count_list (bs_stack s th) (Handler i)"

definition bus_ok :: "bus_state \<Rightarrow> bool" where
  "bus_ok s \<longleftrightarrow>
     (\<forall>i e. eb_entries (bs_bus s) i = Some e \<longrightarrow> i < eb_nextId (bs_bus s) \<and> be_inFlight e = length (be_running e) \<and>
        (\<forall>th. count_list (be_running e) th = invocations s i th)) \<and>
     (\<forall>i th. eb_entries (bs_bus s) i = None \<longrightarrow> invocations s i th = 0) \<and>
     (\<forall>i th. Unsubscribing i \<in> set (bs_stack s th) \<longrightarrow>
        (\<exists>e. eb_entries (bs_bus s) i = Some e \<and> be_removed e))"

lemma start_bus_ok: "bus_ok start_bus"
  by (simp add: bus_ok_def start_bus_def empty_bus_def invocations_def)

lemma bus_okD:
  assumes "bus_ok s"
  shows "eb_entries (bs_bus s) i = Some e \<Longrightarrow> i < eb_nextId (bs_bus s)"
    and "eb_entries (bs_bus s) i = Some e \<Longrightarrow> be_inFlight e = length (be_running e)"
    and "eb_entries (bs_bus s) i = Some e \<Longrightarrow> count_list (be_running e) th = invocations s i th"
    and "eb_entries (bs_bus s) i = None \<Longrightarrow> invocations s i th = 0"
    and "Unsubscribing i \<in> set (bs_stack s th) \<Longrightarrow> \<exists>e. eb_entries (bs_bus s) i = Some e \<and> be_removed e"
  using assms unfolding bus_ok_def by blast+

lemma bus_okI:
  assumes "\<And>i e. eb_entries (bs_bus s) i = Some e \<Longrightarrow> i < eb_nextId (bs_bus s)"
    and "\<And>i e. eb_entries (bs_bus s) i = Some e \<Longrightarrow> be_inFlight e = length (be_running e)"
    and "\<And>i e th. eb_entries (bs_bus s) i = Some e \<Longrightarrow> count_list (be_running e) th = invocations s i th"
    and "\<And>i th. eb_entries (bs_bus s) i = None \<Longrightarrow> invocations s i th = 0"
    and "\<And>i th. Unsubscribing i \<in> set (bs_stack s th) \<Longrightarrow> \<exists>e. eb_entries (bs_bus s) i = Some e \<and> be_removed e"
  shows "bus_ok s"
  using assms unfolding bus_ok_def by blast

lemma count_list_remove1: "count_list (remove1 x xs) y = count_list xs y - (if x = y then 1 else 0)"
  by (induction xs) auto

lemma count_list_snoc [simp]: "count_list (xs @ [x]) y = count_list xs y + (if x = y then 1 else 0)"
  by (induction xs) auto

lemma running_iff: "bus_ok s \<Longrightarrow> eb_entries (bs_bus s) i = Some e \<Longrightarrow>
    th \<in> set (be_running e) \<longleftrightarrow> Handler i \<in> set (bs_stack s th)"
  using bus_okD(3) [of s i e th] by (metis count_list_0_iff invocations_def)

text \<open>Leaving a handler.\<close>

lemma leave_ok:
  assumes ok: "bus_ok s" and st: "bs_stack s th = Handler i # gs @ fs" "\<And>j. Handler j \<notin> set gs" "\<And>j. Unsubscribing j \<notin> set gs"
  shows "bus_ok (s\<lparr>bs_bus := eb_endInvoke th i (bs_bus s), bs_stack := (bs_stack s)(th := fs)\<rparr>)"
proof -
  note d = bus_okD [OF ok]
  have inv: "invocations s i th = Suc (count_list fs (Handler i))"
    using st by (simp add: invocations_def count_notin)
  obtain e where e: "eb_entries (bs_bus s) i = Some e"
    using d(4) [of i th] inv by (cases "eb_entries (bs_bus s) i") auto
  have run: "th \<in> set (be_running e)" using running_iff [OF ok e] st(1) by simp
  let ?s = "s\<lparr>bs_bus := eb_endInvoke th i (bs_bus s), bs_stack := (bs_stack s)(th := fs)\<rparr>"
  have b: "eb_entries (bs_bus ?s) = (eb_entries (bs_bus s))(i \<mapsto> e\<lparr>be_inFlight := be_inFlight e - 1, be_running := remove1 th (be_running e)\<rparr>)"
      "eb_nextId (bs_bus ?s) = eb_nextId (bs_bus s)"
    by (simp_all add: eb_endInvoke_def e)
  have new: "invocations ?s j t = invocations s j t - (if j = i \<and> t = th then 1 else 0)" for j t
    using st by (auto simp: invocations_def count_notin)
  show ?thesis
  proof (rule bus_okI)
    fix j e' assume a: "eb_entries (bs_bus ?s) j = Some e'"
    show "j < eb_nextId (bs_bus ?s)" using a b d(1) e by (auto split: if_splits)
    show "be_inFlight e' = length (be_running e')"
      using a b d(2) e run by (auto simp: length_remove1 split: if_splits)
    show "count_list (be_running e') t = invocations ?s j t" for t
      using a b(1) d(3) e unfolding new by (auto simp: count_list_remove1 split: if_splits)
  next
    fix j t assume "eb_entries (bs_bus ?s) j = None"
    then show "invocations ?s j t = 0" using b(1) d(4) unfolding new by (auto split: if_splits)
  next
    fix j t assume "Unsubscribing j \<in> set (bs_stack ?s t)"
    then have "Unsubscribing j \<in> set (bs_stack s t)" using st by (auto split: if_splits)
    from d(5) [OF this] show "\<exists>e. eb_entries (bs_bus ?s) j = Some e \<and> be_removed e"
      unfolding b(1) using e by auto
  qed
qed

text \<open>Frames that are no handlers come and go without a trace, and so does an entry's removal.\<close>

lemma frame_ok:
  assumes ok: "bus_ok s"
    and h: "\<And>t j. count_list (st t) (Handler j) = count_list (bs_stack s t) (Handler j)"
    and u: "\<And>t j. Unsubscribing j \<in> set (st t) \<Longrightarrow> Unsubscribing j \<in> set (bs_stack s t)"
  shows "bus_ok (s\<lparr>bs_stack := st\<rparr>)"
proof (rule bus_okI)
  note d = bus_okD [OF ok]
  have i: "invocations (s\<lparr>bs_stack := st\<rparr>) j t = invocations s j t" for j t by (simp add: invocations_def h)
  fix j e t
  show "\<exists>e. eb_entries (bs_bus (s\<lparr>bs_stack := st\<rparr>)) j = Some e \<and> be_removed e"
    if "Unsubscribing j \<in> set (bs_stack (s\<lparr>bs_stack := st\<rparr>) t)"
    using d(5) [OF u] that by simp
  show "invocations (s\<lparr>bs_stack := st\<rparr>) j t = 0" if "eb_entries (bs_bus (s\<lparr>bs_stack := st\<rparr>)) j = None"
    unfolding i using d(4) that by simp
  assume "eb_entries (bs_bus (s\<lparr>bs_stack := st\<rparr>)) j = Some e"
  then have e: "eb_entries (bs_bus s) j = Some e" by simp
  show "j < eb_nextId (bs_bus (s\<lparr>bs_stack := st\<rparr>))" "be_inFlight e = length (be_running e)"
    "count_list (be_running e) t = invocations (s\<lparr>bs_stack := st\<rparr>) j t"
    unfolding i using d(1-3) e by simp_all
qed

lemma remove_ok:
  assumes ok: "bus_ok s" and e: "eb_entries (bs_bus s) i = Some e"
    and b: "eb_entries b = (eb_entries (bs_bus s))(i \<mapsto> e\<lparr>be_removed := True\<rparr>)" "eb_nextId b = eb_nextId (bs_bus s)"
    and h: "\<And>t j. count_list (st t) (Handler j) = count_list (bs_stack s t) (Handler j)"
    and u: "\<And>t j. Unsubscribing j \<in> set (st t) \<Longrightarrow> Unsubscribing j \<in> set (bs_stack s t) \<or> j = i"
  shows "bus_ok (s\<lparr>bs_bus := b, bs_stack := st\<rparr>)"
proof (rule bus_okI)
  note d = bus_okD [OF ok]
  let ?s = "s\<lparr>bs_bus := b, bs_stack := st\<rparr>"
  have i: "invocations ?s j t = invocations s j t" for j t by (simp add: invocations_def h)
  fix j e' t
  show "\<exists>e. eb_entries (bs_bus ?s) j = Some e \<and> be_removed e" if "Unsubscribing j \<in> set (bs_stack ?s t)"
    using u [of j t] that d(5) [of j t] b(1) by (cases "j = i") auto
  show "invocations ?s j t = 0" if "eb_entries (bs_bus ?s) j = None"
    unfolding i using d(4) [of j t] that b(1) by (simp split: if_splits)
  assume a: "eb_entries (bs_bus ?s) j = Some e'"
  then obtain e0 where e0: "eb_entries (bs_bus s) j = Some e0" "be_inFlight e' = be_inFlight e0" "be_running e' = be_running e0"
    using b(1) e by (cases "j = i") auto
  show "j < eb_nextId (bs_bus ?s)" using d(1) [OF e0(1)] b(2) by simp
  show "be_inFlight e' = length (be_running e')" using d(2) [OF e0(1)] e0 by simp
  show "count_list (be_running e') t = invocations ?s j t" unfolding i using d(3) [OF e0(1)] e0 by simp
qed

lemma eb_unsubscribe_cases:
  assumes "eb_unsubscribe th ty i b = (w, b')"
  shows "b' = b \<and> \<not> w \<or>
    (\<exists>e. eb_entries b i = Some e \<and> eb_entries b' = (eb_entries b)(i \<mapsto> e\<lparr>be_removed := True\<rparr>) \<and>
       eb_nextId b' = eb_nextId b \<and> (w \<longleftrightarrow> th \<notin> set (be_running e)))"
  using assms by (auto simp: eb_unsubscribe_def split: if_splits option.splits)

lemma bus_step_ok:
  assumes "bus_step a s s'" "bus_ok s"
  shows "bus_ok s'"
proof -
  note d = bus_okD [OF assms(2)]
  from assms(1) show ?thesis
  proof cases
    case (subscribe th ty i b)
    then have i: "i = eb_nextId (bs_bus s)" and b: "eb_nextId b = Suc i"
        "eb_entries b = (eb_entries (bs_bus s))(i \<mapsto> \<lparr>be_inFlight = 0, be_running = [], be_removed = False\<rparr>)"
      by (auto simp: eb_subscribe_def Let_def)
    have none: "eb_entries (bs_bus s) i = None" using d(1) [of i] i by (cases "eb_entries (bs_bus s) i") auto
    have same: "invocations s' j t = invocations s j t" for j t using subscribe by (simp add: invocations_def)
    show ?thesis
    proof (rule bus_okI)
      fix j e assume a: "eb_entries (bs_bus s') j = Some e"
      show "j < eb_nextId (bs_bus s')" using a b subscribe d(1) i by (auto simp: less_Suc_eq split: if_splits)
      show "be_inFlight e = length (be_running e)" using a b subscribe d(2) by (auto split: if_splits)
      show "count_list (be_running e) t = invocations s' j t" for t
        using a b(2) subscribe d(3,4) none unfolding same by (auto split: if_splits)
    next
      fix j t assume "eb_entries (bs_bus s') j = None"
      then show "invocations s' j t = 0" using b(2) subscribe d(4) unfolding same by (auto split: if_splits)
    next
      fix j t assume "Unsubscribing j \<in> set (bs_stack s' t)"
      then have "Unsubscribing j \<in> set (bs_stack s t)" using subscribe by simp
      from d(5) [OF this] none show "\<exists>e. eb_entries (bs_bus s') j = Some e \<and> be_removed e"
        using subscribe b(2) by auto
    qed
  next
    case (publish th ty)
    show ?thesis unfolding publish by (rule frame_ok [OF assms(2)]) (auto simp: push_def split: if_splits)
  next
    case (invoke th i "is" fs b)
    then obtain e where e: "eb_entries (bs_bus s) i = Some e" "\<not> be_removed e"
      and b: "eb_entries b = (eb_entries (bs_bus s))(i \<mapsto> e\<lparr>be_inFlight := be_inFlight e + 1, be_running := be_running e @ [th]\<rparr>)"
        "eb_nextId b = eb_nextId (bs_bus s)"
      by (auto simp: eb_beginInvoke_def split: option.splits if_splits)
    have new: "invocations s' j t = invocations s j t + (if j = i \<and> t = th then 1 else 0)" for j t
      using invoke by (auto simp: invocations_def)
    show ?thesis
    proof (rule bus_okI)
      fix j e' assume a: "eb_entries (bs_bus s') j = Some e'"
      show "j < eb_nextId (bs_bus s')" using a b invoke d(1) e by (auto split: if_splits)
      show "be_inFlight e' = length (be_running e')" using a b invoke d(2) e by (auto split: if_splits)
      show "count_list (be_running e') t = invocations s' j t" for t
        using a b(1) invoke d(3) e unfolding new by (auto split: if_splits)
    next
      fix j t assume "eb_entries (bs_bus s') j = None"
      then show "invocations s' j t = 0" using b(1) invoke d(4) unfolding new by (auto split: if_splits)
    next
      fix j t assume "Unsubscribing j \<in> set (bs_stack s' t)"
      then have "Unsubscribing j \<in> set (bs_stack s t)" using invoke by (auto split: if_splits)
      from d(5) [OF this] show "\<exists>e. eb_entries (bs_bus s') j = Some e \<and> be_removed e"
        using invoke b(1) e by auto
    qed
  next
    case (skip th i "is" fs b)
    then have "b = bs_bus s" by (auto simp: eb_beginInvoke_def split: option.splits if_splits)
    then have "s' = s\<lparr>bs_stack := (bs_stack s)(th := Publishing_to is # fs)\<rparr>" using skip by (cases s) simp
    moreover have "bus_ok (s\<lparr>bs_stack := (bs_stack s)(th := Publishing_to is # fs)\<rparr>)"
      by (rule frame_ok [OF assms(2)]) (use skip in \<open>auto split: if_splits\<close>)
    ultimately show ?thesis by simp
  next
    case (published th fs)
    show ?thesis unfolding published(2)
      by (rule frame_ok [OF assms(2)]) (use published in \<open>auto split: if_splits\<close>)
  next
    case (leave th i fs)
    show ?thesis unfolding leave using leave_ok [OF assms(2), of th i "[]" fs] leave by simp
  next
    case (throw th i "is" fs)
    show ?thesis unfolding throw using leave_ok [OF assms(2), of th i "[Publishing_to is]" fs] throw by simp
  next
    case (unsubscribe th ty i b)
    then obtain e where e: "eb_entries (bs_bus s) i = Some e"
        "eb_entries b = (eb_entries (bs_bus s))(i \<mapsto> e\<lparr>be_removed := True\<rparr>)" "eb_nextId b = eb_nextId (bs_bus s)"
      using eb_unsubscribe_cases [of th ty i "bs_bus s" True b] by auto
    show ?thesis unfolding unsubscribe(2)
      by (rule remove_ok [OF assms(2) e]) (auto simp: push_def split: if_splits)
  next
    case (unsubscribe_now th ty i b)
    from eb_unsubscribe_cases [OF unsubscribe_now(4)] show ?thesis
    proof (elim disjE exE conjE)
      assume "b = bs_bus s"
      then have "s' = s" using unsubscribe_now by (cases s) simp
      then show ?thesis using assms(2) by simp
    next
      fix e assume e: "eb_entries (bs_bus s) i = Some e"
        "eb_entries b = (eb_entries (bs_bus s))(i \<mapsto> e\<lparr>be_removed := True\<rparr>)" "eb_nextId b = eb_nextId (bs_bus s)"
      have "bus_ok (s\<lparr>bs_bus := b, bs_stack := bs_stack s\<rparr>)" by (rule remove_ok [OF assms(2) e]) auto
      then show ?thesis using unsubscribe_now by (cases s) simp
    qed
  next
    case (unsubscribed th i fs)
    show ?thesis unfolding unsubscribed(2)
      by (rule frame_ok [OF assms(2)]) (use unsubscribed in \<open>auto split: if_splits\<close>)
  qed
qed

lemma bus_run_ok: "bus_run as s s' \<Longrightarrow> bus_ok s \<Longrightarrow> bus_ok s'"
  by (induction rule: bus_run.induct) (auto intro: bus_step_ok)

text \<open>An entry once removed stays removed, and no step enters its handler again.\<close>

definition removedIn :: "nat \<Rightarrow> bus_state \<Rightarrow> bool" where
  "removedIn i s \<longleftrightarrow> (\<exists>e. eb_entries (bs_bus s) i = Some e \<and> be_removed e)"

lemma removed_step:
  assumes "bus_step a s s'" "bus_ok s" "removedIn i s"
  shows "removedIn i s' \<and> (\<forall>t. invocations s' i t \<le> invocations s i t) \<and> (\<forall>t. a \<noteq> Invoke t i)"
proof -
  obtain e where e: "eb_entries (bs_bus s) i = Some e" "be_removed e" using assms(3) by (auto simp: removedIn_def)
  note next1 = bus_okD(1) [OF assms(2) e(1)]
  have unsub: "removedIn i s'" if "eb_unsubscribe th ty j (bs_bus s) = (w, b)" "bs_bus s' = b" for th ty j w b
    using eb_unsubscribe_cases [OF that(1)] that(2) e by (cases "j = i") (auto simp: removedIn_def)
  have fin: "removedIn i s'" if "bs_bus s' = eb_endInvoke th j (bs_bus s)" for th j
    using that e by (auto simp: removedIn_def eb_endInvoke_def split: option.splits)
  from assms(1) show ?thesis
  proof cases
    case (subscribe th ty j b)
    then show ?thesis using e next1 by (auto simp: removedIn_def invocations_def eb_subscribe_def Let_def)
  next
    case (publish th ty)
    then show ?thesis using assms(3) by (auto simp: removedIn_def invocations_def push_def)
  next
    case (invoke th j "is" fs b)
    have "j \<noteq> i" using invoke(4) e by (auto simp: eb_beginInvoke_def)
    then show ?thesis using invoke e
      by (auto simp: removedIn_def invocations_def eb_beginInvoke_def split: option.splits if_splits)
  next
    case (skip th j "is" fs b)
    then show ?thesis using e
      by (auto simp: removedIn_def invocations_def eb_beginInvoke_def split: option.splits if_splits)
  next
    case (published th fs)
    then show ?thesis using assms(3) by (auto simp: removedIn_def invocations_def)
  next
    case (leave th j fs)
    then show ?thesis using fin [of th j] by (auto simp: invocations_def)
  next
    case (throw th j "is" fs)
    then show ?thesis using fin [of th j] by (auto simp: invocations_def)
  next
    case (unsubscribe th ty j b)
    then show ?thesis using unsub [OF unsubscribe(4)] by (auto simp: invocations_def push_def)
  next
    case (unsubscribe_now th ty j b)
    then show ?thesis using unsub [OF unsubscribe_now(4)] by (auto simp: invocations_def)
  next
    case (unsubscribed th j fs)
    then show ?thesis using assms(3) by (auto simp: removedIn_def invocations_def)
  qed
qed

lemma removed_run:
  assumes "bus_run as s s'" "bus_ok s" "removedIn i s"
  shows "removedIn i s' \<and> (\<forall>t. invocations s' i t \<le> invocations s i t) \<and> (\<forall>t. Invoke t i \<notin> set as)"
  using assms
proof (induction rule: bus_run.induct)
  case (bus_more as s s1 a s2)
  then have ih: "removedIn i s1" "\<And>t. invocations s1 i t \<le> invocations s i t" "\<forall>t. Invoke t i \<notin> set as" by blast+
  from removed_step [OF bus_more.hyps(2) bus_run_ok [OF bus_more.hyps(1) bus_more.prems(1)] ih(1)]
  show ?case using ih(2,3) le_trans by (auto, blast)
qed simp

text \<open>C21: once \<^verbatim>\<open>unsubscribe\<close> has returned from its wait, the handler is running in no thread and never runs
  again, whatever was published before or is published later; and from the moment it is called on
  a subscribed handler, even from inside that handler, no invocation of it starts any more.\<close>

lemma no_call_after_unsubscribe:
  assumes "bus_run as start_bus s" "bus_step a s s1" "bus_run as' s1 s2"
  shows "(a = UnsubscribeReturn th i \<longrightarrow> (\<forall>t. Handler i \<notin> set (bs_stack s2 t)) \<and> (\<forall>t. Invoke t i \<notin> set as')) \<and>
    (a = UnsubscribeCall th ty i \<longrightarrow> i \<in> set (eb_handlers (bs_bus s) ty) \<longrightarrow> eb_entries (bs_bus s) i \<noteq> None \<longrightarrow>
       (\<forall>t. Invoke t i \<notin> set as'))"
proof -
  have ok: "bus_ok s" by (rule bus_run_ok [OF assms(1) start_bus_ok])
  have ok1: "bus_ok s1" by (rule bus_step_ok [OF assms(2) ok])
  have ret: "(\<forall>t. Handler i \<notin> set (bs_stack s2 t)) \<and> (\<forall>t. Invoke t i \<notin> set as')" if "a = UnsubscribeReturn th i"
  proof -
    have "bus_step (UnsubscribeReturn th i) s s1" using assms(2) that by simp
    then obtain fs where f: "bs_stack s th = Unsubscribing i # fs" "eb_drained i (bs_bus s)"
        "s1 = s\<lparr>bs_stack := (bs_stack s)(th := fs)\<rparr>"
      by cases auto
    obtain e where e: "eb_entries (bs_bus s) i = Some e" "be_removed e"
      using bus_okD(5) [OF ok, of i th] f(1) by auto
    have "be_running e = []" using f(2) e(1) bus_okD(2) [OF ok e(1)] by (simp add: eb_drained_def)
    then have z0: "invocations s i t = 0" for t using bus_okD(3) [OF ok e(1), of t] by simp
    have z: "invocations s1 i t = 0" for t
      using z0 [of t] f by (cases "t = th") (simp_all add: invocations_def)
    have "removedIn i s1" using e f(3) by (simp add: removedIn_def)
    from removed_run [OF assms(3) ok1 this] z show ?thesis by (auto simp: invocations_def count_list_0_iff)
  qed
  have call: "\<forall>t. Invoke t i \<notin> set as'"
    if "a = UnsubscribeCall th ty i" "i \<in> set (eb_handlers (bs_bus s) ty)" "eb_entries (bs_bus s) i \<noteq> None"
  proof -
    have "bus_step (UnsubscribeCall th ty i) s s1" using assms(2) that(1) by simp
    then have "removedIn i s1"
      by cases (use that in \<open>auto simp: removedIn_def eb_unsubscribe_def split: if_splits\<close>)
    from removed_run [OF assms(3) ok1 this] show ?thesis by blast
  qed
  from ret call show ?thesis by blast
qed

text \<open>Thread 1 publishes and is in the handler when thread 2 unsubscribes it.\<close>

lemma no_call_after_unsubscribe_witness:
  "\<exists>s s1 as. bus_run as start_bus s \<and> Invoke 1 1 \<in> set as \<and> bus_step (UnsubscribeReturn 2 1) s s1 \<and>
     (\<forall>t. Handler 1 \<notin> set (bs_stack s1 t))"
proof -
  define b1 where "b1 = snd (eb_subscribe 0 empty_bus)"
  define s1 where "s1 = start_bus\<lparr>bs_bus := b1\<rparr>"
  define s2 where "s2 = s1\<lparr>bs_stack := push 1 (Publishing_to [1]) (bs_stack s1)\<rparr>"
  define b3 where "b3 = snd (eb_beginInvoke 1 1 b1)"
  define s3 where "s3 = s2\<lparr>bs_bus := b3, bs_stack := (bs_stack s2)(1 := Handler 1 # Publishing_to [] # [])\<rparr>"
  define b4 where "b4 = snd (eb_unsubscribe 2 0 1 b3)"
  define s4 where "s4 = s3\<lparr>bs_bus := b4, bs_stack := push 2 (Unsubscribing 1) (bs_stack s3)\<rparr>"
  define s5 where "s5 = s4\<lparr>bs_bus := eb_endInvoke 1 1 b4, bs_stack := (bs_stack s4)(1 := Publishing_to [] # [])\<rparr>"
  define s6 where "s6 = s5\<lparr>bs_stack := (bs_stack s5)(2 := [])\<rparr>"
  note defs = b1_def b3_def b4_def s1_def s2_def s3_def s4_def s5_def start_bus_def empty_bus_def eb_subscribe_def
    eb_beginInvoke_def eb_unsubscribe_def eb_endInvoke_def eb_targets_def push_def
  have r1: "bus_step (Subscribe 1 1) start_bus s1"
    unfolding s1_def b1_def by (rule bus_step.subscribe [of _ _ 0]) (simp_all add: defs)
  have "bus_step (PublishTo 1 0) s1 (s1\<lparr>bs_stack := push 1 (Publishing_to (eb_targets 0 (bs_bus s1))) (bs_stack s1)\<rparr>)"
    by (rule bus_step.publish) (simp add: defs)
  then have r2: "bus_step (PublishTo 1 0) s1 s2" unfolding s2_def by (simp add: defs)
  have r3: "bus_step (Invoke 1 1) s2 s3"
    unfolding s3_def by (rule bus_step.invoke [of _ _ _ "[]"]) (simp_all add: defs)
  have r4: "bus_step (UnsubscribeCall 2 0 1) s3 s4"
    unfolding s4_def by (rule bus_step.unsubscribe) (simp_all add: defs)
  have "bus_step (Return 1 1) s4 (s4\<lparr>bs_bus := eb_endInvoke 1 1 (bs_bus s4), bs_stack := (bs_stack s4)(1 := Publishing_to [] # [])\<rparr>)"
    by (rule bus_step.leave) (simp add: defs)
  then have r5: "bus_step (Return 1 1) s4 s5" unfolding s5_def by (simp add: s4_def)
  have r6: "bus_step (UnsubscribeReturn 2 1) s5 s6"
    unfolding s6_def by (rule bus_step.unsubscribed) (simp_all add: defs eb_drained_def)
  have run: "bus_run ((((([] @ [Subscribe 1 1]) @ [PublishTo 1 0]) @ [Invoke 1 1]) @ [UnsubscribeCall 2 0 1]) @ [Return 1 1]) start_bus s5"
    by (rule bus_run.bus_more [OF bus_run.bus_more [OF bus_run.bus_more [OF bus_run.bus_more
          [OF bus_run.bus_more [OF bus_run.bus_none r1] r2] r3] r4] r5])
  have "\<forall>t. Handler 1 \<notin> set (bs_stack s6 t)"
    using no_call_after_unsubscribe [OF run r6 bus_run.bus_none, of 2 1] by blast
  then show ?thesis using run r6 by (intro exI conjI) (assumption | simp)+
qed

end
