(* ===== verification/Task_Scheduler.thy ===== *)
theory Task_Scheduler
  imports Prelude "HOL-Library.Multiset"
begin

text \<open>
  \<^verbatim>\<open>core/src/task_scheduler.cpp\<close>: the thread pool that runs the facade's tasks. The queue and the
  stop flag are what the mutex guards; a worker is between two jobs, running one, or gone. A job is a
  \<^verbatim>\<open>packaged_task\<close>, so what it throws ends in its future and never in the worker. The section on runs
  shows that the destructor, which waits for every worker, returns only after every accepted job has run.
\<close>

section \<open>State and operations\<close>

datatype 'j worker = Idle | Running 'j | Left

record 'j pool =
  tp_queue :: "'j list"
  tp_stopping :: bool
  tp_workers :: "'j worker list"

definition defaultThreadCount :: "nat \<Rightarrow> nat" where
  "defaultThreadCount hardware = (if hardware = 0 then 2 else max 2 hardware)"

definition new_pool :: "nat \<Rightarrow> 'j pool" where
  "new_pool threadCount =
     (let n = (if threadCount = 0 then 1 else threadCount)
      in \<lparr>tp_queue = [], tp_stopping = False, tp_workers = replicate n Idle\<rparr>)"

text \<open>\<^verbatim>\<open>submit\<close> throws once the pool is stopping.\<close>

definition tp_submit :: "'j \<Rightarrow> 'j pool \<Rightarrow> string + 'j pool" where
  "tp_submit j p =
     (if tp_stopping p then Inl ''TaskScheduler is stopping''
      else Inr (p\<lparr>tp_queue := tp_queue p @ [j]\<rparr>))"

definition tp_stop :: "'j pool \<Rightarrow> 'j pool" where
  "tp_stop p = p\<lparr>tp_stopping := True\<rparr>"

text \<open>One turn of \<^verbatim>\<open>workerLoop\<close> under the lock: \<open>None\<close> while the worker waits.\<close>

definition tp_take :: "'j pool \<Rightarrow> ('j worker \<times> 'j pool) option" where
  "tp_take p =
     (case tp_queue p of
        [] \<Rightarrow> if tp_stopping p then Some (Left, p) else None
      | job # rest \<Rightarrow> Some (Running job, p\<lparr>tp_queue := rest\<rparr>))"

fun gone :: "'j worker \<Rightarrow> bool" where
  "gone Left = True"
| "gone _ = False"

lemma gone_iff [simp]: "gone w \<longleftrightarrow> w = Left"
  by (cases w) simp_all

definition tp_joined :: "'j pool \<Rightarrow> bool" where
  "tp_joined p \<longleftrightarrow> list_all gone (tp_workers p)"

section \<open>Runs\<close>

datatype 'j pool_action = Submit 'j | Stop | Take nat "'j worker" | Finish nat 'j

inductive pool_step :: "'j pool_action \<Rightarrow> 'j pool \<Rightarrow> 'j pool \<Rightarrow> bool" where
  submit: "tp_submit j p = Inr p' \<Longrightarrow> pool_step (Submit j) p p'"
| stop: "pool_step Stop p (tp_stop p)"
| take_job: "i < length (tp_workers p) \<Longrightarrow> tp_workers p ! i = Idle \<Longrightarrow> tp_take p = Some (w, p') \<Longrightarrow>
    pool_step (Take i w) p (p'\<lparr>tp_workers := (tp_workers p')[i := w]\<rparr>)"
| finish: "i < length (tp_workers p) \<Longrightarrow> tp_workers p ! i = Running j \<Longrightarrow>
    pool_step (Finish i j) p (p\<lparr>tp_workers := (tp_workers p)[i := Idle]\<rparr>)"

inductive_cases pool_stepE: "pool_step a p p'"

inductive pool_run :: "'j pool_action list \<Rightarrow> 'j pool \<Rightarrow> 'j pool \<Rightarrow> bool" where
  nothing: "pool_run [] p p"
| more: "pool_run as p p1 \<Longrightarrow> pool_step a p1 p' \<Longrightarrow> pool_run (as @ [a]) p p'"

fun accepted :: "'j pool_action list \<Rightarrow> 'j list" where
  "accepted [] = []"
| "accepted (Submit j # as) = j # accepted as"
| "accepted (_ # as) = accepted as"

fun started :: "'j pool_action list \<Rightarrow> 'j list" where
  "started [] = []"
| "started (Take i (Running j) # as) = j # started as"
| "started (_ # as) = started as"

fun finished :: "'j pool_action list \<Rightarrow> 'j list" where
  "finished [] = []"
| "finished (Finish i j # as) = j # finished as"
| "finished (_ # as) = finished as"

lemma accepted_append [simp]: "accepted (xs @ ys) = accepted xs @ accepted ys"
  by (induction xs rule: accepted.induct) simp_all

lemma started_append [simp]: "started (xs @ ys) = started xs @ started ys"
  by (induction xs rule: started.induct) simp_all

lemma finished_append [simp]: "finished (xs @ ys) = finished xs @ finished ys"
  by (induction xs rule: finished.induct) simp_all

fun jobOf :: "'j worker \<Rightarrow> 'j multiset" where
  "jobOf (Running j) = {#j#}"
| "jobOf _ = {#}"

definition inHand :: "'j worker list \<Rightarrow> 'j multiset" where
  "inHand ws = sum_list (map jobOf ws)"

lemma inHand_update: "i < length ws \<Longrightarrow> inHand (ws[i := w]) + jobOf (ws ! i) = inHand ws + jobOf w"
proof (induction ws arbitrary: i)
  case (Cons v ws)
  show ?case
  proof (cases i)
    case (Suc k)
    with Cons have "inHand (ws[k := w]) + jobOf (ws ! k) = inHand ws + jobOf w" by simp
    with Suc show ?thesis by (simp add: inHand_def ac_simps)
  qed (simp add: inHand_def ac_simps)
qed (simp add: inHand_def)

definition pool_ok :: "'j pool_action list \<Rightarrow> 'j pool \<Rightarrow> bool" where
  "pool_ok as p \<longleftrightarrow>
     accepted as = started as @ tp_queue p \<and>
     mset (started as) = mset (finished as) + inHand (tp_workers p) \<and>
     tp_workers p \<noteq> [] \<and>
     (Left \<in> set (tp_workers p) \<longrightarrow> tp_stopping p \<and> tp_queue p = [])"

lemma pool_okI:
  assumes "accepted as = started as @ tp_queue p" "mset (started as) = mset (finished as) + inHand (tp_workers p)"
    and "tp_workers p \<noteq> []" "Left \<in> set (tp_workers p) \<Longrightarrow> tp_stopping p \<and> tp_queue p = []"
  shows "pool_ok as p"
  using assms by (simp add: pool_ok_def)

lemma pool_okD:
  assumes "pool_ok as p"
  shows "accepted as = started as @ tp_queue p" "mset (started as) = mset (finished as) + inHand (tp_workers p)"
    and "tp_workers p \<noteq> []" "Left \<in> set (tp_workers p) \<Longrightarrow> tp_stopping p \<and> tp_queue p = []"
  using assms by (simp_all add: pool_ok_def)

lemma tp_take_cases:
  assumes "tp_take p = Some (w, p')"
  obtains (gone) "w = Left" "p' = p" "tp_queue p = []" "tp_stopping p"
    | (job) j where "w = Running j" "p' = p\<lparr>tp_queue := tl (tp_queue p)\<rparr>" "tp_queue p = j # tl (tp_queue p)"
  using assms by (auto simp: tp_take_def split: list.splits if_splits)

lemma pool_ok_step:
  assumes "pool_step a p p'" and ok: "pool_ok as p"
  shows "pool_ok (as @ [a]) p'"
  using assms(1)
proof (cases rule: pool_step.cases)
  case (submit j)
  then have "\<not> tp_stopping p" "p' = p\<lparr>tp_queue := tp_queue p @ [j]\<rparr>" by (auto simp: tp_submit_def split: if_splits)
  with submit(1) pool_okD [OF ok] show ?thesis by (intro pool_okI) auto
next
  case stop
  with pool_okD [OF ok] show ?thesis by (intro pool_okI) (auto simp: tp_stop_def)
next
  case (take_job i w p1)
  note up = inHand_update [OF take_job(3), of w]
  from take_job(5) show ?thesis
  proof (cases rule: tp_take_cases)
    case gone
    with take_job up pool_okD [OF ok] show ?thesis by (intro pool_okI) auto
  next
    case (job j)
    then have "Left \<notin> set (tp_workers p)" using pool_okD(4) [OF ok] by force
    then have left: "Left \<notin> set ((tp_workers p)[i := w])" using job(1) by (auto dest: set_update_subset_insert [THEN subsetD])
    from job(3) pool_okD(1) [OF ok] have acc: "accepted as = (started as @ [j]) @ tl (tp_queue p)" by simp
    from take_job job up have up': "inHand ((tp_workers p)[i := w]) = inHand (tp_workers p) + {#j#}" by simp
    show ?thesis
      using take_job job up' acc left pool_okD(2,3) [OF ok] by (intro pool_okI) (auto simp: ac_simps)
  qed
next
  case (finish i j)
  have "inHand ((tp_workers p)[i := Idle]) + {#j#} = inHand (tp_workers p)"
    using inHand_update [OF finish(3), of Idle] finish(4) by simp
  moreover have "set ((tp_workers p)[i := Idle]) \<subseteq> insert Idle (set (tp_workers p))" by (rule set_update_subset_insert)
  ultimately show ?thesis using finish pool_okD [OF ok]
    by (intro pool_okI) (auto simp: ac_simps)
qed

lemma sum_list_replicate_empty: "sum_list (replicate n {#}) = {#}"
  by (induction n) simp_all

lemma pool_ok_new: "pool_ok [] (new_pool n)"
  by (rule pool_okI) (auto simp: new_pool_def Let_def inHand_def sum_list_replicate_empty)

lemma pool_ok_run: "pool_run as p p' \<Longrightarrow> p = new_pool n \<Longrightarrow> pool_ok as p'"
  by (induction rule: pool_run.induct) (auto simp: pool_ok_new intro: pool_ok_step)

lemma inHand_joined: "tp_joined p \<Longrightarrow> inHand (tp_workers p) = {#}"
proof -
  have "list_all gone ws \<Longrightarrow> inHand ws = {#}" for ws :: "'a worker list"
    by (induction ws) (auto simp: inHand_def)
  then show "tp_joined p \<Longrightarrow> inHand (tp_workers p) = {#}" by (simp add: tp_joined_def)
qed

lemma joined_empty:
  assumes "pool_ok as p" "tp_joined p"
  shows "tp_queue p = []"
proof -
  have "tp_workers p \<noteq> []" by (rule pool_okD [OF assms(1)])
  then obtain w where "w \<in> set (tp_workers p)" by (cases "tp_workers p") auto
  moreover from this assms(2) have "w = Left" by (simp add: tp_joined_def list_all_iff)
  ultimately show ?thesis using pool_okD(4) [OF assms(1)] by blast
qed

text \<open>What the pool still has to do before its destructor returns; every worker step lowers it.\<close>

fun workerCost :: "'j worker \<Rightarrow> nat" where
  "workerCost Idle = 1"
| "workerCost (Running j) = 2"
| "workerCost Left = 0"

definition workLeft :: "'j pool \<Rightarrow> nat" where
  "workLeft p = 2 * length (tp_queue p) + sum_list (map workerCost (tp_workers p))"

lemma workLeft_update: "i < length ws \<Longrightarrow>
  sum_list (map workerCost (ws[i := w])) + workerCost (ws ! i) = sum_list (map workerCost ws) + workerCost w"
proof (induction ws arbitrary: i)
  case (Cons v ws)
  then show ?case by (cases i) (auto simp: ac_simps)
qed simp

lemma worker_progress:
  assumes "tp_stopping p" "\<not> tp_joined p"
  shows "\<exists>a p'. pool_step a p p' \<and> workLeft p' < workLeft p \<and> (a \<noteq> Stop \<and> (\<forall>j. a \<noteq> Submit j))"
proof -
  from assms(2) obtain i where i: "i < length (tp_workers p)" "tp_workers p ! i \<noteq> Left"
    by (auto simp: tp_joined_def list_all_length)
  then consider (run) j where "tp_workers p ! i = Running j" | (idle) "tp_workers p ! i = Idle"
    by (cases "tp_workers p ! i") auto
  then show ?thesis
  proof cases
    case run
    have "workLeft (p\<lparr>tp_workers := (tp_workers p)[i := Idle]\<rparr>) < workLeft p"
      using workLeft_update [OF i(1), of Idle] run by (simp add: workLeft_def)
    with pool_step.finish [OF i(1) run] show ?thesis by blast
  next
    case idle
    from assms(1) obtain w p1 where t: "tp_take p = Some (w, p1)" by (cases "tp_queue p") (auto simp: tp_take_def)
    have "workLeft (p1\<lparr>tp_workers := (tp_workers p1)[i := w]\<rparr>) < workLeft p"
      using t
    proof (cases rule: tp_take_cases)
      case gone
      then show ?thesis using workLeft_update [OF i(1), of Left] idle by (simp add: workLeft_def)
    next
      case (job j)
      have "length (tp_queue p) = Suc (length (tl (tp_queue p)))" by (subst job(3)) simp
      with job workLeft_update [OF i(1), of "Running j"] idle show ?thesis by (simp add: workLeft_def)
    qed
    with pool_step.take_job [OF i(1) idle t] show ?thesis by blast
  qed
qed

section \<open>Every job runs\<close>

text \<open>C29: However submitters, workers and the destructor interleave: jobs are started in the order in which
  \<^verbatim>\<open>submit\<close> accepted them, each accepted job is finished once, in hand, or still queued; once the workers
  are joined every accepted job is finished; and while the pool is stopping and not joined some worker can
  make a step that lowers what is left, so the destructor returns if the jobs do.\<close>

theorem every_job_runs:
  assumes "pool_run as (new_pool n) p"
  shows "accepted as = started as @ tp_queue p \<and>
    mset (accepted as) = mset (finished as) + inHand (tp_workers p) + mset (tp_queue p) \<and>
    (tp_joined p \<longrightarrow> mset (finished as) = mset (accepted as)) \<and>
    (tp_stopping p \<and> \<not> tp_joined p \<longrightarrow>
       (\<exists>a p'. pool_step a p p' \<and> workLeft p' < workLeft p \<and> (a \<noteq> Stop \<and> (\<forall>j. a \<noteq> Submit j))))"
proof -
  have ok: "pool_ok as p" using pool_ok_run assms by blast
  have m: "mset (accepted as) = mset (finished as) + inHand (tp_workers p) + mset (tp_queue p)"
    using pool_okD(1,2) [OF ok] by (metis mset_append)
  have "tp_joined p \<Longrightarrow> mset (finished as) = mset (accepted as)"
    using m inHand_joined joined_empty [OF ok] by simp
  with m pool_okD(1) [OF ok] worker_progress show ?thesis by blast
qed

lemma every_job_runs_witness:
  "mset (finished [Submit ''a'', Stop, Take 0 (Running ''a''), Finish 0 ''a'', Take 0 Left]) = {#''a''#}"
proof -
  let ?j = "''a''"
  let ?p0 = "new_pool 1"
  have 1: "pool_step (Submit ?j) ?p0 (?p0\<lparr>tp_queue := [?j]\<rparr>)"
    by (rule pool_step.submit) (simp add: tp_submit_def new_pool_def)
  let ?p1 = "?p0\<lparr>tp_queue := [?j]\<rparr>"
  have 2: "pool_step Stop ?p1 (tp_stop ?p1)" by (rule pool_step.stop)
  let ?p2 = "tp_stop ?p1"
  have 3: "pool_step (Take 0 (Running ?j)) ?p2 (?p2\<lparr>tp_queue := [], tp_workers := [Running ?j]\<rparr>)"
    using pool_step.take_job [of 0 ?p2 "Running ?j" "?p2\<lparr>tp_queue := []\<rparr>"]
    by (simp add: tp_take_def tp_stop_def new_pool_def)
  let ?p3 = "?p2\<lparr>tp_queue := [], tp_workers := [Running ?j]\<rparr>"
  have 4: "pool_step (Finish 0 ?j) ?p3 (?p3\<lparr>tp_workers := [Idle]\<rparr>)"
    using pool_step.finish [of 0 ?p3 ?j] by simp
  let ?p4 = "?p3\<lparr>tp_workers := [Idle]\<rparr>"
  have 5: "pool_step (Take 0 Left) ?p4 (?p4\<lparr>tp_workers := [Left]\<rparr>)"
    using pool_step.take_job [of 0 ?p4 Left ?p4] by (simp add: tp_take_def tp_stop_def new_pool_def)
  have "pool_run [Submit ?j, Stop, Take 0 (Running ?j), Finish 0 ?j, Take 0 Left] ?p0 (?p4\<lparr>tp_workers := [Left]\<rparr>)"
    using pool_run.more [OF pool_run.more [OF pool_run.more [OF pool_run.more [OF pool_run.more [OF pool_run.nothing 1] 2] 3] 4] 5] by simp
  from every_job_runs [OF this] show ?thesis by (simp add: tp_joined_def)
qed

end
