(* ===== verification/Backend_Status.thy ===== *)
theory Backend_Status
  imports Status_Line Snapshot_Presentation
begin

text \<open>
  \<^verbatim>\<open>app/src/backend_status_vm.cpp\<close>: the availability of the three backends, observed at every poll
  and logged once per transition. The arrays indexed by the enumeration are functions of it, and the
  log is the list of its lines. The second part shows when a line is written and that a sentence for
  the user never depends on the raw diagnostic.
\<close>

section \<open>Notes\<close>

definition kAllBackends :: "backend_id list" where
  "kAllBackends = [Devmgrd, Fwupd, Dkms]"

record backend_note =
  bn_backend :: backend_id
  bn_kind :: unavailability_kind
  bn_text :: string
  bn_diagnostic :: string
  bn_role :: status_severity

definition noteRole :: "unavailability_kind \<Rightarrow> bool \<Rightarrow> status_severity" where
  "noteRole kind blocksAttemptedVerb =
     (if blocksAttemptedVerb then SevWarning
      else case kind of
        Unreachable \<Rightarrow> SevWarning
      | NotPermitted \<Rightarrow> SevWarning
      | Absent \<Rightarrow> SevInfo
      | UnsupportedKind \<Rightarrow> SevInfo)"

fun logName :: "backend_id \<Rightarrow> string" where
  "logName Devmgrd = ''devmgrd''"
| "logName Fwupd = ''fwupd''"
| "logName Dkms = ''dkms''"

fun kindLabel :: "unavailability_kind \<Rightarrow> string" where
  "kindLabel Absent = ''absent''"
| "kindLabel Unreachable = ''unreachable''"
| "kindLabel NotPermitted = ''not permitted''"
| "kindLabel UnsupportedKind = ''unsupported''"

definition makeNote :: "backend_id \<Rightarrow> unavailability_kind \<Rightarrow> string \<Rightarrow> bool \<Rightarrow> backend_note" where
  "makeNote backend kind diagnostic blocksAttemptedVerb =
     \<lparr>bn_backend = backend, bn_kind = kind, bn_text = unavailabilityText backend kind,
      bn_diagnostic = diagnostic, bn_role = noteRole kind blocksAttemptedVerb\<rparr>"

definition diagnosticLines :: "backend_note list \<Rightarrow> string list" where
  "diagnosticLines notes =
     map (\<lambda>note. backendName (bn_backend note) @ '': '' @
        (if bn_diagnostic note = [] then ''no detail reported'' else bn_diagnostic note)) notes"

section \<open>Observations\<close>

record backend_entry =
  bke_kind :: unavailability_kind
  bke_diagnostic :: string

record backend_status =
  bk_entries :: "backend_id \<Rightarrow> backend_entry option"
  bk_logged :: "backend_id \<Rightarrow> unavailability_kind option"
  bk_log :: "string list"

definition unobserved :: backend_status where
  "unobserved = \<lparr>bk_entries = (\<lambda>_. None), bk_logged = (\<lambda>_. None), bk_log = []\<rparr>"

definition warnLine :: "backend_id \<Rightarrow> error \<Rightarrow> string" where
  "warnLine backend e =
     logName backend @ '' unavailable ('' @ kindLabel (kindFor (err_code e)) @ ''): '' @ err_message e"

definition bk_observe :: "backend_id \<Rightarrow> error option \<Rightarrow> backend_status \<Rightarrow> backend_status" where
  "bk_observe backend err st =
     (case err of
        None \<Rightarrow> st\<lparr>bk_entries := (bk_entries st)(backend := None), bk_logged := (bk_logged st)(backend := None)\<rparr>
      | Some e \<Rightarrow>
          (let kind = kindFor (err_code e);
               transition = (bk_logged st backend \<noteq> Some kind);
               st1 = st\<lparr>bk_entries := (bk_entries st)(backend \<mapsto> \<lparr>bke_kind = kind, bke_diagnostic = err_message e\<rparr>)\<rparr>
           in if \<not> transition then st1
              else st1\<lparr>bk_logged := (bk_logged st)(backend \<mapsto> kind), bk_log := bk_log st @ [warnLine backend e]\<rparr>))"

definition bk_noteFor :: "backend_id \<Rightarrow> bool \<Rightarrow> backend_status \<Rightarrow> backend_note option" where
  "bk_noteFor backend blocksAttemptedVerb st =
     (case bk_entries st backend of
        None \<Rightarrow> None
      | Some e \<Rightarrow> Some (makeNote backend (bke_kind e) (bke_diagnostic e) blocksAttemptedVerb))"

definition bk_notes :: "backend_status \<Rightarrow> backend_note list" where
  "bk_notes st = concat (map (\<lambda>b. case bk_noteFor b False st of None \<Rightarrow> [] | Some n \<Rightarrow> [n]) kAllBackends)"

subsection \<open>Facts\<close>

lemma noteRole_range: "noteRole kind b = (if b \<or> kind = Unreachable \<or> kind = NotPermitted then SevWarning else SevInfo)"
  by (cases kind) (simp_all add: noteRole_def)

lemma bk_observe_None [simp]:
  "bk_entries (bk_observe b None st) = (bk_entries st)(b := None)"
  "bk_logged (bk_observe b None st) = (bk_logged st)(b := None)"
  "bk_log (bk_observe b None st) = bk_log st"
  by (simp_all add: bk_observe_def)

lemma bk_observe_Some [simp]:
  "bk_entries (bk_observe b (Some e) st) =
     (bk_entries st)(b \<mapsto> \<lparr>bke_kind = kindFor (err_code e), bke_diagnostic = err_message e\<rparr>)"
  "bk_logged (bk_observe b (Some e) st) = (bk_logged st)(b \<mapsto> kindFor (err_code e))"
  "bk_log (bk_observe b (Some e) st) =
     bk_log st @ (if bk_logged st b = Some (kindFor (err_code e)) then [] else [warnLine b e])"
  by (auto simp: bk_observe_def Let_def)

section \<open>A run of observations\<close>

text \<open>A run is a list of what was observed of which backend, oldest first. The last kind observed of
  a backend is \<open>None\<close> when it was healthy or never observed.\<close>

definition observeAll :: "(backend_id \<times> error option) list \<Rightarrow> backend_status \<Rightarrow> backend_status" where
  "observeAll os st = foldl (\<lambda>s ob. bk_observe (fst ob) (snd ob) s) st os"

definition kindOf :: "error option \<Rightarrow> unavailability_kind option" where
  "kindOf err = map_option (\<lambda>e. kindFor (err_code e)) err"

definition kindsOf :: "backend_id \<Rightarrow> (backend_id \<times> error option) list \<Rightarrow> unavailability_kind option list" where
  "kindsOf b os = map (\<lambda>ob. kindOf (snd ob)) (filter (\<lambda>ob. fst ob = b) os)"

text \<open>The places where the kind differs from the one before and is a degradation.\<close>

fun degradations :: "unavailability_kind option \<Rightarrow> unavailability_kind option list \<Rightarrow> nat" where
  "degradations prev [] = 0"
| "degradations prev (k # ks) = (if k \<noteq> None \<and> k \<noteq> prev then 1 else 0) + degradations k ks"

definition lastKind :: "backend_id \<Rightarrow> (backend_id \<times> error option) list \<Rightarrow> unavailability_kind option" where
  "lastKind b os = (case rev (kindsOf b os) of [] \<Rightarrow> None | k # _ \<Rightarrow> k)"

lemma degradations_snoc:
  "degradations p (ks @ [k]) =
     degradations p ks + (if k \<noteq> None \<and> k \<noteq> (case rev ks of [] \<Rightarrow> p | k' # _ \<Rightarrow> k') then 1 else 0)"
  by (induction p ks rule: degradations.induct) (auto split: list.splits)

definition linesOf :: "backend_id \<Rightarrow> backend_status \<Rightarrow> nat" where
  "linesOf b st = length (filter (\<lambda>l. starts_with l (logName b @ '' unavailable ('')) (bk_log st))"

lemma warnLine_of:
  "starts_with (warnLine b e) (logName b' @ '' unavailable ('') \<longleftrightarrow> b = b'"
  by (cases b; cases b') (auto simp: warnLine_def starts_with_def)

definition kinds_known :: "(backend_id \<times> error option) list \<Rightarrow> backend_status \<Rightarrow> backend_id \<Rightarrow> bool" where
  "kinds_known os st b \<longleftrightarrow>
     bk_logged st b = lastKind b os \<and> map_option bke_kind (bk_entries st b) = lastKind b os \<and>
     linesOf b st = degradations None (kindsOf b os)"

lemma kindsOf_snoc [simp]:
  "kindsOf b (os @ [ob]) = kindsOf b os @ (if fst ob = b then [kindOf (snd ob)] else [])"
  by (simp add: kindsOf_def)

lemma lastKind_snoc [simp]:
  "lastKind b (os @ [ob]) = (if fst ob = b then kindOf (snd ob) else lastKind b os)"
  by (simp add: lastKind_def)

lemma observe_known:
  assumes "kinds_known os st c"
  shows "kinds_known (os @ [(b, err)]) (bk_observe b err st) c"
proof (cases err)
  case None
  with assms show ?thesis
    by (auto simp: kinds_known_def kindOf_def degradations_snoc linesOf_def)
next
  case (Some e)
  have "linesOf c (bk_observe b err st) = linesOf c st +
      (if c = b \<and> bk_logged st b \<noteq> Some (kindFor (err_code e)) then 1 else 0)"
    using Some by (auto simp: linesOf_def warnLine_of)
  with Some assms show ?thesis
    by (auto simp: kinds_known_def kindOf_def degradations_snoc lastKind_def split: if_splits)
qed

lemma observeAll_known: "kinds_known os (observeAll os unobserved) b"
proof (induction os rule: rev_induct)
  case Nil
  show ?case by (simp add: kinds_known_def observeAll_def unobserved_def kindsOf_def lastKind_def linesOf_def)
next
  case (snoc ob os)
  then show ?case using observe_known [of os _ b "fst ob" "snd ob"] by (simp add: observeAll_def)
qed

lemma bk_notes_map:
  "map g (bk_notes st) = concat (map (\<lambda>b. case bk_noteFor b False st of None \<Rightarrow> [] | Some n \<Rightarrow> [g n]) kAllBackends)"
  by (simp add: bk_notes_def kAllBackends_def split: option.splits)

text \<open>What a surface shows is a function of the kinds alone.\<close>

lemma notes_from_kinds:
  assumes "\<And>b. map_option bke_kind (bk_entries st b) = map_option bke_kind (bk_entries st' b)"
  shows "map (\<lambda>n. (bn_backend n, bn_text n, bn_role n)) (bk_notes st) =
         map (\<lambda>n. (bn_backend n, bn_text n, bn_role n)) (bk_notes st')"
proof -
  have "(case bk_noteFor b False st of None \<Rightarrow> [] | Some n \<Rightarrow> [(bn_backend n, bn_text n, bn_role n)]) =
      (case bk_noteFor b False st' of None \<Rightarrow> [] | Some n \<Rightarrow> [(bn_backend n, bn_text n, bn_role n)])" for b
    using assms [of b] by (cases "bk_entries st b"; cases "bk_entries st' b") (simp_all add: bk_noteFor_def makeNote_def)
  then show ?thesis unfolding bk_notes_map by presburger
qed

text \<open>Whatever is observed and however often: the log has one line of a backend for each time it became
  unavailable or unavailable in another way, and none for a poll that found what the last one found;
  the notes are those of the backends whose last observation was a failure; and the sentences and
  their roles depend on the kinds of the failures only, so that no raw message can reach them.\<close>

theorem availability_reported_once:
  "(\<forall>b. linesOf b (observeAll os unobserved) = degradations None (kindsOf b os)) \<and>
   map bn_backend (bk_notes (observeAll os unobserved)) =
     filter (\<lambda>b. lastKind b os \<noteq> None) kAllBackends \<and>
   (list_all2 (\<lambda>o1 o2. fst o1 = fst o2 \<and> kindOf (snd o1) = kindOf (snd o2)) os os' \<longrightarrow>
     map (\<lambda>n. (bn_backend n, bn_text n, bn_role n)) (bk_notes (observeAll os unobserved)) =
     map (\<lambda>n. (bn_backend n, bn_text n, bn_role n)) (bk_notes (observeAll os' unobserved)))"
proof -
  note k = observeAll_known [of os, unfolded kinds_known_def]
  note k' = observeAll_known [of os', unfolded kinds_known_def]
  have "map bn_backend (bk_notes (observeAll os unobserved)) =
      filter (\<lambda>b. bk_entries (observeAll os unobserved) b \<noteq> None) kAllBackends"
    by (auto simp: bk_notes_def kAllBackends_def bk_noteFor_def makeNote_def split: option.splits)
  moreover have "bk_entries (observeAll os unobserved) b \<noteq> None \<longleftrightarrow> lastKind b os \<noteq> None" for b
    using k [of b] by (cases "bk_entries (observeAll os unobserved) b") (simp_all, metis option.distinct(1))
  moreover have "kindsOf b os = kindsOf b os'"
    if "list_all2 (\<lambda>o1 o2. fst o1 = fst o2 \<and> kindOf (snd o1) = kindOf (snd o2)) os os'" for b
    using that by (induction rule: list_all2_induct) (auto simp: kindsOf_def)
  then have "list_all2 (\<lambda>o1 o2. fst o1 = fst o2 \<and> kindOf (snd o1) = kindOf (snd o2)) os os' \<longrightarrow>
     map (\<lambda>n. (bn_backend n, bn_text n, bn_role n)) (bk_notes (observeAll os unobserved)) =
     map (\<lambda>n. (bn_backend n, bn_text n, bn_role n)) (bk_notes (observeAll os' unobserved))"
    using k k' by (intro impI notes_from_kinds) (simp add: lastKind_def)
  ultimately show ?thesis using k by simp
qed

lemma availability_reported_once_witness:
  "map (\<lambda>n. (bn_backend n, bn_text n, bn_role n))
       (bk_notes (observeAll [(Devmgrd, Some \<lparr>err_code = Io, err_message = ''a''\<rparr>)] unobserved)) =
   map (\<lambda>n. (bn_backend n, bn_text n, bn_role n))
       (bk_notes (observeAll [(Devmgrd, Some \<lparr>err_code = Busy, err_message = ''b''\<rparr>)] unobserved))"
  by (rule availability_reported_once [THEN conjunct2, THEN conjunct2, THEN mp]) (simp add: kindOf_def)

end
