(* ===== verification/Update_Models.thy ===== *)
theory Update_Models
  imports Core_Models
begin

text \<open>
  \<^verbatim>\<open>core/include/devmgr/core/update_models.hpp\<close>: the data of the update providers, and of
  \<^verbatim>\<open>pal/interfaces.hpp\<close> the capabilities of a provider and the facts about the system.
\<close>

datatype install_disposition = Completed | Scheduled | NeedsReboot | NeedsUserAction

record install_outcome =
  io_disposition :: install_disposition
  io_needsReboot :: bool
  io_observedVersion :: "string option"
  io_message :: string

record release_ref =
  ref_remoteId :: string
  ref_checksum :: string

record update_facts =
  uf_updatable :: bool
  uf_supported :: bool
  uf_needsReboot :: bool

record release_info =
  rel_version :: string
  rel_summary :: string
  rel_remoteId :: string
  rel_checksum :: string
  rel_locations :: "string list"
  rel_localCab :: bool
  rel_sizeBytes :: nat
  rel_isUpgrade :: bool
  rel_duration :: "nat option"

definition releaseRef :: "release_info \<Rightarrow> release_ref" where
  "releaseRef r = \<lparr>ref_remoteId = rel_remoteId r, ref_checksum = rel_checksum r\<rparr>"

record update_candidate =
  uc_providerId :: string
  uc_id :: string
  uc_displayName :: string
  uc_currentVersion :: string
  uc_candidateVersion :: "string option"
  uc_facts :: update_facts
  uc_releases :: "release_info list"
  uc_details :: "(string \<times> string) list"

record provider_availability =
  pav_available :: bool
  pav_version :: "string option"
  pav_error :: "error option"
  pav_notices :: "string list"

record provider_state =
  ups_providerId :: string
  ups_availability :: provider_availability
  ups_candidates :: "update_candidate list"
  ups_refreshError :: "error option"

record pending_action =
  pa_providerId :: string
  pa_deviceId :: string
  pa_deviceName :: string
  pa_disposition :: install_disposition
  pa_version :: string

text \<open>\<^verbatim>\<open>UpdateProviderCaps\<close> is a set of bits.\<close>

datatype provider_cap = Query | Install

definition hasCap :: "provider_cap list \<Rightarrow> provider_cap \<Rightarrow> bool" where
  "hasCap caps c = (c \<in> set caps)"

record progress_update =
  pr_percent :: int
  pr_stage :: string

record system_info =
  si_osVersion :: string
  si_kernelVersion :: string
  si_secureBoot :: bool
  si_rebootPending :: bool
  si_lockdownMode :: string

end
