(* ===== verification/Facade.thy ===== *)
theory Facade
  imports Device_Service Backend_Status Update_Models Critical_Guard Json "HOL-Library.Product_Lexorder"
begin

text \<open>
  \<^verbatim>\<open>app/src/application_facade.cpp\<close>: the one surface through which the front ends read and
  change the machine. The seams behind it (enumerator, channel to the helper, prober, driver manager,
  system facts, update providers) are records of functions over a state \<open>'w\<close> of their own, an
  optional one an option. A task that the facade submits to the pool is a function from the facade's
  state to the events it publishes, in order, and the state it leaves. The steps between which another
  task can run are separate functions where the order matters: a refresh first fetches and then
  applies, an observation of the helper writes under two locks, and an install claims its slot before
  it is submitted.
\<close>

section \<open>Seams and state\<close>

record 'w helper =
  pc_setEnabled :: "device \<Rightarrow> bool \<Rightarrow> 'w \<Rightarrow> unit result \<times> 'w"
  pc_loadModule :: "string \<Rightarrow> 'w \<Rightarrow> unit result \<times> 'w"
  pc_unloadModule :: "string \<Rightarrow> 'w \<Rightarrow> unit result \<times> 'w"
  pc_bindDriver :: "device \<Rightarrow> string \<Rightarrow> 'w \<Rightarrow> unit result \<times> 'w"
  pc_unbindDriver :: "device \<Rightarrow> 'w \<Rightarrow> unit result \<times> 'w"
  pc_listDisabled :: "'w \<Rightarrow> disabled_entry list result \<times> 'w"
  pc_snapshotList :: "'w \<Rightarrow> snapshot_meta list result \<times> 'w"
  pc_snapshotCreate :: "string \<Rightarrow> 'w \<Rightarrow> string result \<times> 'w"
  pc_snapshotRestore :: "string \<Rightarrow> 'w \<Rightarrow> restore_outcome result \<times> 'w"
  pc_snapshotDelete :: "string \<Rightarrow> 'w \<Rightarrow> unit result \<times> 'w"
  pc_snapshotDiff :: "string \<Rightarrow> string \<Rightarrow> 'w \<Rightarrow> (jexn + snapshot_diff result) \<times> 'w"

record 'w driver_manager =
  drm_driversFor :: "device \<Rightarrow> 'w \<Rightarrow> driver list result"
  drm_listLoaded :: "'w \<Rightarrow> loaded_module list result"
  drm_moduleInfo :: "string \<Rightarrow> 'w \<Rightarrow> driver result"
  drm_modprobeInfo :: "string \<Rightarrow> 'w \<Rightarrow> modprobe_info result"
  drm_devicesUsing :: "string \<Rightarrow> 'w \<Rightarrow> string list result"

record 'w provider =
  up_id :: string
  up_caps :: "provider_cap list"
  up_availability :: "'w \<Rightarrow> provider_availability"
  up_enumerate :: "'w \<Rightarrow> update_candidate list result"
  up_pending :: "'w \<Rightarrow> pending_action list result"
  up_install :: "string \<Rightarrow> release_ref \<Rightarrow> 'w \<Rightarrow> (progress_update list \<times> install_outcome result) \<times> 'w"

record 'w seams =
  sm_enumerate :: "'w \<Rightarrow> device list result"
  sm_channel :: "'w helper option"
  sm_prober :: "('w \<Rightarrow> criticality_facts result) option"
  sm_drivers :: "'w driver_manager option"
  sm_systemInfo :: "('w \<Rightarrow> system_info result) option"
  sm_providers :: "'w provider list"

type_synonym pending_map = "((string \<times> string) \<times> pending_action) list"

record 'w facade =
  fc_model :: device_model
  fc_updates :: "provider_state list"
  fc_pending :: pending_map
  fc_installActive :: bool
  fc_snapshots :: "snapshot_meta list"
  fc_daemonError :: "error option"
  fc_status :: backend_status
  fc_diff :: "snapshot_diff option"
  fc_lastRestore :: "restore_outcome option"
  fc_world :: 'w

definition new_facade :: "'w \<Rightarrow> 'w facade" where
  "new_facade w = \<lparr>fc_model = [], fc_updates = [], fc_pending = [], fc_installActive = False, fc_snapshots = [],
     fc_daemonError = None, fc_status = unobserved, fc_diff = None, fc_lastRestore = None, fc_world = w\<rparr>"

definition kNoHelper :: string where
  "kNoHelper = ''built without privileged-helper support''"

definition kGone :: string where
  "kGone = ''device no longer present''"

section \<open>What the helper proved about itself\<close>

definition observeError :: "error option \<Rightarrow> 'w facade \<Rightarrow> 'w facade" where
  "observeError err f = f\<lparr>fc_daemonError := err\<rparr>"

definition observeNote :: "error option \<Rightarrow> 'w facade \<Rightarrow> 'w facade" where
  "observeNote err f = f\<lparr>fc_status := bk_observe Devmgrd err (fc_status f)\<rparr>"

definition observeDaemonRead :: "error option \<Rightarrow> 'w facade \<Rightarrow> 'w facade" where
  "observeDaemonRead err f = observeNote err (observeError err f)"

definition observeDaemonReachable :: "'w facade \<Rightarrow> 'w facade" where
  "observeDaemonReachable f = (if fc_daemonError f \<noteq> None then observeDaemonRead None f else f)"

section \<open>Devices\<close>

definition kOverlayFailed :: string where
  "kOverlayFailed = ''Could not refresh devices; showing the previous result.''"

text \<open>The first part of \<^verbatim>\<open>refresh\<close>: nothing to apply when the enumeration fails.\<close>

definition refreshFetch :: "'w seams \<Rightarrow> 'w facade \<Rightarrow> event list \<times> device list option \<times> 'w facade" where
  "refreshFetch sm f =
     (case sm_enumerate sm (fc_world f) of
        Inl e \<Rightarrow> ([ErrorEvent ''enumerate'' (err_message e)], None, f)
      | Inr ds \<Rightarrow>
          (case sm_channel sm of
             None \<Rightarrow> ([], Some ds, f)
           | Some c \<Rightarrow>
               (case pc_listDisabled c (fc_world f) of
                  (Inr disabled, w) \<Rightarrow>
                    ([], Some (applyDisabledOverlay disabled ds), observeDaemonRead None (f\<lparr>fc_world := w\<rparr>))
                | (Inl e, w) \<Rightarrow>
                    ([ErrorEvent ''disabled-overlay'' kOverlayFailed], Some ds,
                     observeDaemonRead (Some e) (f\<lparr>fc_world := w\<rparr>)))))"

definition refreshApply :: "device list option \<Rightarrow> 'w facade \<Rightarrow> event list \<times> 'w facade" where
  "refreshApply fetched f =
     (case fetched of
        None \<Rightarrow> ([], f)
      | Some ds \<Rightarrow> (case applyEnumeration ds (fc_model f) of (evs, m) \<Rightarrow> (evs, f\<lparr>fc_model := m\<rparr>)))"

definition facade_refresh :: "'w seams \<Rightarrow> 'w facade \<Rightarrow> event list \<times> 'w facade" where
  "facade_refresh sm f =
     (case refreshFetch sm f of
        (evs, fetched, f1) \<Rightarrow> apfst ((@) evs) (refreshApply fetched f1))"

definition facade_setDeviceEnabled :: "'w seams \<Rightarrow> device_id \<Rightarrow> bool \<Rightarrow> 'w facade \<Rightarrow> event list \<times> 'w facade" where
  "facade_setDeviceEnabled sm i enabled f =
     (let taskId = ''set-enabled:'' @ i in
      case model_findById (fc_model f) i of
        None \<Rightarrow> ([TaskCompletedEvent taskId False kGone], f)
      | Some d \<Rightarrow>
          (case sm_channel sm of
             None \<Rightarrow> ([TaskCompletedEvent taskId False kNoHelper], f)
           | Some c \<Rightarrow>
               (case pc_setEnabled c d enabled (fc_world f) of
                  (Inr _, w) \<Rightarrow>
                    ([TaskCompletedEvent taskId True ((if enabled then ''Enabled '' else ''Disabled '') @ dev_name d)],
                     observeDaemonReachable (f\<lparr>fc_world := w\<rparr>))
                | (Inl e, w) \<Rightarrow> ([TaskCompletedEvent taskId False (err_message e)], f\<lparr>fc_world := w\<rparr>))))"

definition allowedVerdict :: guard_verdict where
  "allowedVerdict = \<lparr>gv_allowed = True, gv_reason = []\<rparr>"

definition facade_canDisable :: "'w seams \<Rightarrow> device_id \<Rightarrow> 'w facade \<Rightarrow> guard_verdict" where
  "facade_canDisable sm i f =
     (case sm_prober sm of
        None \<Rightarrow> allowedVerdict
      | Some probe \<Rightarrow>
          (case model_findById (fc_model f) i of
             None \<Rightarrow> allowedVerdict
           | Some d \<Rightarrow>
               (case probe (fc_world f) of
                  Inl _ \<Rightarrow> allowedVerdict
                | Inr facts \<Rightarrow> evaluateDisable facts (dev_sysfsPath d))))"

definition facade_criticalityFacts :: "'w seams \<Rightarrow> 'w facade \<Rightarrow> criticality_facts option" where
  "facade_criticalityFacts sm f =
     (case sm_prober sm of
        None \<Rightarrow> None
      | Some probe \<Rightarrow> (case probe (fc_world f) of Inl _ \<Rightarrow> None | Inr facts \<Rightarrow> Some facts))"

section \<open>Drivers and modules\<close>

definition facade_driverInfo :: "'w seams \<Rightarrow> device_id \<Rightarrow> 'w facade \<Rightarrow> driver list" where
  "facade_driverInfo sm i f =
     (case sm_drivers sm of
        None \<Rightarrow> []
      | Some dm \<Rightarrow>
          (case model_findById (fc_model f) i of
             None \<Rightarrow> []
           | Some d \<Rightarrow> (case drm_driversFor dm d (fc_world f) of Inl _ \<Rightarrow> [] | Inr ds \<Rightarrow> ds)))"

definition kNoKmod :: string where
  "kNoKmod = ''built without kmod support''"

definition facade_listModules :: "'w seams \<Rightarrow> 'w facade \<Rightarrow> loaded_module list result" where
  "facade_listModules sm f =
     (case sm_drivers sm of None \<Rightarrow> makeError Unsupported kNoKmod | Some dm \<Rightarrow> drm_listLoaded dm (fc_world f))"

definition facade_moduleDetail :: "'w seams \<Rightarrow> string \<Rightarrow> 'w facade \<Rightarrow> driver result" where
  "facade_moduleDetail sm name f =
     (case sm_drivers sm of None \<Rightarrow> makeError Unsupported kNoKmod | Some dm \<Rightarrow> drm_moduleInfo dm name (fc_world f))"

definition facade_modprobeDetail :: "'w seams \<Rightarrow> string \<Rightarrow> 'w facade \<Rightarrow> modprobe_info result" where
  "facade_modprobeDetail sm name f =
     (case sm_drivers sm of None \<Rightarrow> makeError Unsupported kNoKmod | Some dm \<Rightarrow> drm_modprobeInfo dm name (fc_world f))"

definition facade_systemInfo :: "'w seams \<Rightarrow> 'w facade \<Rightarrow> system_info option" where
  "facade_systemInfo sm f =
     (case sm_systemInfo sm of
        None \<Rightarrow> None
      | Some query \<Rightarrow> (case query (fc_world f) of Inl _ \<Rightarrow> None | Inr info \<Rightarrow> Some info))"

text \<open>The last row of that name in the list gives holders and count.\<close>

definition unloadFacts :: "loaded_module list \<Rightarrow> string \<Rightarrow> module_unload_facts" where
  "unloadFacts loaded name =
     foldl (\<lambda>mf m. if lm_name m \<noteq> name then mf
        else mf\<lparr>muf_holders := lm_holders m, muf_refCount := lm_refCount m\<rparr>)
       \<lparr>muf_affectedDevicePaths = [], muf_holders = [], muf_refCount = 0\<rparr> loaded"

definition facade_canUnloadModule :: "'w seams \<Rightarrow> string \<Rightarrow> 'w facade \<Rightarrow> guard_verdict" where
  "facade_canUnloadModule sm name f =
     (case (sm_drivers sm, sm_prober sm) of
        (Some dm, Some probe) \<Rightarrow>
          (case drm_listLoaded dm (fc_world f) of
             Inl _ \<Rightarrow> allowedVerdict
           | Inr loaded \<Rightarrow>
               (let mf = unloadFacts loaded name;
                    mf1 = (case drm_devicesUsing dm name (fc_world f) of
                             Inr affected \<Rightarrow> mf\<lparr>muf_affectedDevicePaths := affected\<rparr>
                           | Inl _ \<Rightarrow> mf)
                in case probe (fc_world f) of
                     Inl _ \<Rightarrow> allowedVerdict
                   | Inr facts \<Rightarrow> evaluateModuleUnload facts mf1))
      | _ \<Rightarrow> allowedVerdict)"

definition runChannelTask :: "'w seams \<Rightarrow> string \<Rightarrow> string \<Rightarrow> bool
    \<Rightarrow> ('w helper \<Rightarrow> 'w \<Rightarrow> unit result \<times> 'w) \<Rightarrow> 'w facade \<Rightarrow> event list \<times> 'w facade" where
  "runChannelTask sm taskId okMessage modulesChanged call f =
     (case sm_channel sm of
        None \<Rightarrow> ([TaskCompletedEvent taskId False kNoHelper], f)
      | Some c \<Rightarrow>
          (case call c (fc_world f) of
             (Inr _, w) \<Rightarrow>
               (TaskCompletedEvent taskId True okMessage # (if modulesChanged then [ModulesChangedEvent] else []),
                observeDaemonReachable (f\<lparr>fc_world := w\<rparr>))
           | (Inl e, w) \<Rightarrow> ([TaskCompletedEvent taskId False (err_message e)], f\<lparr>fc_world := w\<rparr>)))"

definition facade_loadModule :: "'w seams \<Rightarrow> string \<Rightarrow> 'w facade \<Rightarrow> event list \<times> 'w facade" where
  "facade_loadModule sm name =
     runChannelTask sm (''load-module:'' @ name) (''Loaded module '' @ name) True (\<lambda>c. pc_loadModule c name)"

definition facade_unloadModule :: "'w seams \<Rightarrow> string \<Rightarrow> 'w facade \<Rightarrow> event list \<times> 'w facade" where
  "facade_unloadModule sm name =
     runChannelTask sm (''unload-module:'' @ name) (''Unloaded module '' @ name) True (\<lambda>c. pc_unloadModule c name)"

text \<open>The device is looked up when the verb is called, in \<open>m\<close>, not when its task runs.\<close>

definition facade_bindDriver :: "'w seams \<Rightarrow> device_model \<Rightarrow> device_id \<Rightarrow> string \<Rightarrow> 'w facade \<Rightarrow> event list \<times> 'w facade" where
  "facade_bindDriver sm m i driverName =
     (case model_findById m i of
        None \<Rightarrow> runChannelTask sm (''bind-driver:'' @ i) [] False (\<lambda>c w. (makeError NotFound kGone, w))
      | Some d \<Rightarrow>
          runChannelTask sm (''bind-driver:'' @ i) (''Bound '' @ driverName @ '' to '' @ dev_name d) False
            (\<lambda>c. pc_bindDriver c d driverName))"

definition facade_unbindDriver :: "'w seams \<Rightarrow> device_model \<Rightarrow> device_id \<Rightarrow> 'w facade \<Rightarrow> event list \<times> 'w facade" where
  "facade_unbindDriver sm m i =
     (case model_findById m i of
        None \<Rightarrow> runChannelTask sm (''unbind-driver:'' @ i) [] False (\<lambda>c w. (makeError NotFound kGone, w))
      | Some d \<Rightarrow>
          runChannelTask sm (''unbind-driver:'' @ i) (''Unbound driver from '' @ dev_name d) False
            (\<lambda>c. pc_unbindDriver c d))"

section \<open>Updates\<close>

definition findProvider :: "'w seams \<Rightarrow> string \<Rightarrow> 'w provider option" where
  "findProvider sm providerId = find (\<lambda>p. up_id p = providerId) (sm_providers sm)"

definition lastGoodCandidates :: "string \<Rightarrow> 'w facade \<Rightarrow> update_candidate list" where
  "lastGoodCandidates providerId f =
     (case find (\<lambda>st. ups_providerId st = providerId) (fc_updates f) of
        Some st \<Rightarrow> ups_candidates st
      | None \<Rightarrow> [])"

definition upsertPending :: "pending_action \<Rightarrow> 'w facade \<Rightarrow> 'w facade" where
  "upsertPending act f = f\<lparr>fc_pending := smap_put (pa_providerId act, pa_deviceId act) act (fc_pending f)\<rparr>"

definition erasePendingNotIn :: "string \<Rightarrow> (string \<times> string) list \<Rightarrow> 'w facade \<Rightarrow> 'w facade" where
  "erasePendingNotIn providerId reported f =
     f\<lparr>fc_pending := filter (\<lambda>kv. \<not> (fst (fst kv) = providerId \<and> fst kv \<notin> set reported)) (fc_pending f)\<rparr>"

definition reconcilePending :: "'w provider \<Rightarrow> string \<Rightarrow> bool \<Rightarrow> 'w facade \<Rightarrow> 'w facade" where
  "reconcilePending p providerId enumerateSucceeded f =
     (case up_pending p (fc_world f) of
        Inl _ \<Rightarrow> f
      | Inr pending \<Rightarrow>
          (let owned = map (\<lambda>a. a\<lparr>pa_providerId := providerId\<rparr>) pending;
               reported = map (\<lambda>a. (providerId, pa_deviceId a)) owned;
               f1 = foldl (\<lambda>g a. upsertPending a g) f owned
           in if enumerateSucceeded then erasePendingNotIn providerId reported f1 else f1))"

definition buildProviderState :: "'w provider \<Rightarrow> 'w facade \<Rightarrow> provider_state \<times> 'w facade" where
  "buildProviderState p f =
     (let st = \<lparr>ups_providerId = up_id p, ups_availability = up_availability p (fc_world f),
                ups_candidates = [], ups_refreshError = None\<rparr> in
      if \<not> pav_available (ups_availability st)
      then (st\<lparr>ups_candidates := lastGoodCandidates (up_id p) f\<rparr>, f)
      else (let st1 = (case up_enumerate p (fc_world f) of
                         Inr cs \<Rightarrow> st\<lparr>ups_candidates := cs\<rparr>
                       | Inl e \<Rightarrow> st\<lparr>ups_refreshError := Some e, ups_candidates := lastGoodCandidates (up_id p) f\<rparr>)
            in (st1, reconcilePending p (up_id p) (ups_refreshError st1 = None) f)))"

fun buildProviderStates :: "'w provider list \<Rightarrow> 'w facade \<Rightarrow> provider_state list \<times> 'w facade" where
  "buildProviderStates [] f = ([], f)"
| "buildProviderStates (p # ps) f =
     (case buildProviderState p f of (st, f1) \<Rightarrow> apfst ((#) st) (buildProviderStates ps f1))"

definition refreshUpdates :: "'w seams \<Rightarrow> 'w facade \<Rightarrow> event list \<times> 'w facade" where
  "refreshUpdates sm f =
     (case buildProviderStates (sm_providers sm) f of
        (nxt, f1) \<Rightarrow> ([UpdatesRefreshedEvent], f1\<lparr>fc_updates := nxt\<rparr>))"

text \<open>\<^verbatim>\<open>installUpdate\<close>, the part of the caller: it is answered at once when the slot is taken. When the
  pool refuses the job the slot is released and the exception goes on.\<close>

definition installClaim :: "string \<Rightarrow> 'w facade \<Rightarrow> event list option \<times> 'w facade" where
  "installClaim candidateId f =
     (if fc_installActive f
      then (Some [TaskCompletedEvent (''install-update:'' @ candidateId) False ''another update is already in progress''], f)
      else (None, f\<lparr>fc_installActive := True\<rparr>))"

definition installRelease :: "'w facade \<Rightarrow> 'w facade" where
  "installRelease f = f\<lparr>fc_installActive := False\<rparr>"

text \<open>The part of the worker.\<close>

definition installRun :: "'w seams \<Rightarrow> string \<Rightarrow> string \<Rightarrow> release_ref \<Rightarrow> 'w facade \<Rightarrow> event list \<times> 'w facade" where
  "installRun sm providerId candidateId release f =
     (let taskId = ''install-update:'' @ candidateId in
      case findProvider sm providerId of
        None \<Rightarrow> ([TaskCompletedEvent taskId False (''update provider not found: '' @ providerId)], f)
      | Some p \<Rightarrow>
          if \<not> hasCap (up_caps p) Install
          then ([TaskCompletedEvent taskId False (''provider is status-only: '' @ providerId)], f)
          else
            (case up_install p candidateId release (fc_world f) of
               ((ups, outcome), w) \<Rightarrow>
                 (let f1 = f\<lparr>fc_world := w\<rparr>;
                      progress = map (\<lambda>u. TaskProgressEvent taskId (pr_percent u) (pr_stage u)) ups
                  in case outcome of
                       Inr oc \<Rightarrow>
                         (progress @ [TaskCompletedEvent taskId True (io_message oc), UpdatesChangedEvent],
                          if io_disposition oc \<noteq> Completed
                          then upsertPending \<lparr>pa_providerId = providerId, pa_deviceId = candidateId,
                                 pa_deviceName = candidateId, pa_disposition = io_disposition oc,
                                 pa_version = (case io_observedVersion oc of Some v \<Rightarrow> v | None \<Rightarrow> [])\<rparr> f1
                          else f1)
                     | Inl e \<Rightarrow>
                         (progress @ [TaskCompletedEvent taskId False (err_message e), UpdatesChangedEvent], f1))))"

definition installTask :: "'w seams \<Rightarrow> string \<Rightarrow> string \<Rightarrow> release_ref \<Rightarrow> 'w facade \<Rightarrow> event list \<times> 'w facade" where
  "installTask sm providerId candidateId release f =
     apsnd installRelease (installRun sm providerId candidateId release f)"

definition pendingUpdateActions :: "'w facade \<Rightarrow> pending_action list" where
  "pendingUpdateActions f = map snd (fc_pending f)"

definition rebootPendingEffective :: "'w seams \<Rightarrow> 'w facade \<Rightarrow> bool" where
  "rebootPendingEffective sm f =
     (if list_ex (\<lambda>kv. pa_disposition (snd kv) = NeedsReboot) (fc_pending f) then True
      else case facade_systemInfo sm f of None \<Rightarrow> False | Some info \<Rightarrow> si_rebootPending info)"

section \<open>Snapshots\<close>

definition refreshSnapshots :: "'w seams \<Rightarrow> 'w facade \<Rightarrow> event list \<times> 'w facade" where
  "refreshSnapshots sm f =
     (case sm_channel sm of
        None \<Rightarrow> ([SnapshotsRefreshedEvent], f\<lparr>fc_snapshots := []\<rparr>)
      | Some c \<Rightarrow>
          (case pc_snapshotList c (fc_world f) of
             (Inl e, w) \<Rightarrow>
               ([ErrorEvent ''snapshot-list'' (err_message e), SnapshotsRefreshedEvent],
                observeDaemonRead (Some e) (f\<lparr>fc_world := w\<rparr>))
           | (Inr ms, w) \<Rightarrow>
               ([SnapshotsRefreshedEvent], observeDaemonRead None (f\<lparr>fc_world := w, fc_snapshots := ms\<rparr>))))"

text \<open>An exception that leaves the channel ends the task in its future; nobody is told.\<close>

definition refreshSnapshotDiff :: "'w seams \<Rightarrow> string \<Rightarrow> string \<Rightarrow> 'w facade \<Rightarrow> event list \<times> 'w facade" where
  "refreshSnapshotDiff sm baseId targetId f =
     (case sm_channel sm of
        None \<Rightarrow> ([SnapshotDiffRefreshedEvent], f\<lparr>fc_diff := None\<rparr>)
      | Some c \<Rightarrow>
          (case pc_snapshotDiff c baseId targetId (fc_world f) of
             (Inl _, w) \<Rightarrow> ([], f\<lparr>fc_world := w\<rparr>)
           | (Inr (Inl e), w) \<Rightarrow>
               ([ErrorEvent ''snapshot-diff'' (err_message e), SnapshotDiffRefreshedEvent],
                f\<lparr>fc_world := w, fc_diff := None\<rparr>)
           | (Inr (Inr d), w) \<Rightarrow> ([SnapshotDiffRefreshedEvent], f\<lparr>fc_world := w, fc_diff := Some d\<rparr>)))"

definition runSnapshotMutation :: "'w seams \<Rightarrow> string \<Rightarrow> ('w helper \<Rightarrow> 'w facade \<Rightarrow> string result \<times> 'w facade)
    \<Rightarrow> 'w facade \<Rightarrow> event list \<times> 'w facade" where
  "runSnapshotMutation sm taskId call f =
     (case sm_channel sm of
        None \<Rightarrow> ([TaskCompletedEvent taskId False kNoHelper], f)
      | Some c \<Rightarrow>
          (case call c f of
             (Inr message, f1) \<Rightarrow>
               ([TaskCompletedEvent taskId True message, SnapshotsChangedEvent], observeDaemonReachable f1)
           | (Inl e, f1) \<Rightarrow> ([TaskCompletedEvent taskId False (err_message e)], f1)))"

definition facade_createSnapshot :: "'w seams \<Rightarrow> string \<Rightarrow> 'w facade \<Rightarrow> event list \<times> 'w facade" where
  "facade_createSnapshot sm label =
     runSnapshotMutation sm (''snapshot-create:'' @ label) (\<lambda>c f.
       case pc_snapshotCreate c label (fc_world f) of
         (Inl e, w) \<Rightarrow> (Inl e, f\<lparr>fc_world := w\<rparr>)
       | (Inr i, w) \<Rightarrow> (Inr (''Created snapshot '' @ snapshotShortId i), f\<lparr>fc_world := w\<rparr>))"

definition facade_restoreSnapshot :: "'w seams \<Rightarrow> string \<Rightarrow> 'w facade \<Rightarrow> event list \<times> 'w facade" where
  "facade_restoreSnapshot sm i =
     runSnapshotMutation sm (''snapshot-restore:'' @ i) (\<lambda>c f.
       case pc_snapshotRestore c i (fc_world f) of
         (Inl e, w) \<Rightarrow> (Inl e, f\<lparr>fc_world := w, fc_lastRestore := None\<rparr>)
       | (Inr oc, w) \<Rightarrow> (Inr (restoreSummary oc), f\<lparr>fc_world := w, fc_lastRestore := Some oc\<rparr>))"

definition facade_deleteSnapshot :: "'w seams \<Rightarrow> string \<Rightarrow> 'w facade \<Rightarrow> event list \<times> 'w facade" where
  "facade_deleteSnapshot sm i =
     runSnapshotMutation sm (''snapshot-delete:'' @ i) (\<lambda>c f.
       case pc_snapshotDelete c i (fc_world f) of
         (Inl e, w) \<Rightarrow> (Inl e, f\<lparr>fc_world := w\<rparr>)
       | (Inr _, w) \<Rightarrow> (Inr (''Deleted snapshot '' @ snapshotShortId i), f\<lparr>fc_world := w\<rparr>))"

end
