(* ===== verification/View_Models.thy ===== *)
theory View_Models
  imports Facade
begin

text \<open>
  What the view models share: the fixed-width cells that \<^verbatim>\<open>snprintf\<close> makes of byte strings, the
  selection that survives a rebuild, the separators, and the way each of them follows the model. A
  handler runs on the thread that publishes, sets a flag and posts at most one rebuild to the
  user-interface thread; the posted closure lowers the flag before it reads the facade. The locale
  \<open>coalesced\<close> has the operations of one such view as parameters and shows once that no change is
  lost, whatever the order of changes, handlers, posted closures and filter edits.
\<close>

section \<open>Cells\<close>

definition ellipsis :: string where
  "ellipsis = [CHR 0xE2, CHR 0x80, CHR 0xA6]"

definition cstr :: "string \<Rightarrow> string" where
  "cstr s = takeWhile (\<lambda>c. c \<noteq> CHR 0x00) s"

definition padRight :: "nat \<Rightarrow> string \<Rightarrow> string" where
  "padRight w s = s @ replicate (w - length s) CHR '' ''"

definition padLeft :: "nat \<Rightarrow> string \<Rightarrow> string" where
  "padLeft w s = replicate (w - length s) CHR '' '' @ s"

text \<open>\<^verbatim>\<open>%-w.ws\<close>, and a buffer of \<open>n\<close> bytes with its terminating zero.\<close>

definition cell :: "nat \<Rightarrow> string \<Rightarrow> string" where
  "cell w s = padRight w (take w (cstr s))"

definition rowBuffer :: "nat \<Rightarrow> string \<Rightarrow> string" where
  "rowBuffer n s = take (n - 1) s"

lemma length_cell [simp]: "length (cell w s) = w"
  by (simp add: cell_def padRight_def)

lemma length_padRight: "length (padRight w s) = max w (length s)"
  by (simp add: padRight_def)

lemma length_padLeft: "length (padLeft w s) = max w (length s)"
  by (simp add: padLeft_def)

lemma rowBuffer_fits: "length s < n \<Longrightarrow> rowBuffer n s = s"
  by (simp add: rowBuffer_def)

definition toLower :: "string \<Rightarrow> string" where
  "toLower s = map tolowerC s"

section \<open>Selection\<close>

text \<open>The first row with the key that was selected, and the clamp to the rows there are.\<close>

fun indexOf :: "('a \<Rightarrow> bool) \<Rightarrow> 'a list \<Rightarrow> nat option" where
  "indexOf P [] = None"
| "indexOf P (x # xs) = (if P x then Some 0 else map_option Suc (indexOf P xs))"

definition clampRow :: "int \<Rightarrow> nat \<Rightarrow> int" where
  "clampRow current rowCount = max 0 (min (int rowCount - 1) current)"

definition restoreRow :: "('a \<Rightarrow> bool) \<Rightarrow> 'a list \<Rightarrow> int \<Rightarrow> nat \<Rightarrow> int" where
  "restoreRow isKept refs current rowCount =
     clampRow (case indexOf isKept refs of Some i \<Rightarrow> int i | None \<Rightarrow> current) rowCount"

text \<open>A row number from outside: \<open>None\<close> unless it is the number of a row.\<close>

definition rowAt :: "'a list \<Rightarrow> int \<Rightarrow> 'a option" where
  "rowAt xs row = (if row < 0 \<or> row \<ge> int (length xs) then None else Some (xs ! nat row))"

lemma indexOf_Some: "indexOf P xs = Some i \<Longrightarrow> i < length xs \<and> P (xs ! i)"
  by (induction xs arbitrary: i) (auto split: if_splits)

lemma indexOf_None: "indexOf P xs = None \<longleftrightarrow> list_all (\<lambda>x. \<not> P x) xs"
  by (induction xs) auto

lemma clampRow_range: "0 < n \<Longrightarrow> 0 \<le> clampRow c n \<and> clampRow c n < int n"
  by (auto simp: clampRow_def)

lemma restoreRow_range: "0 < n \<Longrightarrow> 0 \<le> restoreRow P xs c n \<and> restoreRow P xs c n < int n"
  by (simp add: restoreRow_def clampRow_range)

lemma restoreRow_kept:
  assumes "x \<in> set xs" "P x"
  shows "\<exists>y. rowAt xs (restoreRow P xs c (length xs)) = Some y \<and> P y"
proof -
  have "indexOf P xs \<noteq> None" using assms by (auto simp: indexOf_None list_all_iff)
  then obtain i where i: "indexOf P xs = Some i" by blast
  from indexOf_Some [OF this] i show ?thesis by (auto simp: restoreRow_def clampRow_def rowAt_def)
qed

section \<open>Coalesced rebuilds\<close>

text \<open>\<open>Changed m\<close>: the facade's data become \<open>m\<close>, and the event that says so is on its way. \<open>Notified\<close>: a
  handler of such an event has run. \<open>RunPost\<close>: the user-interface thread runs the first closure posted
  by the view. \<open>Edit\<close>: it rebuilds for another reason \<open>e\<close>, as when the filter is edited.\<close>

datatype ('m, 'e) view_action = Changed 'm | Notified | RunPost | Edit 'e

text \<open>The data, how many events are on their way, and the view.\<close>

fun viewStep :: "('v \<Rightarrow> 'v) \<Rightarrow> ('m \<Rightarrow> 'v \<Rightarrow> 'v) \<Rightarrow> ('e \<Rightarrow> 'm \<Rightarrow> 'v \<Rightarrow> 'v) \<Rightarrow> ('m, 'e) view_action
    \<Rightarrow> 'm \<times> nat \<times> 'v \<Rightarrow> 'm \<times> nat \<times> 'v" where
  "viewStep notify run edit (Changed m') (m, n, v) = (m', n + 1, v)"
| "viewStep notify run edit Notified (m, n, v) = (m, n - 1, if n = 0 then v else notify v)"
| "viewStep notify run edit RunPost (m, n, v) = (m, n, run m v)"
| "viewStep notify run edit (Edit e) (m, n, v) = (m, n, edit e m v)"

definition viewRun :: "('v \<Rightarrow> 'v) \<Rightarrow> ('m \<Rightarrow> 'v \<Rightarrow> 'v) \<Rightarrow> ('e \<Rightarrow> 'm \<Rightarrow> 'v \<Rightarrow> 'v) \<Rightarrow> ('m, 'e) view_action list
    \<Rightarrow> 'm \<times> nat \<times> 'v \<Rightarrow> 'm \<times> nat \<times> 'v" where
  "viewRun notify run edit as s = foldl (\<lambda>s a. viewStep notify run edit a s) s as"

locale coalesced =
  fixes notify :: "'v \<Rightarrow> 'v" and runPost :: "'m \<Rightarrow> 'v \<Rightarrow> 'v" and edit :: "'e \<Rightarrow> 'm \<Rightarrow> 'v \<Rightarrow> 'v"
    and posted :: "'v \<Rightarrow> bool" and stale :: "'v \<Rightarrow> bool" and shown :: "'v \<Rightarrow> 'd" and data :: "'m \<Rightarrow> 'd"
    and good :: "'v \<Rightarrow> bool"
  assumes notify_good: "good v \<Longrightarrow> good (notify v)"
    and notify_posts: "good v \<Longrightarrow> posted (notify v)"
    and notify_stale: "good v \<Longrightarrow> stale (notify v)"
    and notify_shown: "good v \<Longrightarrow> shown (notify v) = shown v"
    and run_good: "good v \<Longrightarrow> good (runPost m v)"
    and run_shown: "good v \<Longrightarrow> shown (runPost m v) = data m \<or>
      shown (runPost m v) = shown v \<and> (posted v \<longrightarrow> stale v \<longrightarrow> posted (runPost m v) \<and> stale (runPost m v))"
    and edit_good: "good v \<Longrightarrow> good (edit e m v)"
    and edit_shown: "good v \<Longrightarrow> shown (edit e m v) = data m \<or>
      shown (edit e m v) = shown v \<and> (posted v \<longrightarrow> stale v \<longrightarrow> posted (edit e m v) \<and> stale (edit e m v))"
begin

definition follows :: "'m \<times> nat \<times> 'v \<Rightarrow> bool" where
  "follows s = (case s of (m, n, v) \<Rightarrow> good v \<and> (shown v = data m \<or> n > 0 \<or> posted v \<and> stale v))"

lemma step_follows:
  assumes "follows s"
  shows "follows (viewStep notify runPost edit a s)"
proof -
  obtain m n v where s: "s = (m, n, v)" by (metis surj_pair)
  with assms have v: "good v" "shown v = data m \<or> n > 0 \<or> posted v \<and> stale v" by (auto simp: follows_def)
  show ?thesis
  proof (cases a)
    case Notified
    then show ?thesis using s v notify_good notify_posts notify_stale by (auto simp: follows_def)
  next
    case RunPost
    then show ?thesis using s v run_good run_shown [OF v(1), of m] by (auto simp: follows_def)
  next
    case (Edit e)
    then show ?thesis using s v edit_good edit_shown [OF v(1), of e m] by (auto simp: follows_def)
  qed (use s v in \<open>auto simp: follows_def\<close>)
qed

lemma catches_up:
  assumes "follows s" "viewRun notify runPost edit as s = (m, 0, v)" "\<not> posted v"
  shows "shown v = data m"
proof -
  have "follows (viewRun notify runPost edit as s)"
    using assms(1) unfolding viewRun_def by (induction as arbitrary: s) (simp_all add: step_follows)
  with assms(2,3) show ?thesis by (simp add: follows_def)
qed

lemma catches_up_fresh:
  assumes "good v" "shown v = data m" "viewRun notify runPost edit as (m, 0, v) = (m', 0, v')" "\<not> posted v'"
  shows "shown v' = data m'"
  using assms(1,2) by (intro catches_up [OF _ assms(3,4)]) (simp add: follows_def)

end

end
