(* ===== verification/Device_List_Vm.thy ===== *)
theory Device_List_Vm
  imports View_Models Device_Presentation
begin

text \<open>
  \<^verbatim>\<open>app/src/device_list_vm.cpp\<close> and \<^verbatim>\<open>app/src/device_detail_vm.cpp\<close>: the rows of the device list,
  grouped by bus and filtered, with the parallel vectors that tell what a row stands for, and the
  lines of the detail pane. The sort is the stable one; \<^verbatim>\<open>std::ranges::sort\<close> leaves the order of
  devices with the same label open. The hooks for the toolkits do nothing here.
\<close>

section \<open>State\<close>

definition haystackFor :: "device \<Rightarrow> string" where
  "haystackFor d =
     toLower (displayDeviceName d @ '' '' @ dev_name d @ '' '' @ dev_vendorId d @ '':'' @ dev_productId d @ '' '' @
       bus_to_string (dev_bus d))"

text \<open>\<open>dl_posts\<close> has the closures that are posted and have not run; all of them are rebuilds.\<close>

record device_list_vm =
  dl_filter :: string
  dl_rows :: "string list"
  dl_rowIds :: "device_id option list"
  dl_rowStatus :: "device_status option list"
  dl_rowName :: "string option list"
  dl_rowCriticality :: "criticality option list"
  dl_snapshot :: "device list"
  dl_haystacks :: "string list"
  dl_facts :: "criticality_facts option"
  dl_valid :: bool
  dl_queued :: bool
  dl_selected :: int
  dl_posts :: nat

definition new_device_list :: device_list_vm where
  "new_device_list = \<lparr>dl_filter = [], dl_rows = [], dl_rowIds = [], dl_rowStatus = [], dl_rowName = [], dl_rowCriticality = [],
     dl_snapshot = [], dl_haystacks = [], dl_facts = None, dl_valid = False, dl_queued = False, dl_selected = 0, dl_posts = 0\<rparr>"

section \<open>Operations\<close>

definition dl_onModelChanged :: "device_list_vm \<Rightarrow> device_list_vm" where
  "dl_onModelChanged v =
     (let v1 = v\<lparr>dl_valid := False\<rparr> in
      if \<not> dl_queued v1 then v1\<lparr>dl_queued := True, dl_posts := dl_posts v1 + 1\<rparr> else v1)"

definition dl_refreshSnapshot :: "'w seams \<Rightarrow> 'w facade \<Rightarrow> device_list_vm \<Rightarrow> device_list_vm" where
  "dl_refreshSnapshot sm f v =
     v\<lparr>dl_snapshot := model_devices (fc_model f), dl_facts := facade_criticalityFacts sm f,
       dl_haystacks := map haystackFor (model_devices (fc_model f))\<rparr>"

definition dl_clearRows :: "device_list_vm \<Rightarrow> device_list_vm" where
  "dl_clearRows v = v\<lparr>dl_rows := [], dl_rowIds := [], dl_rowStatus := [], dl_rowName := [], dl_rowCriticality := []\<rparr>"

definition pushNonDeviceRow :: "string \<Rightarrow> device_list_vm \<Rightarrow> device_list_vm" where
  "pushNonDeviceRow s v =
     v\<lparr>dl_rows := dl_rows v @ [s], dl_rowIds := dl_rowIds v @ [None], dl_rowStatus := dl_rowStatus v @ [None],
       dl_rowName := dl_rowName v @ [None], dl_rowCriticality := dl_rowCriticality v @ [None]\<rparr>"

definition rule2 :: string where
  "rule2 = [CHR 0xE2, CHR 0x94, CHR 0x80, CHR 0xE2, CHR 0x94, CHR 0x80]"

definition rowText :: "string \<Rightarrow> device \<Rightarrow> string" where
  "rowText label d =
     (let identity = displayDeviceIdentity d in
      ''  '' @ label @ (if identity = [] then [] else ''  ('' @ identity @ '')''))"

definition pushDeviceRow :: "string \<times> device \<Rightarrow> device_list_vm \<Rightarrow> device_list_vm" where
  "pushDeviceRow ld v =
     (let label = fst ld; d = snd ld in
      v\<lparr>dl_rows := dl_rows v @ [rowText label d], dl_rowIds := dl_rowIds v @ [Some (dev_id d)],
        dl_rowStatus := dl_rowStatus v @ [Some (dev_status d)], dl_rowName := dl_rowName v @ [Some label],
        dl_rowCriticality := dl_rowCriticality v @
          [Some (case dl_facts v of Some facts \<Rightarrow> classifyDevice facts (dev_sysfsPath d) | None \<Rightarrow> Ordinary)]\<rparr>)"

definition dl_appendRows :: "bus_type \<Rightarrow> device list \<Rightarrow> device_list_vm \<Rightarrow> device_list_vm" where
  "dl_appendRows b grp v =
     (if grp = [] then v
      else let labelled = sort_key fst (map (\<lambda>d. (displayDeviceName d, d)) grp)
           in foldl (\<lambda>v ld. pushDeviceRow ld v)
                (pushNonDeviceRow (rule2 @ '' '' @ displayBus b @ '' '' @ rule2) v) labelled)"

definition kOrder :: "bus_type list" where
  "kOrder = [Pci, Usb, Platform, Virtio, Other]"

text \<open>The pass over snapshot and haystacks: the matches of one bus.\<close>

definition matchesOf :: "string \<Rightarrow> bus_type \<Rightarrow> device list \<Rightarrow> string list \<Rightarrow> device list" where
  "matchesOf needle b ds hs =
     map fst (filter (\<lambda>dh. (needle = [] \<or> contains (snd dh) needle) \<and> dev_bus (fst dh) = b) (zip ds hs))"

definition dl_selectedDeviceId :: "device_list_vm \<Rightarrow> device_id option" where
  "dl_selectedDeviceId v = (case rowAt (dl_rowIds v) (dl_selected v) of Some (Some i) \<Rightarrow> Some i | _ \<Rightarrow> None)"

definition dl_restoreSelection :: "device_id option \<Rightarrow> device_list_vm \<Rightarrow> device_list_vm" where
  "dl_restoreSelection keep v =
     v\<lparr>dl_selected := restoreRow (\<lambda>r. keep \<noteq> None \<and> r = keep) (dl_rowIds v) (dl_selected v) (length (dl_rows v))\<rparr>"

definition dl_rebuild :: "'w seams \<Rightarrow> 'w facade \<Rightarrow> device_list_vm \<Rightarrow> device_list_vm" where
  "dl_rebuild sm f v =
     (let keep = dl_selectedDeviceId v;
          needle = toLower (dl_filter v);
          v1 = (if \<not> dl_valid v then dl_refreshSnapshot sm f (v\<lparr>dl_valid := True\<rparr>) else v);
          grp = (\<lambda>b. matchesOf needle b (dl_snapshot v1) (dl_haystacks v1));
          v2 = foldl (\<lambda>v b. dl_appendRows b (grp b) v) (dl_clearRows v1) kOrder;
          v3 = (if dl_rows v2 = [] \<and> fc_daemonError f = None then pushNonDeviceRow ''(no devices)'' v2 else v2)
      in dl_restoreSelection keep v3)"

definition dl_runPost :: "'w seams \<Rightarrow> 'w facade \<Rightarrow> device_list_vm \<Rightarrow> device_list_vm" where
  "dl_runPost sm f v =
     (if dl_posts v = 0 then v
      else dl_rebuild sm f (v\<lparr>dl_posts := dl_posts v - 1, dl_queued := False\<rparr>))"

definition dl_setFilter :: "'w seams \<Rightarrow> string \<Rightarrow> 'w facade \<Rightarrow> device_list_vm \<Rightarrow> device_list_vm" where
  "dl_setFilter sm s f v = dl_rebuild sm f (v\<lparr>dl_filter := s\<rparr>)"

definition dl_isHeader :: "device_list_vm \<Rightarrow> int \<Rightarrow> bool" where
  "dl_isHeader v row = (case rowAt (dl_rowIds v) row of None \<Rightarrow> False | Some r \<Rightarrow> r = None)"

definition dl_statusForRow :: "device_list_vm \<Rightarrow> int \<Rightarrow> device_status option" where
  "dl_statusForRow v row = (case rowAt (dl_rowStatus v) row of None \<Rightarrow> None | Some r \<Rightarrow> r)"

definition dl_nameForRow :: "device_list_vm \<Rightarrow> int \<Rightarrow> string option" where
  "dl_nameForRow v row = (case rowAt (dl_rowName v) row of None \<Rightarrow> None | Some r \<Rightarrow> r)"

definition dl_criticalityForRow :: "device_list_vm \<Rightarrow> int \<Rightarrow> criticality option" where
  "dl_criticalityForRow v row = (case rowAt (dl_rowCriticality v) row of None \<Rightarrow> None | Some r \<Rightarrow> r)"

text \<open>The note of the helper, for every view that reads nothing but the helper.\<close>

definition helperNotes :: "'w facade \<Rightarrow> backend_note list" where
  "helperNotes f = (case bk_noteFor Devmgrd False (fc_status f) of None \<Rightarrow> [] | Some n \<Rightarrow> [n])"

definition dl_banner :: "'w facade \<Rightarrow> string" where
  "dl_banner f = (case helperNotes f of [] \<Rightarrow> [] | n # _ \<Rightarrow> bn_text n)"

section \<open>The detail pane\<close>

definition kLabelWidth :: nat where
  "kLabelWidth = 10"

definition kv :: "string \<Rightarrow> string \<Rightarrow> string" where
  "kv label value = padRight kLabelWidth label @ value"

definition joinDeps :: "string list \<Rightarrow> string" where
  "joinDeps deps = foldl (\<lambda>joined dep. (if joined \<noteq> [] then joined @ '', '' else joined) @ dep) [] deps"

definition driverLine :: "device \<Rightarrow> driver \<Rightarrow> string" where
  "driverLine d drv =
     (let bound = (dev_boundDriver d = Some (drv_name drv)) in
      (if bound then ''* '' else ''  '') @ drv_name drv @
      (if drv_kind drv = Builtin then '' (builtin)'' else []) @
      (if drv_version drv \<noteq> [] then '' v'' @ drv_version drv else []) @
      (if drv_kind drv \<noteq> Builtin
       then (if drv_isSigned drv
             then '' '' @ dash @ '' signed: '' @ (case drv_signer drv of Some s \<Rightarrow> s | None \<Rightarrow> ''unknown signer'')
             else '' '' @ dash @ '' UNSIGNED'')
       else []))"

definition driverSection :: "device \<Rightarrow> driver list \<Rightarrow> string list" where
  "driverSection d drivers =
     (if drivers = [] then []
      else (dash @ '' Driver '' @ dash) #
        concat (map (\<lambda>drv. driverLine d drv #
          (if drv_dependencies drv \<noteq> [] then [''    depends: '' @ joinDeps (drv_dependencies drv)] else [])) drivers))"

definition kNoDevice :: string where
  "kNoDevice = ''(no device selected)''"

definition riskLine :: "criticality \<Rightarrow> string" where
  "riskLine level = kv ''Risk:'' (displayCriticality level @ '' '' @ dash @ '' disabling this may make the system unusable'')"

definition deviceDetailLines :: "'w seams \<Rightarrow> 'w facade \<Rightarrow> device_id option \<Rightarrow> string list" where
  "deviceDetailLines sm f i =
     (case i of
        None \<Rightarrow> [kNoDevice]
      | Some i \<Rightarrow>
          (case model_findById (fc_model f) i of
             None \<Rightarrow> [kNoDevice]
           | Some d \<Rightarrow>
               [kv ''Name:'' (displayDeviceName d), kv ''Address:'' (displayDeviceAddress d),
                kv ''VID:PID:'' (dev_vendorId d @ '':'' @ dev_productId d), kv ''Id:'' (dev_id d),
                kv ''Bus:'' (displayBus (dev_bus d)), kv ''Status:'' (status_to_string (dev_status d)),
                kv ''Sysfs:'' (dev_sysfsPath d), kv ''Serial:'' (dev_serial d),
                kv ''Driver:'' (case dev_boundDriver d of Some b \<Rightarrow> b | None \<Rightarrow> ''(none)''),
                kv ''Modalias:'' (dev_modalias d)] @
               (case dev_parent d of Some p \<Rightarrow> [kv ''Parent:'' p] | None \<Rightarrow> []) @
               (case dev_errorNote d of Some n \<Rightarrow> [kv ''Error:'' n] | None \<Rightarrow> []) @
               (case facade_criticalityFacts sm f of
                  None \<Rightarrow> []
                | Some facts \<Rightarrow>
                    (let level = classifyDevice facts (dev_sysfsPath d)
                     in if level \<noteq> Ordinary then [riskLine level] else [])) @
               driverSection d (facade_driverInfo sm (dev_id d) f)))"

end
