(* ===== verification/Device_List_Facts.thy ===== *)
theory Device_List_Facts
  imports Device_List_Vm "HOL-Library.Multiset"
begin

text \<open>
  What the device list promises: the parallel vectors describe the same rows, every matching device has
  one row, a marker is exactly a refusal of the guard, and the view catches up with the model.
\<close>

section \<open>Rows\<close>

text \<open>A row is its text and the device it stands for, if any.\<close>

type_synonym row = "string \<times> device option"

definition critOf :: "criticality_facts option \<Rightarrow> device \<Rightarrow> criticality" where
  "critOf facts d = (case facts of Some fs \<Rightarrow> classifyDevice fs (dev_sysfsPath d) | None \<Rightarrow> Ordinary)"

definition describes :: "device_list_vm \<Rightarrow> row list \<Rightarrow> bool" where
  "describes v R \<longleftrightarrow>
     dl_rows v = map fst R \<and> dl_rowIds v = map (map_option dev_id \<circ> snd) R \<and>
     dl_rowStatus v = map (map_option dev_status \<circ> snd) R \<and>
     dl_rowName v = map (map_option displayDeviceName \<circ> snd) R \<and>
     dl_rowCriticality v = map (map_option (critOf (dl_facts v)) \<circ> snd) R"

definition groupRows :: "bus_type \<Rightarrow> device list \<Rightarrow> row list" where
  "groupRows b grp =
     (if grp = [] then []
      else (rule2 @ '' '' @ displayBus b @ '' '' @ rule2, None) #
        map (\<lambda>ld. (rowText (fst ld) (snd ld), Some (snd ld))) (sort_key fst (map (\<lambda>d. (displayDeviceName d, d)) grp)))"

fun devicesOf :: "row list \<Rightarrow> device list" where
  "devicesOf [] = []"
| "devicesOf ((_, Some d) # R) = d # devicesOf R"
| "devicesOf ((_, None) # R) = devicesOf R"

lemma devicesOf_append [simp]: "devicesOf (R @ R') = devicesOf R @ devicesOf R'"
  by (induction R rule: devicesOf.induct) simp_all

lemma devicesOf_map_Some [simp]: "devicesOf (map (\<lambda>x. (g x, Some (h x))) xs) = map h xs"
  by (induction xs) simp_all

lemma set_devicesOf: "set (devicesOf R) = {d. \<exists>s. (s, Some d) \<in> set R}"
  by (induction R rule: devicesOf.induct) auto

lemma describes_push:
  assumes "describes v R"
  shows "describes (pushNonDeviceRow s v) (R @ [(s, None)])"
    and "describes (pushDeviceRow (displayDeviceName d, d) v) (R @ [(rowText (displayDeviceName d) d, Some d)])"
  using assms by (simp_all add: describes_def pushNonDeviceRow_def pushDeviceRow_def critOf_def Let_def)

lemma describes_pushes:
  assumes "describes v R" "list_all (\<lambda>ld. fst ld = displayDeviceName (snd ld)) lds"
  shows "describes (foldl (\<lambda>v ld. pushDeviceRow ld v) v lds) (R @ map (\<lambda>ld. (rowText (fst ld) (snd ld), Some (snd ld))) lds)"
  using assms
proof (induction lds arbitrary: v R)
  case (Cons ld lds)
  obtain d where d: "ld = (displayDeviceName d, d)" using Cons.prems(2) by (cases ld) auto
  show ?case using Cons.IH [OF describes_push(2) [OF Cons.prems(1), of d]] Cons.prems(2) by (simp add: d)
qed simp

lemma describes_appendRows:
  assumes "describes v R"
  shows "describes (dl_appendRows b grp v) (R @ groupRows b grp)"
proof (cases "grp = []")
  case False
  let ?lds = "sort_key fst (map (\<lambda>d. (displayDeviceName d, d)) grp)"
  have "list_all (\<lambda>ld. fst ld = displayDeviceName (snd ld)) ?lds" by (auto simp: list_all_iff)
  from describes_pushes [OF describes_push(1) [OF assms] this] False show ?thesis
    by (simp add: dl_appendRows_def groupRows_def Let_def)
qed (use assms in \<open>simp add: dl_appendRows_def groupRows_def\<close>)

lemma describes_groups:
  assumes "describes v R"
  shows "describes (foldl (\<lambda>v b. dl_appendRows b (grp b) v) v bs) (R @ concat (map (\<lambda>b. groupRows b (grp b)) bs))"
  using assms
proof (induction bs arbitrary: v R)
  case (Cons b bs)
  from Cons.IH [OF describes_appendRows [OF Cons.prems, of b "grp b"]] show ?case by simp
qed simp

lemma mset_devicesOf_group: "mset (devicesOf (groupRows b grp)) = mset grp"
proof -
  have "mset (map snd (sort_key fst (map (\<lambda>d. (displayDeviceName d, d)) grp))) = mset grp"
    by (simp add: image_mset.compositionality comp_def)
  then show ?thesis by (simp add: groupRows_def)
qed

section \<open>What is kept\<close>

named_theorems dl_simps "what the steps of a rebuild leave alone"

text \<open>The rows are all that appending changes.\<close>

definition sameList :: "device_list_vm \<Rightarrow> device_list_vm \<Rightarrow> bool" where
  "sameList v w \<longleftrightarrow> dl_filter w = dl_filter v \<and> dl_snapshot w = dl_snapshot v \<and> dl_haystacks w = dl_haystacks v \<and>
     dl_facts w = dl_facts v \<and> dl_valid w = dl_valid v \<and> dl_queued w = dl_queued v \<and> dl_posts w = dl_posts v \<and>
     dl_selected w = dl_selected v"

lemma sameList_trans: "sameList u v \<Longrightarrow> sameList v w \<Longrightarrow> sameList u w"
  by (simp add: sameList_def)

lemma sameList_push: "sameList v (pushNonDeviceRow s v)" "sameList v (pushDeviceRow ld v)" "sameList v (dl_clearRows v)" "sameList v v"
  by (simp_all add: sameList_def pushNonDeviceRow_def pushDeviceRow_def dl_clearRows_def Let_def)

lemma sameList_pushes: "sameList u v \<Longrightarrow> sameList u (foldl (\<lambda>v ld. pushDeviceRow ld v) v lds)"
  by (induction lds arbitrary: v) (simp_all add: sameList_trans [OF _ sameList_push(2)])

lemma sameList_appendRows: "sameList u v \<Longrightarrow> sameList u (dl_appendRows b grp v)"
  by (simp add: dl_appendRows_def Let_def sameList_pushes sameList_trans [OF _ sameList_push(1)])

lemma sameList_groups: "sameList u v \<Longrightarrow> sameList u (foldl (\<lambda>v b. dl_appendRows b (grp b) v) v bs)"
  by (induction bs arbitrary: v) (simp_all add: sameList_appendRows)

text \<open>The haystacks belong to the snapshot, and a raised flag has its closure.\<close>

definition dl_ok :: "device_list_vm \<Rightarrow> bool" where
  "dl_ok v \<longleftrightarrow> dl_haystacks v = map haystackFor (dl_snapshot v) \<and> (dl_queued v \<longrightarrow> dl_posts v > 0)"

definition fetched :: "'w seams \<Rightarrow> 'w facade \<Rightarrow> device_list_vm \<Rightarrow> device_list_vm" where
  "fetched sm f v = (if \<not> dl_valid v then dl_refreshSnapshot sm f (v\<lparr>dl_valid := True\<rparr>) else v)"

definition wanted :: "device_list_vm \<Rightarrow> device \<Rightarrow> bool" where
  "wanted v d \<longleftrightarrow> toLower (dl_filter v) = [] \<or> contains (haystackFor d) (toLower (dl_filter v))"

lemma matchesOf_filter:
  "matchesOf needle b ds (map haystackFor ds) = filter (\<lambda>d. (needle = [] \<or> contains (haystackFor d) needle) \<and> dev_bus d = b) ds"
  by (induction ds) (auto simp: matchesOf_def)

lemma mset_by_bus: "mset (concat (map (\<lambda>b. filter (\<lambda>d. P d \<and> dev_bus d = b) ds) kOrder)) = mset (filter P ds)"
proof (induction ds)
  case (Cons d ds)
  then show ?case by (cases "dev_bus d") (simp_all add: kOrder_def)
qed (simp add: kOrder_def)

lemma rebuild_describes:
  assumes "dl_ok v"
  shows "\<exists>R. describes (dl_rebuild sm f v) R \<and>
      mset (devicesOf R) = mset (filter (wanted v) (dl_snapshot (dl_rebuild sm f v))) \<and>
      (R = [] \<longrightarrow> fc_daemonError f \<noteq> None)"
    and "sameList (fetched sm f v) (dl_rebuild sm f v\<lparr>dl_selected := dl_selected v\<rparr>)"
    and "dl_selected (dl_rebuild sm f v) =
      restoreRow (\<lambda>r. dl_selectedDeviceId v \<noteq> None \<and> r = dl_selectedDeviceId v) (dl_rowIds (dl_rebuild sm f v)) (dl_selected v)
        (length (dl_rows (dl_rebuild sm f v)))"
proof -
  let ?v1 = "fetched sm f v" and ?needle = "toLower (dl_filter v)"
  let ?grp = "\<lambda>b. matchesOf ?needle b (dl_snapshot ?v1) (dl_haystacks ?v1)"
  let ?v2 = "foldl (\<lambda>v b. dl_appendRows b (?grp b) v) (dl_clearRows ?v1) kOrder"
  let ?v3 = "if dl_rows ?v2 = [] \<and> fc_daemonError f = None then pushNonDeviceRow ''(no devices)'' ?v2 else ?v2"
  let ?R2 = "concat (map (\<lambda>b. groupRows b (?grp b)) kOrder)"
  let ?R = "if ?R2 = [] \<and> fc_daemonError f = None then [(''(no devices)'', None)] else ?R2"
  have reb: "dl_rebuild sm f v = dl_restoreSelection (dl_selectedDeviceId v) ?v3"
    by (simp add: dl_rebuild_def fetched_def Let_def)
  have hs: "dl_haystacks ?v1 = map haystackFor (dl_snapshot ?v1)" and same1: "dl_filter ?v1 = dl_filter v" "dl_selected ?v1 = dl_selected v"
    using assms by (auto simp: fetched_def dl_refreshSnapshot_def dl_ok_def)
  have "describes (dl_clearRows ?v1) []" by (simp add: describes_def dl_clearRows_def)
  from describes_groups [OF this, of ?grp kOrder] have d2: "describes ?v2 ?R2" by simp
  then have d3: "describes ?v3 ?R" using describes_push(1) [OF d2] by (auto simp: describes_def)
  have s3: "sameList ?v1 ?v3"
    using sameList_groups [OF sameList_push(3) [of ?v1], of ?grp kOrder] sameList_trans [OF _ sameList_push(1)] by auto
  have "mset (devicesOf (concat (map (\<lambda>b. groupRows b (grp b)) bs))) = mset (concat (map grp bs))" for grp bs
    by (induction bs) (simp_all add: mset_devicesOf_group)
  then have "mset (devicesOf ?R2) = mset (concat (map (\<lambda>b. filter (\<lambda>d. wanted v d \<and> dev_bus d = b) (dl_snapshot ?v1)) kOrder))"
    unfolding hs matchesOf_filter wanted_def by simp
  then have "mset (devicesOf ?R2) = mset (filter (wanted v) (dl_snapshot ?v1))" by (simp only: mset_by_bus)
  moreover have "mset (devicesOf (if X = [] \<and> q then [(t, None)] else X)) = mset (devicesOf X)" for X :: "row list" and q t
    by auto
  ultimately have m: "mset (devicesOf ?R) = mset (filter (wanted v) (dl_snapshot ?v1))" by (simp only:)
  have keep: "describes (dl_restoreSelection k w) R = describes w R" "dl_snapshot (dl_restoreSelection k w) = dl_snapshot w" for k w R
    by (simp_all add: describes_def dl_restoreSelection_def)
  have "dl_snapshot ?v3 = dl_snapshot ?v1" using s3 by (simp add: sameList_def)
  with d3 m show "\<exists>R. describes (dl_rebuild sm f v) R \<and>
      mset (devicesOf R) = mset (filter (wanted v) (dl_snapshot (dl_rebuild sm f v))) \<and> (R = [] \<longrightarrow> fc_daemonError f \<noteq> None)"
    unfolding reb keep by (intro exI [of _ ?R] conjI) (simp_all only:, auto)
  show "sameList (fetched sm f v) (dl_rebuild sm f v\<lparr>dl_selected := dl_selected v\<rparr>)"
    using s3 same1 unfolding reb by (simp add: sameList_def dl_restoreSelection_def)
  have "dl_selected ?v3 = dl_selected v" using s3 same1 by (simp add: sameList_def)
  then show "dl_selected (dl_rebuild sm f v) =
      restoreRow (\<lambda>r. dl_selectedDeviceId v \<noteq> None \<and> r = dl_selectedDeviceId v) (dl_rowIds (dl_rebuild sm f v)) (dl_selected v)
        (length (dl_rows (dl_rebuild sm f v)))"
    unfolding reb by (simp add: dl_restoreSelection_def)
qed

text \<open>After a rebuild, from any state, the parallel vectors describe one list of rows: headers, and rows
  that stand for devices; the devices they stand for are those of the snapshot that the filter wants,
  each as often as it is there; there is no empty list while the helper answers; the selection is a
  row, and the selected device stays selected while it is listed.\<close>

theorem device_rows_complete:
  assumes "dl_ok v" "v' = dl_rebuild sm f v"
  shows "\<exists>R. describes v' R \<and> mset (devicesOf R) = mset (filter (wanted v) (dl_snapshot v')) \<and>
    (R = [] \<longrightarrow> fc_daemonError f \<noteq> None) \<and>
    (R \<noteq> [] \<longrightarrow> 0 \<le> dl_selected v' \<and> dl_selected v' < int (length R)) \<and>
    (dl_selectedDeviceId v \<noteq> None \<longrightarrow> dl_selectedDeviceId v \<in> set (dl_rowIds v') \<longrightarrow>
       dl_selectedDeviceId v' = dl_selectedDeviceId v)"
proof -
  from rebuild_describes(1) [OF assms(1), of sm f] assms(2) obtain R where
    R: "describes v' R" "mset (devicesOf R) = mset (filter (wanted v) (dl_snapshot v'))" "R = [] \<longrightarrow> fc_daemonError f \<noteq> None"
    by blast
  then have len: "length (dl_rows v') = length R" "length (dl_rowIds v') = length R" by (simp_all add: describes_def)
  let ?P = "\<lambda>r. dl_selectedDeviceId v \<noteq> None \<and> r = dl_selectedDeviceId v"
  have sel: "dl_selected v' = restoreRow ?P (dl_rowIds v') (dl_selected v) (length (dl_rowIds v'))"
    using rebuild_describes(3) [OF assms(1), of sm f] assms(2) len by simp
  have kept: "dl_selectedDeviceId v' = dl_selectedDeviceId v"
    if "dl_selectedDeviceId v \<noteq> None" "dl_selectedDeviceId v \<in> set (dl_rowIds v')"
    using restoreRow_kept [of "dl_selectedDeviceId v" "dl_rowIds v'" ?P "dl_selected v"] that
    unfolding sel [symmetric] by (auto simp: dl_selectedDeviceId_def [of v'])
  show ?thesis using R kept restoreRow_range [of "length R" ?P "dl_rowIds v'" "dl_selected v"] sel len
    by (intro exI [of _ R]) auto
qed

text \<open>A row that stands for a device, of a list that was rebuilt from the model, is marked exactly when
  the guard, asked now, would refuse to disable that device; and the name of the row is the name in the
  first line of the device's details.\<close>

theorem marker_is_a_refusal:
  assumes "dl_ok v" "\<not> dl_valid v" "model_ok (fc_model f)" "v' = dl_rebuild sm f v"
    and "rowAt (dl_rowIds v') row = Some (Some i)"
  shows "dl_criticalityForRow v' row = Some (if gv_allowed (facade_canDisable sm i f) then Ordinary else Essential) \<and>
    (\<exists>name. dl_nameForRow v' row = Some name \<and> hd (deviceDetailLines sm f (Some i)) = kv ''Name:'' name)"
proof -
  from rebuild_describes(1) [OF assms(1), of sm f] assms(4) obtain R where
    R: "describes v' R" "mset (devicesOf R) = mset (filter (wanted v) (dl_snapshot v'))" by blast
  have fetched: "dl_snapshot v' = model_devices (fc_model f)" "dl_facts v' = facade_criticalityFacts sm f"
    using rebuild_describes(2) [OF assms(1), of sm f] assms(2,4)
    by (simp_all add: sameList_def fetched_def dl_refreshSnapshot_def)
  have row: "0 \<le> row" "nat row < length R" "map_option dev_id (snd (R ! nat row)) = Some i"
    using assms(5) R(1) by (auto simp: rowAt_def describes_def split: if_splits)
  then obtain s d where d: "R ! nat row = (s, Some d)" "dev_id d = i" by (cases "R ! nat row") auto
  have "d \<in> set (devicesOf R)" using d row(2) by (auto simp: set_devicesOf) (metis nth_mem)
  then have "d \<in> set (model_devices (fc_model f))" using R(2) fetched(1) by (metis filter_is_subset set_mset_mset subsetD)
  then have found: "model_findById (fc_model f) i = Some d"
    using assms(3) d(2) by (auto simp: model_devices_def model_findById_def model_ok_def list_all_iff)
  have "dl_criticalityForRow v' row = Some (critOf (facade_criticalityFacts sm f) d)" "dl_nameForRow v' row = Some (displayDeviceName d)"
    using R(1) row d fetched(2)
    by (simp_all add: dl_criticalityForRow_def dl_nameForRow_def rowAt_def describes_def)
  moreover have "critOf (facade_criticalityFacts sm f) d = (if gv_allowed (facade_canDisable sm i f) then Ordinary else Essential)"
    using found by (auto simp: critOf_def facade_criticalityFacts_def facade_canDisable_def allowedVerdict_def classifyDevice_def
        split: option.splits sum.splits)
  ultimately show ?thesis using found by (simp add: deviceDetailLines_def)
qed

section \<open>The view catches up\<close>

lemma rebuild_ok:
  assumes "dl_ok v"
  shows "dl_ok (dl_rebuild sm f v)" "dl_posts (dl_rebuild sm f v) = dl_posts v" "dl_valid (dl_rebuild sm f v)"
    "dl_snapshot (dl_rebuild sm f v) = (if dl_valid v then dl_snapshot v else model_devices (fc_model f))"
proof -
  have "sameList (fetched sm f v) (dl_rebuild sm f v\<lparr>dl_selected := dl_selected v\<rparr>)" by (rule rebuild_describes(2) [OF assms])
  then show "dl_ok (dl_rebuild sm f v)" "dl_posts (dl_rebuild sm f v) = dl_posts v" "dl_valid (dl_rebuild sm f v)"
    "dl_snapshot (dl_rebuild sm f v) = (if dl_valid v then dl_snapshot v else model_devices (fc_model f))"
    using assms by (auto simp: sameList_def dl_ok_def fetched_def dl_refreshSnapshot_def)
qed

definition bare_seams :: "unit seams" where
  "bare_seams = \<lparr>sm_enumerate = (\<lambda>_. Inr []), sm_channel = None, sm_prober = None, sm_drivers = None,
     sm_systemInfo = None, sm_providers = []\<rparr>"

definition one_device :: "unit facade" where
  "one_device = (new_facade ())\<lparr>fc_model := [([], empty_device)]\<rparr>"

lemma device_rows_complete_witness:
  "\<exists>R. describes (dl_rebuild bare_seams one_device new_device_list) R \<and> devicesOf R = [empty_device]"
proof -
  have ok: "dl_ok new_device_list" by (simp add: dl_ok_def new_device_list_def)
  have "wanted new_device_list = (\<lambda>_. True)" by (simp add: wanted_def new_device_list_def toLower_def fun_eq_iff)
  moreover have "dl_snapshot (dl_rebuild bare_seams one_device new_device_list) = [empty_device]"
    unfolding rebuild_ok(4) [OF ok] by (simp add: new_device_list_def one_device_def model_devices_def)
  ultimately obtain R where "describes (dl_rebuild bare_seams one_device new_device_list) R" "mset (devicesOf R) = mset [empty_device]"
    using device_rows_complete [OF ok refl, of bare_seams one_device] by auto
  then show ?thesis by (intro exI [of _ R]) simp
qed

interpretation dl: coalesced dl_onModelChanged "dl_runPost sm" "dl_setFilter sm" "\<lambda>v. dl_posts v > 0" "\<lambda>v. \<not> dl_valid v"
    dl_snapshot "\<lambda>f. model_devices (fc_model f)" dl_ok for sm
proof (unfold_locales, goal_cases)
  case (5 v f)
  then have "dl_ok (v\<lparr>dl_posts := dl_posts v - 1, dl_queued := False\<rparr>)" by (simp add: dl_ok_def)
  with 5 show ?case by (simp add: dl_runPost_def rebuild_ok)
next
  case (6 v f)
  then have "dl_ok (v\<lparr>dl_posts := dl_posts v - 1, dl_queued := False\<rparr>)" by (simp add: dl_ok_def)
  then show ?case by (simp add: dl_runPost_def rebuild_ok)
next
  case (7 v s f)
  then have "dl_ok (v\<lparr>dl_filter := s\<rparr>)" by (simp add: dl_ok_def)
  then show ?case by (simp add: dl_setFilter_def rebuild_ok)
next
  case (8 v s f)
  then have "dl_ok (v\<lparr>dl_filter := s\<rparr>)" by (simp add: dl_ok_def)
  then show ?case by (simp add: dl_setFilter_def rebuild_ok)
qed (auto simp: dl_onModelChanged_def dl_ok_def Let_def)

lemma device_list_catches_up:
  assumes "viewRun dl_onModelChanged (dl_runPost sm) (dl_setFilter sm) as (new_facade w, 0, new_device_list) = (f, 0, v)"
    and "dl_posts v = 0"
  shows "dl_snapshot v = model_devices (fc_model f)"
  using assms(2) by (intro dl.catches_up_fresh [OF _ _ assms(1)])
    (simp_all add: new_device_list_def new_facade_def model_devices_def dl_ok_def)

end
