(* ===== verification/Snapshots_Vm.thy ===== *)
theory Snapshots_Vm
  imports View_Models Snapshot_History Device_List_Vm
begin

text \<open>
  \<^verbatim>\<open>app/src/snapshots_vm.cpp\<close>: the list of snapshots with its filter and chain view, the details and
  verbs of the selected one, and the preview of a restore. Local time (\<^verbatim>\<open>localtime_r\<close> and
  \<^verbatim>\<open>strftime\<close>) is the argument \<open>lt\<close>. The closures posted to the user-interface thread are a list; the
  alive token makes those that are left do nothing once the view is gone. A future that is waited for
  is a task that has ended, see the theory of previews.
\<close>

section \<open>Rows\<close>

definition kIndentPerLevel :: nat where
  "kIndentPerLevel = 2"

definition kMaxIndentLevels :: nat where
  "kMaxIndentLevels = 4"

definition sv_reasonCell :: "snapshot_meta \<Rightarrow> string" where
  "sv_reasonCell m =
     (if rsn_verb (meta_reason m) = [] then rsn_subject (meta_reason m)
      else if rsn_subject (meta_reason m) = [] then rsn_verb (meta_reason m)
      else rsn_verb (meta_reason m) @ '' '' @ rsn_subject (meta_reason m))"

definition sv_markerFor :: "snapshot_meta \<Rightarrow> string" where
  "sv_markerFor m = (if meta_health m = HealthOk then [] else health_to_string (meta_health m))"

definition sv_formatRow :: "(int \<Rightarrow> string) \<Rightarrow> snapshot_meta \<Rightarrow> string" where
  "sv_formatRow lt m =
     rowBuffer 128 (cell 12 (snapshotShortId (meta_id m)) @ '' '' @ cell 16 (lt (meta_createdAtUtc m)) @ '' '' @
       cell 6 (trigger_to_string (meta_trigger m)) @ '' '' @ cell 30 (sv_reasonCell m) @ '' '' @ cstr (sv_markerFor m))"

definition sv_filterHaystack :: "snapshot_meta \<Rightarrow> string" where
  "sv_filterHaystack m = toLower (meta_id m @ '' '' @ trigger_to_string (meta_trigger m) @ '' '' @ sv_reasonCell m)"

text \<open>The tip of the open group, if one is open, and the rows that are left.\<close>

fun chainIndents :: "nat option \<Rightarrow> chain_row list \<Rightarrow> nat list" where
  "chainIndents tip [] = []"
| "chainIndents tip (row # rows) =
     (let tipDepth = (case tip of None \<Rightarrow> cr_depth row | Some d \<Rightarrow> d)
      in (if tipDepth > cr_depth row then tipDepth - cr_depth row else 0) #
         chainIndents (if cr_chainStart row then None else Some tipDepth) rows)"

text \<open>The id of the last row with a mark, empty when there is none.\<close>

definition markedId :: "(chain_row \<Rightarrow> bool) \<Rightarrow> chain_row list \<Rightarrow> string" where
  "markedId mark chain = foldl (\<lambda>i row. if mark row then meta_id (cr_meta row) else i) [] chain"

definition previewContextLines :: "(int \<Rightarrow> string) \<Rightarrow> snapshot_meta list \<Rightarrow> string \<Rightarrow> string list" where
  "previewContextLines lt metas previewId =
     (let chain = buildSnapshotChain metas;
          headId = markedId cr_head chain;
          goodId = markedId cr_lastGood chain;
          createdCell = foldl (\<lambda>c m. if meta_id m = previewId then lt (meta_createdAtUtc m) else c) [] metas;
          mark = (\<lambda>i. if i \<noteq> [] \<and> i = previewId then '' '' @ dash @ '' this snapshot'' else [])
      in [''Selected:     '' @ snapshotShortId previewId @
            (if createdCell = [] then [] else '' (created '' @ createdCell @ '')''),
          ''Current HEAD: '' @ (if headId = [] then ''(none)'' else snapshotShortId headId) @ mark headId,
          ''Last good:    '' @ (if goodId = [] then ''(none '' @ dash @ '' no healthy snapshot)'' else snapshotShortId goodId) @
            mark goodId])"

section \<open>The view\<close>

datatype sv_post = Rebuild | RequestRefresh | DiffLanded

record snapshots_vm =
  sv_filter :: string
  sv_historyView :: bool
  sv_previewId :: "string option"
  sv_previewPending :: bool
  sv_rows :: "string list"
  sv_rowRefs :: "nat option list"
  sv_metas :: "snapshot_meta list"
  sv_headId :: string
  sv_lastGoodId :: string
  sv_selected :: int
  sv_rebuildQueued :: bool
  sv_refreshQueued :: bool
  sv_posts :: "sv_post list"
  sv_alive :: bool
  sv_refreshes :: nat

text \<open>\<open>sv_refreshes\<close> counts the refreshes the view asked the facade for.\<close>

definition new_snapshots_vm :: snapshots_vm where
  "new_snapshots_vm = \<lparr>sv_filter = [], sv_historyView = False, sv_previewId = None, sv_previewPending = False, sv_rows = [],
     sv_rowRefs = [], sv_metas = [], sv_headId = [], sv_lastGoodId = [], sv_selected = 0, sv_rebuildQueued = False,
     sv_refreshQueued = False, sv_posts = [], sv_alive = True, sv_refreshes = 0\<rparr>"

definition sv_queueRebuild :: "snapshots_vm \<Rightarrow> snapshots_vm" where
  "sv_queueRebuild v =
     (if sv_rebuildQueued v then v else v\<lparr>sv_rebuildQueued := True, sv_posts := sv_posts v @ [Rebuild]\<rparr>)"

definition sv_queueRefresh :: "snapshots_vm \<Rightarrow> snapshots_vm" where
  "sv_queueRefresh v =
     (if sv_refreshQueued v then v else v\<lparr>sv_refreshQueued := True, sv_posts := sv_posts v @ [RequestRefresh]\<rparr>)"

definition sv_onEvent :: "event \<Rightarrow> snapshots_vm \<Rightarrow> snapshots_vm" where
  "sv_onEvent ev v =
     (case ev of
        SnapshotsRefreshedEvent \<Rightarrow> sv_queueRebuild v
      | SnapshotsChangedEvent \<Rightarrow> sv_queueRefresh v
      | SnapshotDiffRefreshedEvent \<Rightarrow> v\<lparr>sv_posts := sv_posts v @ [DiffLanded]\<rparr>
      | _ \<Rightarrow> v)"

definition sv_close :: "snapshots_vm \<Rightarrow> snapshots_vm" where
  "sv_close v = v\<lparr>sv_alive := False\<rparr>"

definition metaForRow :: "snapshots_vm \<Rightarrow> int \<Rightarrow> snapshot_meta option" where
  "metaForRow v row = (case rowAt (sv_rowRefs v) row of Some (Some i) \<Rightarrow> Some (sv_metas v ! i) | _ \<Rightarrow> None)"

definition selectedMeta :: "snapshots_vm \<Rightarrow> snapshot_meta option" where
  "selectedMeta v = metaForRow v (sv_selected v)"

definition sv_selectedId :: "snapshots_vm \<Rightarrow> string option" where
  "sv_selectedId v = map_option meta_id (selectedMeta v)"

definition healthForRow :: "snapshots_vm \<Rightarrow> int \<Rightarrow> snapshot_health option" where
  "healthForRow v row = map_option meta_health (metaForRow v row)"

definition isHeadRow :: "snapshots_vm \<Rightarrow> int \<Rightarrow> bool" where
  "isHeadRow v row = (case metaForRow v row of None \<Rightarrow> False | Some m \<Rightarrow> sv_headId v \<noteq> [] \<and> meta_id m = sv_headId v)"

definition isLastGoodRow :: "snapshots_vm \<Rightarrow> int \<Rightarrow> bool" where
  "isLastGoodRow v row =
     (case metaForRow v row of None \<Rightarrow> False | Some m \<Rightarrow> sv_lastGoodId v \<noteq> [] \<and> meta_id m = sv_lastGoodId v)"

definition pushEmptyStateRow :: "'w facade \<Rightarrow> string \<Rightarrow> snapshots_vm \<Rightarrow> snapshots_vm" where
  "pushEmptyStateRow f needle v =
     (if needle \<noteq> [] then
        v\<lparr>sv_rows := sv_rows v @ [''No snapshots match '' @ [CHR 0x22] @ sv_filter v @ [CHR 0x22]], sv_rowRefs := sv_rowRefs v @ [None]\<rparr>
      else if fc_daemonError f = None then
        v\<lparr>sv_rows := sv_rows v @ [''(no snapshots)''], sv_rowRefs := sv_rowRefs v @ [None]\<rparr>
      else v)"

text \<open>The rows of the metadata the filter wants, by their index.\<close>

definition sv_wanted :: "string \<Rightarrow> snapshot_meta list \<Rightarrow> nat list" where
  "sv_wanted needle metas =
     filter (\<lambda>i. needle = [] \<or> contains (sv_filterHaystack (metas ! i)) needle) [0..<length metas]"

definition sv_rowText :: "(int \<Rightarrow> string) \<Rightarrow> bool \<Rightarrow> snapshot_meta list \<Rightarrow> nat \<Rightarrow> string" where
  "sv_rowText lt history metas i =
     (if history
      then replicate (min (chainIndents None (buildSnapshotChain metas) ! i) kMaxIndentLevels * kIndentPerLevel) CHR '' '' @
        sv_formatRow lt (metas ! i) @ chainMarkers (buildSnapshotChain metas ! i)
      else sv_formatRow lt (metas ! i))"

definition sv_restoreSelection :: "string option \<Rightarrow> snapshots_vm \<Rightarrow> int" where
  "sv_restoreSelection keep v =
     restoreRow (\<lambda>r. keep \<noteq> None \<and> map_option (\<lambda>i. meta_id (sv_metas v ! i)) r = keep) (sv_rowRefs v) (sv_selected v) (length (sv_rows v))"

definition sv_rebuild :: "(int \<Rightarrow> string) \<Rightarrow> 'w facade \<Rightarrow> snapshots_vm \<Rightarrow> snapshots_vm" where
  "sv_rebuild lt f v =
     (let keep = sv_selectedId v;
          metas = fc_snapshots f;
          chain = buildSnapshotChain metas;
          needle = toLower (sv_filter v);
          shown = sv_wanted needle metas;
          v1 = v\<lparr>sv_metas := metas, sv_headId := markedId cr_head chain, sv_lastGoodId := markedId cr_lastGood chain,
                 sv_rows := map (sv_rowText lt (sv_historyView v) metas) shown, sv_rowRefs := map Some shown\<rparr>;
          v2 = (if sv_rows v1 = [] then pushEmptyStateRow f needle v1 else v1)
      in v2\<lparr>sv_selected := (if sv_rows v2 = [] then 0 else sv_restoreSelection keep v2)\<rparr>)"

definition sv_setFilter :: "(int \<Rightarrow> string) \<Rightarrow> string \<Rightarrow> 'w facade \<Rightarrow> snapshots_vm \<Rightarrow> snapshots_vm" where
  "sv_setFilter lt s f v = sv_rebuild lt f (v\<lparr>sv_filter := s\<rparr>)"

definition sv_setHistoryView :: "(int \<Rightarrow> string) \<Rightarrow> bool \<Rightarrow> 'w facade \<Rightarrow> snapshots_vm \<Rightarrow> snapshots_vm" where
  "sv_setHistoryView lt on f v = sv_rebuild lt f (v\<lparr>sv_historyView := on\<rparr>)"

definition sv_runPost :: "(int \<Rightarrow> string) \<Rightarrow> 'w facade \<Rightarrow> snapshots_vm \<Rightarrow> snapshots_vm" where
  "sv_runPost lt f v =
     (case sv_posts v of
        [] \<Rightarrow> v
      | p # ps \<Rightarrow>
          (let v1 = v\<lparr>sv_posts := ps\<rparr> in
           if \<not> sv_alive v then v1
           else case p of
             Rebuild \<Rightarrow> sv_rebuild lt f (v1\<lparr>sv_rebuildQueued := False\<rparr>)
           | RequestRefresh \<Rightarrow> v1\<lparr>sv_refreshQueued := False, sv_refreshes := sv_refreshes v1 + 1\<rparr>
           | DiffLanded \<Rightarrow> v1\<lparr>sv_previewPending := False\<rparr>))"

section \<open>What is shown of it\<close>

definition sv_banner :: "'w facade \<Rightarrow> snapshots_vm \<Rightarrow> string" where
  "sv_banner f v =
     (let degraded = join '' | '' (map bn_text (helperNotes f));
          autoCount = length (filter (\<lambda>m. meta_trigger m = Auto) (sv_metas v));
          manualCount = length (filter (\<lambda>m. meta_trigger m \<noteq> Auto) (sv_metas v));
          unhealthy = length (filter (\<lambda>m. meta_health m \<noteq> HealthOk) (sv_metas v));
          sep = '' '' @ middot @ '' '';
          b = show_nat (length (sv_metas v)) @ '' snapshots'' @ sep @ show_nat autoCount @ '' auto'' @ sep @
              show_nat manualCount @ '' manual'' @ (if unhealthy > 0 then sep @ show_nat unhealthy @ '' unhealthy'' else [])
      in if sv_metas v = [] then degraded
         else if degraded = [] then b else degraded @ '' | '' @ b)"

definition sv_detailLines :: "(int \<Rightarrow> string) \<Rightarrow> snapshots_vm \<Rightarrow> string list" where
  "sv_detailLines lt v =
     (case selectedMeta v of
        None \<Rightarrow> [''(no snapshot selected)'']
      | Some m \<Rightarrow>
          [''Id:      '' @ meta_id m,
           ''Parent:  '' @ (case meta_parent m of Some p \<Rightarrow> p | None \<Rightarrow> ''(none)''),
           ''Created: '' @ lt (meta_createdAtUtc m),
           ''Trigger: '' @ trigger_to_string (meta_trigger m),
           ''Reason:  '' @ sv_reasonCell m,
           ''Payload: '' @ show_nat (meta_entryCount m) @ '' entries, '' @ show_nat (meta_modprobeFileCount m) @ '' modprobe files''] @
          (if meta_health m \<noteq> HealthOk
           then [''Health:  '' @ health_to_string (meta_health m) @ '' '' @ dash @ '' restore disabled for this snapshot'']
           else []))"

text \<open>The part of \<^verbatim>\<open>requestPreview\<close> that is the view's; the task it submits compares with the live system.\<close>

definition sv_requestPreview :: "string \<Rightarrow> snapshots_vm \<Rightarrow> snapshots_vm" where
  "sv_requestPreview i v = v\<lparr>sv_previewId := Some i, sv_previewPending := True\<rparr>"

definition sv_diffLines :: "'w facade \<Rightarrow> snapshots_vm \<Rightarrow> string list" where
  "sv_diffLines f v =
     (case sv_previewId v of
        None \<Rightarrow> [''(no diff requested)'']
      | Some _ \<Rightarrow>
          if sv_previewPending v then [''Computing differences...'']
          else case fc_diff f of
            None \<Rightarrow> [''Differences are unavailable for this snapshot.'']
          | Some d \<Rightarrow> diffLines d)"

definition sv_previewLines :: "(int \<Rightarrow> string) \<Rightarrow> 'w facade \<Rightarrow> snapshots_vm \<Rightarrow> string list" where
  "sv_previewLines lt f v =
     (case sv_previewId v of
        None \<Rightarrow> [''Select a snapshot to preview its restore.'']
      | Some i \<Rightarrow>
          (''Restore snapshot '' @ snapshotShortId i @ ''?'') # previewContextLines lt (sv_metas v) i @ [[]] @
          (if sv_previewPending v then [''Computing what will change...'']
           else restorePreviewChangeLines (fc_diff f) @ [[], restorePreviewConvergenceNote]))"

definition sv_restoreGuidanceLines :: "'w facade \<Rightarrow> string list" where
  "sv_restoreGuidanceLines f = (case fc_lastRestore f of None \<Rightarrow> [] | Some oc \<Rightarrow> restoreGuidanceLines oc)"

record verb_args =
  va_id :: string
  va_confirmText :: string

definition selectedRestore :: "snapshots_vm \<Rightarrow> verb_args option" where
  "selectedRestore v =
     (case selectedMeta v of
        None \<Rightarrow> None
      | Some m \<Rightarrow>
          if meta_health m \<noteq> HealthOk then None
          else Some \<lparr>va_id = meta_id m,
            va_confirmText = ''Restore '' @ snapshotShortId (meta_id m) @
              ''? Current state is saved as a safety snapshot first; devices and '' @
              ''modules re-converge and the critical-device guard may refuse '' @ ''items (reported per item).''\<rparr>)"

definition selectedDelete :: "snapshots_vm \<Rightarrow> verb_args option" where
  "selectedDelete v =
     (case selectedMeta v of
        None \<Rightarrow> None
      | Some m \<Rightarrow>
          if meta_health m = UnsupportedFormat then None
          else Some \<lparr>va_id = meta_id m,
            va_confirmText = ''Delete snapshot '' @ snapshotShortId (meta_id m) @ ''? This cannot be undone.''\<rparr>)"

end
