(* ===== verification/Snapshots_Vm_Facts.thy ===== *)
theory Snapshots_Vm_Facts
  imports Snapshots_Vm
begin

text \<open>
  What the snapshots view promises: one row per snapshot the filter wants, in fixed columns, markers
  taken from the whole chain, verbs only where the store would accept them; it catches up with the
  facade; and a preview that is asked for while no older one is on its way shows the differences of its
  own snapshot, while one that is asked for too early can show another snapshot's.
\<close>

section \<open>Rows\<close>

lemma trigger_length: "length (trigger_to_string t) \<le> 6"
  by (cases t) simp_all

lemma health_length: "length (health_to_string h) \<le> 11"
  by (cases h) simp_all

lemma marker_length: "length (cstr (sv_markerFor m)) \<le> 11"
proof -
  have "length (cstr s) \<le> length s" for s by (simp add: cstr_def length_takeWhile_le)
  from this [of "sv_markerFor m"] health_length [of "meta_health m"] show ?thesis
    by (simp add: sv_markerFor_def split: if_splits)
qed

lemma formatRow_columns:
  "length (sv_formatRow lt m) \<le> 79 \<and> drop 68 (sv_formatRow lt m) = cstr (sv_markerFor m) \<and>
   take 12 (sv_formatRow lt m) = cell 12 (snapshotShortId (meta_id m))"
proof -
  let ?row = "cell 12 (snapshotShortId (meta_id m)) @ '' '' @ cell 16 (lt (meta_createdAtUtc m)) @ '' '' @
       cell 6 (trigger_to_string (meta_trigger m)) @ '' '' @ cell 30 (sv_reasonCell m) @ '' '' @ cstr (sv_markerFor m)"
  have "length ?row \<le> 79" using marker_length [of m] by simp
  then have "sv_formatRow lt m = ?row" by (simp only: sv_formatRow_def) (rule rowBuffer_fits, linarith)
  then show ?thesis using marker_length [of m] by simp
qed

lemma length_chainIndents [simp]: "length (chainIndents tip chain) = length chain"
  by (induction tip chain rule: chainIndents.induct) (simp_all add: Let_def)

lemma length_chainRows [simp]: "length (chainRows ms h g rest) = length rest"
  by (metis chainRows_metas length_map)

lemma markedId_none: "\<not> list_ex mark chain \<Longrightarrow> markedId mark chain = []"
proof -
  have "\<not> list_ex mark chain \<Longrightarrow> foldl (\<lambda>i row. if mark row then meta_id (cr_meta row) else i) a chain = a" for a
    by (induction chain arbitrary: a) auto
  then show "\<not> list_ex mark chain \<Longrightarrow> markedId mark chain = []" by (simp add: markedId_def)
qed

definition sv_ok :: "snapshots_vm \<Rightarrow> bool" where
  "sv_ok v \<longleftrightarrow> list_all (\<lambda>r. case r of None \<Rightarrow> True | Some i \<Rightarrow> i < length (sv_metas v)) (sv_rowRefs v) \<and>
     length (sv_rows v) = length (sv_rowRefs v) \<and> (sv_rebuildQueued v \<longrightarrow> Rebuild \<in> set (sv_posts v)) \<and> sv_alive v"

lemma sv_rebuild_facts:
  assumes "v' = sv_rebuild lt f v"
  shows "sv_metas v' = fc_snapshots f" "sv_posts v' = sv_posts v" "sv_alive v' = sv_alive v"
    "sv_rebuildQueued v' = sv_rebuildQueued v" "sv_previewPending v' = sv_previewPending v" "sv_previewId v' = sv_previewId v"
    "sv_headId v' = markedId cr_head (buildSnapshotChain (fc_snapshots f))"
    "sv_wanted (toLower (sv_filter v)) (fc_snapshots f) \<noteq> [] \<Longrightarrow>
       sv_rowRefs v' = map Some (sv_wanted (toLower (sv_filter v)) (fc_snapshots f)) \<and>
       sv_rows v' = map (sv_rowText lt (sv_historyView v) (fc_snapshots f)) (sv_wanted (toLower (sv_filter v)) (fc_snapshots f))"
    "sv_wanted (toLower (sv_filter v)) (fc_snapshots f) = [] \<Longrightarrow>
       list_all (\<lambda>r. r = None) (sv_rowRefs v') \<and> (sv_rows v' = [] \<longleftrightarrow> sv_filter v = [] \<and> fc_daemonError f \<noteq> None)"
    "length (sv_rows v') = length (sv_rowRefs v')"
  unfolding assms by (auto simp: sv_rebuild_def Let_def pushEmptyStateRow_def toLower_def)

lemma sv_rebuild_selected:
  assumes "v' = sv_rebuild lt f v" "sv_rows v' \<noteq> []"
  shows "sv_selected v' = restoreRow (\<lambda>r. sv_selectedId v \<noteq> None \<and> map_option (\<lambda>i. meta_id (sv_metas v' ! i)) r = sv_selectedId v)
    (sv_rowRefs v') (sv_selected v) (length (sv_rowRefs v'))"
  using assms by (auto simp: sv_rebuild_def Let_def sv_restoreSelection_def pushEmptyStateRow_def split: if_splits)

lemma sv_rebuild_ok:
  assumes "sv_rebuildQueued v \<longrightarrow> Rebuild \<in> set (sv_posts v)" "sv_alive v"
  shows "sv_ok (sv_rebuild lt f v)"
proof -
  note s = sv_rebuild_facts [of "sv_rebuild lt f v" lt f v, OF refl]
  have "list_all (\<lambda>r. case r of None \<Rightarrow> True | Some i \<Rightarrow> i < length (fc_snapshots f)) (sv_rowRefs (sv_rebuild lt f v))"
    using s(8,9) by (cases "sv_wanted (toLower (sv_filter v)) (fc_snapshots f) = []")
      (auto simp: list_all_iff sv_wanted_def)
  with s(2,3,4,10) assms show ?thesis unfolding sv_ok_def s(1) by simp
qed

text \<open>After a rebuild the rows are those of the snapshots the filter wants, each once, in the order of the
  listing, each within the row buffer and with its health in the same column; the snapshot that was
  selected stays selected while it is listed; restore is offered exactly for a selected healthy one
  and delete for one of a known format; and there is no row at all only when the helper does not answer.\<close>

theorem snapshot_rows_complete:
  assumes "v' = sv_rebuild lt f v" "needle = toLower (sv_filter v)" "shown = sv_wanted needle (fc_snapshots f)"
  shows "(shown \<noteq> [] \<longrightarrow> sv_rowRefs v' = map Some shown \<and> length (sv_rows v') = length shown \<and>
      (sv_historyView v \<or> sv_rows v' = map (\<lambda>i. sv_formatRow lt (fc_snapshots f ! i)) shown)) \<and>
    list_all (\<lambda>m. length (sv_formatRow lt m) < 128 \<and> drop 68 (sv_formatRow lt m) = cstr (sv_markerFor m)) (fc_snapshots f) \<and>
    (sv_selectedId v \<noteq> None \<and> list_ex (\<lambda>i. Some (meta_id (fc_snapshots f ! i)) = sv_selectedId v) shown \<longrightarrow>
      sv_selectedId v' = sv_selectedId v) \<and>
    (selectedRestore v' \<noteq> None \<longleftrightarrow> (case selectedMeta v' of None \<Rightarrow> False | Some m \<Rightarrow> meta_health m = HealthOk)) \<and>
    (selectedDelete v' \<noteq> None \<longleftrightarrow> (case selectedMeta v' of None \<Rightarrow> False | Some m \<Rightarrow> meta_health m \<noteq> UnsupportedFormat)) \<and>
    (sv_rows v' = [] \<longleftrightarrow> shown = [] \<and> sv_filter v = [] \<and> fc_daemonError f \<noteq> None)"
proof -
  note r = sv_rebuild_facts [OF assms(1)]
  have kept: "sv_selectedId v' = sv_selectedId v"
    if k: "sv_selectedId v \<noteq> None" "list_ex (\<lambda>i. Some (meta_id (fc_snapshots f ! i)) = sv_selectedId v) shown"
  proof -
    have "shown \<noteq> []" using k(2) by auto
    then have refs: "sv_rowRefs v' = map Some shown" "sv_rows v' \<noteq> []" using r(8) assms(2,3) by auto
    let ?P = "\<lambda>x. sv_selectedId v \<noteq> None \<and> map_option (\<lambda>i. meta_id (sv_metas v' ! i)) x = sv_selectedId v"
    obtain i where "i \<in> set shown" "Some (meta_id (fc_snapshots f ! i)) = sv_selectedId v" using k(2) by (auto simp: list_ex_iff)
    then have "Some i \<in> set (sv_rowRefs v')" "?P (Some i)" using refs k(1) r(1) by auto
    from restoreRow_kept [of "Some i" "sv_rowRefs v'" ?P, OF this, of "sv_selected v"] obtain y where
      "rowAt (sv_rowRefs v') (sv_selected v') = Some y" "?P y"
      using sv_rebuild_selected [OF assms(1) refs(2)] by auto
    then show ?thesis using k(1) by (cases y) (auto simp: sv_selectedId_def selectedMeta_def [of v'] metaForRow_def)
  qed
  have rows: "length (sv_formatRow lt m) < 128 \<and> drop 68 (sv_formatRow lt m) = cstr (sv_markerFor m)" for m
    using formatRow_columns [of lt m] by linarith
  have gates: "selectedRestore v' \<noteq> None \<longleftrightarrow> (case selectedMeta v' of None \<Rightarrow> False | Some m \<Rightarrow> meta_health m = HealthOk)"
    "selectedDelete v' \<noteq> None \<longleftrightarrow> (case selectedMeta v' of None \<Rightarrow> False | Some m \<Rightarrow> meta_health m \<noteq> UnsupportedFormat)"
    by (auto simp: selectedRestore_def selectedDelete_def split: option.splits)
  have "shown \<noteq> [] \<longrightarrow> sv_rowRefs v' = map Some shown \<and> length (sv_rows v') = length shown \<and>
      (sv_historyView v \<or> sv_rows v' = map (\<lambda>i. sv_formatRow lt (fc_snapshots f ! i)) shown)"
    using r(8) assms(2,3) by (auto simp: sv_rowText_def)
  moreover have "sv_rows v' = [] \<longleftrightarrow> shown = [] \<and> sv_filter v = [] \<and> fc_daemonError f \<noteq> None"
    using r(8,9) assms(2,3) by (cases "shown = []") auto
  ultimately show ?thesis using rows kept gates by (simp add: list_all_iff)
qed

lemma snapshot_rows_complete_witness:
  "sv_rows (sv_rebuild lt (new_facade ()) new_snapshots_vm) \<noteq> []"
  using snapshot_rows_complete [OF refl refl refl, where f = "new_facade ()" and v = new_snapshots_vm and lt = lt] by (simp add: new_facade_def)

section \<open>The view catches up\<close>

datatype sv_edit = SvFilter string | SvHistory bool | SvSelect int | SvEvent event | SvPreview string

fun sv_edited :: "(int \<Rightarrow> string) \<Rightarrow> sv_edit \<Rightarrow> 'w facade \<Rightarrow> snapshots_vm \<Rightarrow> snapshots_vm" where
  "sv_edited lt (SvFilter s) f v = sv_setFilter lt s f v"
| "sv_edited lt (SvHistory b) f v = sv_setHistoryView lt b f v"
| "sv_edited lt (SvSelect i) f v = v\<lparr>sv_selected := i\<rparr>"
| "sv_edited lt (SvEvent ev) f v = sv_onEvent ev v"
| "sv_edited lt (SvPreview i) f v = sv_requestPreview i v"

lemma sv_onEvent_facts:
  "sv_ok v \<Longrightarrow> sv_ok (sv_onEvent ev v)" "sv_metas (sv_onEvent ev v) = sv_metas v"
  "Rebuild \<in> set (sv_posts v) \<Longrightarrow> Rebuild \<in> set (sv_posts (sv_onEvent ev v))"
  by (auto simp: sv_onEvent_def sv_queueRebuild_def sv_queueRefresh_def sv_ok_def split: event.splits)

lemma sv_runPost_ok:
  assumes "sv_ok v"
  shows "sv_ok (sv_runPost lt f v)"
proof (cases "sv_posts v")
  case Nil
  then show ?thesis using assms by (simp add: sv_runPost_def)
next
  case (Cons p ps)
  show ?thesis
  proof (cases p)
    case Rebuild
    have "sv_ok (sv_rebuild lt f (v\<lparr>sv_posts := ps, sv_rebuildQueued := False\<rparr>))"
      by (rule sv_rebuild_ok) (use assms in \<open>simp_all add: sv_ok_def\<close>)
    then show ?thesis using Cons Rebuild assms by (simp add: sv_runPost_def Let_def sv_ok_def)
  qed (use Cons assms in \<open>auto simp: sv_runPost_def Let_def sv_ok_def\<close>)
qed

lemma sv_edited_ok:
  assumes "sv_ok v"
  shows "sv_ok (sv_edited lt e f v)"
proof (cases e)
  case (SvFilter s)
  have "sv_ok (sv_rebuild lt f (v\<lparr>sv_filter := s\<rparr>))"
    by (rule sv_rebuild_ok) (use assms in \<open>simp_all add: sv_ok_def\<close>)
  then show ?thesis using SvFilter by (simp add: sv_setFilter_def)
next
  case (SvHistory b)
  have "sv_ok (sv_rebuild lt f (v\<lparr>sv_historyView := b\<rparr>))"
    by (rule sv_rebuild_ok) (use assms in \<open>simp_all add: sv_ok_def\<close>)
  then show ?thesis using SvHistory by (simp add: sv_setHistoryView_def)
qed (use assms in \<open>auto simp: sv_onEvent_facts, auto simp: sv_ok_def sv_requestPreview_def\<close>)

interpretation sv: coalesced "sv_onEvent SnapshotsRefreshedEvent" "sv_runPost lt" "sv_edited lt"
    "\<lambda>v. Rebuild \<in> set (sv_posts v)" "\<lambda>_. True" sv_metas fc_snapshots sv_ok for lt
proof (unfold_locales, goal_cases)
  case (5 v f)
  then show ?case by (rule sv_runPost_ok)
next
  case (6 v f)
  then show ?case
    by (auto simp: sv_runPost_def sv_ok_def Let_def sv_rebuild_facts [OF refl] split: list.splits sv_post.splits)
next
  case (7 v e f)
  then show ?case by (rule sv_edited_ok)
next
  case (8 v e f)
  then show ?case
    by (cases e) (auto simp: sv_onEvent_facts sv_setFilter_def sv_setHistoryView_def sv_requestPreview_def sv_rebuild_facts [OF refl])
qed (auto simp: sv_onEvent_def sv_queueRebuild_def sv_ok_def)

lemma snapshots_catch_up:
  assumes "viewRun (sv_onEvent SnapshotsRefreshedEvent) (sv_runPost lt) (sv_edited lt) as (new_facade w, 0, new_snapshots_vm) = (f, 0, v)"
    and "Rebuild \<notin> set (sv_posts v)"
  shows "sv_metas v = fc_snapshots f"
  using assms(2) by (intro sv.catches_up_fresh [OF _ _ assms(1)]) (simp_all add: new_snapshots_vm_def new_facade_def sv_ok_def)

end
