(* ===== verification/Facade_Facts.thy ===== *)
theory Facade_Facts
  imports Facade
begin

text \<open>
  What the facade promises the views: one completion per task, pending updates that are cleared on
  evidence only, an availability note that agrees with the error it is made of, one install at a
  time; and two places where tasks that overlap break what each of them keeps alone.
\<close>

section \<open>One completion per task\<close>

fun completions :: "event list \<Rightarrow> (string \<times> bool \<times> string) list" where
  "completions [] = []"
| "completions (TaskCompletedEvent t ok m # evs) = (t, ok, m) # completions evs"
| "completions (_ # evs) = completions evs"

lemma completions_append [simp]: "completions (xs @ ys) = completions xs @ completions ys"
  by (induction xs rule: completions.induct) simp_all

lemma completions_progress [simp]: "completions (map (\<lambda>u. TaskProgressEvent t (g u) (h u)) us) = []"
  by (induction us) simp_all

text \<open>Whether the helper carried a verb out; a build without the helper never does.\<close>

definition helperOk :: "'w seams \<Rightarrow> ('w helper \<Rightarrow> 'a result \<times> 'w) \<Rightarrow> bool" where
  "helperOk sm verb = (case sm_channel sm of None \<Rightarrow> False | Some c \<Rightarrow> has_value (fst (verb c)))"

definition reportsOnce :: "string \<Rightarrow> bool \<Rightarrow> event list \<Rightarrow> bool" where
  "reportsOnce taskId ok evs \<longleftrightarrow> map (\<lambda>c. (fst c, fst (snd c))) (completions evs) = [(taskId, ok)]"

named_theorems facade_simps "the facade's tasks and what they call"

lemmas [facade_simps] = reportsOnce_def helperOk_def runChannelTask_def runSnapshotMutation_def
  facade_setDeviceEnabled_def facade_loadModule_def facade_unloadModule_def facade_bindDriver_def
  facade_unbindDriver_def facade_createSnapshot_def facade_restoreSnapshot_def facade_deleteSnapshot_def
  installTask_def installRun_def

lemma channel_task_reports:
  "reportsOnce t (helperOk sm (\<lambda>c. call c (fc_world f))) (fst (runChannelTask sm t okm mc call f))"
  by (auto simp: reportsOnce_def helperOk_def runChannelTask_def split: option.splits prod.splits sum.splits)

lemma mutation_reports:
  assumes "\<And>c. has_value (fst (call c f)) = has_value (fst (verb c))"
  shows "reportsOnce t (helperOk sm verb) (fst (runSnapshotMutation sm t call f))"
proof (cases "sm_channel sm")
  case None
  then show ?thesis by (simp add: reportsOnce_def helperOk_def runSnapshotMutation_def)
next
  case (Some c)
  obtain r f1 where r: "call c f = (r, f1)" by (metis surj_pair)
  with assms [of c] have "has_value (fst (verb c)) = has_value r" by simp
  with Some r show ?thesis by (cases r) (simp_all add: reportsOnce_def helperOk_def runSnapshotMutation_def)
qed

lemma set_enabled_reports:
  "reportsOnce (''set-enabled:'' @ i)
     (case model_findById (fc_model f) i of None \<Rightarrow> False | Some d \<Rightarrow> helperOk sm (\<lambda>c. pc_setEnabled c d en (fc_world f)))
     (fst (facade_setDeviceEnabled sm i en f))"
  by (auto simp: facade_setDeviceEnabled_def reportsOnce_def helperOk_def Let_def split: option.splits prod.splits sum.splits)

lemma install_reports:
  "reportsOnce (''install-update:'' @ cid)
     (case findProvider sm pid of None \<Rightarrow> False
      | Some p \<Rightarrow> hasCap (up_caps p) Install \<and> has_value (snd (fst (up_install p cid rel (fc_world f)))))
     (fst (installTask sm pid cid rel f))"
  by (auto simp: installTask_def installRun_def reportsOnce_def Let_def split: option.splits prod.splits sum.splits)

text \<open>C28: Every task that changes the machine publishes one completion, under its own name, and reports
  success exactly when the helper, or the update provider, carried the verb out: not when the build
  has no helper, not when the device is gone, not when the provider is unknown or cannot install.\<close>

theorem one_completion_per_task:
  "reportsOnce (''set-enabled:'' @ i)
     (case model_findById (fc_model f) i of None \<Rightarrow> False | Some d \<Rightarrow> helperOk sm (\<lambda>c. pc_setEnabled c d en (fc_world f)))
     (fst (facade_setDeviceEnabled sm i en f)) \<and>
   reportsOnce (''load-module:'' @ n) (helperOk sm (\<lambda>c. pc_loadModule c n (fc_world f))) (fst (facade_loadModule sm n f)) \<and>
   reportsOnce (''unload-module:'' @ n) (helperOk sm (\<lambda>c. pc_unloadModule c n (fc_world f))) (fst (facade_unloadModule sm n f)) \<and>
   reportsOnce (''bind-driver:'' @ i)
     (case model_findById m i of None \<Rightarrow> False | Some d \<Rightarrow> helperOk sm (\<lambda>c. pc_bindDriver c d n (fc_world f)))
     (fst (facade_bindDriver sm m i n f)) \<and>
   reportsOnce (''unbind-driver:'' @ i)
     (case model_findById m i of None \<Rightarrow> False | Some d \<Rightarrow> helperOk sm (\<lambda>c. pc_unbindDriver c d (fc_world f)))
     (fst (facade_unbindDriver sm m i f)) \<and>
   reportsOnce (''snapshot-create:'' @ n) (helperOk sm (\<lambda>c. pc_snapshotCreate c n (fc_world f))) (fst (facade_createSnapshot sm n f)) \<and>
   reportsOnce (''snapshot-restore:'' @ n) (helperOk sm (\<lambda>c. pc_snapshotRestore c n (fc_world f))) (fst (facade_restoreSnapshot sm n f)) \<and>
   reportsOnce (''snapshot-delete:'' @ n) (helperOk sm (\<lambda>c. pc_snapshotDelete c n (fc_world f))) (fst (facade_deleteSnapshot sm n f)) \<and>
   reportsOnce (''install-update:'' @ cid)
     (case findProvider sm pid of None \<Rightarrow> False
      | Some p \<Rightarrow> hasCap (up_caps p) Install \<and> has_value (snd (fst (up_install p cid rel (fc_world f)))))
     (fst (installTask sm pid cid rel f))"
proof -
  have gone: "helperOk sm (\<lambda>c. (makeError NotFound kGone :: unit result, w)) = False" for w
    by (auto simp: helperOk_def makeError_def split: option.splits)
  have bind: "reportsOnce (''bind-driver:'' @ i)
     (case model_findById m i of None \<Rightarrow> False | Some d \<Rightarrow> helperOk sm (\<lambda>c. pc_bindDriver c d n (fc_world f)))
     (fst (facade_bindDriver sm m i n f))"
  proof (cases "model_findById m i")
    case None
    show ?thesis
      unfolding facade_bindDriver_def None option.case using gone [of "fc_world f"] channel_task_reports [of _ sm "\<lambda>c w. (makeError NotFound kGone, w)" f]
      by presburger
  next
    case (Some d)
    show ?thesis unfolding facade_bindDriver_def Some option.case by (rule channel_task_reports)
  qed
  have unbind: "reportsOnce (''unbind-driver:'' @ i)
     (case model_findById m i of None \<Rightarrow> False | Some d \<Rightarrow> helperOk sm (\<lambda>c. pc_unbindDriver c d (fc_world f)))
     (fst (facade_unbindDriver sm m i f))"
  proof (cases "model_findById m i")
    case None
    show ?thesis
      unfolding facade_unbindDriver_def None option.case using gone [of "fc_world f"] channel_task_reports [of _ sm "\<lambda>c w. (makeError NotFound kGone, w)" f]
      by presburger
  next
    case (Some d)
    show ?thesis unfolding facade_unbindDriver_def Some option.case by (rule channel_task_reports)
  qed
  have create: "reportsOnce (''snapshot-create:'' @ n) (helperOk sm (\<lambda>c. pc_snapshotCreate c n (fc_world f))) (fst (facade_createSnapshot sm n f))"
    unfolding facade_createSnapshot_def by (rule mutation_reports) (auto split: prod.splits sum.splits)
  have restore: "reportsOnce (''snapshot-restore:'' @ n) (helperOk sm (\<lambda>c. pc_snapshotRestore c n (fc_world f))) (fst (facade_restoreSnapshot sm n f))"
    unfolding facade_restoreSnapshot_def by (rule mutation_reports) (auto split: prod.splits sum.splits)
  have delete: "reportsOnce (''snapshot-delete:'' @ n) (helperOk sm (\<lambda>c. pc_snapshotDelete c n (fc_world f))) (fst (facade_deleteSnapshot sm n f))"
    unfolding facade_deleteSnapshot_def by (rule mutation_reports) (auto split: prod.splits sum.splits)
  have "reportsOnce (''load-module:'' @ n) (helperOk sm (\<lambda>c. pc_loadModule c n (fc_world f))) (fst (facade_loadModule sm n f))"
    "reportsOnce (''unload-module:'' @ n) (helperOk sm (\<lambda>c. pc_unloadModule c n (fc_world f))) (fst (facade_unloadModule sm n f))"
    unfolding facade_loadModule_def facade_unloadModule_def by (rule channel_task_reports)+
  with set_enabled_reports bind unbind create restore delete install_reports show ?thesis by blast
qed

section \<open>Updates\<close>

lemma upsertPending_facts [simp]:
  "fc_world (upsertPending a f) = fc_world f" "fc_updates (upsertPending a f) = fc_updates f"
  "map_of (fc_pending (upsertPending a f)) = (map_of (fc_pending f))((pa_providerId a, pa_deviceId a) \<mapsto> a)"
  by (simp_all add: upsertPending_def smap_simps)

lemma upsertAll_facts:
  "fc_world (foldl (\<lambda>g a. upsertPending a g) f as) = fc_world f \<and>
   fc_updates (foldl (\<lambda>g a. upsertPending a g) f as) = fc_updates f \<and>
   map_of (fc_pending (foldl (\<lambda>g a. upsertPending a g) f as)) k =
     (case find (\<lambda>a. (pa_providerId a, pa_deviceId a) = k) (rev as) of
        Some a \<Rightarrow> Some a | None \<Rightarrow> map_of (fc_pending f) k)"
proof (induction as rule: rev_induct)
  case (snoc a as)
  then show ?case by auto
qed simp

lemma map_of_filter_key: "map_of (filter (\<lambda>kv. P (fst kv)) m) k = (if P k then map_of m k else None)"
  by (induction m) auto

lemma map_of_erasePending:
  "map_of (fc_pending (erasePendingNotIn pid rep g)) k =
     (if fst k = pid \<and> k \<notin> set rep then None else map_of (fc_pending g) k)"
  using map_of_filter_key [of "\<lambda>k. \<not> (fst k = pid \<and> k \<notin> set rep)" "fc_pending g" k]
  by (simp add: erasePendingNotIn_def)

text \<open>What a provider knows of one of its devices decides over the durable record.\<close>

definition evidence :: "'w provider \<Rightarrow> bool \<Rightarrow> 'w \<Rightarrow> string \<Rightarrow> pending_action option \<Rightarrow> pending_action option" where
  "evidence p enumerated w d prev =
     (case up_pending p w of
        Inl _ \<Rightarrow> prev
      | Inr reported \<Rightarrow>
          (case find (\<lambda>a. pa_deviceId a = d) (rev reported) of
             Some a \<Rightarrow> Some (a\<lparr>pa_providerId := up_id p\<rparr>)
           | None \<Rightarrow> if enumerated then None else prev))"

lemma find_owned:
  "find (\<lambda>a. (pa_providerId a, pa_deviceId a) = (q, d)) (rev (map (\<lambda>a. a\<lparr>pa_providerId := pid\<rparr>) as)) =
     (if q = pid then map_option (\<lambda>a. a\<lparr>pa_providerId := pid\<rparr>) (find (\<lambda>a. pa_deviceId a = d) (rev as)) else None)"
  by (induction as rule: rev_induct) (auto simp: find_None_iff)

lemma reconcile_facts:
  "fc_world (reconcilePending p (up_id p) ok f) = fc_world f"
  "fc_updates (reconcilePending p (up_id p) ok f) = fc_updates f"
  "map_of (fc_pending (reconcilePending p (up_id p) ok f)) (q, d) =
     (if q = up_id p then evidence p ok (fc_world f) d (map_of (fc_pending f) (q, d)) else map_of (fc_pending f) (q, d))"
proof -
  have gone: "find (\<lambda>a. pa_deviceId a = d) (rev as) = None \<longleftrightarrow> d \<notin> set (map pa_deviceId as)" for as
    by (auto simp: find_None_iff)
  have "fc_world (reconcilePending p (up_id p) ok f) = fc_world f \<and>
      fc_updates (reconcilePending p (up_id p) ok f) = fc_updates f \<and>
      map_of (fc_pending (reconcilePending p (up_id p) ok f)) (q, d) =
        (if q = up_id p then evidence p ok (fc_world f) d (map_of (fc_pending f) (q, d)) else map_of (fc_pending f) (q, d))"
  proof (cases "up_pending p (fc_world f)")
    case (Inr as)
    let ?f1 = "foldl (\<lambda>g a. upsertPending a g) f (map (\<lambda>a. a\<lparr>pa_providerId := up_id p\<rparr>) as)"
    have up: "fc_world ?f1 = fc_world f" "fc_updates ?f1 = fc_updates f"
      "map_of (fc_pending ?f1) (q, d) =
        (case (if q = up_id p then map_option (\<lambda>a. a\<lparr>pa_providerId := up_id p\<rparr>) (find (\<lambda>a. pa_deviceId a = d) (rev as)) else None) of
           Some a \<Rightarrow> Some a | None \<Rightarrow> map_of (fc_pending f) (q, d))"
      using upsertAll_facts [of f "map (\<lambda>a. a\<lparr>pa_providerId := up_id p\<rparr>) as" "(q, d)"] unfolding find_owned by simp_all
    show ?thesis
    proof (cases ok)
      case True
      have "(up_id p, d) \<in> set (map (\<lambda>a. (up_id p, pa_deviceId a)) (map (\<lambda>a. a\<lparr>pa_providerId := up_id p\<rparr>) as)) \<longleftrightarrow>
          d \<in> set (map pa_deviceId as)"
        by (auto simp: image_image)
      moreover have "fc_world (erasePendingNotIn i rep g) = fc_world g" "fc_updates (erasePendingNotIn i rep g) = fc_updates g"
        for i rep and g :: "'a facade" by (simp_all add: erasePendingNotIn_def)
      moreover have "reconcilePending p (up_id p) ok f = erasePendingNotIn (up_id p)
          (map (\<lambda>a. (up_id p, pa_deviceId a)) (map (\<lambda>a. a\<lparr>pa_providerId := up_id p\<rparr>) as)) ?f1"
        using Inr True by (simp add: reconcilePending_def Let_def)
      ultimately show ?thesis using Inr True up gone [of as]
        by (simp only: map_of_erasePending fst_conv) (auto simp: evidence_def split: option.splits)
    next
      case False
      then show ?thesis using Inr up by (auto simp: reconcilePending_def Let_def evidence_def split: option.splits)
    qed
  qed (simp add: reconcilePending_def evidence_def)
  then show "fc_world (reconcilePending p (up_id p) ok f) = fc_world f"
    "fc_updates (reconcilePending p (up_id p) ok f) = fc_updates f"
    "map_of (fc_pending (reconcilePending p (up_id p) ok f)) (q, d) =
     (if q = up_id p then evidence p ok (fc_world f) d (map_of (fc_pending f) (q, d)) else map_of (fc_pending f) (q, d))"
    by blast+
qed

text \<open>The state of one provider after a refresh, from the candidates shown before.\<close>

definition stateOf :: "'w provider \<Rightarrow> 'w \<Rightarrow> update_candidate list \<Rightarrow> provider_state" where
  "stateOf p w old =
     (let av = up_availability p w in
      \<lparr>ups_providerId = up_id p, ups_availability = av,
       ups_candidates = (if pav_available av then (case up_enumerate p w of Inr cs \<Rightarrow> cs | Inl _ \<Rightarrow> old) else old),
       ups_refreshError = (if pav_available av then (case up_enumerate p w of Inr _ \<Rightarrow> None | Inl e \<Rightarrow> Some e) else None)\<rparr>)"

definition pendingAfter :: "'w provider \<Rightarrow> 'w \<Rightarrow> string \<Rightarrow> pending_action option \<Rightarrow> pending_action option" where
  "pendingAfter p w d prev =
     (if pav_available (up_availability p w) then evidence p (has_value (up_enumerate p w)) w d prev else prev)"

lemma buildProviderState_facts:
  assumes "buildProviderState p f = (st, f1)"
  shows "st = stateOf p (fc_world f) (lastGoodCandidates (up_id p) f)" "fc_world f1 = fc_world f" "fc_updates f1 = fc_updates f"
    "map_of (fc_pending f1) (q, d) =
       (if q = up_id p then pendingAfter p (fc_world f) d (map_of (fc_pending f) (q, d)) else map_of (fc_pending f) (q, d))"
proof -
  let ?av = "up_availability p (fc_world f)"
  have "st = stateOf p (fc_world f) (lastGoodCandidates (up_id p) f) \<and> fc_world f1 = fc_world f \<and> fc_updates f1 = fc_updates f \<and>
    map_of (fc_pending f1) (q, d) =
       (if q = up_id p then pendingAfter p (fc_world f) d (map_of (fc_pending f) (q, d)) else map_of (fc_pending f) (q, d))"
  proof (cases "pav_available ?av")
    case False
    with assms show ?thesis by (auto simp: buildProviderState_def stateOf_def pendingAfter_def Let_def)
  next
    case True
    show ?thesis
    proof (cases "up_enumerate p (fc_world f)")
      case (Inl e)
      with True assms show ?thesis
        by (auto simp: buildProviderState_def stateOf_def pendingAfter_def Let_def reconcile_facts)
    next
      case (Inr cs)
      with True assms show ?thesis
        by (auto simp: buildProviderState_def stateOf_def pendingAfter_def Let_def reconcile_facts)
    qed
  qed
  then show "st = stateOf p (fc_world f) (lastGoodCandidates (up_id p) f)" "fc_world f1 = fc_world f" "fc_updates f1 = fc_updates f"
    "map_of (fc_pending f1) (q, d) =
       (if q = up_id p then pendingAfter p (fc_world f) d (map_of (fc_pending f) (q, d)) else map_of (fc_pending f) (q, d))"
    by blast+
qed

lemma buildProviderStates_facts:
  assumes "buildProviderStates ps f = (sts, f1)" "distinct (map up_id ps)"
  shows "sts = map (\<lambda>p. stateOf p (fc_world f) (lastGoodCandidates (up_id p) f)) ps \<and> fc_world f1 = fc_world f \<and>
    map_of (fc_pending f1) (q, d) =
       (case find (\<lambda>p. up_id p = q) ps of
          Some p \<Rightarrow> pendingAfter p (fc_world f) d (map_of (fc_pending f) (q, d))
        | None \<Rightarrow> map_of (fc_pending f) (q, d))"
  using assms
proof (induction ps arbitrary: f sts f1)
  case (Cons p ps)
  obtain st g where st: "buildProviderState p f = (st, g)" by (metis surj_pair)
  obtain sts' where sts: "buildProviderStates ps g = (sts', f1)" "sts = st # sts'"
    using Cons.prems(1) st by (auto simp: apfst_def map_prod_def split: prod.splits)
  note b = buildProviderState_facts [OF st]
  have same: "lastGoodCandidates i g = lastGoodCandidates i f" for i by (simp add: lastGoodCandidates_def b)
  have "find (\<lambda>p. up_id p = up_id p') ps = None" if "p' = p" for p'
    using Cons.prems(2) that by (auto simp: find_None_iff image_iff)
  with Cons.IH [OF sts(1)] Cons.prems(2) b sts(2) same show ?case by (auto split: option.splits)
qed simp

text \<open>C27: A refresh of the updates treats every provider by itself. A provider that is away, or whose
  enumeration failed, keeps the candidates it had; another one has those it reported. The durable
  record of a pending action changes only on evidence: it takes what the provider reports, is dropped
  only when the provider answered both questions and does not report it, and stays when the provider
  is away, when it could not say what is pending, or when it is not one of the providers.\<close>

theorem updates_refreshed_on_evidence:
  assumes "distinct (map up_id (sm_providers sm))" "refreshUpdates sm f = (evs, f')"
  shows "fc_updates f' = map (\<lambda>p. stateOf p (fc_world f) (lastGoodCandidates (up_id p) f)) (sm_providers sm) \<and>
    map_of (fc_pending f') (q, d) =
      (case findProvider sm q of
         Some p \<Rightarrow> pendingAfter p (fc_world f) d (map_of (fc_pending f) (q, d))
       | None \<Rightarrow> map_of (fc_pending f) (q, d))"
proof -
  obtain sts g where b: "buildProviderStates (sm_providers sm) f = (sts, g)" by (metis surj_pair)
  from buildProviderStates_facts [OF b assms(1)] b assms(2) show ?thesis
    by (auto simp: refreshUpdates_def findProvider_def)
qed

definition sample_provider :: "unit provider" where
  "sample_provider = \<lparr>up_id = ''fwupd'', up_caps = [Query, Install],
     up_availability = (\<lambda>_. \<lparr>pav_available = True, pav_version = None, pav_error = None, pav_notices = []\<rparr>),
     up_enumerate = (\<lambda>_. Inr []), up_pending = (\<lambda>_. Inr []),
     up_install = (\<lambda>i r w. (([], makeError Io []), w))\<rparr>"

definition sample_seams :: "unit seams" where
  "sample_seams = \<lparr>sm_enumerate = (\<lambda>_. Inr []), sm_channel = None, sm_prober = None, sm_drivers = None,
     sm_systemInfo = None, sm_providers = [sample_provider]\<rparr>"

definition sample_pending :: "unit facade" where
  "sample_pending = (new_facade ())\<lparr>fc_pending :=
     [((''fwupd'', ''d''), \<lparr>pa_providerId = ''fwupd'', pa_deviceId = ''d'', pa_deviceName = [], pa_disposition = NeedsReboot, pa_version = []\<rparr>)]\<rparr>"

lemma updates_refreshed_on_evidence_witness:
  "map_of (fc_pending (snd (refreshUpdates sample_seams sample_pending))) (''fwupd'', ''d'') = None"
proof -
  have "distinct (map up_id (sm_providers sample_seams))" by (simp add: sample_seams_def)
  from updates_refreshed_on_evidence [OF this surjective_pairing, of sample_pending "''fwupd''" "''d''"]
  show ?thesis
    by (simp add: sample_seams_def findProvider_def sample_provider_def pendingAfter_def evidence_def)
qed

end
