(* ===== verification/Facade_Runs.thy ===== *)
theory Facade_Runs
  imports Facade_Facts
begin

text \<open>
  Runs of the facade. The first part runs whole tasks one after the other and follows what is known of
  the helper; the second lets install requests, the pool and other tasks interleave; the third has
  the two places where overlapping tasks leave something no order of them would: an observation of
  the helper that writes two records under two locks, and a refresh that applies a stale enumeration.
\<close>

section \<open>Tasks in sequence\<close>

datatype facade_task =
    Refresh
  | SetEnabled device_id bool
  | Load string
  | Unload string
  | Bind device_id string
  | Unbind device_id
  | RefreshUpdates
  | InstallUpdate string string release_ref
  | RefreshSnapshots
  | RefreshDiff string string
  | Create string
  | Restore string
  | Delete string
  | Hotplug hotplug_event
  | ObserveProvider string "error option"

text \<open>\<open>Hotplug\<close> is a delta the hotplug service applies, \<open>ObserveProvider\<close> what the updates view observes
  of a provider.\<close>

fun runTask :: "'w seams \<Rightarrow> facade_task \<Rightarrow> 'w facade \<Rightarrow> event list \<times> 'w facade" where
  "runTask sm Refresh f = facade_refresh sm f"
| "runTask sm (SetEnabled i b) f = facade_setDeviceEnabled sm i b f"
| "runTask sm (Load n) f = facade_loadModule sm n f"
| "runTask sm (Unload n) f = facade_unloadModule sm n f"
| "runTask sm (Bind i n) f = facade_bindDriver sm (fc_model f) i n f"
| "runTask sm (Unbind i) f = facade_unbindDriver sm (fc_model f) i f"
| "runTask sm RefreshUpdates f = refreshUpdates sm f"
| "runTask sm (InstallUpdate p c r) f =
     (case installClaim c f of
        (Some evs, f1) \<Rightarrow> (evs, f1)
      | (None, f1) \<Rightarrow> installTask sm p c r f1)"
| "runTask sm RefreshSnapshots f = refreshSnapshots sm f"
| "runTask sm (RefreshDiff a b) f = refreshSnapshotDiff sm a b f"
| "runTask sm (Create l) f = facade_createSnapshot sm l f"
| "runTask sm (Restore i) f = facade_restoreSnapshot sm i f"
| "runTask sm (Delete i) f = facade_deleteSnapshot sm i f"
| "runTask sm (Hotplug ev) f = (case applyDelta ev (fc_model f) of (evs, m) \<Rightarrow> (evs, f\<lparr>fc_model := m\<rparr>))"
| "runTask sm (ObserveProvider p err) f =
     ([], case backendForProvider p of None \<Rightarrow> f | Some b \<Rightarrow> f\<lparr>fc_status := bk_observe b err (fc_status f)\<rparr>)"

definition runTasks :: "'w seams \<Rightarrow> facade_task list \<Rightarrow> 'w facade \<Rightarrow> 'w facade" where
  "runTasks sm ts f = foldl (\<lambda>g t. snd (runTask sm t g)) f ts"

text \<open>The verbs of the helper, and what an unprivileged read of it showed.\<close>

fun helperVerb :: "facade_task \<Rightarrow> bool" where
  "helperVerb (SetEnabled i b) = True"
| "helperVerb (Load n) = True"
| "helperVerb (Unload n) = True"
| "helperVerb (Bind i n) = True"
| "helperVerb (Unbind i) = True"
| "helperVerb (Create l) = True"
| "helperVerb (Restore i) = True"
| "helperVerb (Delete i) = True"
| "helperVerb _ = False"

definition outcomeOf :: "'a result \<Rightarrow> error option" where
  "outcomeOf r = (case r of Inl e \<Rightarrow> Some e | Inr _ \<Rightarrow> None)"

fun helperRead :: "'w seams \<Rightarrow> facade_task \<Rightarrow> 'w facade \<Rightarrow> error option option" where
  "helperRead sm Refresh f =
     (case (sm_enumerate sm (fc_world f), sm_channel sm) of
        (Inr _, Some c) \<Rightarrow> Some (outcomeOf (fst (pc_listDisabled c (fc_world f))))
      | _ \<Rightarrow> None)"
| "helperRead sm RefreshSnapshots f =
     (case sm_channel sm of
        Some c \<Rightarrow> Some (outcomeOf (fst (pc_snapshotList c (fc_world f))))
      | None \<Rightarrow> None)"
| "helperRead sm _ f = None"

definition succeeded :: "event list \<Rightarrow> bool" where
  "succeeded evs = list_ex (\<lambda>c. fst (snd c)) (completions evs)"

text \<open>The note that is shown and the error that is kept say the same of the helper.\<close>

definition note_agrees :: "'w facade \<Rightarrow> bool" where
  "note_agrees f \<longleftrightarrow>
     map_option (\<lambda>e. (bke_kind e, bke_diagnostic e)) (bk_entries (fc_status f) Devmgrd) =
     map_option (\<lambda>e. (kindFor (err_code e), err_message e)) (fc_daemonError f)"

lemma observe_simps [simp]:
  "fc_daemonError (observeDaemonRead err f) = err"
  "fc_daemonError (observeDaemonReachable f) = None"
  "note_agrees (observeDaemonRead err f)"
  by (auto simp: observeDaemonRead_def observeDaemonReachable_def observeError_def observeNote_def note_agrees_def
      split: option.splits) (cases err; simp)

lemma note_agrees_reachable [simp]: "note_agrees f \<Longrightarrow> note_agrees (observeDaemonReachable f)"
  by (simp add: observeDaemonReachable_def)

lemma note_agrees_update [simp]:
  "note_agrees (f\<lparr>fc_world := w\<rparr>) = note_agrees f" "note_agrees (f\<lparr>fc_model := m\<rparr>) = note_agrees f"
  "note_agrees (f\<lparr>fc_updates := u\<rparr>) = note_agrees f" "note_agrees (f\<lparr>fc_pending := p\<rparr>) = note_agrees f"
  "note_agrees (f\<lparr>fc_installActive := b\<rparr>) = note_agrees f" "note_agrees (f\<lparr>fc_snapshots := s\<rparr>) = note_agrees f"
  "note_agrees (f\<lparr>fc_diff := d\<rparr>) = note_agrees f" "note_agrees (f\<lparr>fc_lastRestore := r\<rparr>) = note_agrees f"
  by (simp_all add: note_agrees_def)

text \<open>Where the updates write: the record of pending actions and the candidates, nothing of the helper.\<close>

definition same_helper :: "'w facade \<Rightarrow> 'w facade \<Rightarrow> bool" where
  "same_helper f g \<longleftrightarrow> fc_daemonError g = fc_daemonError f \<and> fc_status g = fc_status f"

lemma same_helper_simps [simp]:
  "same_helper f f" "same_helper f (upsertPending a g) = same_helper f g" "same_helper f (installRelease g) = same_helper f g"
  "same_helper f (erasePendingNotIn p r g) = same_helper f g" "same_helper f (g\<lparr>fc_world := w\<rparr>) = same_helper f g"
  "same_helper f (g\<lparr>fc_updates := u\<rparr>) = same_helper f g" "same_helper f (g\<lparr>fc_installActive := b\<rparr>) = same_helper f g"
  by (simp_all add: same_helper_def upsertPending_def installRelease_def erasePendingNotIn_def)

lemma same_helper_upserts [simp]: "same_helper f (foldl (\<lambda>g a. upsertPending a g) h as) = same_helper f h"
  by (induction as arbitrary: h) simp_all

lemma same_helper_build: "same_helper f g \<Longrightarrow> same_helper f (snd (buildProviderStates ps g))"
proof (induction ps arbitrary: g)
  case (Cons p ps)
  obtain st h where b: "buildProviderState p g = (st, h)" by (metis surj_pair)
  have "same_helper f h"
    using b Cons.prems by (auto simp: buildProviderState_def reconcilePending_def Let_def split: if_splits sum.splits)
  with Cons.IH b show ?case by (auto simp: apfst_def map_prod_def split: prod.splits) (metis snd_conv)
qed simp

lemma same_helper_refreshUpdates: "same_helper f (snd (refreshUpdates sm f))"
  using same_helper_build [of f f "sm_providers sm"]
  by (cases "buildProviderStates (sm_providers sm) f") (simp add: refreshUpdates_def)

lemma same_helper_installRun: "same_helper f (snd (installRun sm p c r f))"
  by (auto simp: installRun_def Let_def split: option.splits prod.splits sum.splits)

lemma same_helper_install: "same_helper f (snd (runTask sm (InstallUpdate p c r) f))"
proof (cases "fc_installActive f")
  case False
  have "same_helper (f\<lparr>fc_installActive := True\<rparr>) (snd (installRun sm p c r (f\<lparr>fc_installActive := True\<rparr>)))"
    by (rule same_helper_installRun)
  then have "same_helper f (snd (installRun sm p c r (f\<lparr>fc_installActive := True\<rparr>)))" by (simp add: same_helper_def)
  with False show ?thesis by (simp add: installClaim_def installTask_def)
qed (simp add: installClaim_def)

lemma note_agrees_same: "same_helper f g \<Longrightarrow> note_agrees f \<Longrightarrow> note_agrees g"
  by (simp add: same_helper_def note_agrees_def)

lemma mutation_form:
  assumes "t \<in> {Create l, Restore l, Delete l}"
  shows "\<exists>i call. runTask sm t f = runSnapshotMutation sm i call f \<and>
    (\<forall>c. fc_daemonError (snd (call c f)) = fc_daemonError f \<and> (note_agrees f \<longrightarrow> note_agrees (snd (call c f))))"
proof -
  consider "t = Create l" | "t = Restore l" | "t = Delete l" using assms by blast
  then show ?thesis
  proof cases
    case 1
    show ?thesis unfolding 1 runTask.simps facade_createSnapshot_def
      by (intro exI conjI, rule refl) (auto split: prod.splits sum.splits)
  next
    case 2
    show ?thesis unfolding 2 runTask.simps facade_restoreSnapshot_def
      by (intro exI conjI, rule refl) (auto split: prod.splits sum.splits)
  next
    case 3
    show ?thesis unfolding 3 runTask.simps facade_deleteSnapshot_def
      by (intro exI conjI, rule refl) (auto split: prod.splits sum.splits)
  qed
qed

lemma channel_form:
  assumes "t \<in> {Load n, Unload n, Bind i n, Unbind i}"
  shows "\<exists>j m b call. runTask sm t f = runChannelTask sm j m b call f"
proof -
  consider "t = Load n" | "t = Unload n" | "t = Bind i n" | "t = Unbind i" using assms by blast
  then show ?thesis
  proof cases
    case 1
    show ?thesis unfolding 1 runTask.simps facade_loadModule_def by (intro exI, rule refl)
  next
    case 2
    show ?thesis unfolding 2 runTask.simps facade_unloadModule_def by (intro exI, rule refl)
  next
    case 3
    show ?thesis unfolding 3 runTask.simps facade_bindDriver_def
      by (cases "model_findById (fc_model f) i"; simp only: option.case; intro exI; rule refl)
  next
    case 4
    show ?thesis unfolding 4 runTask.simps facade_unbindDriver_def
      by (cases "model_findById (fc_model f) i"; simp only: option.case; intro exI; rule refl)
  qed
qed

lemma verb_evidence:
  assumes "helperVerb t"
  shows "fc_daemonError (snd (runTask sm t f)) = (if succeeded (fst (runTask sm t f)) then None else fc_daemonError f)"
    "note_agrees f \<Longrightarrow> note_agrees (snd (runTask sm t f))"
proof -
  have chan: "fc_daemonError (snd (runChannelTask sm i m b call f)) =
        (if succeeded (fst (runChannelTask sm i m b call f)) then None else fc_daemonError f)"
    "note_agrees f \<Longrightarrow> note_agrees (snd (runChannelTask sm i m b call f))" for i m b call
    by (auto simp: runChannelTask_def succeeded_def split: option.splits prod.splits sum.splits)
  have mut: "fc_daemonError (snd (runSnapshotMutation sm i call f)) =
        (if succeeded (fst (runSnapshotMutation sm i call f)) then None else fc_daemonError f)"
    "note_agrees f \<Longrightarrow> note_agrees (snd (runSnapshotMutation sm i call f))"
    if "\<And>c. fc_daemonError (snd (call c f)) = fc_daemonError f"
      "\<And>c. note_agrees f \<Longrightarrow> note_agrees (snd (call c f))" for i call
  proof -
    have "fc_daemonError (snd (runSnapshotMutation sm i call f)) =
        (if succeeded (fst (runSnapshotMutation sm i call f)) then None else fc_daemonError f) \<and>
      (note_agrees f \<longrightarrow> note_agrees (snd (runSnapshotMutation sm i call f)))"
    proof (cases "sm_channel sm")
      case (Some c)
      obtain r g where "call c f = (r, g)" by (metis surj_pair)
      with Some that [of c] show ?thesis by (cases r) (auto simp: runSnapshotMutation_def succeeded_def)
    qed (simp add: runSnapshotMutation_def succeeded_def)
    then show "fc_daemonError (snd (runSnapshotMutation sm i call f)) =
        (if succeeded (fst (runSnapshotMutation sm i call f)) then None else fc_daemonError f)"
      "note_agrees f \<Longrightarrow> note_agrees (snd (runSnapshotMutation sm i call f))" by blast+
  qed
  have en: "fc_daemonError (snd (facade_setDeviceEnabled sm i b f)) =
        (if succeeded (fst (facade_setDeviceEnabled sm i b f)) then None else fc_daemonError f)"
    "note_agrees f \<Longrightarrow> note_agrees (snd (facade_setDeviceEnabled sm i b f))" for i b
    by (auto simp: facade_setDeviceEnabled_def succeeded_def Let_def split: option.splits prod.splits sum.splits)
  have cr: "fc_daemonError (snd (runTask sm t f)) = (if succeeded (fst (runTask sm t f)) then None else fc_daemonError f) \<and>
      (note_agrees f \<longrightarrow> note_agrees (snd (runTask sm t f)))"
    if "t \<in> {Create l, Restore l, Delete l}" for l
  proof -
    from mutation_form [OF that] obtain i call where c: "runTask sm t f = runSnapshotMutation sm i call f"
      "\<And>c. fc_daemonError (snd (call c f)) = fc_daemonError f" "\<And>c. note_agrees f \<Longrightarrow> note_agrees (snd (call c f))" by blast
    show ?thesis unfolding c(1) using mut [of call i] c(2,3) by blast
  qed
  have dr: "fc_daemonError (snd (runTask sm t f)) = (if succeeded (fst (runTask sm t f)) then None else fc_daemonError f) \<and>
      (note_agrees f \<longrightarrow> note_agrees (snd (runTask sm t f)))"
    if "t \<in> {Load n, Unload n, Bind i n, Unbind i}" for i n
  proof -
    from channel_form [OF that] obtain j m b call where c: "runTask sm t f = runChannelTask sm j m b call f" by blast
    show ?thesis unfolding c using chan by blast
  qed
  have "fc_daemonError (snd (runTask sm t f)) = (if succeeded (fst (runTask sm t f)) then None else fc_daemonError f) \<and>
      (note_agrees f \<longrightarrow> note_agrees (snd (runTask sm t f)))"
  proof (cases t)
    case (SetEnabled i b)
    with en [of i b] show ?thesis by simp
  qed (use assms cr dr in \<open>simp_all del: runTask.simps(3-6,11-13)\<close>)
  then show "fc_daemonError (snd (runTask sm t f)) = (if succeeded (fst (runTask sm t f)) then None else fc_daemonError f)"
    "note_agrees f \<Longrightarrow> note_agrees (snd (runTask sm t f))" by blast+
qed

lemma refresh_evidence:
  "fc_daemonError (snd (facade_refresh sm f)) =
     (case helperRead sm Refresh f of Some err \<Rightarrow> err | None \<Rightarrow> fc_daemonError f)"
  "note_agrees f \<Longrightarrow> note_agrees (snd (facade_refresh sm f))"
proof -
  have apply': "fc_daemonError (snd (refreshApply ds g)) = fc_daemonError g"
    "note_agrees (snd (refreshApply ds g)) = note_agrees g" for ds and g :: "'a facade"
    by (auto simp: refreshApply_def split: option.splits prod.splits)
  obtain evs ds g where r: "refreshFetch sm f = (evs, ds, g)" by (metis surj_pair)
  then have "fc_daemonError g = (case helperRead sm Refresh f of Some err \<Rightarrow> err | None \<Rightarrow> fc_daemonError f) \<and>
      (note_agrees f \<longrightarrow> note_agrees g)"
    by (auto simp: refreshFetch_def outcomeOf_def split: sum.splits option.splits prod.splits)
  with r show "fc_daemonError (snd (facade_refresh sm f)) =
     (case helperRead sm Refresh f of Some err \<Rightarrow> err | None \<Rightarrow> fc_daemonError f)"
    "note_agrees f \<Longrightarrow> note_agrees (snd (facade_refresh sm f))"
    by (simp_all add: facade_refresh_def apply')
qed

lemma task_evidence:
  "fc_daemonError (snd (runTask sm t f)) =
     (case helperRead sm t f of
        Some err \<Rightarrow> err
      | None \<Rightarrow> if helperVerb t \<and> succeeded (fst (runTask sm t f)) then None else fc_daemonError f)"
  "note_agrees f \<Longrightarrow> note_agrees (snd (runTask sm t f))"
proof -
  have provider: "b \<noteq> Devmgrd" if "backendForProvider p = Some b" for p b
    using that by (auto simp: backendForProvider_def split: if_splits)
  have "fc_daemonError (snd (runTask sm t f)) =
     (case helperRead sm t f of
        Some err \<Rightarrow> err
      | None \<Rightarrow> if helperVerb t \<and> succeeded (fst (runTask sm t f)) then None else fc_daemonError f) \<and>
     (note_agrees f \<longrightarrow> note_agrees (snd (runTask sm t f)))"
  proof (cases t)
    case Refresh
    then show ?thesis using refresh_evidence(1) [of sm f] refresh_evidence(2) [of f sm] by simp
  next
    case RefreshUpdates
    have same: "same_helper f (snd (runTask sm t f))" using RefreshUpdates same_helper_refreshUpdates [of f sm] by simp
    with note_agrees_same [OF same] RefreshUpdates show ?thesis by (simp add: same_helper_def)
  next
    case (InstallUpdate p c r)
    have same: "same_helper f (snd (runTask sm t f))" using InstallUpdate same_helper_install [of f sm p c r] by simp
    with note_agrees_same [OF same] InstallUpdate show ?thesis by (simp add: same_helper_def del: runTask.simps)
  next
    case RefreshSnapshots
    then show ?thesis by (auto simp: refreshSnapshots_def outcomeOf_def split: option.splits prod.splits sum.splits)
  next
    case (RefreshDiff a b)
    then show ?thesis by (auto simp: refreshSnapshotDiff_def split: option.splits prod.splits sum.splits)
  next
    case (Hotplug ev)
    then show ?thesis by (auto split: prod.splits)
  next
    case (ObserveProvider p err)
    then show ?thesis using provider [of p] by (cases err) (auto simp: note_agrees_def split: option.splits)
  qed (use verb_evidence(1) [of t sm f] verb_evidence(2) [of t f sm] in \<open>simp_all del: runTask.simps\<close>)
  then show "fc_daemonError (snd (runTask sm t f)) =
     (case helperRead sm t f of
        Some err \<Rightarrow> err
      | None \<Rightarrow> if helperVerb t \<and> succeeded (fst (runTask sm t f)) then None else fc_daemonError f)"
    "note_agrees f \<Longrightarrow> note_agrees (snd (runTask sm t f))" by blast+
qed

lemma new_note_agrees [simp]: "note_agrees (new_facade w)"
  by (simp add: note_agrees_def new_facade_def unobserved_def)


section \<open>One install at a time\<close>

type_synonym install_job = "string \<times> string \<times> release_ref"

record 'w install_state =
  is_facade :: "'w facade"
  is_queued :: "install_job list"
  is_running :: "install_job list"

text \<open>A request is answered, submitted, or fails to be submitted; a worker starts a submitted job and ends
  it; other tasks run at any time, and none of them touches the slot. What a running job does besides
  releasing the slot is such a task.\<close>

datatype install_action = Answered "event list" | Submitted install_job | PoolStopping install_job
  | Started install_job | Ended install_job | OtherTask

inductive install_step :: "install_action \<Rightarrow> 'w install_state \<Rightarrow> 'w install_state \<Rightarrow> bool" where
  answered: "installClaim cid (is_facade s) = (Some evs, f) \<Longrightarrow> install_step (Answered evs) s (s\<lparr>is_facade := f\<rparr>)"
| submitted: "installClaim (fst (snd job)) (is_facade s) = (None, f) \<Longrightarrow>
    install_step (Submitted job) s (s\<lparr>is_facade := f, is_queued := is_queued s @ [job]\<rparr>)"
| pool_stopping: "installClaim (fst (snd job)) (is_facade s) = (None, f) \<Longrightarrow>
    install_step (PoolStopping job) s (s\<lparr>is_facade := installRelease f\<rparr>)"
| started: "is_queued s = job # rest \<Longrightarrow>
    install_step (Started job) s (s\<lparr>is_queued := rest, is_running := job # is_running s\<rparr>)"
| ended: "job \<in> set (is_running s) \<Longrightarrow>
    install_step (Ended job) s (s\<lparr>is_facade := installRelease (is_facade s), is_running := remove1 job (is_running s)\<rparr>)"
| other: "fc_installActive f = fc_installActive (is_facade s) \<Longrightarrow> install_step OtherTask s (s\<lparr>is_facade := f\<rparr>)"

inductive_cases install_stepE: "install_step a s s'"

inductive install_run :: "install_action list \<Rightarrow> 'w install_state \<Rightarrow> 'w install_state \<Rightarrow> bool" where
  none: "install_run [] s s"
| more: "install_run as s s1 \<Longrightarrow> install_step a s1 s' \<Longrightarrow> install_run (as @ [a]) s s'"

definition slot_ok :: "'w install_state \<Rightarrow> bool" where
  "slot_ok s \<longleftrightarrow> length (is_queued s) + length (is_running s) = (if fc_installActive (is_facade s) then 1 else 0)"

lemma install_step_slot: "install_step a s s' \<Longrightarrow> slot_ok s \<Longrightarrow> slot_ok s'"
proof (induction rule: install_step.induct)
  case (ended job s)
  then have "length (is_running s) = Suc (length (remove1 job (is_running s)))"
    using length_pos_if_in_set [of job "is_running s"] by (simp add: length_remove1)
  with ended show ?case by (auto simp: slot_ok_def installRelease_def split: if_splits)
qed (auto simp: slot_ok_def installClaim_def installRelease_def split: if_splits)

definition no_installs :: "'w \<Rightarrow> 'w install_state" where
  "no_installs w = \<lparr>is_facade = new_facade w, is_queued = [], is_running = []\<rparr>"

lemma install_run_slot: "install_run as s s' \<Longrightarrow> slot_ok s \<Longrightarrow> slot_ok s'"
  by (induction rule: install_run.induct) (auto intro: install_step_slot)

lemma no_installs_ok [simp]: "slot_ok (no_installs w)"
  by (simp add: slot_ok_def no_installs_def new_facade_def)

text \<open>Every task of the facade leaves the slot alone, so each may stand for \<open>OtherTask\<close>; an install that is not
  first claimed is the job itself.\<close>

definition same_slot :: "'w facade \<Rightarrow> 'w facade \<Rightarrow> bool" where
  "same_slot f g \<longleftrightarrow> fc_installActive g = fc_installActive f"

lemma same_slot_simps [simp]:
  "same_slot f f" "same_slot f (upsertPending a g) = same_slot f g"
  "same_slot f (erasePendingNotIn p r g) = same_slot f g" "same_slot f (g\<lparr>fc_world := w\<rparr>) = same_slot f g"
  "same_slot f (g\<lparr>fc_updates := u\<rparr>) = same_slot f g" "same_slot f (g\<lparr>fc_model := m\<rparr>) = same_slot f g"
  "same_slot f (g\<lparr>fc_snapshots := ms\<rparr>) = same_slot f g" "same_slot f (g\<lparr>fc_diff := d\<rparr>) = same_slot f g"
  "same_slot f (g\<lparr>fc_lastRestore := ro\<rparr>) = same_slot f g" "same_slot f (g\<lparr>fc_status := st\<rparr>) = same_slot f g"
  "same_slot f (observeDaemonRead err g) = same_slot f g" "same_slot f (observeDaemonReachable g) = same_slot f g"
  by (simp_all add: same_slot_def upsertPending_def erasePendingNotIn_def observeDaemonRead_def
      observeDaemonReachable_def observeError_def observeNote_def)

lemma same_slot_upserts [simp]: "same_slot f (foldl (\<lambda>g a. upsertPending a g) h as) = same_slot f h"
  by (induction as arbitrary: h) simp_all

lemma same_slot_build: "same_slot f g \<Longrightarrow> same_slot f (snd (buildProviderStates ps g))"
proof (induction ps arbitrary: g)
  case (Cons p ps)
  obtain st h where b: "buildProviderState p g = (st, h)" by (metis surj_pair)
  have "same_slot f h"
    using b Cons.prems by (auto simp: buildProviderState_def reconcilePending_def Let_def split: if_splits sum.splits)
  with Cons.IH b show ?case by (auto simp: apfst_def map_prod_def split: prod.splits) (metis snd_conv)
qed simp

fun isInstall :: "facade_task \<Rightarrow> bool" where
  "isInstall (InstallUpdate p c r) = True"
| "isInstall _ = False"

lemma channel_slot: "same_slot f (snd (runChannelTask sm j m b call f))"
  by (auto simp: runChannelTask_def split: option.splits prod.splits sum.splits)

lemma task_keeps_slot: "\<not> isInstall t \<Longrightarrow> same_slot f (snd (runTask sm t f))"
proof (cases t)
  case Refresh
  have "same_slot g (snd (refreshApply ds g))" for ds and g :: "'a facade"
    by (auto simp: refreshApply_def split: option.splits prod.splits)
  moreover obtain evs ds g where r: "refreshFetch sm f = (evs, ds, g)" by (metis surj_pair)
  moreover from r have "same_slot f g"
    by (auto simp: refreshFetch_def split: sum.splits option.splits prod.splits)
  ultimately show ?thesis using Refresh by (simp add: facade_refresh_def same_slot_def)
next
  case (SetEnabled i b)
  then show ?thesis by (auto simp: facade_setDeviceEnabled_def Let_def split: option.splits prod.splits sum.splits)
next
  case RefreshUpdates
  then show ?thesis using same_slot_build [of f f "sm_providers sm"]
    by (cases "buildProviderStates (sm_providers sm) f") (simp add: refreshUpdates_def)
next
  case (Create l)
  then show ?thesis
    by (auto simp: facade_createSnapshot_def runSnapshotMutation_def split: option.splits prod.splits sum.splits)
next
  case (Restore i)
  then show ?thesis
    by (auto simp: facade_restoreSnapshot_def runSnapshotMutation_def split: option.splits prod.splits sum.splits)
next
  case (Delete i)
  then show ?thesis
    by (auto simp: facade_deleteSnapshot_def runSnapshotMutation_def split: option.splits prod.splits sum.splits)
next
  case (Load n)
  then show ?thesis by (simp add: facade_loadModule_def channel_slot)
next
  case (Unload n)
  then show ?thesis by (simp add: facade_unloadModule_def channel_slot)
next
  case (Bind i n)
  then show ?thesis by (simp add: facade_bindDriver_def channel_slot split: option.split)
next
  case (Unbind i)
  then show ?thesis by (simp add: facade_unbindDriver_def channel_slot split: option.split)
next
  case (Hotplug ev)
  then show ?thesis by (auto split: prod.splits)
qed (auto simp: refreshSnapshots_def refreshSnapshotDiff_def split: option.splits prod.splits sum.splits)

text \<open>C23: However requests, submissions that fail, workers and other tasks interleave: at most one install is
  submitted or running, so no provider sees two at once; the slot is taken exactly while there is one;
  a request while it is taken is refused at once, with one completion and no other effect; and no other
  task of the facade takes or releases the slot.\<close>

theorem one_install_at_a_time:
  assumes "install_run as (no_installs w) s"
  shows "length (is_queued s) + length (is_running s) \<le> 1 \<and>
    (fc_installActive (is_facade s) \<longleftrightarrow> length (is_queued s) + length (is_running s) = 1) \<and>
    (fc_installActive (is_facade s) \<longrightarrow>
       installClaim cid (is_facade s) =
         (Some [TaskCompletedEvent (''install-update:'' @ cid) False ''another update is already in progress''], is_facade s)) \<and>
    (\<not> isInstall t \<longrightarrow> install_step OtherTask s (s\<lparr>is_facade := snd (runTask sm t (is_facade s))\<rparr>))"
proof -
  have "slot_ok s" using install_run_slot [OF assms] by simp
  moreover have "\<not> isInstall t \<longrightarrow> install_step OtherTask s (s\<lparr>is_facade := snd (runTask sm t (is_facade s))\<rparr>)"
    using task_keeps_slot [of t "is_facade s" sm] by (auto simp: same_slot_def intro: install_step.other)
  ultimately show ?thesis by (simp add: slot_ok_def installClaim_def split: if_splits)
qed

lemma one_install_at_a_time_witness:
  "fst (installClaim ''b'' (is_facade ((no_installs ())\<lparr>is_facade := (new_facade ())\<lparr>fc_installActive := True\<rparr>,
     is_queued := [(''fwupd'', ''a'', \<lparr>ref_remoteId = [], ref_checksum = []\<rparr>)]\<rparr>))) =
   Some [TaskCompletedEvent ''install-update:b'' False ''another update is already in progress'']"
proof -
  let ?job = "(''fwupd'', ''a'', \<lparr>ref_remoteId = [], ref_checksum = []\<rparr>)"
  let ?s = "(no_installs ())\<lparr>is_facade := (new_facade ())\<lparr>fc_installActive := True\<rparr>, is_queued := [?job]\<rparr>"
  have "install_step (Submitted ?job) (no_installs ()) ?s"
    using install_step.submitted [of ?job "no_installs ()" "(new_facade ())\<lparr>fc_installActive := True\<rparr>"]
    by (simp add: installClaim_def no_installs_def new_facade_def)
  then have "install_run [Submitted ?job] (no_installs ()) ?s" using install_run.more [OF install_run.none] by force
  from one_install_at_a_time [OF this, of "''b''"] show ?thesis by simp
qed

section \<open>Tasks that overlap\<close>

text \<open>Two reads of the helper, one that failed and one that succeeded, write the error and the note under
  different locks. In this order the facade keeps no error and shows a note all the same.\<close>

lemma overlapping_reads_disagree:
  "let f1 = observeError (Some e) f;       \<comment> \<open>the read that failed\<close>
       f2 = observeError None f1;          \<comment> \<open>the read that succeeded\<close>
       f3 = observeNote None f2;
       f4 = observeNote (Some e) f3
   in fc_daemonError f4 = None \<and> bk_noteFor Devmgrd False (fc_status f4) \<noteq> None \<and> \<not> note_agrees f4"
  by (auto simp: Let_def observeError_def observeNote_def bk_noteFor_def note_agrees_def)

text \<open>A refresh that has fetched its enumeration before a device was removed applies it after: the device is
  back in the model, although the hotplug service has reported it removed.\<close>

lemma stale_refresh_resurrects:
  assumes "refreshFetch sm f = (evs, Some ds, f1)" "d \<in> set ds" "distinct (map dev_id ds)"
    and "f2 = f1\<lparr>fc_model := snd (applyDelta \<lparr>hp_action = Removed, hp_device = d\<rparr> (fc_model f1))\<rparr>"
    and "model_ok (fc_model f1)"
  shows "model_findById (fc_model f2) (dev_id d) = None \<and>
    model_findById (fc_model (snd (refreshApply (Some ds) f2))) (dev_id d) = Some d"
proof -
  obtain evs1 m1 where d1: "applyDelta \<lparr>hp_action = Removed, hp_device = d\<rparr> (fc_model f1) = (evs1, m1)" by (metis surj_pair)
  obtain evs2 m2 where d2: "applyEnumeration ds m1 = (evs2, m2)" by (metis surj_pair)
  have "model_ok m1" "map_of m1 (dev_id d) = None"
    using applyDelta_facts [OF assms(5) d1] by (simp_all add: event_effect_def)
  moreover from enumeration_facts [OF this(1) assms(3) d2] have "map_of m2 = map_of (map (\<lambda>d. (dev_id d, d)) ds)" by blast
  moreover have "map_of (map (\<lambda>d. (dev_id d, d)) ds) (dev_id d) = Some d"
    using assms(2,3) by (intro map_of_is_SomeI) (simp_all add: o_def)
  ultimately show ?thesis using d1 d2 assms(4) by (simp add: model_findById_def refreshApply_def)
qed

text \<open>When the list of disabled devices cannot be read, the enumeration is applied without it: the model
  loses every \<open>Disabled\<close>, while the message says that the previous result is shown.\<close>

lemma failed_overlay_forgets_disabled:
  assumes "sm_enumerate sm (fc_world f) = Inr [d]" "sm_channel sm = Some c" "pc_listDisabled c (fc_world f) = (Inl e, w)"
    and "fc_model f = [(dev_id d, d\<lparr>dev_status := Disabled\<rparr>)]" "dev_status d \<noteq> Disabled"
  shows "fc_model (snd (facade_refresh sm f)) = [(dev_id d, d)]"
    and "ErrorEvent ''disabled-overlay'' ''Could not refresh devices; showing the previous result.'' \<in> set (fst (facade_refresh sm f))"
proof -
  have "d\<lparr>dev_status := Disabled\<rparr> \<noteq> d"
  proof
    assume "d\<lparr>dev_status := Disabled\<rparr> = d"
    then have "dev_status (d\<lparr>dev_status := Disabled\<rparr>) = dev_status d" by (rule arg_cong)
    with assms(5) show False by simp
  qed
  then show "fc_model (snd (facade_refresh sm f)) = [(dev_id d, d)]"
    "ErrorEvent ''disabled-overlay'' ''Could not refresh devices; showing the previous result.'' \<in> set (fst (facade_refresh sm f))"
    using assms by (simp_all add: facade_refresh_def refreshFetch_def refreshApply_def applyEnumeration_def kOverlayFailed_def
        model_emplace_def observeDaemonRead_def observeError_def observeNote_def Let_def)
qed

end
