(* ===== verification/Snapshot_Preview.thy ===== *)
theory Snapshot_Preview
  imports Snapshots_Vm_Facts Facade_Runs
begin

text \<open>
  The preview of a restore across the view, the facade and the pool. The user asks for a preview, which
  waits for the diff task before it and submits a new one; the task asks the helper, stores the
  differences in the facade and publishes an event, whose handler posts a closure; the
  user-interface thread runs the closure, which ends the loading state. The relation interleaves
  these with everything else that happens to the view and the facade.
\<close>

record 'w preview =
  ps_facade :: "'w facade"
  ps_vm :: snapshots_vm
  ps_asked :: "string option"

datatype preview_action = Ask string | Answer | UiTurn | Elsewhere

definition isDiffEvent :: "event \<Rightarrow> bool" where
  "isDiffEvent ev \<longleftrightarrow> ev = SnapshotDiffRefreshedEvent"

inductive preview_step :: "'w seams \<Rightarrow> (int \<Rightarrow> string) \<Rightarrow> preview_action \<Rightarrow> 'w preview \<Rightarrow> 'w preview \<Rightarrow> bool"
  for sm lt where
  ask: "ps_asked s = None \<Longrightarrow>
    preview_step sm lt (Ask i) s (s\<lparr>ps_vm := sv_requestPreview i (ps_vm s), ps_asked := Some i\<rparr>)"
| answer: "ps_asked s = Some i \<Longrightarrow> refreshSnapshotDiff sm i [] (ps_facade s) = (evs, f) \<Longrightarrow>
    preview_step sm lt Answer s (s\<lparr>ps_facade := f, ps_vm := foldl (\<lambda>v ev. sv_onEvent ev v) (ps_vm s) evs, ps_asked := None\<rparr>)"
| ui_turn: "preview_step sm lt UiTurn s (s\<lparr>ps_vm := sv_runPost lt (ps_facade s) (ps_vm s)\<rparr>)"
| elsewhere: "fc_diff f = fc_diff (ps_facade s) \<Longrightarrow> list_all (\<lambda>ev. \<not> isDiffEvent ev) evs \<Longrightarrow>
    preview_step sm lt Elsewhere s (s\<lparr>ps_facade := f, ps_vm := foldl (\<lambda>v ev. sv_onEvent ev v) (ps_vm s) evs\<rparr>)"

inductive_cases preview_stepE: "preview_step sm lt a s s'"

inductive preview_run :: "'w seams \<Rightarrow> (int \<Rightarrow> string) \<Rightarrow> (preview_action \<Rightarrow> 'w preview \<Rightarrow> bool) \<Rightarrow> preview_action list \<Rightarrow> 'w preview \<Rightarrow> 'w preview \<Rightarrow> bool"
  for sm lt allowed where
  none: "preview_run sm lt allowed [] s s"
| more: "preview_run sm lt allowed as s s1 \<Longrightarrow> allowed a s1 \<Longrightarrow> preview_step sm lt a s1 s' \<Longrightarrow>
    preview_run sm lt allowed (as @ [a]) s s'"

definition start_preview :: "'w facade \<Rightarrow> 'w preview" where
  "start_preview f = \<lparr>ps_facade = f, ps_vm = new_snapshots_vm, ps_asked = None\<rparr>"

text \<open>No closure of an older preview is waiting when a new one is asked for.\<close>

definition patient :: "preview_action \<Rightarrow> 'w preview \<Rightarrow> bool" where
  "patient a s \<longleftrightarrow> (case a of Ask i \<Rightarrow> DiffLanded \<notin> set (sv_posts (ps_vm s)) | _ \<Rightarrow> True)"

text \<open>The helper's contract: a diff names the snapshot it was asked about.\<close>

definition names_base :: "'w seams \<Rightarrow> bool" where
  "names_base sm \<longleftrightarrow> (\<forall>c i t w d w'. sm_channel sm = Some c \<longrightarrow> pc_snapshotDiff c i t w = (Inr (Inr d), w') \<longrightarrow> sd_baseId d = i)"

fun ownDiff :: "string option \<Rightarrow> snapshot_diff option \<Rightarrow> bool" where
  "ownDiff (Some i) (Some d) = (sd_baseId d = i)"
| "ownDiff _ _ = True"

definition shows_own :: "'w preview \<Rightarrow> bool" where
  "shows_own s \<longleftrightarrow> ownDiff (sv_previewId (ps_vm s)) (fc_diff (ps_facade s))"

definition preview_ok :: "'w preview \<Rightarrow> bool" where
  "preview_ok s \<longleftrightarrow>
     (ps_asked s = None \<or> ps_asked s = sv_previewId (ps_vm s) \<and> sv_previewPending (ps_vm s) \<and> DiffLanded \<notin> set (sv_posts (ps_vm s))) \<and>
     (\<not> sv_previewPending (ps_vm s) \<or> DiffLanded \<in> set (sv_posts (ps_vm s)) \<longrightarrow> shows_own s)"

lemma onEvent_preview:
  "sv_previewId (sv_onEvent ev v) = sv_previewId v" "sv_previewPending (sv_onEvent ev v) = sv_previewPending v"
  "DiffLanded \<in> set (sv_posts (sv_onEvent ev v)) \<longleftrightarrow> isDiffEvent ev \<or> DiffLanded \<in> set (sv_posts v)"
  by (auto simp: sv_onEvent_def sv_queueRebuild_def sv_queueRefresh_def isDiffEvent_def split: event.splits)

lemma onEvents_preview:
  "sv_previewId (foldl (\<lambda>v ev. sv_onEvent ev v) v evs) = sv_previewId v"
  "sv_previewPending (foldl (\<lambda>v ev. sv_onEvent ev v) v evs) = sv_previewPending v"
  "DiffLanded \<in> set (sv_posts (foldl (\<lambda>v ev. sv_onEvent ev v) v evs)) \<longleftrightarrow> list_ex isDiffEvent evs \<or> DiffLanded \<in> set (sv_posts v)"
  by (induction evs arbitrary: v) (auto simp: onEvent_preview)

lemma runPost_preview:
  "sv_previewId (sv_runPost lt f v) = sv_previewId v"
  "sv_previewPending (sv_runPost lt f v) = sv_previewPending v \<or> DiffLanded \<in> set (sv_posts v) \<and> \<not> sv_previewPending (sv_runPost lt f v)"
  "set (sv_posts (sv_runPost lt f v)) \<subseteq> set (sv_posts v)"
  by (auto simp: sv_runPost_def Let_def sv_rebuild_facts [OF refl] split: list.splits sv_post.splits)

lemma diff_answer:
  assumes "names_base sm" "refreshSnapshotDiff sm i t f = (evs, f')"
  shows "(evs = [] \<and> fc_diff f' = fc_diff f) \<or>
    list_ex isDiffEvent evs \<and> ownDiff (Some i) (fc_diff f')"
proof (cases "sm_channel sm")
  case None
  then show ?thesis using assms(2) by (auto simp: refreshSnapshotDiff_def isDiffEvent_def)
next
  case (Some c)
  obtain r w where r: "pc_snapshotDiff c i t (fc_world f) = (r, w)" by (metis surj_pair)
  have "sd_baseId d = i" if "r = Inr (Inr d)" for d
    using assms(1) Some r that unfolding names_base_def by blast
  with Some r assms(2) show ?thesis
    by (cases r rule: sum.exhaust; cases "projr r") (auto simp: refreshSnapshotDiff_def isDiffEvent_def split: sum.splits)
qed

lemma preview_ok_step:
  assumes "preview_step sm lt a s s'" "preview_ok s" "patient a s" "names_base sm"
  shows "preview_ok s'"
  using assms(1)
proof (cases rule: preview_step.cases)
  case (ask i)
  then show ?thesis using assms(2,3) by (auto simp: preview_ok_def patient_def sv_requestPreview_def)
next
  case (answer i evs f)
  from diff_answer [OF assms(4) answer(4)] show ?thesis
    using answer assms(2) by (auto simp: preview_ok_def onEvents_preview shows_own_def)
next
  case ui_turn
  have own: "shows_own s' = shows_own s" using ui_turn by (simp add: shows_own_def runPost_preview(1))
  show ?thesis
    using ui_turn assms(2) own runPost_preview [of lt "ps_facade s" "ps_vm s"]
    by (auto simp: preview_ok_def)
next
  case (elsewhere f evs)
  have "\<not> list_ex isDiffEvent evs" using elsewhere(4) by (auto simp: list_ex_iff list_all_iff)
  then show ?thesis using elsewhere assms(2) by (auto simp: preview_ok_def onEvents_preview shows_own_def)
qed

text \<open>As long as no preview is asked for while the closure of an older one still waits for the
  user-interface thread, a preview that has left its loading state shows the differences of the
  snapshot it names, or says that they are unavailable.\<close>

theorem patient_preview_is_its_own:
  assumes "preview_run sm lt patient as (start_preview f) s" "names_base sm"
    and "sv_previewId (ps_vm s) = Some i" "\<not> sv_previewPending (ps_vm s)"
  shows "(case fc_diff (ps_facade s) of None \<Rightarrow> True | Some d \<Rightarrow> sd_baseId d = i) \<and>
    sv_previewLines lt (ps_facade s) (ps_vm s) =
      (''Restore snapshot '' @ snapshotShortId i @ ''?'') # previewContextLines lt (sv_metas (ps_vm s)) i @ [[]] @
        restorePreviewChangeLines (fc_diff (ps_facade s)) @ [[], restorePreviewConvergenceNote]"
proof -
  have "preview_ok s" using assms(1)
  proof (induction "start_preview f" s rule: preview_run.induct)
    case none
    show ?case by (simp add: preview_ok_def start_preview_def new_snapshots_vm_def shows_own_def)
  next
    case (more as s1 a s')
    then show ?case using preview_ok_step [OF _ _ _ assms(2)] by blast
  qed
  then have "shows_own s" using assms(4) by (simp add: preview_ok_def)
  then show ?thesis using assms(3,4) by (cases "fc_diff (ps_facade s)") (simp_all add: shows_own_def sv_previewLines_def)
qed

section \<open>Examples\<close>

definition a_diff :: "string \<Rightarrow> snapshot_diff" where
  "a_diff i = \<lparr>sd_baseId = i, sd_targetId = [], sd_entries = []\<rparr>"

definition diff_helper :: "unit helper" where
  "diff_helper = \<lparr>pc_setEnabled = (\<lambda>_ _ w. (Inr (), w)), pc_loadModule = (\<lambda>_ w. (Inr (), w)),
     pc_unloadModule = (\<lambda>_ w. (Inr (), w)), pc_bindDriver = (\<lambda>_ _ w. (Inr (), w)), pc_unbindDriver = (\<lambda>_ w. (Inr (), w)),
     pc_listDisabled = (\<lambda>w. (Inr [], w)), pc_snapshotList = (\<lambda>w. (Inr [], w)), pc_snapshotCreate = (\<lambda>_ w. (Inr [], w)),
     pc_snapshotRestore = (\<lambda>_ w. (makeError Io [], w)), pc_snapshotDelete = (\<lambda>_ w. (Inr (), w)),
     pc_snapshotDiff = (\<lambda>i _ w. (Inr (Inr (a_diff i)), w))\<rparr>"

definition diff_seams :: "unit seams" where
  "diff_seams = sample_seams\<lparr>sm_channel := Some diff_helper\<rparr>"

lemma diff_seams_names_base: "names_base diff_seams"
  by (auto simp: names_base_def diff_seams_def diff_helper_def a_diff_def)

lemma diff_seams_answers: "refreshSnapshotDiff diff_seams i t f = ([SnapshotDiffRefreshedEvent], f\<lparr>fc_world := fc_world f, fc_diff := Some (a_diff i)\<rparr>)"
  by (simp add: refreshSnapshotDiff_def diff_seams_def diff_helper_def)

text \<open>One preview, asked for and answered; \<open>landed\<close> is where its closure waits.\<close>

definition landed :: "unit preview" where
  "landed = \<lparr>ps_facade = (new_facade ())\<lparr>fc_diff := Some (a_diff ''a'')\<rparr>,
     ps_vm = new_snapshots_vm\<lparr>sv_previewId := Some ''a'', sv_previewPending := True, sv_posts := [DiffLanded]\<rparr>, ps_asked = None\<rparr>"

lemma reaches_landed:
  "preview_run diff_seams lt patient [Ask ''a'', Answer] (start_preview (new_facade ())) landed"
proof -
  let ?s0 = "start_preview (new_facade ())"
  let ?s1 = "?s0\<lparr>ps_vm := sv_requestPreview ''a'' (ps_vm ?s0), ps_asked := Some ''a''\<rparr>"
  have 1: "preview_step diff_seams lt (Ask ''a'') ?s0 ?s1" by (rule preview_step.ask) (simp add: start_preview_def)
  have 2: "preview_step diff_seams lt Answer ?s1 landed"
    using preview_step.answer [of ?s1 "''a''" diff_seams, OF _ diff_seams_answers, of lt]
    by (simp add: start_preview_def landed_def sv_requestPreview_def sv_onEvent_def new_snapshots_vm_def new_facade_def)
  have "preview_run diff_seams lt patient ([] @ [Ask ''a'']) ?s0 ?s1"
    by (rule preview_run.more [OF preview_run.none _ 1]) (simp add: patient_def start_preview_def new_snapshots_vm_def)
  then have "preview_run diff_seams lt patient (([] @ [Ask ''a'']) @ [Answer]) ?s0 landed"
    by (rule preview_run.more [OF _ _ 2]) (simp add: patient_def)
  then show ?thesis by simp
qed

lemma patient_preview_is_its_own_witness:
  "(case fc_diff (ps_facade landed) of None \<Rightarrow> True | Some d \<Rightarrow> sd_baseId d = ''a'')"
proof -
  let ?s = "landed\<lparr>ps_vm := sv_runPost (\<lambda>_. []) (ps_facade landed) (ps_vm landed)\<rparr>"
  have "preview_run diff_seams (\<lambda>_. []) patient ([Ask ''a'', Answer] @ [UiTurn]) (start_preview (new_facade ())) ?s"
    by (rule preview_run.more [OF reaches_landed _ preview_step.ui_turn]) (simp add: patient_def)
  moreover have "sv_previewId (ps_vm ?s) = Some ''a''" "\<not> sv_previewPending (ps_vm ?s)"
    by (simp_all add: landed_def sv_runPost_def new_snapshots_vm_def)
  ultimately show ?thesis using patient_preview_is_its_own [OF _ diff_seams_names_base] by fastforce
qed

text \<open>Asked for in between, the second preview takes the closure of the first for its own: it shows the
  differences of the first snapshot as those of the second, whose task is still running.\<close>

lemma hasty_preview_shows_another:
  "\<exists>s. preview_run diff_seams lt (\<lambda>_ _. True) [Ask ''a'', Answer, Ask ''b'', UiTurn] (start_preview (new_facade ())) s \<and>
     ps_asked s = Some ''b'' \<and> sv_previewId (ps_vm s) = Some ''b'' \<and> \<not> sv_previewPending (ps_vm s) \<and>
     fc_diff (ps_facade s) = Some (a_diff ''a'')"
proof -
  have free: "preview_run sm lt patient as s s' \<Longrightarrow> preview_run sm lt (\<lambda>_ _. True) as s s'" for sm :: "unit seams" and as s s'
    by (induction rule: preview_run.induct) (auto intro: preview_run.intros)
  let ?s1 = "landed\<lparr>ps_vm := sv_requestPreview ''b'' (ps_vm landed), ps_asked := Some ''b''\<rparr>"
  let ?s2 = "?s1\<lparr>ps_vm := sv_runPost lt (ps_facade ?s1) (ps_vm ?s1)\<rparr>"
  have 1: "preview_step diff_seams lt (Ask ''b'') landed ?s1" by (rule preview_step.ask) (simp add: landed_def)
  have 2: "preview_step diff_seams lt UiTurn ?s1 ?s2" by (rule preview_step.ui_turn)
  have "preview_run diff_seams lt (\<lambda>_ _. True) ((([Ask ''a'', Answer]) @ [Ask ''b'']) @ [UiTurn]) (start_preview (new_facade ())) ?s2"
    by (rule preview_run.more [OF preview_run.more [OF free [OF reaches_landed] TrueI 1] TrueI 2])
  moreover have "ps_asked ?s2 = Some ''b'' \<and> sv_previewId (ps_vm ?s2) = Some ''b'' \<and> \<not> sv_previewPending (ps_vm ?s2) \<and>
     fc_diff (ps_facade ?s2) = Some (a_diff ''a'')"
    by (simp add: landed_def sv_runPost_def sv_requestPreview_def new_snapshots_vm_def)
  ultimately show ?thesis by auto
qed

text \<open>An exception out of the helper's answer is seen by nobody: nothing is published, so the preview
  stays in its loading state.\<close>

lemma lost_answer_stays_pending:
  assumes "sm_channel sm = Some c" "pc_snapshotDiff c i [] (fc_world (ps_facade s)) = (Inl e, w)"
    and "ps_asked s = Some i" "preview_step sm lt Answer s s'"
  shows "ps_asked s' = None \<and> ps_vm s' = ps_vm s"
  using assms(4) by (cases rule: preview_step.cases) (use assms(1-3) in \<open>auto simp: refreshSnapshotDiff_def\<close>)

end
