(* ===== verification/Updates_Vm.thy ===== *)
theory Updates_Vm
  imports Device_List_Vm
begin

text \<open>
  \<^verbatim>\<open>app/src/updates_vm.cpp\<close>: one row per update candidate of every provider, the details and the
  install verb of the selected one, the banners, and the texts that follow an install. A rebuild and
  the banner observe the providers' availability, which writes to the facade's one status object, so
  both return the facade as well.
\<close>

section \<open>Rows and texts\<close>

definition kInstallTaskPrefix :: string where
  "kInstallTaskPrefix = ''install-update:''"

definition arrow :: string where
  "arrow = [CHR 0xE2, CHR 0x86, CHR 0x92]"

definition uv_formatRow :: "string \<Rightarrow> string \<Rightarrow> string \<Rightarrow> string \<Rightarrow> string \<Rightarrow> string" where
  "uv_formatRow provider name current candidate marker =
     rowBuffer 128 (padRight 6 (cstr provider) @ '' '' @ cell 30 name @ '' '' @ cell 12 current @ '' -> '' @
       cell 12 candidate @ '' '' @ cstr marker)"

definition hasLocalRelease :: "update_candidate \<Rightarrow> bool" where
  "hasLocalRelease c = list_ex rel_localCab (uc_releases c)"

definition remoteOnly :: "update_candidate \<Rightarrow> bool" where
  "remoteOnly c \<longleftrightarrow> uc_releases c \<noteq> [] \<and> \<not> hasLocalRelease c"

definition uv_markerFor :: "update_candidate \<Rightarrow> string \<Rightarrow> pending_action list \<Rightarrow> string" where
  "uv_markerFor c providerId pending =
     (if list_ex (\<lambda>p. pa_providerId p = providerId \<and> pa_deviceId p = uc_id c \<and> pa_disposition p = NeedsReboot) pending
      then ''reboot required''
      else if remoteOnly c then ''external download''
      else [])"

definition confirmTextFor :: "update_candidate \<Rightarrow> release_info \<Rightarrow> string" where
  "confirmTextFor c r =
     ''Install '' @ uc_displayName c @ '': '' @ uc_currentVersion c @ '' '' @ arrow @ '' '' @ rel_version r @
     (if uf_needsReboot (uc_facts c) then '' '' @ dash @ '' reboot required after install'' else []) @
     (case rel_duration r of Some n \<Rightarrow> '' (~'' @ show_nat n @ ''s)'' | None \<Rightarrow> [])"

definition secureBootLine :: "system_info option \<Rightarrow> string" where
  "secureBootLine info =
     (case info of
        None \<Rightarrow> ''Secure Boot: unknown''
      | Some si \<Rightarrow>
          ''Secure Boot: '' @ (if si_secureBoot si then ''ON'' else ''off'') @ '' '' @ middot @ '' Lockdown: '' @ si_lockdownMode si @
          (if si_secureBoot si \<or> si_lockdownMode si \<noteq> ''none''
           then '' '' @ dash @ '' unsigned modules will be rejected'' else []))"

definition availabilitySegment :: "provider_state \<Rightarrow> string" where
  "availabilitySegment s =
     (if pav_available (ups_availability s)
      then ups_providerId s @ '' '' @ (case pav_version (ups_availability s) of Some v \<Rightarrow> v | None \<Rightarrow> ''available'')
      else case backendForProvider (ups_providerId s) of
        None \<Rightarrow> ups_providerId s @ '' unavailable''
      | Some b \<Rightarrow>
          unavailabilityText b (kindFor (case pav_error (ups_availability s) of Some e \<Rightarrow> err_code e | None \<Rightarrow> Io)))"

definition allProvidersAvailable :: "provider_state list \<Rightarrow> bool" where
  "allProvidersAvailable snapshot = list_all (\<lambda>s. pav_available (ups_availability s)) snapshot"

definition releaseLines :: "update_candidate \<Rightarrow> string list" where
  "releaseLines c =
     map (\<lambda>r. ''Release '' @ rel_version r @ (if rel_localCab r then '' [local]'' else '' [remote]'') @
       (if rel_summary r \<noteq> [] then '' '' @ dash @ '' '' @ rel_summary r else [])) (uc_releases c) @
     (if remoteOnly c then [''external download required '' @ dash @ '' run `fwupdmgr update`''] else [])"

section \<open>The view\<close>

datatype uv_post = UvRebuild | UvRefresh | UvWake

datatype row_state = Available | UpToDate | RowError

record updates_vm =
  uv_rows :: "string list"
  uv_rowRefs :: "(nat \<times> nat) option list"
  uv_snapshot :: "provider_state list"
  uv_pending :: "pending_action list"
  uv_selected :: int
  uv_rebuildQueued :: bool
  uv_refreshQueued :: bool
  uv_requestBanner :: string
  uv_progressText :: string
  uv_lastNamedStage :: string
  uv_posts :: "uv_post list"
  uv_alive :: bool
  uv_refreshes :: nat

definition new_updates_vm :: updates_vm where
  "new_updates_vm = \<lparr>uv_rows = [], uv_rowRefs = [], uv_snapshot = [], uv_pending = [], uv_selected = 0, uv_rebuildQueued = False,
     uv_refreshQueued = False, uv_requestBanner = [], uv_progressText = [], uv_lastNamedStage = [], uv_posts = [],
     uv_alive = True, uv_refreshes = 0\<rparr>"

definition uv_queueRebuild :: "updates_vm \<Rightarrow> updates_vm" where
  "uv_queueRebuild v =
     (if uv_rebuildQueued v then v else v\<lparr>uv_rebuildQueued := True, uv_posts := uv_posts v @ [UvRebuild]\<rparr>)"

definition uv_queueRefresh :: "updates_vm \<Rightarrow> updates_vm" where
  "uv_queueRefresh v =
     (if uv_refreshQueued v then v else v\<lparr>uv_refreshQueued := True, uv_posts := uv_posts v @ [UvRefresh]\<rparr>)"

definition uv_postWake :: "updates_vm \<Rightarrow> updates_vm" where
  "uv_postWake v = v\<lparr>uv_posts := uv_posts v @ [UvWake]\<rparr>"

definition uv_onRequest :: "string \<Rightarrow> string \<Rightarrow> string \<Rightarrow> updates_vm \<Rightarrow> updates_vm" where
  "uv_onRequest deviceId kind message v =
     uv_postWake (v\<lparr>uv_requestBanner := ''device request ('' @ kind @ '') '' @ deviceId @ '': '' @ message\<rparr>)"

definition uv_onProgress :: "string \<Rightarrow> int \<Rightarrow> string \<Rightarrow> updates_vm \<Rightarrow> updates_vm" where
  "uv_onProgress taskId percent stage v =
     (if \<not> starts_with taskId kInstallTaskPrefix then v
      else
        (let txt = ''installing '' @ drop (length kInstallTaskPrefix) taskId @ '': '' @
               (if percent \<ge> 0 then show_int percent @ ''% '' else []);
             unnamed = (stage = [] \<or> stage = ''unknown'');
             shownStage = (if unnamed \<and> uv_lastNamedStage v \<noteq> [] then uv_lastNamedStage v else stage)
         in uv_postWake (v\<lparr>uv_lastNamedStage := (if unnamed then uv_lastNamedStage v else stage),
                           uv_progressText := txt @ shownStage\<rparr>)))"

definition uv_onCompleted :: "string \<Rightarrow> updates_vm \<Rightarrow> updates_vm" where
  "uv_onCompleted taskId v =
     (if \<not> starts_with taskId kInstallTaskPrefix then v
      else uv_postWake (v\<lparr>uv_progressText := [], uv_lastNamedStage := []\<rparr>))"

definition uv_onEvent :: "event \<Rightarrow> updates_vm \<Rightarrow> updates_vm" where
  "uv_onEvent ev v =
     (case ev of
        UpdatesRefreshedEvent \<Rightarrow> uv_queueRebuild v
      | UpdatesChangedEvent \<Rightarrow> uv_queueRefresh v
      | UpdateRequestEvent p d k m \<Rightarrow> uv_onRequest d k m v
      | TaskProgressEvent t p s \<Rightarrow> uv_onProgress t p s v
      | TaskCompletedEvent t ok m \<Rightarrow> uv_onCompleted t v
      | _ \<Rightarrow> v)"

definition dismissRequest :: "updates_vm \<Rightarrow> updates_vm" where
  "dismissRequest v = v\<lparr>uv_requestBanner := []\<rparr>"

definition uv_close :: "updates_vm \<Rightarrow> updates_vm" where
  "uv_close v = v\<lparr>uv_alive := False\<rparr>"

definition candidateAt :: "updates_vm \<Rightarrow> nat \<times> nat \<Rightarrow> update_candidate" where
  "candidateAt v r = ups_candidates (uv_snapshot v ! fst r) ! snd r"

definition uv_refAt :: "updates_vm \<Rightarrow> int \<Rightarrow> (nat \<times> nat) option" where
  "uv_refAt v row = (case rowAt (uv_rowRefs v) row of Some r \<Rightarrow> r | None \<Rightarrow> None)"

definition selectedCandidate :: "updates_vm \<Rightarrow> update_candidate option" where
  "selectedCandidate v = map_option (candidateAt v) (uv_refAt v (uv_selected v))"

definition keyAt :: "updates_vm \<Rightarrow> nat \<times> nat \<Rightarrow> string \<times> string" where
  "keyAt v r = (ups_providerId (uv_snapshot v ! fst r), uc_id (candidateAt v r))"

definition selectedKey :: "updates_vm \<Rightarrow> (string \<times> string) option" where
  "selectedKey v = map_option (keyAt v) (uv_refAt v (uv_selected v))"

definition stateForRow :: "updates_vm \<Rightarrow> int \<Rightarrow> row_state option" where
  "stateForRow v row =
     (case uv_refAt v row of
        None \<Rightarrow> None
      | Some r \<Rightarrow>
          (let st = uv_snapshot v ! fst r in
           Some (if ups_refreshError st \<noteq> None \<or> pav_error (ups_availability st) \<noteq> None then RowError
                 else if uc_candidateVersion (candidateAt v r) \<noteq> None then Available else UpToDate)))"

definition observeAvailability :: "provider_state list \<Rightarrow> 'w facade \<Rightarrow> 'w facade" where
  "observeAvailability snapshot f =
     foldl (\<lambda>f s. case backendForProvider (ups_providerId s) of
         None \<Rightarrow> f
       | Some b \<Rightarrow>
           f\<lparr>fc_status := bk_observe b
               (if pav_available (ups_availability s) then None
                else Some (case pav_error (ups_availability s) of Some e \<Rightarrow> e | None \<Rightarrow> \<lparr>err_code = Io, err_message = []\<rparr>))
               (fc_status f)\<rparr>) f snapshot"

text \<open>The two loops over providers and their candidates: the row numbers, and the text of each row.\<close>

definition candidateRefs :: "provider_state list \<Rightarrow> (nat \<times> nat) list" where
  "candidateRefs snapshot =
     concat (map (\<lambda>pi. map (\<lambda>ci. (pi, ci)) [0..<length (ups_candidates (snapshot ! pi))]) [0..<length snapshot])"

definition candidateRow :: "provider_state list \<Rightarrow> pending_action list \<Rightarrow> nat \<times> nat \<Rightarrow> string" where
  "candidateRow snapshot pending r =
     (let st = snapshot ! fst r; c = ups_candidates st ! snd r in
      uv_formatRow (ups_providerId st) (uc_displayName c) (uc_currentVersion c)
        (case uc_candidateVersion c of Some v \<Rightarrow> v | None \<Rightarrow> ''-'') (uv_markerFor c (ups_providerId st) pending))"

definition kUpdatesPlaceholder :: string where
  "kUpdatesPlaceholder = ''(no updates available)''"

definition kLoadingRow :: string where
  "kLoadingRow = ''(checking for updates)''"

definition uv_rebuild :: "'w facade \<Rightarrow> updates_vm \<Rightarrow> 'w facade \<times> updates_vm" where
  "uv_rebuild f v =
     (let keep = selectedKey v;
          snapshot = fc_updates f;
          pending = pendingUpdateActions f;
          refs = candidateRefs snapshot;
          v1 = v\<lparr>uv_snapshot := snapshot, uv_pending := pending, uv_rows := map (candidateRow snapshot pending) refs,
                 uv_rowRefs := map Some refs\<rparr>;
          f1 = observeAvailability snapshot f;
          v2 = (if uv_rows v1 = [] then
                  (if snapshot = [] then v1\<lparr>uv_rows := [kLoadingRow], uv_rowRefs := [None]\<rparr>
                   else if allProvidersAvailable snapshot then v1\<lparr>uv_rows := [kUpdatesPlaceholder], uv_rowRefs := [None]\<rparr>
                   else v1)
                else v1)
      in (f1, v2\<lparr>uv_selected := (if uv_rows v2 = [] then 0
            else restoreRow (\<lambda>r. keep \<noteq> None \<and> map_option (keyAt v2) r = keep) (uv_rowRefs v2) (uv_selected v2)
                   (length (uv_rows v2)))\<rparr>))"

definition uv_runPost :: "'w facade \<Rightarrow> updates_vm \<Rightarrow> 'w facade \<times> updates_vm" where
  "uv_runPost f v =
     (case uv_posts v of
        [] \<Rightarrow> (f, v)
      | p # ps \<Rightarrow>
          (let v1 = v\<lparr>uv_posts := ps\<rparr> in
           if p = UvWake \<or> \<not> uv_alive v then (f, v1)
           else case p of
             UvRebuild \<Rightarrow> uv_rebuild f (v1\<lparr>uv_rebuildQueued := False\<rparr>)
           | _ \<Rightarrow> (f, v1\<lparr>uv_refreshQueued := False, uv_refreshes := uv_refreshes v1 + 1\<rparr>)))"

section \<open>What is shown\<close>

definition dropTrailingSpaces :: "string \<Rightarrow> string" where
  "dropTrailingSpaces s = rev (dropWhile (\<lambda>c. c = CHR '' '') (rev s))"

definition uv_columnHeader :: string where
  "uv_columnHeader = dropTrailingSpaces (uv_formatRow ''Src'' ''Device'' ''Version'' ''New'' [])"

definition uv_banner :: "'w seams \<Rightarrow> 'w facade \<Rightarrow> string \<times> 'w facade" where
  "uv_banner sm f =
     (let snapshot = fc_updates f;
          f1 = observeAvailability snapshot f;
          b = foldl (\<lambda>b s. (if b \<noteq> [] then b @ '' | '' else b) @ availabilitySegment s @
                concat (map (\<lambda>notice. '' '' @ middot @ '' '' @ notice) (pav_notices (ups_availability s)))) [] snapshot;
          b1 = (if rebootPendingEffective sm f then (if b \<noteq> [] then b @ '' | '' else b) @ ''reboot required'' else b);
          sb = secureBootLine (facade_systemInfo sm f)
      in (if b1 = [] then sb else b1 @ '' | '' @ sb, f1))"

definition uv_detailLines :: "updates_vm \<Rightarrow> string list" where
  "uv_detailLines v =
     (case selectedCandidate v of
        None \<Rightarrow> [''(no update selected)'']
      | Some c \<Rightarrow>
          [''Device:    '' @ uc_displayName c, ''Provider:  '' @ uc_providerId c, ''Current:   '' @ uc_currentVersion c] @
          (case uc_candidateVersion c of Some w \<Rightarrow> [''Candidate: '' @ w] | None \<Rightarrow> []) @
          [''Updatable: '' @ (if uf_updatable (uc_facts c) then ''yes'' else ''no'')] @
          (if uf_needsReboot (uc_facts c) then [''Reboot required after update''] else []) @
          map (\<lambda>kv. fst kv @ '': '' @ snd kv) (uc_details c) @ releaseLines c)"

record install_args =
  ia_providerId :: string
  ia_candidateId :: string
  ia_release :: release_ref
  ia_confirmText :: string

definition selectedInstall :: "updates_vm \<Rightarrow> install_args option" where
  "selectedInstall v =
     (case uv_refAt v (uv_selected v) of
        None \<Rightarrow> None
      | Some r \<Rightarrow>
          (let c = candidateAt v r in
           if \<not> uf_updatable (uc_facts c) then None
           else case find rel_localCab (uc_releases c) of
             None \<Rightarrow> None
           | Some rel \<Rightarrow>
               Some \<lparr>ia_providerId = ups_providerId (uv_snapshot v ! fst r), ia_candidateId = uc_id c,
                     ia_release = releaseRef rel, ia_confirmText = confirmTextFor c rel\<rparr>))"

end
