(* ===== verification/Updates_Vm_Facts.thy ===== *)
theory Updates_Vm_Facts
  imports Updates_Vm
begin

text \<open>
  What the updates view promises: one row per candidate of every provider, in order; an install is
  offered only for an updatable candidate with a release on this machine, and then for the first one;
  the three ways to have no row are told apart; the progress text keeps the last named stage; and the
  view catches up with the facade.
\<close>

section \<open>Rows\<close>

lemma candidateRefs_valid:
  "list_all (\<lambda>r. fst r < length sn \<and> snd r < length (ups_candidates (sn ! fst r))) (candidateRefs sn)"
  by (auto simp: candidateRefs_def list_all_iff)

lemma candidateRefs_candidates:
  "map (\<lambda>r. ups_candidates (sn ! fst r) ! snd r) (candidateRefs sn) = concat (map ups_candidates sn)"
proof -
  have "map (\<lambda>r. ups_candidates (sn ! fst r) ! snd r) (candidateRefs sn) =
      concat (map (\<lambda>pi. map (\<lambda>ci. ups_candidates (sn ! pi) ! ci) [0..<length (ups_candidates (sn ! pi))]) [0..<length sn])"
    by (simp add: candidateRefs_def map_concat comp_def)
  also have "\<dots> = concat (map (\<lambda>pi. ups_candidates (sn ! pi)) [0..<length sn])" by (simp only: map_nth)
  also have "map (\<lambda>pi. ups_candidates (sn ! pi)) [0..<length sn] = map ups_candidates sn"
    by (metis (no_types, lifting) comp_def map_nth map_map map_eq_conv)
  finally show ?thesis .
qed

lemma candidateRefs_empty: "candidateRefs sn = [] \<longleftrightarrow> list_all (\<lambda>s. ups_candidates s = []) sn"
proof -
  have "candidateRefs sn = [] \<longleftrightarrow> concat (map ups_candidates sn) = []"
    using candidateRefs_candidates [of sn] by (metis map_is_Nil_conv)
  then show ?thesis by (auto simp: list_all_iff)
qed

lemma observeAvailability_same [simp]:
  "fc_updates (observeAvailability sn f) = fc_updates f" "fc_pending (observeAvailability sn f) = fc_pending f"
proof -
  have "fc_updates (observeAvailability sn f) = fc_updates f \<and> fc_pending (observeAvailability sn f) = fc_pending f"
    unfolding observeAvailability_def by (induction sn arbitrary: f) (auto split: option.splits)
  then show "fc_updates (observeAvailability sn f) = fc_updates f" "fc_pending (observeAvailability sn f) = fc_pending f" by blast+
qed

lemma uv_rebuild_facts:
  assumes "(f', v') = uv_rebuild f v"
  shows "f' = observeAvailability (fc_updates f) f" "uv_snapshot v' = fc_updates f" "uv_posts v' = uv_posts v" "uv_alive v' = uv_alive v"
    "uv_rebuildQueued v' = uv_rebuildQueued v" "length (uv_rows v') = length (uv_rowRefs v')"
    "candidateRefs (fc_updates f) \<noteq> [] \<Longrightarrow> uv_rowRefs v' = map Some (candidateRefs (fc_updates f)) \<and>
       uv_rows v' = map (candidateRow (fc_updates f) (pendingUpdateActions f)) (candidateRefs (fc_updates f))"
    "candidateRefs (fc_updates f) = [] \<Longrightarrow> list_all (\<lambda>r. r = None) (uv_rowRefs v') \<and>
       uv_rows v' = (if fc_updates f = [] then [kLoadingRow]
                     else if allProvidersAvailable (fc_updates f) then [kUpdatesPlaceholder] else [])"
  using assms by (auto simp: uv_rebuild_def Let_def split: if_splits)

lemma uv_rebuild_selected:
  assumes "(f', v') = uv_rebuild f v" "uv_rows v' \<noteq> []"
  shows "uv_selected v' = restoreRow (\<lambda>r. selectedKey v \<noteq> None \<and> map_option (keyAt v') r = selectedKey v) (uv_rowRefs v')
    (uv_selected v) (length (uv_rowRefs v'))"
proof -
  have "keyAt (w\<lparr>uv_selected := i\<rparr>) = keyAt w" for w i by (rule ext) (simp add: keyAt_def candidateAt_def)
  with assms show ?thesis by (auto simp: uv_rebuild_def Let_def split: if_splits)
qed

text \<open>After a rebuild there is one row for every candidate of every provider, in the providers' order; the
  candidate that was selected, by provider and id, stays selected while it is listed; the loading row
  is there only before the first report, the empty-result row only when every provider is available,
  and there is no row when one is not; and an install is offered exactly for a selected updatable
  candidate with a local release, for the first such release and under the provider's own id.\<close>

theorem update_rows_complete:
  assumes "(f', v') = uv_rebuild f v"
  shows "(candidateRefs (fc_updates f) \<noteq> [] \<longrightarrow>
      map (candidateAt v') (map the (uv_rowRefs v')) = concat (map ups_candidates (fc_updates f)) \<and> None \<notin> set (uv_rowRefs v')) \<and>
    (candidateRefs (fc_updates f) = [] \<longrightarrow>
      uv_rows v' = (if fc_updates f = [] then [kLoadingRow]
                    else if allProvidersAvailable (fc_updates f) then [kUpdatesPlaceholder] else [])) \<and>
    (selectedKey v \<noteq> None \<and> selectedKey v \<in> Some ` keyAt v' ` set (candidateRefs (fc_updates f)) \<longrightarrow>
      selectedKey v' = selectedKey v) \<and>
    selectedInstall v' =
      (case uv_refAt v' (uv_selected v') of
         None \<Rightarrow> None
       | Some r \<Rightarrow>
           if uf_updatable (uc_facts (candidateAt v' r)) \<and> hasLocalRelease (candidateAt v' r)
           then Some \<lparr>ia_providerId = ups_providerId (fc_updates f ! fst r), ia_candidateId = uc_id (candidateAt v' r),
             ia_release = releaseRef (hd (filter rel_localCab (uc_releases (candidateAt v' r)))),
             ia_confirmText = confirmTextFor (candidateAt v' r) (hd (filter rel_localCab (uc_releases (candidateAt v' r))))\<rparr>
           else None)"
proof -
  note r = uv_rebuild_facts [OF assms]
  let ?refs = "candidateRefs (fc_updates f)"
  have kept: "selectedKey v' = selectedKey v"
    if k: "selectedKey v \<noteq> None" "selectedKey v \<in> Some ` keyAt v' ` set ?refs"
  proof -
    have ne: "?refs \<noteq> []" using k(2) by auto
    let ?P = "\<lambda>r. selectedKey v \<noteq> None \<and> map_option (keyAt v') r = selectedKey v"
    from k obtain x where x: "x \<in> set ?refs" "selectedKey v = Some (keyAt v' x)" by auto
    then have "Some x \<in> set (uv_rowRefs v')" "?P (Some x)" using r(7) ne by auto
    from restoreRow_kept [of "Some x" "uv_rowRefs v'" ?P, OF this, of "uv_selected v"] obtain y where
      "rowAt (uv_rowRefs v') (uv_selected v') = Some y" "?P y"
      using uv_rebuild_selected [OF assms] r(7) ne by auto
    then show ?thesis by (simp add: selectedKey_def [of v'] uv_refAt_def)
  qed
  have rows: "map (candidateAt v') (map the (uv_rowRefs v')) = concat (map ups_candidates (fc_updates f)) \<and> None \<notin> set (uv_rowRefs v')"
    if "?refs \<noteq> []"
  proof -
    have "candidateAt v' = (\<lambda>r. ups_candidates (fc_updates f ! fst r) ! snd r)" by (rule ext) (simp add: candidateAt_def r(2))
    then show ?thesis using r(7) [OF that] candidateRefs_candidates [of "fc_updates f"] by (auto simp: comp_def)
  qed
  have first: "find rel_localCab rs = (if list_ex rel_localCab rs then Some (hd (filter rel_localCab rs)) else None)" for rs
    by (induction rs) auto
  show ?thesis using rows r(8) kept
    by (intro conjI impI) (auto simp: selectedInstall_def first hasLocalRelease_def r(2) Let_def split: option.splits)
qed

definition dkms_state :: provider_state where
  "dkms_state = \<lparr>ups_providerId = ''dkms'', ups_availability = \<lparr>pav_available = True, pav_version = None, pav_error = None, pav_notices = []\<rparr>,
     ups_candidates = [], ups_refreshError = None\<rparr>"

lemma update_rows_complete_witness:
  "uv_rows (snd (uv_rebuild ((new_facade ())\<lparr>fc_updates := [dkms_state]\<rparr>) new_updates_vm)) = [kUpdatesPlaceholder]"
  using update_rows_complete [OF prod.collapse, of "(new_facade ())\<lparr>fc_updates := [dkms_state]\<rparr>" new_updates_vm]
  by (simp add: candidateRefs_empty dkms_state_def allProvidersAvailable_def)

section \<open>Progress\<close>

definition unnamed :: "string \<Rightarrow> bool" where
  "unnamed stage \<longleftrightarrow> stage = [] \<or> stage = ''unknown''"

text \<open>The stage to show after some reports: the last named one, else the one that was known, else what the
  last report says.\<close>

definition shownStage :: "string \<Rightarrow> (int \<times> string) list \<Rightarrow> string" where
  "shownStage known reports =
     (case filter (\<lambda>s. \<not> unnamed s) (map snd (rev reports)) of
        s # _ \<Rightarrow> s
      | [] \<Rightarrow> if known \<noteq> [] then known else snd (last reports))"

definition reportsOf :: "string \<Rightarrow> (int \<times> string) list \<Rightarrow> updates_vm \<Rightarrow> updates_vm" where
  "reportsOf cid reports v = foldl (\<lambda>v r. uv_onEvent (TaskProgressEvent (kInstallTaskPrefix @ cid) (fst r) (snd r)) v) v reports"

lemma lastNamed:
  "uv_lastNamedStage (reportsOf cid reports v) =
     (case filter (\<lambda>s. \<not> unnamed s) (map snd (rev reports)) of s # _ \<Rightarrow> s | [] \<Rightarrow> uv_lastNamedStage v)"
proof (induction reports rule: rev_induct)
  case (snoc r rs)
  have "reportsOf cid (rs @ [r]) v =
      uv_onEvent (TaskProgressEvent (kInstallTaskPrefix @ cid) (fst r) (snd r)) (reportsOf cid rs v)" by (simp add: reportsOf_def)
  with snoc show ?case by (auto simp: uv_onEvent_def uv_onProgress_def uv_postWake_def Let_def unnamed_def)
qed (simp add: reportsOf_def)

lemma named_not_empty: "filter (\<lambda>s. \<not> unnamed s) xs = s # ss \<Longrightarrow> s \<noteq> []"
proof -
  assume "filter (\<lambda>s. \<not> unnamed s) xs = s # ss"
  then have "s \<in> set (filter (\<lambda>s. \<not> unnamed s) xs)" by (simp only: list.set_intros)
  then show "s \<noteq> []" by (auto simp: unnamed_def)
qed

text \<open>While reports of an install arrive, the text shows the percentage of the last one, when it has one,
  and the last stage that was named, so that reports of a percentage alone do not blank it; reports
  of other tasks change nothing; and the end of the install clears the text and the remembered stage,
  but not the banner of a device request, which only a dismissal clears.\<close>

theorem progress_keeps_named_stage:
  assumes "reports \<noteq> []"
  shows "uv_progressText (reportsOf cid reports v) =
      ''installing '' @ cid @ '': '' @
        (if fst (last reports) \<ge> 0 then show_int (fst (last reports)) @ ''% '' else []) @ shownStage (uv_lastNamedStage v) reports \<and>
    (\<forall>t p s. starts_with t kInstallTaskPrefix \<or> uv_onEvent (TaskProgressEvent t p s) v = v) \<and>
    uv_progressText (uv_onEvent (TaskCompletedEvent (kInstallTaskPrefix @ cid) ok m) v) = [] \<and>
    uv_lastNamedStage (uv_onEvent (TaskCompletedEvent (kInstallTaskPrefix @ cid) ok m) v) = [] \<and>
    uv_requestBanner (uv_onEvent (TaskCompletedEvent t2 ok m) (reportsOf cid reports v)) = uv_requestBanner v"
proof -
  have "uv_progressText (reportsOf cid reports v) =
      ''installing '' @ cid @ '': '' @
        (if fst (last reports) \<ge> 0 then show_int (fst (last reports)) @ ''% '' else []) @ shownStage (uv_lastNamedStage v) reports"
    using assms
  proof (cases reports rule: rev_cases)
    case (snoc rs r)
    have "reportsOf cid reports v =
        uv_onEvent (TaskProgressEvent (kInstallTaskPrefix @ cid) (fst r) (snd r)) (reportsOf cid rs v)" by (simp add: reportsOf_def snoc)
    then show ?thesis
      using snoc lastNamed [of cid rs v]
      by (auto simp: uv_onEvent_def uv_onProgress_def uv_postWake_def Let_def unnamed_def [of "snd r"] shownStage_def
          split: list.splits dest: named_not_empty)
  qed simp
  moreover have "uv_requestBanner (reportsOf cid reports v) = uv_requestBanner v"
    unfolding reportsOf_def by (induction reports arbitrary: v)
      (auto simp: uv_onEvent_def uv_onProgress_def uv_postWake_def Let_def)
  ultimately show ?thesis
    by (auto simp: uv_onEvent_def uv_onProgress_def uv_onCompleted_def uv_postWake_def Let_def)
qed

lemma show_nat_20: "show_nat 20 = ''20''"
  by code_simp

lemma progress_keeps_named_stage_witness:
  "uv_progressText (reportsOf ''d'' [(10, ''write''), (20, ''unknown'')] new_updates_vm) = ''installing d: 20% write''"
  using progress_keeps_named_stage [of "[(10, ''write''), (20, ''unknown'')]" "''d''" new_updates_vm]
  by (simp add: shownStage_def unnamed_def show_int_def show_nat_20)

section \<open>The view catches up\<close>

datatype uv_edit = UvSelect int | UvEvent event | UvDismiss

fun uv_edited :: "uv_edit \<Rightarrow> 'w facade \<Rightarrow> updates_vm \<Rightarrow> updates_vm" where
  "uv_edited (UvSelect i) f v = v\<lparr>uv_selected := i\<rparr>"
| "uv_edited (UvEvent ev) f v = uv_onEvent ev v"
| "uv_edited UvDismiss f v = dismissRequest v"

definition uv_ok :: "updates_vm \<Rightarrow> bool" where
  "uv_ok v \<longleftrightarrow> (uv_rebuildQueued v \<longrightarrow> UvRebuild \<in> set (uv_posts v)) \<and> uv_alive v"

lemma uv_onEvent_facts:
  "uv_ok v \<Longrightarrow> uv_ok (uv_onEvent ev v)" "uv_snapshot (uv_onEvent ev v) = uv_snapshot v"
  "UvRebuild \<in> set (uv_posts v) \<Longrightarrow> UvRebuild \<in> set (uv_posts (uv_onEvent ev v))"
  by (auto simp: uv_onEvent_def uv_queueRebuild_def uv_queueRefresh_def uv_onRequest_def uv_onProgress_def
      uv_onCompleted_def uv_postWake_def uv_ok_def Let_def split: event.splits)

lemma uv_runPost_facts:
  assumes "uv_ok v"
  shows "uv_ok (snd (uv_runPost f v))"
    "uv_snapshot (snd (uv_runPost f v)) = fc_updates f \<or>
      uv_snapshot (snd (uv_runPost f v)) = uv_snapshot v \<and>
      (UvRebuild \<in> set (uv_posts v) \<longrightarrow> UvRebuild \<in> set (uv_posts (snd (uv_runPost f v))))"
proof -
  have "uv_ok (snd (uv_runPost f v)) \<and> (uv_snapshot (snd (uv_runPost f v)) = fc_updates f \<or>
      uv_snapshot (snd (uv_runPost f v)) = uv_snapshot v \<and>
      (UvRebuild \<in> set (uv_posts v) \<longrightarrow> UvRebuild \<in> set (uv_posts (snd (uv_runPost f v)))))"
  proof (cases "uv_posts v")
    case (Cons p ps)
    show ?thesis
    proof (cases p)
      case UvRebuild
      obtain f' v' where r: "(f', v') = uv_rebuild f (v\<lparr>uv_posts := ps, uv_rebuildQueued := False\<rparr>)" by (metis surj_pair)
      then have "uv_runPost f v = (f', v')" using Cons UvRebuild assms by (simp add: uv_runPost_def uv_ok_def)
      with uv_rebuild_facts(2-5) [OF r] assms show ?thesis by (simp add: uv_ok_def)
    qed (use Cons assms in \<open>auto simp: uv_runPost_def Let_def uv_ok_def\<close>)
  qed (use assms in \<open>simp add: uv_runPost_def\<close>)
  then show "uv_ok (snd (uv_runPost f v))"
    "uv_snapshot (snd (uv_runPost f v)) = fc_updates f \<or>
      uv_snapshot (snd (uv_runPost f v)) = uv_snapshot v \<and>
      (UvRebuild \<in> set (uv_posts v) \<longrightarrow> UvRebuild \<in> set (uv_posts (snd (uv_runPost f v))))" by blast+
qed

interpretation uv: coalesced "uv_onEvent UpdatesRefreshedEvent" "\<lambda>f v. snd (uv_runPost f v)" uv_edited
    "\<lambda>v. UvRebuild \<in> set (uv_posts v)" "\<lambda>_. True" uv_snapshot fc_updates uv_ok
proof (unfold_locales, goal_cases)
  case (7 v e f)
  then show ?case by (cases e) (auto simp: uv_onEvent_facts, auto simp: uv_ok_def dismissRequest_def)
next
  case (8 v e f)
  then show ?case by (cases e) (auto simp: uv_onEvent_facts dismissRequest_def)
qed (use uv_runPost_facts in \<open>auto simp: uv_onEvent_def uv_queueRebuild_def uv_ok_def\<close>)

lemma updates_catch_up:
  assumes "viewRun (uv_onEvent UpdatesRefreshedEvent) (\<lambda>f v. snd (uv_runPost f v)) uv_edited as (new_facade w, 0, new_updates_vm) = (f, 0, v)"
    and "UvRebuild \<notin> set (uv_posts v)"
  shows "uv_snapshot v = fc_updates f"
  using assms(2) by (intro uv.catches_up_fresh [OF _ _ assms(1)]) (simp_all add: new_updates_vm_def new_facade_def uv_ok_def)

end
