(* ===== verification/Modules_Vm.thy ===== *)
theory Modules_Vm
  imports Updates_Vm
begin

text \<open>
  \<^verbatim>\<open>app/src/modules_vm.cpp\<close>: the loaded modules in fixed columns, with a signature column that a task
  fills in later, the details of the selected module and the Secure Boot banner. Columns are counted
  in code points: a byte 10xxxxxx continues one. The task that reads the signatures is the list of
  names it was given; its closure brings the cells back.
\<close>

section \<open>Cells\<close>

definition mv_joinHolders :: "string list \<Rightarrow> string" where
  "mv_joinHolders holders =
     (let joined = foldl (\<lambda>j h. (if j \<noteq> [] then j @ '','' else j) @ h) [] holders
      in if length joined > 24 then take 21 joined @ ellipsis else joined)"

definition isContinuationByte :: "char \<Rightarrow> bool" where
  "isContinuationByte c \<longleftrightarrow> (of_char c :: nat) div 64 = 2"

definition displayWidth :: "string \<Rightarrow> nat" where
  "displayWidth s = length (filter (\<lambda>c. \<not> isContinuationByte c) s)"

text \<open>\<^verbatim>\<open>pop_back\<close> once, then while a continuation byte is at the end of what is left.\<close>

definition popCodepoint :: "string \<Rightarrow> string" where
  "popCodepoint s = (if s = [] then [] else rev (dropWhile isContinuationByte (rev (butlast s))))"

function clipTo :: "nat \<Rightarrow> string \<Rightarrow> string" where
  "clipTo w s = (if displayWidth s > w then clipTo w (popCodepoint s) else s)"
  by pat_completeness auto
termination
proof (relation "measure (\<lambda>(w, s). length s)")
  fix w s
  assume "displayWidth s > w"
  then have "s \<noteq> []" by (auto simp: displayWidth_def)
  moreover have "length (rev (dropWhile isContinuationByte (rev t))) \<le> length t" for t
    using length_dropWhile_le [of isContinuationByte "rev t"] by simp
  ultimately show "((w, popCodepoint s), w, s) \<in> measure (\<lambda>(w, s). length s)"
    by (simp add: popCodepoint_def) (metis Suc_pred length_greater_0_conv length_butlast less_Suc_eq_le One_nat_def)
qed simp

declare clipTo.simps [simp del]

definition padTo :: "string \<Rightarrow> nat \<Rightarrow> string" where
  "padTo s cols =
     (let c = (if displayWidth s > cols then clipTo (cols - 1) s @ ellipsis else s)
      in c @ replicate (cols - displayWidth c) CHR '' '')"

definition kSignedCols :: nat where
  "kSignedCols = 20"

definition formatModuleRow :: "loaded_module \<Rightarrow> string \<Rightarrow> string \<Rightarrow> string" where
  "formatModuleRow m sig holders =
     rowBuffer 128 (padRight 28 (cstr (lm_name m)) @ '' '' @ cstr (padTo sig kSignedCols) @ '' '' @
       padLeft 4 (show_int (lm_refCount m)) @ '' '' @ padLeft 7 (show_nat (lm_sizeBytes m div 1024)) @ ''K  '' @ cstr holders)"

definition signatureLabel :: "driver \<Rightarrow> string" where
  "signatureLabel d =
     (if \<not> drv_isSigned d then ''NO''
      else case drv_signer d of
        Some signer \<Rightarrow> if signer \<noteq> [] then ''yes ('' @ signer @ '')'' else ''yes''
      | None \<Rightarrow> ''yes'')"

definition signatureCellFor :: "driver result \<Rightarrow> string" where
  "signatureCellFor info = (case info of Inr d \<Rightarrow> signatureLabel d | Inl _ \<Rightarrow> ''?'')"

datatype module_signature = Signed | Unsigned | Undetermined

definition classifySignatureCell :: "string \<Rightarrow> module_signature" where
  "classifySignatureCell c =
     (if c = ''NO'' then Unsigned else if starts_with c ''yes'' then Signed else Undetermined)"

definition moduleInfoLines :: "driver result \<Rightarrow> string list" where
  "moduleInfoLines info =
     (case info of
        Inl _ \<Rightarrow> []
      | Inr d \<Rightarrow>
          (if drv_version d \<noteq> [] then [''Version: '' @ drv_version d] else []) @
          (if drv_path d \<noteq> [] then [''Path:    '' @ drv_path d] else []) @
          [''Signed:  '' @ signatureLabel d] @
          (if drv_dependencies d = [] then [] else [''Depends: '' @ joinDeps (drv_dependencies d)]))"

definition modprobeInfoLines :: "modprobe_info result \<Rightarrow> string list" where
  "modprobeInfoLines mp =
     (case mp of
        Inl _ \<Rightarrow> []
      | Inr i \<Rightarrow>
          (case mpi_options i of Some opts \<Rightarrow> [''Options: '' @ opts] | None \<Rightarrow> []) @
          (if mpi_blacklisted i then [''modprobe.d: blacklisted''] else []))"

section \<open>The view\<close>

datatype mv_post = MvRebuild | MvCells "(string \<times> string) list"

record modules_vm =
  mv_filter :: string
  mv_rows :: "string list"
  mv_rowNames :: "string option list"
  mv_snapshot :: "loaded_module list"
  mv_signatureCell :: "(string \<times> string) list"
  mv_rebuildQueued :: bool
  mv_selected :: int
  mv_fill :: "string list option"
  mv_posts :: "mv_post list"
  mv_alive :: bool

definition new_modules_vm :: modules_vm where
  "new_modules_vm = \<lparr>mv_filter = [], mv_rows = [], mv_rowNames = [], mv_snapshot = [], mv_signatureCell = [],
     mv_rebuildQueued = False, mv_selected = 0, mv_fill = None, mv_posts = [], mv_alive = True\<rparr>"

definition mv_onModulesChanged :: "modules_vm \<Rightarrow> modules_vm" where
  "mv_onModulesChanged v =
     (if mv_rebuildQueued v then v else v\<lparr>mv_rebuildQueued := True, mv_posts := mv_posts v @ [MvRebuild]\<rparr>)"

definition mv_close :: "modules_vm \<Rightarrow> modules_vm" where
  "mv_close v = v\<lparr>mv_alive := False\<rparr>"

definition selectedModule :: "modules_vm \<Rightarrow> string option" where
  "selectedModule v = (case rowAt (mv_rowNames v) (mv_selected v) of Some r \<Rightarrow> r | None \<Rightarrow> None)"

definition signatureText :: "modules_vm \<Rightarrow> string \<Rightarrow> string" where
  "signatureText v name = (case map_of (mv_signatureCell v) name of Some c \<Rightarrow> c | None \<Rightarrow> ellipsis)"

text \<open>The modules that are listed, in the order of their names; none when the list cannot be read.\<close>

definition listedModules :: "'w seams \<Rightarrow> 'w facade \<Rightarrow> loaded_module list" where
  "listedModules sm f = sort_key lm_name (case facade_listModules sm f of Inr ms \<Rightarrow> ms | Inl _ \<Rightarrow> [])"

definition mv_rebuild :: "'w seams \<Rightarrow> 'w facade \<Rightarrow> modules_vm \<Rightarrow> modules_vm" where
  "mv_rebuild sm f v =
     (let keep = selectedModule v;
          ms = listedModules sm f;
          shown = filter (\<lambda>m. mv_filter v = [] \<or> contains (toLower (lm_name m)) (mv_filter v)) ms;
          v1 = v\<lparr>mv_snapshot := ms,
                 mv_rows := map (\<lambda>m. formatModuleRow m (signatureText v (lm_name m)) (mv_joinHolders (lm_holders m))) shown,
                 mv_rowNames := map (\<lambda>m. Some (lm_name m)) shown\<rparr>;
          v2 = (if mv_rows v1 = [] \<and> (mv_filter v \<noteq> [] \<or> fc_daemonError f = None)
                then v1\<lparr>mv_rows := [if mv_filter v = [] then ''(no modules)'' else ''(no matches)''], mv_rowNames := [None]\<rparr>
                else v1)
      in v2\<lparr>mv_selected := (if mv_rows v2 = [] then 0
           else restoreRow (\<lambda>r. keep \<noteq> None \<and> r = keep) (mv_rowNames v2) (mv_selected v2) (length (mv_rows v2)))\<rparr>)"

definition mv_setFilter :: "'w seams \<Rightarrow> string \<Rightarrow> 'w facade \<Rightarrow> modules_vm \<Rightarrow> modules_vm" where
  "mv_setFilter sm s f v = mv_rebuild sm f (v\<lparr>mv_filter := toLower s\<rparr>)"

text \<open>\<^verbatim>\<open>fillSignatures\<close> on the user-interface thread, the task it submits, and the closure the task posts.\<close>

definition mv_fillSignatures :: "modules_vm \<Rightarrow> modules_vm" where
  "mv_fillSignatures v =
     (if mv_fill v \<noteq> None then v
      else (let names = filter (\<lambda>n. map_of (mv_signatureCell v) n = None) (map lm_name (mv_snapshot v))
            in if names = [] then v else v\<lparr>mv_fill := Some names\<rparr>))"

definition mv_fillTask :: "'w seams \<Rightarrow> 'w facade \<Rightarrow> modules_vm \<Rightarrow> modules_vm" where
  "mv_fillTask sm f v =
     (case mv_fill v of
        None \<Rightarrow> v
      | Some names \<Rightarrow>
          (let cells = foldl (\<lambda>m n. smap_put n (signatureCellFor (facade_moduleDetail sm n f)) m) [] names
           in v\<lparr>mv_fill := None, mv_posts := mv_posts v @ [MvCells cells]\<rparr>))"

definition mv_runPost :: "'w seams \<Rightarrow> 'w facade \<Rightarrow> modules_vm \<Rightarrow> modules_vm" where
  "mv_runPost sm f v =
     (case mv_posts v of
        [] \<Rightarrow> v
      | p # ps \<Rightarrow>
          (let v1 = v\<lparr>mv_posts := ps\<rparr> in
           if \<not> mv_alive v then v1
           else case p of
             MvRebuild \<Rightarrow> mv_rebuild sm f (v1\<lparr>mv_rebuildQueued := False\<rparr>)
           | MvCells cells \<Rightarrow>
               mv_rebuild sm f (v1\<lparr>mv_signatureCell := foldl (\<lambda>m kv. smap_put (fst kv) (snd kv) m) (mv_signatureCell v1) cells\<rparr>)))"

definition nameAt :: "modules_vm \<Rightarrow> int \<Rightarrow> string option" where
  "nameAt v row = (case rowAt (mv_rowNames v) row of Some r \<Rightarrow> r | None \<Rightarrow> None)"

definition signedForRow :: "modules_vm \<Rightarrow> int \<Rightarrow> module_signature option" where
  "signedForRow v row = map_option (\<lambda>n. classifySignatureCell (signatureText v n)) (nameAt v row)"

definition mv_criticalityForRow :: "modules_vm \<Rightarrow> int \<Rightarrow> criticality option" where
  "mv_criticalityForRow v row =
     (case nameAt v row of
        None \<Rightarrow> None
      | Some n \<Rightarrow>
          Some (case find (\<lambda>m. lm_name m = n) (mv_snapshot v) of
                  None \<Rightarrow> Ordinary
                | Some m \<Rightarrow> classifyModule (lm_name m) (lm_refCount m) (lm_holders m)))"

definition mv_columnHeader :: string where
  "mv_columnHeader =
     rowBuffer 128 (padRight 28 ''Name'' @ '' '' @ padRight 20 ''Signed'' @ '' '' @ padLeft 4 ''Ref'' @ '' '' @
       padLeft 8 ''Size'' @ ''  '' @ ''Used-by'')"

record banner_line =
  bl_text :: string
  bl_severity :: status_severity

definition mv_bannerLine :: "'w seams \<Rightarrow> 'w facade \<Rightarrow> banner_line" where
  "mv_bannerLine sm f =
     (let withNote = (\<lambda>l. case helperNotes f of
            [] \<Rightarrow> l
          | n # _ \<Rightarrow> l\<lparr>bl_text := bn_text n @ '' | '' @ bl_text l, bl_severity := SevWarning\<rparr>)
      in case facade_systemInfo sm f of
           None \<Rightarrow> withNote \<lparr>bl_text = ''Secure Boot: unknown'', bl_severity = SevInfo\<rparr>
         | Some info \<Rightarrow>
             (let rejectsUnsigned = (si_secureBoot info \<or> si_lockdownMode info \<noteq> ''none'') in
              withNote \<lparr>bl_text = ''Secure Boot: '' @ (if si_secureBoot info then ''ON'' else ''off'') @ '' '' @ middot @
                           '' Lockdown: '' @ si_lockdownMode info @
                           (if rejectsUnsigned then '' '' @ dash @ '' unsigned modules will be rejected'' else []),
                         bl_severity = (if rejectsUnsigned then SevWarning else SevInfo)\<rparr>))"

definition mv_banner :: "'w seams \<Rightarrow> 'w facade \<Rightarrow> string" where
  "mv_banner sm f = bl_text (mv_bannerLine sm f)"

definition mv_detailLines :: "'w seams \<Rightarrow> 'w facade \<Rightarrow> modules_vm \<Rightarrow> string list" where
  "mv_detailLines sm f v =
     (case selectedModule v of
        None \<Rightarrow> [''(no module selected)'']
      | Some name \<Rightarrow>
          [''Module:  '' @ name] @
          (case mv_criticalityForRow v (mv_selected v) of
             None \<Rightarrow> []
           | Some level \<Rightarrow>
               if level \<noteq> Ordinary
               then [''Risk:    '' @ displayCriticality level @ '' '' @ dash @ '' '' @
                     (if level = Essential then ''unloading this may make the system unusable''
                      else ''in use or security-enforcing; unloading will be felt'')]
               else []) @
          moduleInfoLines (facade_moduleDetail sm name f) @ modprobeInfoLines (facade_modprobeDetail sm name f))"

end
