(* ===== verification/Modules_Vm_Facts.thy ===== *)
theory Modules_Vm_Facts
  imports Modules_Vm
begin

text \<open>
  What the modules view promises: a signature cell of exactly twenty columns that never cuts a code
  point, a colour that says what the cell says, one row per module the filter wants, and a view that
  catches up with the facade. The Secure Boot sentence is the one the updates view shows.
\<close>

section \<open>Columns\<close>

lemma displayWidth_append [simp]: "displayWidth (s @ t) = displayWidth s + displayWidth t"
  by (simp add: displayWidth_def)

lemma displayWidth_spaces [simp]: "displayWidth (replicate n CHR '' '') = n"
  by (induction n) (simp_all add: displayWidth_def isContinuationByte_def)

lemma displayWidth_ellipsis [simp]: "displayWidth ellipsis = 1"
  by (simp add: displayWidth_def ellipsis_def isContinuationByte_def)

lemma displayWidth_Nil [simp]: "displayWidth [] = 0"
  by (simp add: displayWidth_def)

lemma clipTo_width: "displayWidth (clipTo w s) \<le> w"
  by (induction w s rule: clipTo.induct) (subst clipTo.simps, simp)

lemma padTo_width:
  assumes "0 < cols"
  shows "displayWidth (padTo s cols) = cols"
  using assms clipTo_width [of "cols - 1" s] by (auto simp: padTo_def Let_def)

text \<open>On text without multi-byte characters the clip is a prefix.\<close>

definition single_bytes :: "string \<Rightarrow> bool" where
  "single_bytes s \<longleftrightarrow> list_all (\<lambda>c. \<not> isContinuationByte c) s"

lemma single_bytes_width: "single_bytes s \<Longrightarrow> displayWidth s = length s"
  by (induction s) (simp_all add: displayWidth_def single_bytes_def)

lemma single_bytes_butlast: "single_bytes s \<Longrightarrow> single_bytes (butlast s)"
  by (auto simp: single_bytes_def list_all_iff dest: in_set_butlastD)

lemma single_bytes_take: "single_bytes s \<Longrightarrow> single_bytes (take n s)"
  by (auto simp: single_bytes_def list_all_iff dest: in_set_takeD)

lemma single_bytes_pop: "single_bytes s \<Longrightarrow> popCodepoint s = butlast s"
proof -
  assume s: "single_bytes s"
  have "dropWhile isContinuationByte xs = xs" if "list_all (\<lambda>c. \<not> isContinuationByte c) xs" for xs
    using that by (cases xs) auto
  moreover have "list_all (\<lambda>c. \<not> isContinuationByte c) (rev (butlast s))"
    using single_bytes_butlast [OF s] by (simp add: single_bytes_def)
  ultimately show ?thesis by (simp add: popCodepoint_def)
qed

lemma single_bytes_clip: "single_bytes s \<Longrightarrow> clipTo w s = take w s"
proof (induction w s rule: clipTo.induct)
  case (1 w s)
  show ?case
  proof (cases "displayWidth s > w")
    case True
    with 1 have "clipTo w (butlast s) = take w (butlast s)"
      by (simp add: single_bytes_pop single_bytes_butlast)
    with True 1(2) show ?thesis
      by (subst clipTo.simps) (simp add: single_bytes_pop single_bytes_width take_butlast)
  next
    case False
    then show ?thesis using 1(2) by (subst clipTo.simps) (simp add: single_bytes_width)
  qed
qed

text \<open>On other text it is not: taking the last byte off and then the continuation bytes at the end leaves
  the first byte of a character, or strips the character before. A cell that is clipped next to one ends in
  half a character.\<close>

lemma pop_leaves_half_a_character:
  "popCodepoint (s @ [CHR 0xC3, CHR 0xA9]) = s @ [CHR 0xC3]"
  "popCodepoint (s @ [CHR 0xC3, CHR 0xA9, CHR ''x'']) = s @ [CHR 0xC3]"
  by (simp_all add: popCodepoint_def butlast_append isContinuationByte_def)

lemma clipped_cell_is_not_utf8:
  "padTo (''yes (Klaus Ren'' @ [CHR 0xC3, CHR 0xA9] @ '' de Vries)'') 16 =
     ''yes (Klaus Ren'' @ [CHR 0xC3] @ ellipsis"
  by code_simp

section \<open>Colour and text\<close>

lemma classify_cell:
  "classifySignatureCell (signatureCellFor info) =
     (case info of Inl _ \<Rightarrow> Undetermined | Inr d \<Rightarrow> if drv_isSigned d then Signed else Unsigned)"
  by (auto simp: classifySignatureCell_def signatureCellFor_def signatureLabel_def starts_with_def
      split: sum.splits option.splits)

lemma ellipsis_undetermined: "classifySignatureCell ellipsis = Undetermined"
  by (simp add: classifySignatureCell_def ellipsis_def starts_with_def)

section \<open>Rows\<close>

definition mv_ok :: "modules_vm \<Rightarrow> bool" where
  "mv_ok v \<longleftrightarrow> (mv_rebuildQueued v \<longrightarrow> MvRebuild \<in> set (mv_posts v)) \<and> mv_alive v"

definition mv_wanted :: "modules_vm \<Rightarrow> loaded_module list \<Rightarrow> loaded_module list" where
  "mv_wanted v ms = filter (\<lambda>m. mv_filter v = [] \<or> contains (toLower (lm_name m)) (mv_filter v)) ms"

definition mv_placeholder :: "'w facade \<Rightarrow> modules_vm \<Rightarrow> bool" where
  "mv_placeholder f v \<longleftrightarrow> mv_filter v \<noteq> [] \<or> fc_daemonError f = None"

definition mv_rowsOf :: "'w facade \<Rightarrow> modules_vm \<Rightarrow> loaded_module list \<Rightarrow> string list" where
  "mv_rowsOf f v ms =
     (if ms = [] \<and> mv_placeholder f v then [if mv_filter v = [] then ''(no modules)'' else ''(no matches)'']
      else map (\<lambda>m. formatModuleRow m (signatureText v (lm_name m)) (mv_joinHolders (lm_holders m))) ms)"

definition mv_namesOf :: "'w facade \<Rightarrow> modules_vm \<Rightarrow> loaded_module list \<Rightarrow> string option list" where
  "mv_namesOf f v ms = (if ms = [] \<and> mv_placeholder f v then [None] else map (\<lambda>m. Some (lm_name m)) ms)"

lemma length_mv_rowsOf: "length (mv_rowsOf f v ms) = length (mv_namesOf f v ms)"
  by (simp add: mv_rowsOf_def mv_namesOf_def)

lemma mv_rebuild_eq:
  "mv_rebuild sm f v =
     (let rows = mv_rowsOf f v (mv_wanted v (listedModules sm f)); names = mv_namesOf f v (mv_wanted v (listedModules sm f))
      in v\<lparr>mv_snapshot := listedModules sm f, mv_rows := rows, mv_rowNames := names,
        mv_selected := (if rows = [] then 0
          else restoreRow (\<lambda>r. selectedModule v \<noteq> None \<and> r = selectedModule v) names (mv_selected v) (length rows))\<rparr>)"
  unfolding mv_rebuild_def Let_def mv_wanted_def [symmetric] mv_rowsOf_def mv_namesOf_def mv_placeholder_def
  by (cases "mv_wanted v (listedModules sm f) = []") simp_all

lemma mv_rebuild_facts:
  assumes "v' = mv_rebuild sm f v"
  shows "mv_snapshot v' = listedModules sm f" "mv_posts v' = mv_posts v" "mv_alive v' = mv_alive v"
    "mv_rebuildQueued v' = mv_rebuildQueued v" "mv_signatureCell v' = mv_signatureCell v" "mv_fill v' = mv_fill v"
    "length (mv_rows v') = length (mv_rowNames v')"
    "mv_wanted v (listedModules sm f) \<noteq> [] \<Longrightarrow>
       mv_rowNames v' = map (\<lambda>m. Some (lm_name m)) (mv_wanted v (listedModules sm f)) \<and>
       mv_rows v' = map (\<lambda>m. formatModuleRow m (signatureText v (lm_name m)) (mv_joinHolders (lm_holders m)))
         (mv_wanted v (listedModules sm f))"
  unfolding assms mv_rebuild_eq Let_def
  by (simp_all add: length_mv_rowsOf) (simp_all add: mv_rowsOf_def mv_namesOf_def)

lemma mv_rebuild_selected:
  assumes "v' = mv_rebuild sm f v" "mv_rows v' \<noteq> []"
  shows "mv_selected v' = restoreRow (\<lambda>r. selectedModule v \<noteq> None \<and> r = selectedModule v) (mv_rowNames v')
    (mv_selected v) (length (mv_rowNames v'))"
  using assms(2) unfolding assms(1) mv_rebuild_eq Let_def by (simp add: length_mv_rowsOf)

text \<open>After a rebuild there is one row per loaded module that the filter wants, in the order of the names,
  each with a signature cell of exactly twenty columns, and of the text itself, clipped, when the text
  has no multi-byte character; the module that was selected stays selected while it is listed; and the
  colour of a row whose signature was read says what its cell says: signed, unsigned, or not known.\<close>

theorem module_rows_complete:
  assumes "v' = mv_rebuild sm f v" "shown = mv_wanted v (listedModules sm f)"
  shows "(shown \<noteq> [] \<longrightarrow>
      mv_rows v' = map (\<lambda>m. formatModuleRow m (signatureText v (lm_name m)) (mv_joinHolders (lm_holders m))) shown \<and>
      mv_rowNames v' = map (Some \<circ> lm_name) shown \<and> sorted (map lm_name shown)) \<and>
    displayWidth (padTo s kSignedCols) = 20 \<and>
    (single_bytes s \<longrightarrow> padTo s kSignedCols = (if length s > 20 then take 19 s @ ellipsis else s @ replicate (20 - length s) CHR '' '')) \<and>
    (selectedModule v \<noteq> None \<and> selectedModule v \<in> set (map (Some \<circ> lm_name) shown) \<longrightarrow> selectedModule v' = selectedModule v) \<and>
    (nameAt v' row = Some n \<and> map_of (mv_signatureCell v) n = Some (signatureCellFor info) \<longrightarrow>
      signedForRow v' row = Some (case info of Inl _ \<Rightarrow> Undetermined | Inr d \<Rightarrow> if drv_isSigned d then Signed else Unsigned))"
proof -
  note r = mv_rebuild_facts [OF assms(1)]
  have kept: "selectedModule v' = selectedModule v"
    if k: "selectedModule v \<noteq> None" "selectedModule v \<in> set (map (Some \<circ> lm_name) shown)"
  proof -
    have ne: "shown \<noteq> []" using k(2) by auto
    let ?P = "\<lambda>r. selectedModule v \<noteq> None \<and> r = selectedModule v"
    have "selectedModule v \<in> set (mv_rowNames v')" "?P (selectedModule v)" using r(8) ne k assms(2) by (auto simp: comp_def)
    from restoreRow_kept [of "selectedModule v" "mv_rowNames v'" ?P, OF this, of "mv_selected v"] show ?thesis
      using mv_rebuild_selected [OF assms(1)] r(8) ne assms(2) by (auto simp: selectedModule_def [of v'])
  qed
  have srt: "sorted (map lm_name shown)"
    unfolding assms(2) mv_wanted_def listedModules_def by (rule sorted_filter) (rule sorted_sort_key)
  have clip: "padTo s kSignedCols = (if length s > 20 then take 19 s @ ellipsis else s @ replicate (20 - length s) CHR '' '')"
    if "single_bytes s"
    using that single_bytes_width [OF single_bytes_take [OF that], of 19]
    by (simp add: padTo_def kSignedCols_def Let_def single_bytes_width single_bytes_clip)
  have colour: "signedForRow v' row = Some (case info of Inl _ \<Rightarrow> Undetermined | Inr d \<Rightarrow> if drv_isSigned d then Signed else Unsigned)"
    if "nameAt v' row = Some n" "map_of (mv_signatureCell v) n = Some (signatureCellFor info)"
    using that r(5) by (simp add: signedForRow_def signatureText_def classify_cell)
  show ?thesis using r(8) srt clip kept colour padTo_width [of 20 s] assms(2)
    by (auto simp: kSignedCols_def comp_def)
qed

definition two_modules :: "loaded_module list" where
  "two_modules =
     [\<lparr>lm_name = ''snd'', lm_sizeBytes = 0, lm_refCount = 1, lm_holders = []\<rparr>,
      \<lparr>lm_name = ''kvm'', lm_sizeBytes = 2048, lm_refCount = 0, lm_holders = []\<rparr>]"

definition kmod_seams :: "unit seams" where
  "kmod_seams = \<lparr>sm_enumerate = (\<lambda>_. Inr []), sm_channel = None, sm_prober = None,
     sm_drivers = Some \<lparr>drm_driversFor = (\<lambda>_ _. Inr []), drm_listLoaded = (\<lambda>_. Inr two_modules),
       drm_moduleInfo = (\<lambda>_ _. makeError NotFound []), drm_modprobeInfo = (\<lambda>_ _. makeError NotFound []),
       drm_devicesUsing = (\<lambda>_ _. Inr [])\<rparr>,
     sm_systemInfo = None, sm_providers = []\<rparr>"

lemma listed_two: "listedModules kmod_seams (new_facade ()) = [two_modules ! 1, two_modules ! 0]"
  by (simp add: listedModules_def facade_listModules_def kmod_seams_def two_modules_def less_char_def less_eq_char_def)

lemma module_rows_complete_witness:
  "mv_rowNames (mv_rebuild kmod_seams (new_facade ()) new_modules_vm) = [Some ''kvm'', Some ''snd''] \<and>
     padTo ''yes'' kSignedCols = ''yes'' @ replicate 17 CHR '' ''"
  using module_rows_complete [where v = new_modules_vm and sm = kmod_seams and f = "new_facade ()" and s = "''yes''", OF refl refl]
  by (simp add: listed_two mv_wanted_def new_modules_vm_def two_modules_def single_bytes_def isContinuationByte_def)

section \<open>The view catches up\<close>

datatype mv_edit = MvFilter string | MvSelect int | MvFill | MvFilled

fun mv_edited :: "'w seams \<Rightarrow> mv_edit \<Rightarrow> 'w facade \<Rightarrow> modules_vm \<Rightarrow> modules_vm" where
  "mv_edited sm (MvFilter s) f v = mv_setFilter sm s f v"
| "mv_edited sm (MvSelect i) f v = v\<lparr>mv_selected := i\<rparr>"
| "mv_edited sm MvFill f v = mv_fillSignatures v"
| "mv_edited sm MvFilled f v = mv_fillTask sm f v"

lemma fill_facts:
  "mv_snapshot (mv_fillSignatures v) = mv_snapshot v" "mv_posts (mv_fillSignatures v) = mv_posts v"
  "mv_rebuildQueued (mv_fillSignatures v) = mv_rebuildQueued v" "mv_alive (mv_fillSignatures v) = mv_alive v"
  "mv_snapshot (mv_fillTask sm f v) = mv_snapshot v" "set (mv_posts v) \<subseteq> set (mv_posts (mv_fillTask sm f v))"
  "mv_rebuildQueued (mv_fillTask sm f v) = mv_rebuildQueued v" "mv_alive (mv_fillTask sm f v) = mv_alive v"
  by (auto simp: mv_fillSignatures_def mv_fillTask_def Let_def split: option.splits)

lemma mv_runPost_facts:
  assumes "mv_ok v"
  shows "mv_ok (mv_runPost sm f v)" and "mv_posts v \<noteq> [] \<Longrightarrow> mv_snapshot (mv_runPost sm f v) = listedModules sm f"
    and "mv_posts v = [] \<Longrightarrow> mv_runPost sm f v = v"
  using assms by (auto simp: mv_runPost_def mv_ok_def Let_def mv_rebuild_facts [OF refl] split: list.splits mv_post.splits)

interpretation mv: coalesced mv_onModulesChanged "mv_runPost sm" "mv_edited sm" "\<lambda>v. MvRebuild \<in> set (mv_posts v)" "\<lambda>_. True"
    mv_snapshot "listedModules sm" mv_ok for sm
proof (unfold_locales, goal_cases)
  case (5 v f)
  then show ?case by (rule mv_runPost_facts)
next
  case (6 v f)
  then show ?case using mv_runPost_facts [OF 6, of sm f] by (cases "mv_posts v = []") auto
next
  case (7 v e f)
  then show ?case
    by (cases e) (auto simp: mv_ok_def mv_setFilter_def mv_rebuild_facts [OF refl] fill_facts intro: subsetD [OF fill_facts(6)])
next
  case (8 v e f)
  then show ?case
    by (cases e) (auto simp: mv_setFilter_def mv_rebuild_facts [OF refl] fill_facts intro: subsetD [OF fill_facts(6)])
qed (auto simp: mv_onModulesChanged_def mv_ok_def)

lemma modules_catch_up:
  assumes "viewRun mv_onModulesChanged (mv_runPost sm) (mv_edited sm) as (f0, 0, mv_rebuild sm f0 new_modules_vm) = (f, 0, v)"
    and "MvRebuild \<notin> set (mv_posts v)"
  shows "mv_snapshot v = listedModules sm f"
  using assms(2) by (intro mv.catches_up_fresh [OF _ _ assms(1)])
    (simp_all add: new_modules_vm_def mv_ok_def mv_rebuild_facts [OF refl])

text \<open>Without a note, the banner says of Secure Boot what the updates view says.\<close>

lemma same_secure_boot_line:
  assumes "helperNotes f = []"
  shows "mv_banner sm f = secureBootLine (facade_systemInfo sm f)"
  using assms by (auto simp: mv_banner_def mv_bannerLine_def secureBootLine_def Let_def split: option.splits)

end
