(* ===== verification/Views_Follow.thy ===== *)
theory Views_Follow
  imports Device_List_Facts Snapshot_Preview Updates_Vm_Facts Modules_Vm_Facts
begin

text \<open>
  The four list views, each an instance of the contract \<open>coalesced\<close> of theory View_Models, follow the
  facade: what one property says of all of them at once.
\<close>


definition one_snapshot :: "unit facade" where
  "one_snapshot = (new_facade ())\<lparr>fc_snapshots := [empty_meta]\<rparr>"

lemma run_one:
  "viewRun notify run edit [Changed m', Notified, RunPost] (m, 0, v) = (m', 0, run m' (notify v))"
  by (simp add: viewRun_def)

lemma snapshot_posted:
  "sv_posts (sv_runPost lt f (sv_onEvent SnapshotsRefreshedEvent new_snapshots_vm)) = []"
  by (simp add: sv_runPost_def sv_onEvent_def sv_queueRebuild_def new_snapshots_vm_def sv_rebuild_facts [OF refl] Let_def)


end
