(* ===== verification/Linux_System_Info.thy ===== *)
theory Linux_System_Info
  imports Update_Models Daemon_World
begin

text \<open>
  \<^verbatim>\<open>platform/linux/src/linux_system_info.cpp\<close>: what the system says of itself. Files are their bytes,
  \<open>None\<close> when they cannot be opened; a directory is its entries in the order of iteration, none when it
  cannot be listed.
\<close>

definition findChar :: "char \<Rightarrow> string \<Rightarrow> nat option" where
  "findChar c s = (if c \<in> set s then Some (length (takeWhile (\<lambda>x. x \<noteq> c) s)) else None)"

text \<open>The first line of a stream, empty when there is none.\<close>

definition firstLineOf :: "string \<Rightarrow> string" where
  "firstLineOf content = takeWhile (\<lambda>c. c \<noteq> CHR 0x0A) content"

definition readLockdownMode :: "string option \<Rightarrow> string" where
  "readLockdownMode file =
     (case file of None \<Rightarrow> ''none'' | Some bytes \<Rightarrow>
      let content = firstLineOf bytes in
      case findChar (CHR ''['') content of None \<Rightarrow> ''none'' | Some opn \<Rightarrow>
      case findChar (CHR '']'') content of None \<Rightarrow> ''none'' | Some close \<Rightarrow>
      if close \<le> opn then ''none'' else take (close - opn - 1) (drop (opn + 1) content))"

fun readSecureBoot :: "(string \<times> string option) list \<Rightarrow> bool" where
  "readSecureBoot [] = False"
| "readSecureBoot ((name, bytes) # entries) =
     (if \<not> starts_with name ''SecureBoot-'' then readSecureBoot entries
      else case bytes of None \<Rightarrow> False | Some b \<Rightarrow> 5 \<le> length b \<and> b ! 4 = CHR 0x01)"

definition kPrettyNameKey :: string where
  "kPrettyNameKey = ''PRETTY_NAME=''"

definition unquoted :: "string \<Rightarrow> string" where
  "unquoted v = (if 2 \<le> length v \<and> hd v = CHR 0x22 \<and> last v = CHR 0x22 then butlast (tl v) else v)"

definition readPrettyName :: "string option \<Rightarrow> string" where
  "readPrettyName file =
     (case file of None \<Rightarrow> [] | Some content \<Rightarrow>
      case find (\<lambda>line. starts_with line kPrettyNameKey) (getlines [] content) of
        None \<Rightarrow> []
      | Some line \<Rightarrow> unquoted (drop (length kPrettyNameKey) line))"

definition query_system :: "string option \<Rightarrow> string option \<Rightarrow> (string \<times> string option) list \<Rightarrow> string option \<Rightarrow> system_info result" where
  "query_system osRelease release efivars lockdown =
     Inr \<lparr>si_osVersion = readPrettyName osRelease,
          si_kernelVersion = (case release of Some r \<Rightarrow> r | None \<Rightarrow> []),
          si_secureBoot = readSecureBoot efivars,
          si_rebootPending = False,
          si_lockdownMode = readLockdownMode lockdown\<rparr>"

section \<open>What the kernel writes is read\<close>

text \<open>The kernel lists the modes and brackets the one in force.\<close>

lemma lockdown_bracketed:
  assumes "CHR ''['' \<notin> set pre" "CHR '']'' \<notin> set pre" "CHR 0x0A \<notin> set (pre @ mode @ post)"
    and "CHR '']'' \<notin> set mode" "rest = [] \<or> hd rest = CHR 0x0A"
  shows "readLockdownMode (Some (pre @ CHR ''['' # mode @ CHR '']'' # post @ rest)) = mode"
proof -
  have line: "firstLineOf (pre @ CHR ''['' # mode @ CHR '']'' # post @ rest) = pre @ CHR ''['' # mode @ CHR '']'' # post"
    using assms(3,5) unfolding firstLineOf_def
    by (cases rest) (auto simp: takeWhile_append)
  have "findChar (CHR ''['') (pre @ CHR ''['' # mode @ CHR '']'' # post) = Some (length pre)"
    "findChar (CHR '']'') (pre @ CHR ''['' # mode @ CHR '']'' # post) = Some (length pre + 1 + length mode)"
    using assms by (auto simp: findChar_def takeWhile_append takeWhile_eq_all_conv [THEN iffD2])
  with line show ?thesis by (simp add: readLockdownMode_def Let_def)
qed

lemma lockdown_absent: "readLockdownMode None = ''none''"
  by (simp add: readLockdownMode_def)

lemma unquoted_quoted: "unquoted (CHR 0x22 # s @ [CHR 0x22]) = s"
  by (simp add: unquoted_def butlast_append)

end
