(* ===== verification/Kmod_Driver_Manager.thy ===== *)
theory Kmod_Driver_Manager
  imports Linux_System_Info Facade
begin

text \<open>
  \<^verbatim>\<open>platform/linux/src/kmod_driver_manager.cpp\<close> with its error taxonomy
  (\<^verbatim>\<open>kmod_error_taxonomy.hpp\<close>): the driver manager over libkmod. The library is a record of what its
  calls answer about a module \<open>'m\<close> in a state \<open>'k\<close> of the kernel, \<open>None\<close> for a null pointer or a
  negative result; the sysfs tree is a record of queries. Reference counts of handles are left out.
\<close>

section \<open>What the library and the tree answer\<close>

record ('m, 'k) kmod =
  km_context :: bool
  km_lookup :: "string \<Rightarrow> 'k \<Rightarrow> 'm list option"
  km_fromName :: "string \<Rightarrow> 'k \<Rightarrow> 'm option"
  km_loaded :: "'k \<Rightarrow> 'm list option"
  km_name :: "'m \<Rightarrow> string"
  km_path :: "'m \<Rightarrow> 'k \<Rightarrow> string option"
  km_initstate :: "'m \<Rightarrow> 'k \<Rightarrow> int"
  km_deps :: "'m \<Rightarrow> 'k \<Rightarrow> 'm list"
  km_info :: "'m \<Rightarrow> 'k \<Rightarrow> (string option \<times> string option) list option"
  km_size :: "'m \<Rightarrow> 'k \<Rightarrow> int"
  km_refcnt :: "'m \<Rightarrow> 'k \<Rightarrow> int"
  km_holders :: "'m \<Rightarrow> 'k \<Rightarrow> 'm list"
  km_options :: "'k \<Rightarrow> (string option \<times> string option) list option"
  km_blacklists :: "'k \<Rightarrow> (string option \<times> string option) list option"
  km_installs :: "'k \<Rightarrow> (string option \<times> string option) list option"
  km_insert :: "'m \<Rightarrow> 'k \<Rightarrow> int \<times> 'k"
  km_remove :: "'m \<Rightarrow> 'k \<Rightarrow> int \<times> 'k"

record 'k sysfs_tree =
  st_isSymlink :: "string \<Rightarrow> 'k \<Rightarrow> bool"
  st_isDir :: "string \<Rightarrow> 'k \<Rightarrow> bool"
  st_weaklyCanonical :: "string \<Rightarrow> 'k \<Rightarrow> string option"
  st_readSymlink :: "string \<Rightarrow> 'k \<Rightarrow> string option"
  st_entries :: "string \<Rightarrow> 'k \<Rightarrow> string list"
  st_lockdown :: "'k \<Rightarrow> string option"

definition kBuiltin :: int where "kBuiltin = 0"
definition kLive :: int where "kLive = 1"
definition kComing :: int where "kComing = 2"

definition kEPERM :: int where "kEPERM = 1"
definition kENOENT :: int where "kENOENT = 2"
definition kEBUSY :: int where "kEBUSY = 16"
definition kENOKEY :: int where "kENOKEY = 126"
definition kEKEYREJECTED :: int where "kEKEYREJECTED = 129"

lemmas kmod_consts = kBuiltin_def kLive_def kComing_def kEPERM_def kENOENT_def kEBUSY_def kENOKEY_def kEKEYREJECTED_def

text \<open>\<^verbatim>\<open>path / name\<close>: an absolute name replaces the path. A missing path of a failed call is empty.\<close>

definition fsJoin :: "string \<Rightarrow> string \<Rightarrow> string" where
  "fsJoin d name = (if starts_with name ''/'' then name else pathJoin d name)"

definition pathOr :: "string option \<Rightarrow> string" where
  "pathOr p = (case p of Some s \<Rightarrow> s | None \<Rightarrow> [])"

section \<open>The error taxonomy\<close>

record dep_state =
  dst_name :: string
  dst_loaded :: bool

definition quote :: "string \<Rightarrow> string" where
  "quote s = [CHR 0x27] @ s @ [CHR 0x27]"

definition loadSubject :: "string \<Rightarrow> dep_state list \<Rightarrow> string" where
  "loadSubject module deps =
     (case find (\<lambda>d. \<not> dst_loaded d) deps of
        Some d \<Rightarrow> if dst_name d = [] then ''module '' @ quote module else ''dependency '' @ quote (dst_name d)
      | None \<Rightarrow> ''module '' @ quote module)"

definition describeLoadFailure :: "(int \<Rightarrow> string) \<Rightarrow> int \<Rightarrow> string \<Rightarrow> dep_state list \<Rightarrow> string \<Rightarrow> error" where
  "describeLoadFailure strerror err module deps lockdown =
     (let subject = loadSubject module deps in
      if err = kEKEYREJECTED \<or> err = kENOKEY \<or> err = kEPERM
      then \<lparr>err_code = Permission, err_message = subject @ '' rejected: unsigned module (Secure Boot / lockdown: '' @ lockdown @ '')''\<rparr>
      else if err = kENOENT then \<lparr>err_code = NotFound, err_message = subject @ '' not found for this kernel''\<rparr>
      else if err = kEBUSY then \<lparr>err_code = Busy, err_message = subject @ '' is busy''\<rparr>
      else \<lparr>err_code = Io, err_message = ''loading '' @ subject @ '' failed: '' @ strerror err\<rparr>)"

definition joinNames :: "string list \<Rightarrow> string" where
  "joinNames hs = foldl (\<lambda>names h. (if names \<noteq> [] then names @ '', '' else names) @ h) [] hs"

definition describeUnloadFailure :: "(int \<Rightarrow> string) \<Rightarrow> int \<Rightarrow> string \<Rightarrow> string list \<Rightarrow> error" where
  "describeUnloadFailure strerror err module holders =
     (if err = kEBUSY
      then \<lparr>err_code = Busy, err_message = ''module '' @ quote module @ '' is in use'' @
              (let names = joinNames holders in if names = [] then [] else '' by '' @ names)\<rparr>
      else if err = kEPERM
      then \<lparr>err_code = Permission, err_message = ''unload of '' @ quote module @ '' rejected by the kernel (lockdown?)''\<rparr>
      else if err = kENOENT then \<lparr>err_code = NotFound, err_message = ''module '' @ quote module @ '' not loaded''\<rparr>
      else \<lparr>err_code = Io, err_message = ''unloading '' @ quote module @ '' failed: '' @ strerror err\<rparr>)"

section \<open>Reading\<close>

definition normalized :: "string \<Rightarrow> string" where
  "normalized name = map (\<lambda>c. if c = CHR ''-'' then CHR ''_'' else c) name"

fun applyInfoEntry :: "driver \<Rightarrow> string option \<times> string option \<Rightarrow> driver" where
  "applyInfoEntry d (Some key, Some value) =
     (let d1 = (if key = ''version'' then d\<lparr>drv_version := value\<rparr> else d);
          d2 = (if key = ''signer'' then d1\<lparr>drv_isSigned := True, drv_signer := Some value\<rparr> else d1)
      in if key = ''sig_id'' then d2\<lparr>drv_isSigned := True\<rparr> else d2)"
| "applyInfoEntry d _ = d"

definition applyModinfo :: "('m, 'k) kmod \<Rightarrow> 'm \<Rightarrow> 'k \<Rightarrow> driver \<Rightarrow> driver" where
  "applyModinfo km m k d = (case km_info km m k of None \<Rightarrow> d | Some info \<Rightarrow> foldl applyInfoEntry d info)"

fun keyIs :: "string \<Rightarrow> string option \<times> string option \<Rightarrow> bool" where
  "keyIs wanted (Some key, _) = (normalized key = wanted)"
| "keyIs wanted (None, _) = False"

definition applyOptionsConfig :: "('m, 'k) kmod \<Rightarrow> string \<Rightarrow> 'k \<Rightarrow> modprobe_info \<Rightarrow> modprobe_info" where
  "applyOptionsConfig km wanted k info =
     (case km_options km k of None \<Rightarrow> info | Some es \<Rightarrow>
      foldl (\<lambda>i e. case snd e of
           Some value \<Rightarrow>
             if keyIs wanted e
             then i\<lparr>mpi_options := Some (case mpi_options i of Some o1 \<Rightarrow> o1 @ '' '' @ value | None \<Rightarrow> value)\<rparr>
             else i
         | None \<Rightarrow> i) info es)"

definition applyBlacklistConfig :: "('m, 'k) kmod \<Rightarrow> string \<Rightarrow> 'k \<Rightarrow> modprobe_info \<Rightarrow> modprobe_info" where
  "applyBlacklistConfig km wanted k info =
     (case km_blacklists km k of None \<Rightarrow> info | Some es \<Rightarrow>
      foldl (\<lambda>i e. if keyIs wanted e then i\<lparr>mpi_blacklisted := True\<rparr> else i) info es)"

definition installCommand :: "string \<Rightarrow> (string option \<times> string option) list \<Rightarrow> string" where
  "installCommand wanted es =
     foldl (\<lambda>command e. if keyIs wanted e then (case snd e of Some v \<Rightarrow> v | None \<Rightarrow> []) else command) [] es"

definition checkNoInstallCommand :: "('m, 'k) kmod \<Rightarrow> string \<Rightarrow> 'k \<Rightarrow> unit result" where
  "checkNoInstallCommand km wanted k =
     (case km_installs km k of None \<Rightarrow> Inr () | Some es \<Rightarrow>
      let command = installCommand wanted es in
      if command \<noteq> []
      then makeError Unsupported (''module has a modprobe.d install rule ('' @ command @
             ''); devmgrd does not execute shell commands '' @ dash @ '' use modprobe'')
      else Inr ())"

definition ready :: "('m, 'k) kmod \<Rightarrow> unit result" where
  "ready km = (if km_context km then Inr () else makeError Io ''libkmod context creation failed'')"

definition toDriver :: "('m, 'k) kmod \<Rightarrow> 'm \<Rightarrow> 'k \<Rightarrow> driver" where
  "toDriver km m k =
     (let state = km_initstate km m k in
      applyModinfo km m k
        \<lparr>drv_name = km_name km m,
         drv_kind = (if state = kBuiltin then Builtin else KernelModule),
         drv_version = [],
         drv_path = pathOr (km_path km m k),
         drv_loaded = (state = kLive \<or> state = kComing),
         drv_isSigned = False, drv_signer = None, drv_availableUpdate = None,
         drv_dependencies = map (km_name km) (km_deps km m k)\<rparr>)"

definition byName :: "('m, 'k) kmod \<Rightarrow> string \<Rightarrow> 'k \<Rightarrow> 'm result" where
  "byName km name k =
     (case ready km of Inl e \<Rightarrow> Inl e | Inr _ \<Rightarrow>
      case km_lookup km name k of
        Some (m # _) \<Rightarrow> Inr m
      | _ \<Rightarrow> makeError NotFound (''module not found: '' @ name))"

definition resolveBoundDriver :: "('m, 'k) kmod \<Rightarrow> 'k sysfs_tree \<Rightarrow> string \<Rightarrow> 'k \<Rightarrow> driver option" where
  "resolveBoundDriver km st sysfsPath k =
     (let driverLink = fsJoin sysfsPath ''driver'' in
      if \<not> st_isSymlink st driverLink k then None
      else (let driverDir = pathOr (st_weaklyCanonical st driverLink k);
                driverName = lastSegment driverDir;
                moduleLink = fsJoin driverDir ''module''
            in if st_isSymlink st moduleLink k
               then (case byName km (lastSegment (pathOr (st_readSymlink st moduleLink k))) k of
                       Inl _ \<Rightarrow> None
                     | Inr m \<Rightarrow> Some (toDriver km m k))
               else Some \<lparr>drv_name = driverName, drv_kind = Builtin, drv_version = [], drv_path = [],
                      drv_loaded = True, drv_isSigned = False, drv_signer = None, drv_availableUpdate = None,
                      drv_dependencies = []\<rparr>))"

definition appendCandidate :: "driver list \<Rightarrow> driver \<Rightarrow> driver list" where
  "appendCandidate out d = (if list_ex (\<lambda>e. normalized (drv_name e) = normalized (drv_name d)) out then out else out @ [d])"

definition appendModaliasCandidates :: "('m, 'k) kmod \<Rightarrow> string \<Rightarrow> 'k \<Rightarrow> driver list \<Rightarrow> driver list" where
  "appendModaliasCandidates km modalias k out =
     (if modalias = [] then out
      else case km_lookup km modalias k of
        None \<Rightarrow> out
      | Some ms \<Rightarrow> foldl (\<lambda>out m. appendCandidate out (toDriver km m k)) out ms)"

definition kdm_driversFor :: "('m, 'k) kmod \<Rightarrow> 'k sysfs_tree \<Rightarrow> device \<Rightarrow> 'k \<Rightarrow> driver list result" where
  "kdm_driversFor km st d k =
     (case ready km of Inl e \<Rightarrow> Inl e | Inr _ \<Rightarrow>
      Inr (appendModaliasCandidates km (dev_modalias d) k
             (case resolveBoundDriver km st (dev_sysfsPath d) k of Some b \<Rightarrow> [b] | None \<Rightarrow> [])))"

definition toLoaded :: "('m, 'k) kmod \<Rightarrow> 'k \<Rightarrow> 'm \<Rightarrow> loaded_module" where
  "toLoaded km k m =
     \<lparr>lm_name = km_name km m, lm_sizeBytes = nat (km_size km m k mod 2 ^ 64), lm_refCount = km_refcnt km m k,
      lm_holders = map (km_name km) (km_holders km m k)\<rparr>"

definition kdm_listLoadedModules :: "('m, 'k) kmod \<Rightarrow> 'k \<Rightarrow> loaded_module list result" where
  "kdm_listLoadedModules km k =
     (case ready km of Inl e \<Rightarrow> Inl e | Inr _ \<Rightarrow>
      case km_loaded km k of
        None \<Rightarrow> makeError Io ''cannot read loaded modules''
      | Some ms \<Rightarrow> Inr (map (toLoaded km k) ms))"

definition kdm_moduleInfo :: "('m, 'k) kmod \<Rightarrow> string \<Rightarrow> 'k \<Rightarrow> driver result" where
  "kdm_moduleInfo km name k =
     (case byName km name k of Inl e \<Rightarrow> Inl e | Inr m \<Rightarrow> Inr (toDriver km m k))"

definition kdm_modprobeInfo :: "('m, 'k) kmod \<Rightarrow> string \<Rightarrow> 'k \<Rightarrow> modprobe_info result" where
  "kdm_modprobeInfo km name k =
     (case ready km of Inl e \<Rightarrow> Inl e | Inr _ \<Rightarrow>
      let wanted = normalized name
      in Inr (applyBlacklistConfig km wanted k
                (applyOptionsConfig km wanted k \<lparr>mpi_options = None, mpi_blacklisted = False\<rparr>)))"

definition devicesOfDriver :: "'k sysfs_tree \<Rightarrow> 'k \<Rightarrow> string \<Rightarrow> string list" where
  "devicesOfDriver st k drv =
     (case st_weaklyCanonical st drv k of None \<Rightarrow> [] | Some driverDir \<Rightarrow>
      concat (map (\<lambda>entry.
        if \<not> st_isSymlink st entry k then []
        else case st_weaklyCanonical st entry k of
               None \<Rightarrow> []
             | Some target \<Rightarrow> if contains target ''/devices/'' then [target] else [])
        (st_entries st driverDir k)))"

definition kdm_devicesUsingModule :: "'k sysfs_tree \<Rightarrow> string \<Rightarrow> string \<Rightarrow> 'k \<Rightarrow> string list result" where
  "kdm_devicesUsingModule st sysfsRoot name k =
     (let driversDir = fsJoin (fsJoin (fsJoin sysfsRoot ''module'') name) ''drivers'' in
      if \<not> st_isDir st driversDir k then Inr []
      else Inr (concat (map (devicesOfDriver st k) (st_entries st driversDir k))))"

section \<open>Loading and unloading\<close>

definition depStates :: "('m, 'k) kmod \<Rightarrow> 'm \<Rightarrow> 'k \<Rightarrow> dep_state list" where
  "depStates km m k =
     map (\<lambda>dep. let state = km_initstate km dep k in \<lparr>dst_name = km_name km dep, dst_loaded = (state = kLive \<or> state = kBuiltin)\<rparr>)
       (km_deps km m k)"

definition kdm_loadModule :: "('m, 'k) kmod \<Rightarrow> 'k sysfs_tree \<Rightarrow> (int \<Rightarrow> string) \<Rightarrow> string \<Rightarrow> 'k \<Rightarrow> unit result \<times> 'k" where
  "kdm_loadModule km st strerror name k =
     (case byName km name k of Inl e \<Rightarrow> (Inl e, k) | Inr m \<Rightarrow>
      case checkNoInstallCommand km (normalized name) k of Inl e \<Rightarrow> (Inl e, k) | Inr _ \<Rightarrow>
      let (ret, k1) = km_insert km m k in
      if ret = 0 then (Inr (), k1)
      else if ret > 0 then (makeError Unsupported ''blacklisted by modprobe.d'', k1)
      else (Inl (describeLoadFailure strerror (- ret) name (depStates km m k1) (readLockdownMode (st_lockdown st k1))), k1))"

definition kdm_unloadModule :: "('m, 'k) kmod \<Rightarrow> (int \<Rightarrow> string) \<Rightarrow> string \<Rightarrow> 'k \<Rightarrow> unit result \<times> 'k" where
  "kdm_unloadModule km strerror name k =
     (case ready km of Inl e \<Rightarrow> (Inl e, k) | Inr _ \<Rightarrow>
      case km_fromName km name k of
        None \<Rightarrow> (makeError NotFound (''module '' @ quote name @ '' not loaded''), k)
      | Some m \<Rightarrow>
          let state = km_initstate km m k in
          if state = kBuiltin then (makeError Unsupported (''module '' @ quote name @ '' is built into the kernel''), k)
          else if state < 0 then (makeError NotFound (''module '' @ quote name @ '' not loaded''), k)
          else (let holders = map (km_name km) (km_holders km m k);
                    (ret, k1) = km_remove km m k
                in if ret = 0 then (Inr (), k1)
                   else (Inl (describeUnloadFailure strerror (- ret) name holders), k1)))"

text \<open>The manager as the facade has it.\<close>

definition kmodDriverManager :: "('m, 'k) kmod \<Rightarrow> 'k sysfs_tree \<Rightarrow> string \<Rightarrow> 'k driver_manager" where
  "kmodDriverManager km st sysfsRoot =
     \<lparr>drm_driversFor = kdm_driversFor km st,
      drm_listLoaded = kdm_listLoadedModules km,
      drm_moduleInfo = kdm_moduleInfo km,
      drm_modprobeInfo = kdm_modprobeInfo km,
      drm_devicesUsing = kdm_devicesUsingModule st sysfsRoot\<rparr>"

end
