(* ===== verification/Kmod_Facts.thy ===== *)
theory Kmod_Facts
  imports Kmod_Driver_Manager Request_Processor
begin

text \<open>
  What the driver manager promises: the bound driver first and each name once, a load that inserts at
  most the module that was looked up and says why it failed, an unload that touches neither a built-in
  nor an absent module, and how module names with dashes meet the daemon's guard.
\<close>

section \<open>Drivers of a device\<close>

text \<open>The first driver of each name, where a dash is an underscore.\<close>

fun firstPerName :: "string set \<Rightarrow> driver list \<Rightarrow> driver list" where
  "firstPerName seen [] = []"
| "firstPerName seen (d # ds) =
     (if normalized (drv_name d) \<in> seen then firstPerName seen ds
      else d # firstPerName (insert (normalized (drv_name d)) seen) ds)"

definition nameOf :: "driver \<Rightarrow> string" where
  "nameOf d = normalized (drv_name d)"

lemma appendCandidates_first:
  "foldl (\<lambda>out m. appendCandidate out (f m)) out ms = out @ firstPerName (nameOf ` set out) (map f ms)"
proof (induction ms arbitrary: out)
  case (Cons m ms)
  have "appendCandidate out (f m) = (if nameOf (f m) \<in> nameOf ` set out then out else out @ [f m])"
    by (simp add: appendCandidate_def nameOf_def list_ex_iff image_iff eq_commute)
  then show ?case using Cons.IH [of "appendCandidate out (f m)"] by (simp add: nameOf_def)
qed simp

lemma firstPerName_distinct:
  "distinct (map nameOf (firstPerName seen ds)) \<and> nameOf ` set (firstPerName seen ds) = nameOf ` set ds - seen"
proof (induction ds arbitrary: seen)
  case (Cons d ds)
  then show ?case by (auto simp: nameOf_def)
qed simp

definition boundOf :: "('m, 'k) kmod \<Rightarrow> 'k sysfs_tree \<Rightarrow> device \<Rightarrow> 'k \<Rightarrow> driver list" where
  "boundOf km st d k = (case resolveBoundDriver km st (dev_sysfsPath d) k of Some b \<Rightarrow> [b] | None \<Rightarrow> [])"

definition candidatesOf :: "('m, 'k) kmod \<Rightarrow> device \<Rightarrow> 'k \<Rightarrow> driver list" where
  "candidatesOf km d k =
     (if dev_modalias d = [] then []
      else map (\<lambda>m. toDriver km m k) (case km_lookup km (dev_modalias d) k of Some ms \<Rightarrow> ms | None \<Rightarrow> []))"

text \<open>The drivers offered for a device are the bound or built-in one, when there is one, and after it the
  modules its modalias resolves to, in the order of the resolution; a module is listed once however its
  name is spelt, each one that was found is there, and the list the facade shows is this one.\<close>

theorem drivers_bound_first:
  assumes "kdm_driversFor km st d k = Inr ds"
  shows "ds = boundOf km st d k @ firstPerName (nameOf ` set (boundOf km st d k)) (candidatesOf km d k) \<and>
    distinct (map nameOf ds) \<and> nameOf ` set ds = nameOf ` set (boundOf km st d k) \<union> nameOf ` set (candidatesOf km d k) \<and>
    (sm_drivers sm = Some (kmodDriverManager km st root) \<and> model_findById (fc_model f) i = Some d \<and> fc_world f = k \<longrightarrow>
       facade_driverInfo sm i f = ds)"
proof -
  have ds: "ds = boundOf km st d k @ firstPerName (nameOf ` set (boundOf km st d k)) (candidatesOf km d k)"
    using assms by (auto simp: kdm_driversFor_def ready_def makeError_def boundOf_def [symmetric] appendModaliasCandidates_def
        candidatesOf_def appendCandidates_first split: if_splits option.splits)
  have b: "distinct (map nameOf (boundOf km st d k))" by (simp add: boundOf_def split: option.splits)
  have names: "nameOf ` set ds = nameOf ` set (boundOf km st d k) \<union> nameOf ` set (candidatesOf km d k)"
    unfolding ds using firstPerName_distinct by (auto simp: image_Un)
  have dist: "distinct (map nameOf ds)"
    unfolding ds using firstPerName_distinct [of "nameOf ` set (boundOf km st d k)" "candidatesOf km d k"] b by auto
  have "facade_driverInfo sm i f = ds"
    if "sm_drivers sm = Some (kmodDriverManager km st root)" "model_findById (fc_model f) i = Some d" "fc_world f = k"
    using that assms by (simp add: facade_driverInfo_def kmodDriverManager_def)
  with ds names dist show ?thesis by blast
qed

section \<open>Loading\<close>

text \<open>What an outcome of \<^verbatim>\<open>kmod_module_probe_insert_module\<close> becomes.\<close>

definition loadError :: "(int \<Rightarrow> string) \<Rightarrow> string \<Rightarrow> int \<Rightarrow> dep_state list \<Rightarrow> string \<Rightarrow> unit result" where
  "loadError strerror name ret deps lockdown =
     (if ret = 0 then Inr () else if ret > 0 then makeError Unsupported ''blacklisted by modprobe.d''
      else Inl (describeLoadFailure strerror (- ret) name deps lockdown))"

definition noRule :: "('m, 'k) kmod \<Rightarrow> string \<Rightarrow> 'k \<Rightarrow> bool" where
  "noRule km name k \<longleftrightarrow> (case km_installs km k of None \<Rightarrow> True | Some es \<Rightarrow> installCommand (normalized name) es = [])"

lemma installCommand_last:
  "installCommand wanted es =
     (case find (keyIs wanted) (rev es) of Some e \<Rightarrow> (case snd e of Some v \<Rightarrow> v | None \<Rightarrow> []) | None \<Rightarrow> [])"
  by (induction es rule: rev_induct) (simp_all add: installCommand_def split: option.splits)

lemma checkNoInstall_iff: "checkNoInstallCommand km (normalized name) k = Inr () \<longleftrightarrow> noRule km name k"
  by (auto simp: checkNoInstallCommand_def noRule_def makeError_def Let_def split: option.splits)

text \<open>A module of the dependencies that is not in the kernel is named before the module itself, and the
  codes of the kernel become those of the program.\<close>

lemma loadFailure_code:
  "err_code (describeLoadFailure strerror e name deps lockdown) =
     (if e \<in> {kEKEYREJECTED, kENOKEY, kEPERM} then Permission else if e = kENOENT then NotFound
      else if e = kEBUSY then Busy else Io)"
  by (auto simp: describeLoadFailure_def Let_def)

lemma loadSubject_culprit:
  assumes "list_all (\<lambda>d. dst_name d \<noteq> []) deps"
  shows "loadSubject name deps =
    (if list_all dst_loaded deps then ''module '' @ quote name
     else ''dependency '' @ quote (dst_name (hd (filter (\<lambda>d. \<not> dst_loaded d) deps))))"
  using assms by (induction deps) (auto simp: loadSubject_def split: option.splits)

lemma pair_with_fst: "(\<exists>y. x = (a, y)) \<longleftrightarrow> fst x = a"
  by (cases x) auto


text \<open>The rule is looked up under the name that was asked for, the module under what that name resolves to.
  Asked for by an alias, a module with an install rule is inserted although its own name is refused.\<close>

lemma alias_evades_install_rule:
  assumes "km_context km" "km_lookup km ''net-pf-10'' k = Some [m]" "km_lookup km ''ipv6'' k = Some [m]" "km_name km m = ''ipv6''"
    and "km_installs km k = Some [(Some ''ipv6'', Some ''/bin/false'')]" "km_insert km m k = (0, k1)"
  shows "kdm_loadModule km st strerror ''net-pf-10'' k = (Inr (), k1)"
    and "snd (kdm_loadModule km st strerror ''ipv6'' k) = k" "fst (kdm_loadModule km st strerror ''ipv6'' k) \<noteq> Inr ()"
  using assms by (simp_all add: kdm_loadModule_def byName_def ready_def checkNoInstallCommand_def installCommand_def
      normalized_def makeError_def)

section \<open>Unloading\<close>

lemma unload_module_outcome:
  "kdm_unloadModule km strerror name k =
     (if \<not> km_context km then (makeError Io ''libkmod context creation failed'', k)
      else case km_fromName km name k of
        None \<Rightarrow> (makeError NotFound (''module '' @ quote name @ '' not loaded''), k)
      | Some m \<Rightarrow>
          if km_initstate km m k > 0
          then (if fst (km_remove km m k) = 0 then Inr ()
                else Inl (describeUnloadFailure strerror (- fst (km_remove km m k)) name (map (km_name km) (km_holders km m k))),
                snd (km_remove km m k))
          else (makeError (if km_initstate km m k = 0 then Unsupported else NotFound)
                  (''module '' @ quote name @ (if km_initstate km m k = 0 then '' is built into the kernel'' else '' not loaded'')), k))"
  by (auto simp: kdm_unloadModule_def ready_def makeError_def kBuiltin_def Let_def split: option.splits prod.splits)

text \<open>The daemon's guard looks the module up among the loaded ones by its exact name. The kernel's list has
  no dash, so a spelling with a dash is refused before anything is asked of the user, although libkmod
  would have understood it.\<close>

lemma dashed_name_is_refused:
  assumes "env_listLoaded env = kdm_listLoadedModules km" "km_context km" "km_loaded km h = Some ms"
    and "list_all (\<lambda>m. CHR ''-'' \<notin> set (km_name km m)) ms" "CHR ''-'' \<in> set name"
  shows "guardModuleUnload env name h = makeError NotFound (''module '' @ quote name @ '' not loaded'')"
proof -
  have "find (\<lambda>m. lm_name m = name) (map (toLoaded km h) ms) = None"
    using assms(4,5) by (auto simp: find_None_iff toLoaded_def list_all_iff)
  then show ?thesis using assms(1-3) by (simp add: guardModuleUnload_def kdm_listLoadedModules_def ready_def quote_def)
qed

section \<open>modprobe.d\<close>

text \<open>The options are the values of the entries with this name, in their order, and the module is
  blacklisted when some entry has its name.\<close>

definition valuesFor :: "string \<Rightarrow> (string option \<times> string option) list \<Rightarrow> string list" where
  "valuesFor wanted es = List.map_filter (\<lambda>e. if keyIs wanted e then snd e else None) es"

lemma options_joined:
  assumes "km_options km k = Some es"
  shows "mpi_options (applyOptionsConfig km wanted k \<lparr>mpi_options = None, mpi_blacklisted = b\<rparr>) =
    (if valuesFor wanted es = [] then None else Some (join '' '' (valuesFor wanted es)))"
proof -
  have snoc: "join sep (xs @ [x]) = (if xs = [] then x else join sep xs @ sep @ x)" for sep x and xs :: "string list"
    by (induction xs rule: induct_list012) auto
  show ?thesis
    unfolding applyOptionsConfig_def assms
    by (induction es rule: rev_induct) (auto simp: valuesFor_def map_filter_def snoc split: option.splits)
qed

lemma blacklisted_iff:
  assumes "km_blacklists km k = Some es"
  shows "mpi_blacklisted (applyBlacklistConfig km wanted k i) \<longleftrightarrow> mpi_blacklisted i \<or> list_ex (keyIs wanted) es"
  unfolding applyBlacklistConfig_def assms
  by (induction es arbitrary: i) (simp_all split: if_splits)

section \<open>Example\<close>

definition sample_kmod :: "(string, unit) kmod" where
  "sample_kmod = \<lparr>km_context = True, km_lookup = (\<lambda>n _. if n = ''alias'' then Some [''e1000e'', ''snd-hda'', ''snd_hda''] else Some [n]),
     km_fromName = (\<lambda>n _. Some n), km_loaded = (\<lambda>_. Some []), km_name = (\<lambda>m. m), km_path = (\<lambda>_ _. None),
     km_initstate = (\<lambda>_ _. 1), km_deps = (\<lambda>_ _. []), km_info = (\<lambda>_ _. None), km_size = (\<lambda>_ _. 0), km_refcnt = (\<lambda>_ _. 0),
     km_holders = (\<lambda>_ _. []), km_options = (\<lambda>_. None), km_blacklists = (\<lambda>_. None), km_installs = (\<lambda>_. None),
     km_insert = (\<lambda>_ _. (0, ())), km_remove = (\<lambda>_ _. (0, ()))\<rparr>"

definition sample_tree :: "unit sysfs_tree" where
  "sample_tree = \<lparr>st_isSymlink = (\<lambda>p _. p = ''/d/driver'' \<or> p = ''/b/hda/module''), st_isDir = (\<lambda>_ _. False),
     st_weaklyCanonical = (\<lambda>_ _. Some ''/b/hda''), st_readSymlink = (\<lambda>_ _. Some ''/m/snd_hda''),
     st_entries = (\<lambda>_ _. []), st_lockdown = (\<lambda>_. None)\<rparr>"

definition sample_device :: device where
  "sample_device = empty_device\<lparr>dev_sysfsPath := ''/d'', dev_modalias := ''alias''\<rparr>"

lemma sample_drivers:
  "map_sum (\<lambda>e. e) (map drv_name) (kdm_driversFor sample_kmod sample_tree sample_device ()) = Inr [''snd_hda'', ''e1000e'']"
  by code_simp

lemma drivers_bound_first_witness:
  "\<exists>ds. kdm_driversFor sample_kmod sample_tree sample_device () = Inr ds \<and>
     distinct (map nameOf ds) \<and> map drv_name ds = [''snd_hda'', ''e1000e'']"
proof (cases "kdm_driversFor sample_kmod sample_tree sample_device ()")
  case (Inl e)
  then show ?thesis using sample_drivers by simp
next
  case (Inr ds)
  show ?thesis using sample_drivers Inr conjunct1 [OF conjunct2 [OF drivers_bound_first [OF Inr]]] by simp
qed

end
