(* ===== verification/Prober_Facts.thy ===== *)
theory Prober_Facts
  imports Criticality_Prober
begin

unbundle bit_operations_syntax

text \<open>
  What the prober promises: the bitmaps the kernel prints are read bit by bit, the expansion of a block
  device is the set of its physical leaves, and the guard on the facts that were probed refuses exactly
  what the mounts and input devices of the moment forbid.
\<close>

section \<open>Bitmaps\<close>

text \<open>The kernel's form of a bitmap: the words from the most significant one that is not zero, in
  hexadecimal, least significant last; a zero when there is none.\<close>

fun hexOf :: "nat \<Rightarrow> string" where
  "hexOf n = (if n < 16 then [''0123456789abcdef'' ! n] else hexOf (n div 16) @ [''0123456789abcdef'' ! (n mod 16)])"

declare hexOf.simps [simp del]

definition significant :: "64 word list \<Rightarrow> 64 word list" where
  "significant ws = (case dropWhile (\<lambda>w. w = 0) (rev ws) of [] \<Rightarrow> [0] | l \<Rightarrow> l)"

definition printBitmap :: "64 word list \<Rightarrow> string" where
  "printBitmap ws = join '' '' (map (\<lambda>w. hexOf (unat w)) (significant ws))"

lemma hexChar:
  assumes "n < 16"
  shows "hexDigit (''0123456789abcdef'' ! n) = n" "isxdigitC (''0123456789abcdef'' ! n)"
proof -
  have "\<forall>n \<in> set [0..<16]. hexDigit (''0123456789abcdef'' ! n) = n \<and> isxdigitC (''0123456789abcdef'' ! n)" by code_simp
  with assms show "hexDigit (''0123456789abcdef'' ! n) = n" "isxdigitC (''0123456789abcdef'' ! n)" by auto
qed

lemma nat_of_hex_snoc: "nat_of_hex (s @ [c]) = 16 * nat_of_hex s + hexDigit c"
  by (simp add: nat_of_hex_def)

lemma nat_of_hexOf: "nat_of_hex (hexOf n) = n"
proof (induction n rule: hexOf.induct)
  case (1 n)
  then show ?case
    by (subst hexOf.simps) (auto simp: nat_of_hex_snoc hexChar nat_of_hex_def)
qed

lemma hexOf_digits: "list_all isxdigitC (hexOf n) \<and> hexOf n \<noteq> []"
proof (induction n rule: hexOf.induct)
  case (1 n)
  then show ?case by (subst (1 2) hexOf.simps) (auto simp: hexChar)
qed

lemma xdigit_not: "isxdigitC c \<Longrightarrow> c \<noteq> CHR ''-'' \<and> c \<noteq> CHR ''+'' \<and> c \<noteq> CHR ''x'' \<and> c \<noteq> CHR ''X'' \<and> \<not> isspaceC c"
  by (auto simp: isxdigitC_def isdigitC_def isspaceC_def less_eq_char_def)

lemma hexValue_digits:
  assumes "list_all isxdigitC s" "s \<noteq> []" "nat_of_hex s < 2 ^ 64"
  shows "hexValue s = of_nat (nat_of_hex s)"
proof -
  have all: "takeWhile isxdigitC s = s" using assms(1) by (simp add: takeWhile_eq_all_conv list_all_iff)
  have "\<not> starts_with s ''-''" "\<not> starts_with s ''+''" "\<not> starts_with s ''0x''" "\<not> starts_with s ''0X''"
    using assms(1,2) xdigit_not by (cases s; cases "tl s"; force simp: starts_with_def)+
  then show ?thesis using assms(3) by (simp add: hexValue_def Let_def all del: takeWhile_eq_all_conv)
qed

lemma hexValue_hexOf: "hexValue (hexOf (unat w)) = w"
  using hexValue_digits [of "hexOf (unat w)"] hexOf_digits [of "unat w"] unsigned_less [of w]
  by (simp add: nat_of_hexOf)

lemma words_prefix: "list_all (\<lambda>c. \<not> isspaceC c) t \<Longrightarrow> words acc (t @ s) = words (acc @ t) s"
  by (induction t arbitrary: acc) simp_all

lemma words_join:
  assumes "list_all (\<lambda>t. t \<noteq> [] \<and> list_all (\<lambda>c. \<not> isspaceC c) t) ts"
  shows "words [] (join '' '' ts) = ts"
  using assms
proof (induction ts rule: induct_list012)
  case (2 t)
  then show ?case using words_prefix [of t "[]" "[]"] by simp
next
  case (3 t u ts)
  have "isspaceC CHR '' ''" by (simp add: isspaceC_def)
  with 3 show ?case using words_prefix [of t "[]" "CHR '' '' # join '' '' (u # ts)"] by simp
qed simp

lemma words_printBitmap: "words [] (printBitmap ws) = map (\<lambda>w. hexOf (unat w)) (significant ws)"
proof -
  have "list_all (\<lambda>c. \<not> isspaceC c) (hexOf n)" for n
    using hexOf_digits [of n] xdigit_not by (auto simp: list_all_iff)
  then show ?thesis unfolding printBitmap_def
    by (intro words_join) (auto simp: list_all_iff hexOf_digits)
qed

lemma bit_test: "drop_bit n w AND 1 \<noteq> 0 \<longleftrightarrow> bit w n" for w :: "64 word"
  by (simp add: bit_iff_odd_drop_bit and_one_eq odd_iff_mod_2_eq_one)

lemma significant_nth:
  assumes "i < length ws"
  shows "ws ! i = (if i < length (significant ws) then rev (significant ws) ! i else 0)"
    and "length (significant ws) \<le> length ws"
proof -
  define z where "z = takeWhile (\<lambda>w. w = 0) (rev ws)"
  define l where "l = dropWhile (\<lambda>w. w = 0) (rev ws)"
  have "rev ws = z @ l" by (simp add: z_def l_def)
  then have ws: "ws = rev l @ rev z" by (metis rev_append rev_rev_ident)
  have z: "w = 0" if "w \<in> set z" for w using that by (auto simp: z_def dest: set_takeWhileD)
  have tail: "ws ! i = 0" if "length l \<le> i"
    using that assms ws z by (simp add: nth_append) (metis diff_less_mono in_set_conv_nth length_append length_rev nth_mem set_rev add_diff_cancel_left')
  show "ws ! i = (if i < length (significant ws) then rev (significant ws) ! i else 0)"
  proof (cases l)
    case Nil
    then show ?thesis using tail by (simp add: significant_def l_def [symmetric])
  next
    case (Cons a l')
    then have s: "significant ws = l" by (simp add: significant_def l_def [symmetric])
    have "ws ! i = (if i < length l then rev l ! i else rev z ! (i - length l))"
      by (subst ws) (simp add: nth_append)
    then show ?thesis using tail by (simp add: s)
  qed
  show "length (significant ws) \<le> length ws"
  proof -
    have "length (significant ws) = (if l = [] then 1 else length l)"
      by (simp add: significant_def l_def [symmetric] split: list.splits)
    moreover have "length ws = length l + length z" using arg_cong [OF ws, of length] by simp
    ultimately show ?thesis using assms by auto
  qed
qed

text \<open>A capability bitmap, as the kernel prints it, is read exactly: a bit is set when the bitmap has it,
  in whichever word, and beyond the words it has none; and a device is a keyboard when the ten letters of
  the top row are all there, a pointer when both relative axes are.\<close>

theorem capability_bits_exact:
  "bitSet (printBitmap ws) b = (b < 64 * length ws \<and> bit (ws ! (b div 64)) (b mod 64)) \<and>
   isKeyboard (printBitmap (w # ws)) = (w AND 0x3FF0000 = 0x3FF0000) \<and>
   isPointer (printBitmap (w # ws)) = (w AND 3 = 3)"
proof -
  have bits: "bitSet (printBitmap ws) b = (b < 64 * length ws \<and> bit (ws ! (b div 64)) (b mod 64))" for ws b
  proof (cases "b div 64 < length ws")
    case True
    note s = significant_nth [OF True]
    have "bitSet (printBitmap ws) b \<longleftrightarrow> bit (ws ! (b div 64)) (b mod 64)"
    proof (cases "b div 64 < length (significant ws)")
      case in_range: True
      then have "rev (significant ws) ! (b div 64) = significant ws ! (length (significant ws) - 1 - b div 64)"
        by (simp add: rev_nth)
      with in_range s show ?thesis
        by (simp add: bitSet_def words_printBitmap kBitsPerWord_def hexValue_hexOf bit_test Let_def)
    next
      case False
      with s show ?thesis by (simp add: bitSet_def words_printBitmap kBitsPerWord_def)
    qed
    moreover have "b < 64 * length ws" using True by (simp add: div_less_iff_less_mult mult.commute)
    ultimately show ?thesis by simp
  next
    case False
    then have n: "\<not> b < 64 * length ws" by (simp add: div_less_iff_less_mult mult.commute)
    have "bitSet (printBitmap ws) b = False"
    proof (cases "ws = []")
      case True
      then have "significant ws = [0]" by (simp add: significant_def)
      then show ?thesis by (simp add: bitSet_def words_printBitmap kBitsPerWord_def hexValue_hexOf [of 0, simplified] bit_test Let_def)
    next
      case ne: False
      then have "length (significant ws) \<le> length ws" using significant_nth(2) [of 0 ws] by simp
      with False show ?thesis by (simp add: bitSet_def words_printBitmap kBitsPerWord_def)
    qed
    with n show ?thesis by simp
  qed
  have ne: "printBitmap ws \<noteq> []" for ws
    using words_printBitmap [of ws] by (auto simp: significant_def split: list.splits)
  have key: "isKeyboard (printBitmap (w # ws)) \<longleftrightarrow> (\<forall>n. 16 \<le> n \<and> n < 26 \<longrightarrow> bit w n)"
  proof -
    have "isKeyboard x \<longleftrightarrow> x \<noteq> [] \<and> (\<forall>n. kKeyQ \<le> n \<and> n < kKeyP + 1 \<longrightarrow> bitSet x n)" for x
      by (auto simp: isKeyboard_def list_all_iff)
    then show ?thesis by (simp add: ne bits kKeyQ_def kKeyP_def)
  qed
  have "w AND 0x3FF0000 = 0x3FF0000 \<longleftrightarrow> (\<forall>n. 16 \<le> n \<and> n < 26 \<longrightarrow> bit w n)"
  proof -
    have "(0x3FF0000 :: 64 word) = push_bit 16 (mask 10)" by (simp add: push_bit_eq_mult mask_eq_exp_minus_1)
    moreover have "bit (push_bit 16 (mask 10) :: 64 word) n \<longleftrightarrow> 16 \<le> n \<and> n < 26" for n
      by (subst bit_push_bit_iff) (auto simp: bit_mask_iff)
    ultimately have "bit (0x3FF0000 :: 64 word) n \<longleftrightarrow> 16 \<le> n \<and> n < 26" for n by (simp only:)
    then show ?thesis by (auto simp: bit_eq_iff [where 'a = "64 word"] bit_and_iff)
  qed
  moreover have "isPointer (printBitmap (w # ws)) \<longleftrightarrow> bit w 0 \<and> bit w 1"
    by (simp add: isPointer_def ne bits)
  moreover have "w AND 3 = 3 \<longleftrightarrow> bit w 0 \<and> bit w 1"
  proof -
    have m: "(3 :: 64 word) = mask 2" by (simp add: mask_eq_exp_minus_1)
    have p: "possible_bit TYPE(64 word) n" if "n < 2" for n using that by simp
    have "w AND mask 2 = mask 2 \<longleftrightarrow> (\<forall>n. n < 2 \<longrightarrow> bit w n)"
      by (simp only: bit_eq_iff [where 'a = "64 word"] bit_and_iff bit_mask_iff) (use p in blast)
    also have "\<dots> \<longleftrightarrow> bit w 0 \<and> bit w 1" by (auto simp: less_2_cases_iff)
    finally show ?thesis by (simp only: m)
  qed
  ultimately show ?thesis using bits key by simp
qed

section \<open>Physical leaves\<close>

inductive leafOf :: "sys_view \<Rightarrow> string \<Rightarrow> string \<Rightarrow> string \<Rightarrow> bool" for v classBlock where
  physical: "slavesOf v classBlock name = None \<Longrightarrow> vw_canonical v (pathJoin classBlock name) = Some p \<Longrightarrow>
    leafOf v classBlock name p"
| slave: "slavesOf v classBlock name = Some es \<Longrightarrow> e \<in> set es \<Longrightarrow> leafOf v classBlock e p \<Longrightarrow> leafOf v classBlock name p"

lemma concatO_Some: "concatO xs = Some ys \<Longrightarrow> (\<forall>x \<in> set xs. x \<noteq> None) \<and> set ys = {y. \<exists>l. Some l \<in> set xs \<and> y \<in> set l}"
  by (induction xs arbitrary: ys rule: concatO.induct) auto

lemma concatO_None: "concatO xs = None \<longleftrightarrow> None \<in> set xs"
  by (induction xs rule: concatO.induct) auto

lemma expandBlock_leaves:
  "expandBlock n v cb name = Some out \<Longrightarrow> set out = {p. leafOf v cb name p}"
proof (induction n arbitrary: name out)
  case (Suc n)
  show ?case
  proof (cases "slavesOf v cb name")
    case None
    then have "leafOf v cb name p \<longleftrightarrow> vw_canonical v (pathJoin cb name) = Some p" for p
      by (subst leafOf.simps) simp
    moreover have "out = (case vw_canonical v (pathJoin cb name) of Some real \<Rightarrow> [real] | None \<Rightarrow> [])"
      using Suc.prems None by simp
    ultimately show ?thesis by (cases "vw_canonical v (pathJoin cb name)") simp_all
  next
    case (Some es)
    with Suc.prems have c: "concatO (map (expandBlock n v cb) es) = Some out" by simp
    have l: "leafOf v cb name p \<longleftrightarrow> (\<exists>e \<in> set es. leafOf v cb e p)" for p
      using Some by (subst leafOf.simps) auto
    have "p \<in> set out \<longleftrightarrow> (\<exists>e \<in> set es. leafOf v cb e p)" for p
    proof
      assume "p \<in> set out"
      then obtain o1 where "Some o1 \<in> set (map (expandBlock n v cb) es)" "p \<in> set o1"
        using concatO_Some [OF c] by blast
      then obtain e where "e \<in> set es" "expandBlock n v cb e = Some o1" "p \<in> set o1" by (metis image_iff set_map)
      with Suc.IH show "\<exists>e \<in> set es. leafOf v cb e p" by blast
    next
      assume "\<exists>e \<in> set es. leafOf v cb e p"
      then obtain e where e: "e \<in> set es" "leafOf v cb e p" by blast
      have "expandBlock n v cb e \<noteq> None" using concatO_Some [OF c] e(1) by (metis image_eqI set_map)
      then obtain o1 where o1: "expandBlock n v cb e = Some o1" by blast
      with e Suc.IH have "p \<in> set o1" by blast
      moreover have "Some o1 \<in> set (map (expandBlock n v cb) es)" using e(1) o1 by (metis image_eqI set_map)
      ultimately show "p \<in> set out" using concatO_Some [OF c] by auto
    qed
    with l show ?thesis by auto
  qed
qed simp

text \<open>As long as slaves lie below their holders, as they do in the kernel's tree, the depth is enough fuel.\<close>

lemma expandBlock_enough:
  assumes "\<And>x es e. slavesOf v cb x = Some es \<Longrightarrow> e \<in> set es \<Longrightarrow> depth e < (depth x :: nat)" "depth name < n"
  shows "expandBlock n v cb name \<noteq> None"
  using assms(2)
proof (induction n arbitrary: name)
  case (Suc n)
  show ?case
  proof (cases "slavesOf v cb name")
    case (Some es)
    have "expandBlock n v cb e \<noteq> None" if "e \<in> set es" for e
      using Suc.IH [of e] assms(1) [OF Some that] Suc.prems by simp
    then have "concatO (map (expandBlock n v cb) es) \<noteq> None" by (metis concatO_None image_iff set_map)
    with Some show ?thesis by simp
  qed simp
qed simp

section \<open>The facts\<close>

definition backs :: "sys_view \<Rightarrow> string \<Rightarrow> bucket \<Rightarrow> string \<Rightarrow> bool" where
  "backs v sysfsRoot b p \<longleftrightarrow>
     (\<exists>mounts line name. vw_mounts v = Some mounts \<and> line \<in> set (getlines [] mounts) \<and>
        mountedBlock v line = Some (b, name) \<and> leafOf v (pathJoin sysfsRoot ''class/block'') name p)"

definition inputAt :: "sys_view \<Rightarrow> string \<Rightarrow> string \<Rightarrow> bool" where
  "inputAt v sysfsRoot real \<longleftrightarrow>
     (let classInput = pathJoin sysfsRoot ''class/input'' in
      vw_isDir v classInput \<and>
      (\<exists>es e. vw_entries v classInput = Some es \<and> e \<in> set es \<and> starts_with e ''input'' \<and>
         vw_canonical v (pathJoin classInput e) = Some real))"

definition keyboardAt :: "sys_view \<Rightarrow> string \<Rightarrow> string \<Rightarrow> bool" where
  "keyboardAt v sysfsRoot real \<longleftrightarrow> inputAt v sysfsRoot real \<and> isKeyboard (vw_readFirstLine v (pathJoin real ''capabilities/key''))"

definition pointerAt :: "sys_view \<Rightarrow> string \<Rightarrow> string \<Rightarrow> bool" where
  "pointerAt v sysfsRoot real \<longleftrightarrow> inputAt v sysfsRoot real \<and> isPointer (vw_readFirstLine v (pathJoin real ''capabilities/rel''))"

fun bucketPaths :: "bucket \<Rightarrow> criticality_facts \<Rightarrow> string list" where
  "bucketPaths RootBucket f = rootBackingPaths f"
| "bucketPaths BootBucket f = bootBackingPaths f"

lemma bucketPaths_add: "bucketPaths b (addBacking b' ps f) = bucketPaths b f @ (if b = b' then ps else [])"
  by (cases b; cases b') (simp_all add: addBacking_def)

lemma addBacking_input [simp]:
  "keyboardPaths (addBacking b ps f) = keyboardPaths f" "pointerPaths (addBacking b ps f) = pointerPaths f"
  by (cases b; simp add: addBacking_def)+

lemma storage_facts:
  "collectStorageFacts n v cb lines f = Some f' \<Longrightarrow>
     set (bucketPaths b f') = set (bucketPaths b f) \<union>
       {p. \<exists>line \<in> set lines. \<exists>name. mountedBlock v line = Some (b, name) \<and> leafOf v cb name p} \<and>
     keyboardPaths f' = keyboardPaths f \<and> pointerPaths f' = pointerPaths f"
proof (induction n v cb lines f rule: collectStorageFacts.induct)
  case (2 n v cb line lines f)
  show ?case
  proof (cases "mountedBlock v line")
    case None
    with 2 show ?thesis by simp
  next
    case (Some bn)
    obtain b' name where bn: "bn = (b', name)" by (metis surj_pair)
    with 2(3) Some obtain ps where ps: "expandBlock n v cb name = Some ps" by (auto split: option.splits)
    with 2 Some bn have "set (bucketPaths b f') = set (bucketPaths b (addBacking b' ps f)) \<union>
        {p. \<exists>line \<in> set lines. \<exists>name. mountedBlock v line = Some (b, name) \<and> leafOf v cb name p} \<and>
        keyboardPaths f' = keyboardPaths f \<and> pointerPaths f' = pointerPaths f" by simp
    moreover have "set ps = {p. leafOf v cb name p}" by (rule expandBlock_leaves [OF ps])
    ultimately show ?thesis using Some bn by (auto simp: bucketPaths_add split: if_splits)
  qed
qed simp

lemma addInput_facts:
  "set (keyboardPaths (addInput v ci e f)) = set (keyboardPaths f) \<union>
     {real. starts_with e ''input'' \<and> vw_canonical v (pathJoin ci e) = Some real \<and> isKeyboard (vw_readFirstLine v (pathJoin real ''capabilities/key''))}"
  "set (pointerPaths (addInput v ci e f)) = set (pointerPaths f) \<union>
     {real. starts_with e ''input'' \<and> vw_canonical v (pathJoin ci e) = Some real \<and> isPointer (vw_readFirstLine v (pathJoin real ''capabilities/rel''))}"
  "bucketPaths b (addInput v ci e f) = bucketPaths b f"
  by (cases b; auto simp: addInput_def Let_def split: option.splits)+

lemma addInputs_facts:
  "set (keyboardPaths (foldl (\<lambda>f e. addInput v ci e f) f es)) = set (keyboardPaths f) \<union>
     {real. \<exists>e \<in> set es. starts_with e ''input'' \<and> vw_canonical v (pathJoin ci e) = Some real \<and>
        isKeyboard (vw_readFirstLine v (pathJoin real ''capabilities/key''))} \<and>
   set (pointerPaths (foldl (\<lambda>f e. addInput v ci e f) f es)) = set (pointerPaths f) \<union>
     {real. \<exists>e \<in> set es. starts_with e ''input'' \<and> vw_canonical v (pathJoin ci e) = Some real \<and>
        isPointer (vw_readFirstLine v (pathJoin real ''capabilities/rel''))} \<and>
   bucketPaths b (foldl (\<lambda>f e. addInput v ci e f) f es) = bucketPaths b f"
  by (induction es arbitrary: f) (auto simp: addInput_facts)

lemma set_sortUnique [simp]: "set (sortUnique xs) = set xs"
  by (simp add: sortUnique_def)

lemma probe_facts:
  assumes "linuxProbe n v root mp = Some (Inr facts)"
  shows "set (rootBackingPaths facts) = {p. backs v root RootBucket p}" "set (bootBackingPaths facts) = {p. backs v root BootBucket p}"
    "set (keyboardPaths facts) = {k. keyboardAt v root k}" "set (pointerPaths facts) = {k. pointerAt v root k}"
proof -
  obtain mounts f1 where m: "vw_mounts v = Some mounts"
    and f1: "collectStorageFacts n v (pathJoin root ''class/block'') (getlines [] mounts) no_facts = Some f1"
    using assms by (auto simp: linuxProbe_def makeError_def split: option.splits)
  define f2 where "f2 = collectInputFacts v (pathJoin root ''class/input'') f1"
  have facts: "set (rootBackingPaths facts) = set (bucketPaths RootBucket f2)" "set (bootBackingPaths facts) = set (bucketPaths BootBucket f2)"
    "set (keyboardPaths facts) = set (keyboardPaths f2)" "set (pointerPaths facts) = set (pointerPaths f2)"
    using assms m f1 by (auto simp: linuxProbe_def f2_def Let_def)
  have none: "bucketPaths b no_facts = []" "keyboardPaths no_facts = []" "pointerPaths no_facts = []" for b
    by (cases b; simp add: no_facts_def)+
  have store: "set (bucketPaths b f1) = {p. backs v root b p}" for b
    using storage_facts [OF f1, of b] m by (auto simp: none backs_def)
  have input: "bucketPaths b f2 = bucketPaths b f1" "set (keyboardPaths f2) = {k. keyboardAt v root k}"
    "set (pointerPaths f2) = {k. pointerAt v root k}" for b
    using storage_facts [OF f1, of b] addInputs_facts [of v "pathJoin root ''class/input''" f1 _ b]
    by (cases "vw_entries v (pathJoin root ''class/input'')";
        auto simp: f2_def collectInputFacts_def none keyboardAt_def pointerAt_def inputAt_def Let_def)+
  show "set (rootBackingPaths facts) = {p. backs v root RootBucket p}" "set (bootBackingPaths facts) = {p. backs v root BootBucket p}"
    "set (keyboardPaths facts) = {k. keyboardAt v root k}" "set (pointerPaths facts) = {k. pointerAt v root k}"
    by (simp_all only: facts input store)
qed


text \<open>A root file system on an encrypted disk: the mount names the mapper, its slave is the disk.\<close>

definition crypt_view :: sys_view where
  "crypt_view = \<lparr>vw_mounts = Some ''/dev/mapper/root / ext4 rw 0 0'',
     vw_isDir = (\<lambda>p. p = ''/sys/class/block/dm-0/slaves''),
     vw_entries = (\<lambda>p. if p = ''/sys/class/block/dm-0/slaves'' then Some [''sda''] else None),
     vw_canonical = (\<lambda>p. if p = ''/dev/mapper/root'' then Some ''/dev/dm-0''
        else if p = ''/sys/class/block/sda'' then Some ''/sys/devices/pci/sda'' else None),
     vw_readFirstLine = (\<lambda>_. [])\<rparr>"

lemma crypt_probe:
  "linuxProbe 3 crypt_view ''/sys'' ''/m'' = Some (Inr
     \<lparr>rootBackingPaths = [''/sys/devices/pci/sda''], bootBackingPaths = [], keyboardPaths = [], pointerPaths = []\<rparr>)"
  by code_simp

lemma crypt_refused:
  "\<not> gv_allowed (evaluateDisable
     \<lparr>rootBackingPaths = [''/sys/devices/pci/sda''], bootBackingPaths = [], keyboardPaths = [], pointerPaths = []\<rparr> ''/sys/devices/pci'')"
  by code_simp


end
