(* ===== verification/Dkms_Status_Provider.thy ===== *)
theory Dkms_Status_Provider
  imports Facade Daemon_World
begin

text \<open>
  \<^verbatim>\<open>platform/linux/src/dkms_status_provider.cpp\<close>: the modules DKMS has built, as candidates of a provider that
  only answers questions. The two trees it walks are a record of what the file system observers say,
  \<open>None\<close> for an error; a directory that cannot be listed has no entries. Symbolic links are never followed.
\<close>

record dkms_tree =
  dk_entries :: "string \<Rightarrow> string list"
  dk_symlink :: "string \<Rightarrow> bool option"
  dk_directory :: "string \<Rightarrow> bool option"
  dk_regular :: "string \<Rightarrow> bool option"
  dk_exists :: "string \<Rightarrow> bool option"

definition kKoExts :: "string list" where
  "kKoExts = [''.ko'', ''.ko.xz'', ''.ko.gz'', ''.ko.zst'']"

definition isModuleFile :: "string \<Rightarrow> bool" where
  "isModuleFile name = list_ex (\<lambda>ext. length name > length ext \<and> ends_with name ext) kKoExts"

definition isRealDir :: "dkms_tree \<Rightarrow> string \<Rightarrow> bool" where
  "isRealDir t p \<longleftrightarrow> dk_symlink t p = Some False \<and> dk_directory t p = Some True"

definition isRealFile :: "dkms_tree \<Rightarrow> string \<Rightarrow> bool" where
  "isRealFile t p \<longleftrightarrow> dk_symlink t p = Some False \<and> dk_regular t p = Some True"

definition isDirectory :: "dkms_tree \<Rightarrow> string \<Rightarrow> bool" where
  "isDirectory t p \<longleftrightarrow> dk_directory t p = Some True"

definition collectModuleBasenames :: "dkms_tree \<Rightarrow> string \<Rightarrow> string list \<Rightarrow> string list" where
  "collectModuleBasenames t archDir basenames =
     (let moduleDir = pathJoin archDir ''module'' in
      if \<not> isDirectory t moduleDir then basenames
      else basenames @ filter (\<lambda>f. isRealFile t (pathJoin moduleDir f) \<and> isModuleFile f) (dk_entries t moduleDir))"

definition moduleOutputBasenames :: "dkms_tree \<Rightarrow> string \<Rightarrow> string list" where
  "moduleOutputBasenames t kernelDir =
     foldl (\<lambda>b arch. if isRealDir t (pathJoin kernelDir arch) then collectModuleBasenames t (pathJoin kernelDir arch) b else b)
       [] (dk_entries t kernelDir)"

definition anyBasenameInstalled :: "dkms_tree \<Rightarrow> string \<Rightarrow> string list \<Rightarrow> bool" where
  "anyBasenameInstalled t installedDir names = list_ex (\<lambda>n. dk_exists t (pathJoin installedDir n) = Some True) names"

definition kUnknownState :: string where
  "kUnknownState = ''unknown '' @ dash @ '' build residue or unsupported layout''"

definition kernelState :: "dkms_tree \<Rightarrow> string \<Rightarrow> string \<Rightarrow> string \<Rightarrow> string" where
  "kernelState t kernelDir kern modulesRoot =
     (let basenames = moduleOutputBasenames t kernelDir in
      if basenames = [] then kUnknownState
      else (let kernelPresent = isDirectory t (pathJoin modulesRoot kern);
                installed = anyBasenameInstalled t (pathJoin (pathJoin (pathJoin modulesRoot kern) ''updates'') ''dkms'') basenames
            in (if installed then ''built + installed'' else ''built'') @
               (if kernelPresent then [] else '' '' @ dash @ '' kernel absent'')))"

definition isVersionMetaSubdir :: "string \<Rightarrow> bool" where
  "isVersionMetaSubdir name \<longleftrightarrow> name = ''source'' \<or> name = ''build''"

text \<open>The kernels of a version, in the order of the directory.\<close>

definition kernelsOf :: "dkms_tree \<Rightarrow> string \<Rightarrow> string list" where
  "kernelsOf t verPath = filter (\<lambda>k. isRealDir t (pathJoin verPath k) \<and> \<not> isVersionMetaSubdir k) (dk_entries t verPath)"

definition collectKernelDetails :: "dkms_tree \<Rightarrow> string \<Rightarrow> string \<Rightarrow> update_candidate \<Rightarrow> bool \<times> update_candidate" where
  "collectKernelDetails t verPath modulesRoot c =
     (kernelsOf t verPath \<noteq> [],
      c\<lparr>uc_details := uc_details c @ map (\<lambda>k. (k, kernelState t (pathJoin verPath k) k modulesRoot)) (kernelsOf t verPath)\<rparr>)"

definition makeCandidate :: "string \<Rightarrow> string \<Rightarrow> update_candidate" where
  "makeCandidate module version =
     \<lparr>uc_providerId = ''dkms'', uc_id = ''dkms:'' @ module @ ''/'' @ version, uc_displayName = module,
      uc_currentVersion = version, uc_candidateVersion = None,
      uc_facts = \<lparr>uf_updatable = False, uf_supported = False, uf_needsReboot = False\<rparr>,
      uc_releases = [], uc_details = []\<rparr>"

definition versionCandidate :: "dkms_tree \<Rightarrow> string \<Rightarrow> string \<Rightarrow> string \<Rightarrow> string \<Rightarrow> update_candidate" where
  "versionCandidate t modPath module modulesRoot version =
     (let (sawKernelDir, c) = collectKernelDetails t (pathJoin modPath version) modulesRoot (makeCandidate module version)
      in if sawKernelDir then c else c\<lparr>uc_details := uc_details c @ [(''(no kernel)'', ''added '' @ dash @ '' not built'')]\<rparr>)"

definition collectVersions :: "dkms_tree \<Rightarrow> string \<Rightarrow> string \<Rightarrow> string \<Rightarrow> update_candidate list \<Rightarrow> update_candidate list" where
  "collectVersions t modPath module modulesRoot out =
     out @ map (versionCandidate t modPath module modulesRoot) (filter (\<lambda>v. isRealDir t (pathJoin modPath v)) (dk_entries t modPath))"

definition dkms_availability :: "dkms_tree \<Rightarrow> string \<Rightarrow> provider_availability" where
  "dkms_availability t dkmsRoot =
     (let available = isDirectory t dkmsRoot in
      \<lparr>pav_available = available, pav_version = None,
       pav_error = (if available then None else Some \<lparr>err_code = NotFound, err_message = ''DKMS root not found: '' @ dkmsRoot\<rparr>),
       pav_notices = []\<rparr>)"

definition dkms_enumerate :: "dkms_tree \<Rightarrow> string \<Rightarrow> string \<Rightarrow> update_candidate list result" where
  "dkms_enumerate t dkmsRoot modulesRoot =
     Inr (foldl (\<lambda>out m. if isRealDir t (pathJoin dkmsRoot m) then collectVersions t (pathJoin dkmsRoot m) m modulesRoot out else out)
            [] (dk_entries t dkmsRoot))"

definition dkms_install :: "unit \<Rightarrow> install_outcome result" where
  "dkms_install _ = makeError Unsupported ''dkms provider is status-only''"

text \<open>The provider, whose world is the tree.\<close>

definition dkmsProvider :: "string \<Rightarrow> string \<Rightarrow> dkms_tree provider" where
  "dkmsProvider dkmsRoot modulesRoot =
     \<lparr>up_id = ''dkms'', up_caps = [Query],
      up_availability = (\<lambda>t. dkms_availability t dkmsRoot),
      up_enumerate = (\<lambda>t. dkms_enumerate t dkmsRoot modulesRoot),
      up_pending = (\<lambda>t. Inr []),
      up_install = (\<lambda>cand rel t. (([], dkms_install ()), t))\<rparr>"

section \<open>What it reports\<close>

lemma enumerate_eq:
  "dkms_enumerate t root mroot =
     Inr (concat (map (\<lambda>m. map (versionCandidate t (pathJoin root m) m mroot)
       (filter (\<lambda>v. isRealDir t (pathJoin (pathJoin root m) v)) (dk_entries t (pathJoin root m))))
       (filter (\<lambda>m. isRealDir t (pathJoin root m)) (dk_entries t root))))"
proof -
  have "foldl (\<lambda>out m. if P m then collectVersions t (p m) m mroot out else out) out ms =
     out @ concat (map (\<lambda>m. map (versionCandidate t (p m) m mroot) (filter (\<lambda>v. isRealDir t (pathJoin (p m) v)) (dk_entries t (p m))))
       (filter P ms))" for P p out and ms :: "string list"
    by (induction ms arbitrary: out) (simp_all add: collectVersions_def)
  then show ?thesis by (simp add: dkms_enumerate_def)
qed

lemma moduleOutput_mem:
  "f \<in> set (moduleOutputBasenames t kdir) \<longleftrightarrow>
     (\<exists>arch \<in> set (dk_entries t kdir). isRealDir t (pathJoin kdir arch) \<and>
        isDirectory t (pathJoin (pathJoin kdir arch) ''module'') \<and>
        f \<in> set (dk_entries t (pathJoin (pathJoin kdir arch) ''module'')) \<and>
        isRealFile t (pathJoin (pathJoin (pathJoin kdir arch) ''module'') f) \<and> isModuleFile f)"
proof -
  have "f \<in> set (foldl (\<lambda>b arch. if isRealDir t (pathJoin kdir arch) then collectModuleBasenames t (pathJoin kdir arch) b else b) b archs) \<longleftrightarrow>
     f \<in> set b \<or> (\<exists>arch \<in> set archs. isRealDir t (pathJoin kdir arch) \<and>
        isDirectory t (pathJoin (pathJoin kdir arch) ''module'') \<and>
        f \<in> set (dk_entries t (pathJoin (pathJoin kdir arch) ''module'')) \<and>
        isRealFile t (pathJoin (pathJoin (pathJoin kdir arch) ''module'') f) \<and> isModuleFile f)" for b archs
    by (induction archs arbitrary: b) (auto simp: collectModuleBasenames_def Let_def)
  then show ?thesis by (simp add: moduleOutputBasenames_def)
qed

text \<open>A state says installed only of a module file that was built and that is in the kernel's tree.\<close>

lemma kernelState_installed:
  "starts_with (kernelState t kdir k mroot) ''built + installed'' \<longleftrightarrow>
     (\<exists>f \<in> set (moduleOutputBasenames t kdir). dk_exists t (pathJoin (pathJoin (pathJoin (pathJoin mroot k) ''updates'') ''dkms'') f) = Some True)"
  by (auto simp: kernelState_def anyBasenameInstalled_def list_ex_iff starts_with_def kUnknownState_def dash_def Let_def)

lemma candidate_details:
  "uc_details (versionCandidate t modPath m mroot v) =
     (if kernelsOf t (pathJoin modPath v) = [] then [(''(no kernel)'', ''added '' @ dash @ '' not built'')]
      else map (\<lambda>k. (k, kernelState t (pathJoin (pathJoin modPath v) k) k mroot)) (kernelsOf t (pathJoin modPath v)))"
  by (simp add: versionCandidate_def collectKernelDetails_def makeCandidate_def)

lemma candidate_identity:
  "uc_id (versionCandidate t modPath m mroot v) = ''dkms:'' @ m @ ''/'' @ v"
  "uc_providerId (versionCandidate t modPath m mroot v) = ''dkms''" "uc_releases (versionCandidate t modPath m mroot v) = []"
  by (simp_all add: versionCandidate_def collectKernelDetails_def makeCandidate_def)

text \<open>An install request for one of its candidates never reaches the provider: the facade refuses it.\<close>

lemma dkms_never_installs:
  assumes "findProvider sm ''dkms'' = Some (dkmsProvider root mroot)"
  shows "snd (installRun sm ''dkms'' cid rel f) = f"
    and "fst (installRun sm ''dkms'' cid rel f) = [TaskCompletedEvent (''install-update:'' @ cid) False ''provider is status-only: dkms'']"
  using assms by (simp_all add: installRun_def dkmsProvider_def hasCap_def)

text \<open>The DKMS provider lists one candidate for each version directory of each module directory, real
  directories only, in the order of the tree; its details have one line for each kernel directory, or
  say that nothing is built; a line says installed exactly when a module file that was built for the kernel
  is in that kernel's own tree; and the facade refuses to install one and changes nothing.\<close>

theorem dkms_reports_what_is_there:
  "dkms_enumerate t root mroot =
     Inr (concat (map (\<lambda>m. map (versionCandidate t (pathJoin root m) m mroot)
       (filter (\<lambda>v. isRealDir t (pathJoin (pathJoin root m) v)) (dk_entries t (pathJoin root m))))
       (filter (\<lambda>m. isRealDir t (pathJoin root m)) (dk_entries t root)))) \<and>
   uc_id (versionCandidate t modPath m mroot v) = ''dkms:'' @ m @ ''/'' @ v \<and>
   map fst (uc_details (versionCandidate t modPath m mroot v)) =
     (if kernelsOf t (pathJoin modPath v) = [] then [''(no kernel)''] else kernelsOf t (pathJoin modPath v)) \<and>
   starts_with (kernelState t kdir k mroot) ''built + installed'' =
     (\<exists>f arch. arch \<in> set (dk_entries t kdir) \<and> isRealDir t (pathJoin kdir arch) \<and>
        isDirectory t (pathJoin (pathJoin kdir arch) ''module'') \<and>
        f \<in> set (dk_entries t (pathJoin (pathJoin kdir arch) ''module'')) \<and>
        isRealFile t (pathJoin (pathJoin (pathJoin kdir arch) ''module'') f) \<and> isModuleFile f \<and>
        dk_exists t (pathJoin (pathJoin (pathJoin (pathJoin mroot k) ''updates'') ''dkms'') f) = Some True) \<and>
   snd (installRun \<lparr>sm_enumerate = en, sm_channel = ch, sm_prober = pr, sm_drivers = dr, sm_systemInfo = si,
        sm_providers = [dkmsProvider root mroot]\<rparr> ''dkms'' cid rel fc) = fc"
proof -
  have "findProvider \<lparr>sm_enumerate = en, sm_channel = ch, sm_prober = pr, sm_drivers = dr, sm_systemInfo = si,
        sm_providers = [dkmsProvider root mroot]\<rparr> ''dkms'' = Some (dkmsProvider root mroot)"
    by (simp add: findProvider_def dkmsProvider_def)
  moreover have "starts_with (kernelState t kdir k mroot) ''built + installed'' =
     (\<exists>f arch. arch \<in> set (dk_entries t kdir) \<and> isRealDir t (pathJoin kdir arch) \<and>
        isDirectory t (pathJoin (pathJoin kdir arch) ''module'') \<and>
        f \<in> set (dk_entries t (pathJoin (pathJoin kdir arch) ''module'')) \<and>
        isRealFile t (pathJoin (pathJoin (pathJoin kdir arch) ''module'') f) \<and> isModuleFile f \<and>
        dk_exists t (pathJoin (pathJoin (pathJoin (pathJoin mroot k) ''updates'') ''dkms'') f) = Some True)"
    unfolding kernelState_installed Bex_def moduleOutput_mem by blast
  ultimately show ?thesis
    by (simp add: enumerate_eq candidate_identity candidate_details dkms_never_installs(1) comp_def)
qed

end
