(* ===== verification/Udev_Devices.thy ===== *)
theory Udev_Devices
  imports Device_Service "HOL-Library.Word"
begin

unbundle bit_operations_syntax

text \<open>
  \<^verbatim>\<open>platform/linux/include/devmgr/platform/linux/udev_field_mapping.hpp\<close>,
  \<^verbatim>\<open>platform/linux/src/udev_device_mapper.cpp\<close> and \<^verbatim>\<open>udev_device_enumerator.cpp\<close>, and the loop of
  \<^verbatim>\<open>udev_hotplug_monitor.cpp\<close> that turns what the kernel announces into events. Libudev is a record
  of what it answers about a device handle, \<open>None\<close> for a null pointer.
\<close>

section \<open>Identity\<close>

definition fnv1a64 :: "string \<Rightarrow> 64 word" where
  "fnv1a64 s = foldl (\<lambda>h c. (h XOR of_char c) * 1099511628211) 14695981039346656037 s"

definition kSubsystems :: "string list" where
  "kSubsystems = [''pci'', ''usb'', ''platform'', ''virtio'']"

definition actionFromString :: "string option \<Rightarrow> hotplug_action option" where
  "actionFromString action =
     (case action of None \<Rightarrow> None | Some a \<Rightarrow>
      if a = ''add'' then Some Added
      else if a = ''remove'' then Some Removed
      else if a \<in> {''change'', ''bind'', ''unbind'', ''move'', ''online'', ''offline''} then Some Changed
      else None)"

definition kUnitSeparator :: string where
  "kUnitSeparator = [CHR 0x1F]"

definition hex16 :: "64 word \<Rightarrow> string" where
  "hex16 w = map (\<lambda>i. ''0123456789abcdef'' ! unat (drop_bit (60 - 4 * i) w AND 0xF)) [0..<16]"

text \<open>The buffer has 21 bytes; the text needs twenty and the final zero.\<close>

definition stableId :: "string \<Rightarrow> string \<Rightarrow> string \<Rightarrow> string \<Rightarrow> string \<Rightarrow> string" where
  "stableId subsystem syspath vendor product serial =
     take 20 (''dev-'' @ hex16 (fnv1a64
       (subsystem @ kUnitSeparator @ syspath @ kUnitSeparator @ vendor @ '':'' @ product @ kUnitSeparator @ serial)))"

definition busFor :: "string \<Rightarrow> bus_type" where
  "busFor subsystem =
     (if subsystem = ''pci'' then Pci else if subsystem = ''usb'' then Usb
      else if subsystem = ''platform'' then Platform else if subsystem = ''virtio'' then Virtio else Other)"

definition strip0x :: "string \<Rightarrow> string" where
  "strip0x v = (if 2 \<le> length v \<and> v ! 0 = CHR ''0'' \<and> (v ! 1 = CHR ''x'' \<or> v ! 1 = CHR ''X'') then drop 2 v else v)"

definition firstNonEmptyLazy :: "string option list \<Rightarrow> string" where
  "firstNonEmptyLazy gs = (case find (\<lambda>g. g \<noteq> None \<and> g \<noteq> Some []) gs of Some (Some hit) \<Rightarrow> hit | _ \<Rightarrow> [])"

section \<open>Devices\<close>

record 'd udev =
  ud_subsystem :: "'d \<Rightarrow> string option"
  ud_syspath :: "'d \<Rightarrow> string option"
  ud_sysname :: "'d \<Rightarrow> string option"
  ud_driver :: "'d \<Rightarrow> string option"
  ud_action :: "'d \<Rightarrow> string option"
  ud_prop :: "'d \<Rightarrow> string \<Rightarrow> string option"
  ud_attr :: "'d \<Rightarrow> string \<Rightarrow> string option"
  ud_parent :: "'d \<Rightarrow> 'd option"
  ud_properties :: "'d \<Rightarrow> (string option \<times> string option) list"

definition nullable :: "string option \<Rightarrow> string" where
  "nullable p = (case p of Some s \<Rightarrow> s | None \<Rightarrow> [])"

definition vendorFor :: "'d udev \<Rightarrow> 'd \<Rightarrow> string" where
  "vendorFor u d = firstNonEmptyLazy [ud_prop u d ''ID_VENDOR_ID'', ud_attr u d ''idVendor'', ud_attr u d ''vendor'']"

definition productFor :: "'d udev \<Rightarrow> 'd \<Rightarrow> string" where
  "productFor u d = firstNonEmptyLazy [ud_prop u d ''ID_MODEL_ID'', ud_attr u d ''idProduct'', ud_attr u d ''device'']"

definition serialFor :: "'d udev \<Rightarrow> 'd \<Rightarrow> string" where
  "serialFor u d = firstNonEmptyLazy [ud_prop u d ''ID_SERIAL_SHORT'', ud_prop u d ''ID_SERIAL'']"

definition idFor :: "'d udev \<Rightarrow> 'd \<Rightarrow> string" where
  "idFor u d = stableId (nullable (ud_subsystem u d)) (nullable (ud_syspath u d)) (vendorFor u d) (productFor u d) (serialFor u d)"

definition mapDevice :: "'d udev \<Rightarrow> 'd \<Rightarrow> device" where
  "mapDevice u d =
     (let subsystem = nullable (ud_subsystem u d);
          syspath = nullable (ud_syspath u d);
          vendor = vendorFor u d; product = productFor u d; serial = serialFor u d;
          bus = busFor subsystem
      in \<lparr>dev_id = stableId subsystem syspath vendor product serial,
          dev_bus = bus,
          dev_name = firstNonEmptyLazy [ud_prop u d ''ID_MODEL_FROM_DATABASE'', ud_prop u d ''ID_MODEL'',
            ud_attr u d ''product'', ud_sysname u d],
          dev_sysfsPath = syspath,
          dev_modalias = firstNonEmptyLazy [ud_prop u d ''MODALIAS'', ud_attr u d ''modalias''],
          dev_vendorId = strip0x vendor,
          dev_productId = strip0x product,
          dev_serial = serial,
          dev_parent = map_option (idFor u) (ud_parent u d),
          dev_status = (if bus = Usb \<and> nullable (ud_attr u d ''authorized'') = ''0'' then Disabled else Active),
          dev_boundDriver = ud_driver u d,
          dev_properties = foldl (\<lambda>m kv. smap_put (nullable (fst kv)) (nullable (snd kv)) m) [] (ud_properties u d),
          dev_errorNote = None\<rparr>)"

section \<open>Enumeration\<close>

text \<open>A context, an enumeration over the subsystems, the names it found, and a device from a name.\<close>

record 'd udev_scan =
  us_context :: bool
  us_enumerator :: bool
  us_scan :: "string list \<Rightarrow> string option list option"
  us_device :: "string \<Rightarrow> 'd option"

definition badDevice :: "string \<Rightarrow> device" where
  "badDevice syspath =
     empty_device\<lparr>dev_id := ''dev-err-'' @ syspath, dev_sysfsPath := syspath, dev_status := StatusError,
       dev_errorNote := Some ''udev_device_new_from_syspath failed''\<rparr>"

definition udev_enumerate :: "'d udev \<Rightarrow> 'd udev_scan \<Rightarrow> device list result" where
  "udev_enumerate u us =
     (if \<not> us_context us then makeError Io ''udev_new() failed''
      else if \<not> us_enumerator us then makeError Io ''udev_enumerate_new() failed''
      else case us_scan us kSubsystems of
        None \<Rightarrow> makeError Io ''udev_enumerate_scan_devices failed''
      | Some names \<Rightarrow>
          Inr (foldl (\<lambda>out n. case n of
                 None \<Rightarrow> out
               | Some syspath \<Rightarrow> out @ [case us_device us syspath of None \<Rightarrow> badDevice syspath | Some d \<Rightarrow> mapDevice u d]) [] names))"

section \<open>Announcements\<close>

text \<open>What the reader's loop does with the devices it receives, in order, while no stop is requested.\<close>

definition announced :: "'d udev \<Rightarrow> 'd \<Rightarrow> hotplug_event option" where
  "announced u d =
     (case (ud_subsystem u d, actionFromString (ud_action u d)) of
        (Some subsystem, Some action) \<Rightarrow>
          if subsystem \<in> set kSubsystems then Some \<lparr>hp_action = action, hp_device = mapDevice u d\<rparr> else None
      | _ \<Rightarrow> None)"

definition drainEvents :: "'d udev \<Rightarrow> 'd list \<Rightarrow> hotplug_event list" where
  "drainEvents u received = List.map_filter (announced u) received"

section \<open>What the mapping promises\<close>

lemma length_hex16 [simp]: "length (hex16 w) = 16"
  by (simp add: hex16_def)

lemma stableId_eq:
  "stableId a b c d e = ''dev-'' @ hex16 (fnv1a64 (a @ kUnitSeparator @ b @ kUnitSeparator @ c @ '':'' @ d @ kUnitSeparator @ e))"
  by (simp add: stableId_def)

lemma idFor_mapDevice: "dev_id (mapDevice u d) = idFor u d"
  by (simp add: mapDevice_def idFor_def Let_def)

lemma nibble64: "unat (v AND 0xF :: 64 word) < 16"
proof -
  have "v AND 0xF \<le> 0xF" by (rule word_and_le1)
  then have "unat (v AND 0xF) \<le> 15" by (simp add: word_le_nat_alt)
  then show ?thesis by simp
qed

lemma hexDigits_nth: "i < 16 \<Longrightarrow> ''0123456789abcdef'' ! i \<in> set ''0123456789abcdef''"
  by (rule nth_mem) simp

lemma hex16_digits: "set (hex16 w) \<subseteq> set ''0123456789abcdef''"
proof
  fix c assume "c \<in> set (hex16 w)"
  then obtain i where "c = ''0123456789abcdef'' ! unat (drop_bit (60 - 4 * i) w AND 0xF)" unfolding hex16_def set_map by blast
  then show "c \<in> set ''0123456789abcdef''" using hexDigits_nth [OF nibble64] by (simp only:)
qed

definition enumerated :: "'d udev \<Rightarrow> 'd udev_scan \<Rightarrow> string \<Rightarrow> device" where
  "enumerated u us syspath = (case us_device us syspath of None \<Rightarrow> badDevice syspath | Some d \<Rightarrow> mapDevice u d)"

lemma enumerate_loop:
  "foldl (\<lambda>out n. case n of
       None \<Rightarrow> out
     | Some syspath \<Rightarrow> out @ [case us_device us syspath of None \<Rightarrow> badDevice syspath | Some d \<Rightarrow> mapDevice u d]) out names =
   out @ map (enumerated u us) (List.map_filter (\<lambda>n. n) names)"
  by (induction names arbitrary: out) (auto simp: map_filter_simps enumerated_def split: option.splits)

text \<open>An enumeration that answers has one device for every name that was found, in order: one that cannot be
  opened stands there with an error note and an identity of its own, and does not hide the others. The
  identity of every other device is a prefix and sixteen hexadecimal digits, and the parent a device
  names is the identity that parent has when it is listed itself, or announced.\<close>

theorem enumeration_is_total:
  assumes "udev_enumerate u us = Inr ds" "us_scan us kSubsystems = Some names"
  shows "ds = map (enumerated u us) (List.map_filter (\<lambda>n. n) names) \<and>
    (us_device us p = None \<longrightarrow> enumerated u us p = badDevice p) \<and>
    (us_device us p = Some d \<longrightarrow>
       (\<exists>digits. dev_id (enumerated u us p) = ''dev-'' @ digits \<and> length digits = 16 \<and> set digits \<subseteq> set ''0123456789abcdef'') \<and>
       dev_parent (enumerated u us p) = map_option (\<lambda>q. dev_id (mapDevice u q)) (ud_parent u d)) \<and>
    (announced u d = Some ev \<longrightarrow> hp_device ev = mapDevice u d)"
proof -
  have "ds = map (enumerated u us) (List.map_filter (\<lambda>n. n) names)"
    using assms(1) unfolding udev_enumerate_def assms(2) option.case enumerate_loop
    by (simp add: makeError_def split: if_splits)
  moreover have "\<exists>digits. dev_id (enumerated u us p) = ''dev-'' @ digits \<and> length digits = 16 \<and> set digits \<subseteq> set ''0123456789abcdef''"
    if "us_device us p = Some d"
    unfolding enumerated_def that option.case idFor_mapDevice idFor_def stableId_eq
    using length_hex16 hex16_digits by blast
  moreover have "dev_parent (enumerated u us p) = map_option (\<lambda>q. dev_id (mapDevice u q)) (ud_parent u d)"
    if "us_device us p = Some d"
    using that by (simp add: enumerated_def idFor_mapDevice) (simp add: mapDevice_def Let_def)
  moreover have "announced u d = Some ev \<longrightarrow> hp_device ev = mapDevice u d"
    by (auto simp: announced_def split: option.splits if_splits)
  ultimately show ?thesis by (simp add: enumerated_def)
qed

definition two_names :: "string udev_scan" where
  "two_names = \<lparr>us_context = True, us_enumerator = True, us_scan = (\<lambda>_. Some [Some ''/sys/a'', None, Some ''/sys/b'']),
     us_device = (\<lambda>p. if p = ''/sys/b'' then Some p else None)\<rparr>"

definition plain_udev :: "string udev" where
  "plain_udev = \<lparr>ud_subsystem = (\<lambda>_. Some ''usb''), ud_syspath = Some, ud_sysname = Some, ud_driver = (\<lambda>_. None),
     ud_action = (\<lambda>_. None), ud_prop = (\<lambda>_ _. None), ud_attr = (\<lambda>_ _. None), ud_parent = (\<lambda>_. None), ud_properties = (\<lambda>_. [])\<rparr>"

lemma enumeration_is_total_witness:
  "\<exists>ds. udev_enumerate plain_udev two_names = Inr ds \<and> map dev_sysfsPath ds = [''/sys/a'', ''/sys/b''] \<and>
     dev_id (hd ds) = ''dev-err-/sys/a''"
proof -
  let ?names = "[Some ''/sys/a'', None, Some ''/sys/b'']"
  have n: "us_scan two_names kSubsystems = Some ?names" by (simp add: two_names_def)
  obtain ds where ds: "udev_enumerate plain_udev two_names = Inr ds"
    by (simp add: udev_enumerate_def n) (simp add: two_names_def)
  have "ds = map (enumerated plain_udev two_names) (List.map_filter (\<lambda>n. n) ?names)"
    using enumeration_is_total [OF ds n] by blast
  then show ?thesis
    using ds by (simp add: map_filter_simps enumerated_def two_names_def badDevice_def empty_device_def mapDevice_def plain_udev_def
        nullable_def Let_def)
qed

section \<open>A removal under another identity\<close>

text \<open>The identity hashes the vendor and product, and these fall back to attributes of the sysfs directory. When
  the kernel announces a removal the directory is gone. A device whose ids are attributes only, as on
  the PCI bus, is then announced under another identity, which the model does not know: it stays.\<close>

definition pci_udev :: "bool udev" where
  "pci_udev = \<lparr>ud_subsystem = (\<lambda>_. Some ''pci''), ud_syspath = (\<lambda>_. Some ''/sys/p''), ud_sysname = (\<lambda>_. Some ''p''),
     ud_driver = (\<lambda>_. None), ud_action = (\<lambda>present. Some (if present then ''add'' else ''remove'')), ud_prop = (\<lambda>_ _. None),
     ud_attr = (\<lambda>present name. if present \<and> name = ''vendor'' then Some ''0x8086'' else None), ud_parent = (\<lambda>_. None),
     ud_properties = (\<lambda>_. [])\<rparr>"

lemma pci_ids_differ: "idFor pci_udev True \<noteq> idFor pci_udev False"
  by code_simp

lemma removed_device_stays:
  "drainEvents pci_udev [True, False] = [\<lparr>hp_action = Added, hp_device = mapDevice pci_udev True\<rparr>, \<lparr>hp_action = Removed, hp_device = mapDevice pci_udev False\<rparr>]"
  "foldl (\<lambda>m ev. snd (applyDelta ev m)) [] (drainEvents pci_udev [True, False]) = [(idFor pci_udev True, mapDevice pci_udev True)]"
proof -
  show d: "drainEvents pci_udev [True, False] = [\<lparr>hp_action = Added, hp_device = mapDevice pci_udev True\<rparr>, \<lparr>hp_action = Removed, hp_device = mapDevice pci_udev False\<rparr>]"
    by (simp add: drainEvents_def map_filter_simps announced_def pci_udev_def actionFromString_def kSubsystems_def)
  show "foldl (\<lambda>m ev. snd (applyDelta ev m)) [] (drainEvents pci_udev [True, False]) = [(idFor pci_udev True, mapDevice pci_udev True)]"
    unfolding d using pci_ids_differ by (simp add: applyDelta_def idFor_mapDevice model_emplace_def Let_def)
qed

end
