(* ===== verification/Udev_Monitor.thy ===== *)
theory Udev_Monitor
  imports Udev_Devices
begin

text \<open>
  The life of \<^verbatim>\<open>platform/linux/src/udev_hotplug_monitor.cpp\<close>: one owner thread that starts and stops the
  monitor, and the reader thread, whose callback may itself call \<^verbatim>\<open>stop\<close>. A step is a critical section
  of the lifecycle mutex or one access outside it; the two threads interleave in any way. The owner's
  calls do not overlap each other, as the class demands.
\<close>

section \<open>State\<close>

text \<open>The reader: not there, waiting for announcements, in the callback, in a \<^verbatim>\<open>stop\<close> of the callback past its
  first section, or returned.\<close>

datatype reader = NoReader | Reading | Calling hotplug_event | SelfStopping hotplug_event | ReaderGone

text \<open>The owner: outside, in \<^verbatim>\<open>stop\<close> past its first section with the flag it computed there, waiting for the
  reader, and after the release of the handles.\<close>

datatype owner = Outside | Marked bool | Joining | Released

record monitor =
  mo_started :: bool
  mo_cleanupClaimed :: bool
  mo_stopRequested :: bool
  mo_open :: bool
  mo_reader :: reader
  mo_owner :: owner

definition new_monitor :: monitor where
  "new_monitor = \<lparr>mo_started = False, mo_cleanupClaimed = False, mo_stopRequested = False, mo_open = False,
     mo_reader = NoReader, mo_owner = Outside\<rparr>"

section \<open>Operations\<close>

text \<open>What the libudev calls of \<^verbatim>\<open>start\<close> answer, in order: the text of the first failure, if any.\<close>

definition freeResources :: "monitor \<Rightarrow> monitor" where
  "freeResources m = m\<lparr>mo_open := False\<rparr>"

definition mo_start :: "string option \<Rightarrow> monitor \<Rightarrow> unit result \<times> monitor" where
  "mo_start failure m =
     (if mo_started m then (makeError Io ''hotplug monitor already started'', m)
      else case failure of
        Some text \<Rightarrow> (makeError Io text, freeResources (m\<lparr>mo_open := True\<rparr>))
      | None \<Rightarrow> (Inr (), m\<lparr>mo_open := True, mo_started := True, mo_cleanupClaimed := False, mo_stopRequested := False, mo_reader := Reading\<rparr>))"

text \<open>The first section of \<^verbatim>\<open>stop\<close>: \<open>None\<close> when it returns at once, else whether this call cleans up.\<close>

definition mo_stopEnter :: "bool \<Rightarrow> monitor \<Rightarrow> bool option \<times> monitor" where
  "mo_stopEnter selfCall m =
     (if \<not> mo_started m then (None, m)
      else if \<not> selfCall \<and> \<not> mo_cleanupClaimed m then (Some True, m\<lparr>mo_cleanupClaimed := True\<rparr>)
      else (Some False, m))"

definition mo_requestStop :: "monitor \<Rightarrow> monitor" where
  "mo_requestStop m = m\<lparr>mo_stopRequested := True\<rparr>"

definition mo_joinable :: "monitor \<Rightarrow> bool" where
  "mo_joinable m \<longleftrightarrow> mo_reader m = ReaderGone"

definition mo_finish :: "monitor \<Rightarrow> monitor" where
  "mo_finish m = m\<lparr>mo_started := False\<rparr>"

text \<open>One turn of the reader: it leaves when a stop is requested or polling failed, else it may receive a
  device and call back with the event it announces, or skip it.\<close>

definition readerReceive :: "'d udev \<Rightarrow> 'd \<Rightarrow> monitor \<Rightarrow> monitor" where
  "readerReceive u d m = (case announced u d of Some ev \<Rightarrow> m\<lparr>mo_reader := Calling ev\<rparr> | None \<Rightarrow> m)"

section \<open>Interleaving\<close>

datatype 'd mon_action = Start "string option" | StopEnter | RequestStop | JoinAndFree | FinishStop
  | Receive 'd | CallbackStops | CallbackRequests | CallbackReturns | ReaderLeaves bool

inductive mon_step :: "'d udev \<Rightarrow> 'd mon_action \<Rightarrow> monitor \<Rightarrow> monitor \<Rightarrow> bool" for u where
  start: "mo_owner m = Outside \<Longrightarrow> mon_step u (Start failure) m (snd (mo_start failure m))"
| stop_enter: "mo_owner m = Outside \<Longrightarrow> mo_stopEnter False m = (r, m') \<Longrightarrow>
    mon_step u StopEnter m (case r of None \<Rightarrow> m' | Some c \<Rightarrow> m'\<lparr>mo_owner := Marked c\<rparr>)"
| request: "mo_owner m = Marked c \<Longrightarrow>
    mon_step u RequestStop m ((mo_requestStop m)\<lparr>mo_owner := (if c then Joining else Outside)\<rparr>)"
| join: "mo_owner m = Joining \<Longrightarrow> mo_joinable m \<Longrightarrow> mon_step u JoinAndFree m ((freeResources m)\<lparr>mo_owner := Released\<rparr>)"
| finish: "mo_owner m = Released \<Longrightarrow> mon_step u FinishStop m ((mo_finish m)\<lparr>mo_owner := Outside\<rparr>)"
| receive: "mo_reader m = Reading \<Longrightarrow> \<not> mo_stopRequested m \<Longrightarrow> mon_step u (Receive d) m (readerReceive u d m)"
| self_enter: "mo_reader m = Calling ev \<Longrightarrow> mo_stopEnter True m = (r, m') \<Longrightarrow>
    mon_step u CallbackStops m (case r of None \<Rightarrow> m' | Some _ \<Rightarrow> m'\<lparr>mo_reader := SelfStopping ev\<rparr>)"
| self_request: "mo_reader m = SelfStopping ev \<Longrightarrow> mon_step u CallbackRequests m ((mo_requestStop m)\<lparr>mo_reader := Calling ev\<rparr>)"
| callback: "mo_reader m = Calling ev \<Longrightarrow> mon_step u CallbackReturns m (m\<lparr>mo_reader := Reading\<rparr>)"
| leave: "mo_reader m = Reading \<Longrightarrow> mo_stopRequested m \<or> pollFailed \<Longrightarrow>
    mon_step u (ReaderLeaves pollFailed) m (m\<lparr>mo_reader := ReaderGone\<rparr>)"

inductive_cases receiveE: "mon_step u (Receive d) m m'"
inductive_cases finishE: "mon_step u FinishStop m m'"

inductive mon_run :: "'d udev \<Rightarrow> 'd mon_action list \<Rightarrow> monitor \<Rightarrow> monitor \<Rightarrow> bool" for u where
  none: "mon_run u [] m m"
| more: "mon_run u as m m1 \<Longrightarrow> mon_step u a m1 m2 \<Longrightarrow> mon_run u (as @ [a]) m m2"

section \<open>Invariant\<close>

definition reading :: "monitor \<Rightarrow> bool" where
  "reading m \<longleftrightarrow> mo_reader m \<notin> {NoReader, ReaderGone}"

definition monitor_ok :: "monitor \<Rightarrow> bool" where
  "monitor_ok m \<longleftrightarrow>
     (reading m \<longrightarrow> mo_open m \<and> mo_started m) \<and>
     (mo_started m \<longrightarrow> mo_reader m \<noteq> NoReader) \<and>
     (mo_owner m = Outside \<longrightarrow> mo_open m = mo_started m \<and> (mo_started m \<longrightarrow> \<not> mo_cleanupClaimed m)) \<and>
     (\<forall>c. mo_owner m = Marked c \<longrightarrow> c \<and> mo_started m \<and> mo_open m) \<and>
     (mo_owner m = Joining \<longrightarrow> mo_stopRequested m \<and> mo_started m \<and> mo_open m) \<and>
     (mo_owner m = Released \<longrightarrow> \<not> reading m \<and> \<not> mo_open m)"

lemma new_monitor_ok: "monitor_ok new_monitor"
  by (simp add: monitor_ok_def new_monitor_def reading_def)

lemma mon_step_ok:
  assumes "mon_step u a m m'" "monitor_ok m"
  shows "monitor_ok m'"
  using assms
proof (cases rule: mon_step.cases)
  case (start failure)
  with assms(2) show ?thesis
    by (cases failure) (auto simp: monitor_ok_def mo_start_def freeResources_def reading_def)
next
  case (stop_enter r m1)
  with assms(2) show ?thesis by (auto simp: monitor_ok_def mo_stopEnter_def reading_def split: if_splits)
next
  case (receive d)
  with assms(2) show ?thesis by (auto simp: monitor_ok_def readerReceive_def reading_def split: option.splits)
next
  case (self_enter ev r m1)
  with assms(2) show ?thesis by (auto simp: monitor_ok_def mo_stopEnter_def reading_def split: if_splits)
next
  case (join)
  with assms(2) show ?thesis by (auto simp: monitor_ok_def reading_def freeResources_def mo_joinable_def)
qed (auto simp: monitor_ok_def reading_def mo_requestStop_def mo_finish_def)

lemma mon_run_ok: "mon_run u as m m' \<Longrightarrow> monitor_ok m \<Longrightarrow> monitor_ok m'"
  by (induction rule: mon_run.induct) (auto dest: mon_step_ok)

text \<open>What the reader has left to do once a stop is requested.\<close>

definition readerWork :: "monitor \<Rightarrow> nat" where
  "readerWork m = (case mo_reader m of Reading \<Rightarrow> 1 | Calling _ \<Rightarrow> 2 | SelfStopping _ \<Rightarrow> 3 | _ \<Rightarrow> 0)"


text \<open>Started, stopped by its own callback, and cleaned up by the owner.\<close>

definition stopped_run :: "string mon_action list" where
  "stopped_run = [Start None, Receive ''d'', CallbackStops, CallbackRequests, CallbackReturns, ReaderLeaves False, StopEnter,
     RequestStop, JoinAndFree]"

definition usb_udev :: "string udev" where
  "usb_udev = plain_udev\<lparr>ud_action := \<lambda>_. Some ''add''\<rparr>"

definition released_monitor :: monitor where
  "released_monitor = \<lparr>mo_started = True, mo_cleanupClaimed = True, mo_stopRequested = True, mo_open = False,
     mo_reader = ReaderGone, mo_owner = Released\<rparr>"

lemma announced_usb: "announced usb_udev ''d'' = Some \<lparr>hp_action = Added, hp_device = mapDevice usb_udev ''d''\<rparr>"
  by (simp add: announced_def usb_udev_def plain_udev_def actionFromString_def kSubsystems_def)

lemma stopped_run_reaches: "mon_run usb_udev stopped_run new_monitor released_monitor"
proof -
  let ?ev = "\<lparr>hp_action = Added, hp_device = mapDevice usb_udev ''d''\<rparr>"
  let ?m = "\<lambda>claimed req opn r ow. \<lparr>mo_started = True, mo_cleanupClaimed = claimed, mo_stopRequested = req, mo_open = opn,
     mo_reader = r, mo_owner = ow\<rparr>"
  have 1: "mon_step usb_udev (Start None) new_monitor (?m False False True Reading Outside)"
    using mon_step.start [of new_monitor usb_udev None] by (simp add: new_monitor_def mo_start_def)
  have 2: "mon_step usb_udev (Receive ''d'') (?m False False True Reading Outside) (?m False False True (Calling ?ev) Outside)"
    using mon_step.receive [of "?m False False True Reading Outside" usb_udev "''d''"] by (simp add: readerReceive_def announced_usb)
  have 3: "mon_step usb_udev CallbackStops (?m False False True (Calling ?ev) Outside) (?m False False True (SelfStopping ?ev) Outside)"
    using mon_step.self_enter [of "?m False False True (Calling ?ev) Outside" ?ev "Some False" _ usb_udev] by (simp add: mo_stopEnter_def)
  have 4: "mon_step usb_udev CallbackRequests (?m False False True (SelfStopping ?ev) Outside) (?m False True True (Calling ?ev) Outside)"
    using mon_step.self_request [of "?m False False True (SelfStopping ?ev) Outside" ?ev usb_udev] by (simp add: mo_requestStop_def)
  have 5: "mon_step usb_udev CallbackReturns (?m False True True (Calling ?ev) Outside) (?m False True True Reading Outside)"
    using mon_step.callback [of "?m False True True (Calling ?ev) Outside" ?ev usb_udev] by simp
  have 6: "mon_step usb_udev (ReaderLeaves False) (?m False True True Reading Outside) (?m False True True ReaderGone Outside)"
    using mon_step.leave [of "?m False True True Reading Outside" False usb_udev] by simp
  have 7: "mon_step usb_udev StopEnter (?m False True True ReaderGone Outside) (?m True True True ReaderGone (Marked True))"
    using mon_step.stop_enter [of "?m False True True ReaderGone Outside" "Some True" _ usb_udev] by (simp add: mo_stopEnter_def)
  have 8: "mon_step usb_udev RequestStop (?m True True True ReaderGone (Marked True)) (?m True True True ReaderGone Joining)"
    using mon_step.request [of "?m True True True ReaderGone (Marked True)" True usb_udev] by (simp add: mo_requestStop_def)
  have 9: "mon_step usb_udev JoinAndFree (?m True True True ReaderGone Joining) released_monitor"
    using mon_step.join [of "?m True True True ReaderGone Joining" usb_udev] by (simp add: mo_joinable_def freeResources_def released_monitor_def)
  show ?thesis
    using mon_run.more [OF mon_run.more [OF mon_run.more [OF mon_run.more [OF mon_run.more [OF mon_run.more [OF mon_run.more
      [OF mon_run.more [OF mon_run.more [OF mon_run.none 1] 2] 3] 4] 5] 6] 7] 8] 9] by (simp add: stopped_run_def)
qed


end
