(* ===== verification/Fwupd_Contract.thy ===== *)
theory Fwupd_Contract
  imports Update_Models Daemon_World Paths "HOL-Library.Word"
begin

unbundle bit_operations_syntax

text \<open>
  \<^verbatim>\<open>platform/linux/src/fwupd_contract.cpp\<close> and \<^verbatim>\<open>platform/linux/src/cab_resolver.cpp\<close>: what the answers of
  the fwupd service mean, and how the location of a release becomes an open firmware file. A variant of
  the bus is a value of a datatype; reading it as another type than it has counts as absent.
\<close>

section \<open>Dictionaries\<close>

datatype variant = VString string | VWord32 "32 word" | VWord64 "64 word" | VBool bool | VStrings "string list" | VOther

type_synonym dict = "(string \<times> variant) list"

fun asString :: "variant \<Rightarrow> string option" where
  "asString (VString s) = Some s" | "asString _ = None"

fun asWord32 :: "variant \<Rightarrow> 32 word option" where
  "asWord32 (VWord32 w) = Some w" | "asWord32 _ = None"

fun asWord64 :: "variant \<Rightarrow> 64 word option" where
  "asWord64 (VWord64 w) = Some w" | "asWord64 _ = None"

fun asBool :: "variant \<Rightarrow> bool option" where
  "asBool (VBool b) = Some b" | "asBool _ = None"

fun asStrings :: "variant \<Rightarrow> string list option" where
  "asStrings (VStrings ss) = Some ss" | "asStrings _ = None"

definition dictGet :: "(variant \<Rightarrow> 'a option) \<Rightarrow> dict \<Rightarrow> string \<Rightarrow> 'a option" where
  "dictGet conv d key = (case map_of d key of Some v \<Rightarrow> conv v | None \<Rightarrow> None)"

definition valueOr :: "'a \<Rightarrow> 'a option \<Rightarrow> 'a" where
  "valueOr x v = (case v of Some y \<Rightarrow> y | None \<Rightarrow> x)"

definition kFwupdInterface :: string where "kFwupdInterface = ''org.freedesktop.fwupd''"
definition kDeviceFlagUpdatable :: "64 word" where "kDeviceFlagUpdatable = push_bit 1 1"
definition kDeviceFlagSupported :: "64 word" where "kDeviceFlagSupported = push_bit 5 1"
definition kDeviceFlagNeedsReboot :: "64 word" where "kDeviceFlagNeedsReboot = push_bit 8 1"
definition kReleaseFlagIsUpgrade :: "64 word" where "kReleaseFlagIsUpgrade = push_bit 2 1"
definition kUpdateStatePending :: "32 word" where "kUpdateStatePending = 1"
definition kUpdateStateSuccess :: "32 word" where "kUpdateStateSuccess = 2"
definition kUpdateStateFailed :: "32 word" where "kUpdateStateFailed = 3"
definition kUpdateStateNeedsReboot :: "32 word" where "kUpdateStateNeedsReboot = 4"

lemmas updateStates = kUpdateStatePending_def kUpdateStateSuccess_def kUpdateStateFailed_def kUpdateStateNeedsReboot_def

record parsed_device =
  pd_deviceId :: string
  pd_name :: string
  pd_vendor :: string
  pd_version :: string
  pd_facts :: update_facts

definition parseDevice :: "dict \<Rightarrow> parsed_device option" where
  "parseDevice d =
     (let deviceId = valueOr [] (dictGet asString d ''DeviceId'') in
      case dictGet asString d ''Version'' of
        None \<Rightarrow> None
      | Some version \<Rightarrow>
          if deviceId = [] then None
          else (let flags = valueOr 0 (dictGet asWord64 d ''Flags'')
                in Some \<lparr>pd_deviceId = deviceId,
                     pd_name = valueOr ''(unnamed device)'' (dictGet asString d ''Name''),
                     pd_vendor = valueOr [] (dictGet asString d ''Vendor''),
                     pd_version = version,
                     pd_facts = \<lparr>uf_updatable = (flags AND kDeviceFlagUpdatable \<noteq> 0),
                       uf_supported = (flags AND kDeviceFlagSupported \<noteq> 0),
                       uf_needsReboot = (flags AND kDeviceFlagNeedsReboot \<noteq> 0)\<rparr>\<rparr>))"

definition parseRelease :: "dict \<Rightarrow> release_info option" where
  "parseRelease d =
     (case dictGet asString d ''Version'' of
        None \<Rightarrow> None
      | Some version \<Rightarrow>
          Some \<lparr>rel_version = version,
            rel_summary = valueOr [] (dictGet asString d ''Summary''),
            rel_remoteId = valueOr [] (dictGet asString d ''RemoteId''),
            rel_checksum = valueOr [] (dictGet asString d ''Checksum''),
            rel_locations =
              (case dictGet asStrings d ''Locations'' of
                 Some (l # ls) \<Rightarrow> l # ls
               | _ \<Rightarrow> (case dictGet asString d ''Uri'' of Some uri \<Rightarrow> if uri \<noteq> [] then [uri] else [] | None \<Rightarrow> [])),
            rel_localCab = False,
            rel_sizeBytes = unat (valueOr 0 (dictGet asWord64 d ''Size'')),
            rel_isUpgrade = (valueOr 0 (dictGet asWord64 d ''Flags'') AND kReleaseFlagIsUpgrade \<noteq> 0),
            rel_duration = map_option unat (dictGet asWord32 d ''InstallDuration'')\<rparr>)"

definition isNothingToDo :: "string \<Rightarrow> bool" where
  "isNothingToDo name \<longleftrightarrow> name = ''org.freedesktop.fwupd.NothingToDo''"

definition mapError :: "string \<Rightarrow> string \<Rightarrow> error" where
  "mapError name message =
     (let txt = (if name = [] then ''fwupd'' else name) @ (if message = [] then '': unknown error'' else '': '' @ message) in
      if name = ''org.freedesktop.fwupd.AuthFailed'' then \<lparr>err_code = Permission, err_message = txt\<rparr>
      else if name = ''org.freedesktop.fwupd.NothingToDo'' \<or> name = ''org.freedesktop.fwupd.VersionNewer''
      then \<lparr>err_code = Conflict, err_message = txt\<rparr>
      else if name = ''org.freedesktop.fwupd.NeedsUserAction'' then \<lparr>err_code = Busy, err_message = txt\<rparr>
      else \<lparr>err_code = Io, err_message = txt\<rparr>)"

definition dispositionFromUpdateState :: "32 word \<Rightarrow> install_disposition" where
  "dispositionFromUpdateState state =
     (if state = kUpdateStateNeedsReboot then NeedsReboot
      else if state = kUpdateStatePending then Scheduled else Completed)"

definition parseHistoryEntry :: "dict \<Rightarrow> pending_action option" where
  "parseHistoryEntry d =
     (let state = valueOr 0 (dictGet asWord32 d ''UpdateState'') in
      if state \<noteq> kUpdateStatePending \<and> state \<noteq> kUpdateStateNeedsReboot then None
      else Some \<lparr>pa_providerId = ''fwupd'', pa_deviceId = valueOr [] (dictGet asString d ''DeviceId''),
             pa_deviceName = valueOr [] (dictGet asString d ''Name''), pa_disposition = dispositionFromUpdateState state,
             pa_version = valueOr [] (dictGet asString d ''Version'')\<rparr>)"

definition kStatusNames :: "string list" where
  "kStatusNames = [''unknown'', ''idle'', ''loading'', ''decompressing'', ''device-restart'', ''device-write'',
     ''device-verify'', ''scheduling'', ''downloading'', ''device-read'', ''device-erase'', ''waiting-for-auth'',
     ''device-busy'', ''shutdown'', ''waiting-for-user'']"

definition statusName :: "32 word \<Rightarrow> string" where
  "statusName status = (if unat status < length kStatusNames then kStatusNames ! unat status else hd kStatusNames)"

section \<open>Firmware files\<close>

record remote_ref =
  rr_id :: string
  rr_kind :: string
  rr_filenameCache :: string

text \<open>What the file system answers: a canonical path, and an attempt to open a path without following a link,
  which gives nothing, something that is not a regular file, or a file of some size.\<close>

datatype opened = OpenFails | NotRegular | RegularFile "64 word"

record cab_fs =
  cf_weaklyCanonical :: "string \<Rightarrow> string option"
  cf_open :: "string \<Rightarrow> opened"

record cab_file =
  cab_path :: string
  cab_sizeBytes :: "64 word"

definition kHardCapBytes :: "64 word" where "kHardCapBytes = 512 * 1024 * 1024"
definition kFileScheme :: string where "kFileScheme = ''file://''"

definition findRemote :: "remote_ref list \<Rightarrow> string \<Rightarrow> remote_ref option" where
  "findRemote remotes i = find (\<lambda>r. rr_id r = i) remotes"

text \<open>The empty string stands for a location that is not a local path.\<close>

definition candidatePath :: "string \<Rightarrow> remote_ref list \<Rightarrow> string \<Rightarrow> string" where
  "candidatePath loc remotes remoteId =
     (if loc = [] then []
      else if starts_with loc kFileScheme then drop (length kFileScheme) loc
      else if contains loc ''://'' then []
      else if hd loc = CHR ''/'' then loc
      else case findRemote remotes remoteId of
        None \<Rightarrow> []
      | Some remote \<Rightarrow> if rr_kind remote \<noteq> ''directory'' then [] else pathJoin (rr_filenameCache remote) loc)"

definition escapesRoot :: "cab_fs \<Rightarrow> string \<Rightarrow> string \<Rightarrow> bool" where
  "escapesRoot fs candidate root =
     (case cf_weaklyCanonical fs candidate of None \<Rightarrow> True | Some canon \<Rightarrow>
      case cf_weaklyCanonical fs root of None \<Rightarrow> True | Some canonRoot \<Rightarrow>
      let rel = lexicallyRelative canon canonRoot in
      rel = [] \<or> starts_with (join ''/'' rel) ''..'')"

definition relativeEscapeError :: "cab_fs \<Rightarrow> string \<Rightarrow> string \<Rightarrow> remote_ref list \<Rightarrow> string \<Rightarrow> string option" where
  "relativeEscapeError fs loc path remotes remoteId =
     (if hd loc = CHR ''/'' \<or> starts_with loc kFileScheme then None
      else case findRemote remotes remoteId of
        None \<Rightarrow> Some (''cab location escapes remote directory: '' @ loc)
      | Some remote \<Rightarrow>
          if escapesRoot fs path (rr_filenameCache remote)
          then Some (''cab location escapes remote directory: '' @ loc) else None)"

text \<open>The sum may wrap around; the cap is never above the hard one.\<close>

definition sizeCap :: "64 word \<Rightarrow> 64 word" where
  "sizeCap expected = (if expected > 0 then min (expected + expected div 2) kHardCapBytes else kHardCapBytes)"

definition openAndValidate :: "cab_fs \<Rightarrow> string \<Rightarrow> 64 word \<Rightarrow> cab_file result" where
  "openAndValidate fs path expected =
     (case cf_open fs path of
        OpenFails \<Rightarrow> makeError NotFound (''cannot open firmware file: '' @ path)
      | NotRegular \<Rightarrow> makeError Unsupported (''firmware location is not a regular file: '' @ path)
      | RegularFile bytes \<Rightarrow>
          if bytes = 0 \<or> bytes > sizeCap expected
          then makeError Unsupported (''firmware file size out of bounds: '' @ path)
          else Inr \<lparr>cab_path = path, cab_sizeBytes = bytes\<rparr>)"

definition isLocallyResolvable :: "string list \<Rightarrow> remote_ref list \<Rightarrow> string \<Rightarrow> bool" where
  "isLocallyResolvable locations remotes remoteId = list_ex (\<lambda>loc. candidatePath loc remotes remoteId \<noteq> []) locations"

fun resolveAndOpenCab :: "cab_fs \<Rightarrow> string list \<Rightarrow> remote_ref list \<Rightarrow> string \<Rightarrow> 64 word \<Rightarrow> cab_file result" where
  "resolveAndOpenCab fs [] remotes remoteId expected =
     makeError Unsupported ''no locally-resolvable firmware location (run `fwupdmgr update`)''"
| "resolveAndOpenCab fs (loc # locs) remotes remoteId expected =
     (let path = candidatePath loc remotes remoteId in
      if path = [] then resolveAndOpenCab fs locs remotes remoteId expected
      else case relativeEscapeError fs loc path remotes remoteId of
        Some escape \<Rightarrow> makeError Unsupported escape
      | None \<Rightarrow> openAndValidate fs path expected)"

section \<open>What is opened\<close>

lemma sizeCap_hard: "sizeCap expected \<le> kHardCapBytes"
  by (simp add: sizeCap_def)

lemma openAndValidate_Inr:
  assumes "openAndValidate fs path expected = Inr cab"
  shows "cab_path cab = path" "cf_open fs path = RegularFile (cab_sizeBytes cab)" "0 < cab_sizeBytes cab"
    "cab_sizeBytes cab \<le> sizeCap expected"
  using assms by (auto simp: openAndValidate_def makeError_def word_gt_0 not_less split: opened.splits if_splits)

lemma resolve_first:
  "resolveAndOpenCab fs locs remotes remoteId expected =
     (case find (\<lambda>loc. candidatePath loc remotes remoteId \<noteq> []) locs of
        None \<Rightarrow> makeError Unsupported ''no locally-resolvable firmware location (run `fwupdmgr update`)''
      | Some loc \<Rightarrow>
          (case relativeEscapeError fs loc (candidatePath loc remotes remoteId) remotes remoteId of
             Some escape \<Rightarrow> makeError Unsupported escape
           | None \<Rightarrow> openAndValidate fs (candidatePath loc remotes remoteId) expected))"
  by (induction locs) (simp_all add: Let_def)

text \<open>A release that is offered for installation is one whose opening is at least tried.\<close>

lemma resolvable_iff:
  "isLocallyResolvable locs remotes remoteId \<longleftrightarrow> find (\<lambda>loc. candidatePath loc remotes remoteId \<noteq> []) locs \<noteq> None"
  by (induction locs) (auto simp: isLocallyResolvable_def)

definition relativeLocation :: "string \<Rightarrow> bool" where
  "relativeLocation loc \<longleftrightarrow> loc \<noteq> [] \<and> hd loc \<noteq> CHR ''/'' \<and> \<not> starts_with loc kFileScheme"

text \<open>The numbers of a size that fits, without wrap-around.\<close>

lemma sizeCap_expected:
  assumes "0 < expected" "bytes \<le> sizeCap expected"
  shows "unat bytes \<le> unat expected + unat expected div 2"
proof -
  have "bytes \<le> expected + expected div 2" using assms by (simp add: sizeCap_def)
  then have "unat bytes \<le> unat (expected + expected div 2)" by (simp add: word_le_nat_alt)
  also have "\<dots> \<le> unat expected + unat (expected div 2)" by (simp add: unat_word_ariths)
  finally show ?thesis by (simp add: unat_div)
qed


definition exampleCabFs :: cab_fs where
  "exampleCabFs = \<lparr>cf_weaklyCanonical = (\<lambda>p. if p = ''/var/cabs/a.cab'' \<or> p = ''/var/cabs'' then Some p else None),
     cf_open = (\<lambda>p. if p = ''/var/cabs/a.cab'' then RegularFile 140 else OpenFails)\<rparr>"


end
