(* ===== verification/Fwupd_Provider.thy ===== *)
theory Fwupd_Provider
  imports Fwupd_Contract Facade
begin

unbundle bit_operations_syntax

text \<open>
  \<^verbatim>\<open>platform/linux/src/fwupd_update_provider.cpp\<close>: the provider that asks the fwupd service. The service and
  the bus are a record of functions over a state \<open>'d\<close>; every call may change that state (the service
  goes on between two calls) and may throw. The flags of the provider itself are a record of their own.
\<close>

section \<open>The service\<close>

datatype fw_exn = SdbusError string string | StdError string

datatype install_reply = Replied | ReplyThrows fw_exn | NotReady

record 'd fwupd_bus =
  fb_daemonVersion :: "'d \<Rightarrow> (fw_exn + variant) \<times> 'd"
  fb_notAString :: fw_exn
  fb_getDevices :: "'d \<Rightarrow> (fw_exn + dict list) \<times> 'd"
  fb_getRemotes :: "'d \<Rightarrow> (fw_exn + dict list) \<times> 'd"
  fb_getUpgrades :: "string \<Rightarrow> 'd \<Rightarrow> (fw_exn + dict list) \<times> 'd"
  fb_getHistory :: "'d \<Rightarrow> (fw_exn + dict list) \<times> 'd"
  fb_getResults :: "string \<Rightarrow> 'd \<Rightarrow> (fw_exn + dict) \<times> 'd"
  fb_install :: "string \<Rightarrow> cab_file \<Rightarrow> 32 word \<Rightarrow> 'd \<Rightarrow> ((string \<times> dict) list \<times> install_reply) \<times> 'd"
  fb_files :: "'d \<Rightarrow> cab_fs"
  fb_now :: "'d \<Rightarrow> 64 word"

text \<open>Sequencing of calls that may throw.\<close>

definition fwBind :: "('d \<Rightarrow> (fw_exn + 'a) \<times> 'd) \<Rightarrow> ('a \<Rightarrow> 'd \<Rightarrow> (fw_exn + 'b) \<times> 'd) \<Rightarrow> 'd \<Rightarrow> (fw_exn + 'b) \<times> 'd" where
  "fwBind m f d = (case m d of (Inl e, d1) \<Rightarrow> (Inl e, d1) | (Inr x, d1) \<Rightarrow> f x d1)"

definition fwReturn :: "'a \<Rightarrow> 'd \<Rightarrow> (fw_exn + 'a) \<times> 'd" where
  "fwReturn x d = (Inr x, d)"

lemma fwBind_Inr:
  "fwBind m f d = (Inr y, d2) \<longleftrightarrow> (\<exists>x d1. m d = (Inr x, d1) \<and> f x d1 = (Inr y, d2))"
  by (auto simp: fwBind_def split: prod.splits sum.splits)

definition kRemoteKindDownload :: "32 word" where "kRemoteKindDownload = 1"
definition kRemoteKindDirectory :: "32 word" where "kRemoteKindDirectory = 3"
definition kRequestKindPost :: "32 word" where "kRequestKindPost = 1"
definition kRequestKindImmediate :: "32 word" where "kRequestKindImmediate = 2"
definition kStaleMetadataDays :: "64 word" where "kStaleMetadataDays = 30"
definition kSecondsPerDay :: "64 word" where "kSecondsPerDay = 86400"

fun fwError :: "fw_exn \<Rightarrow> error" where
  "fwError (SdbusError name message) = mapError name message"
| "fwError (StdError what) = \<lparr>err_code = Io, err_message = what\<rparr>"

section \<open>Remotes and notices\<close>

definition parseRemoteRef :: "dict \<Rightarrow> remote_ref" where
  "parseRemoteRef d =
     \<lparr>rr_id = valueOr [] (dictGet asString d ''RemoteId''),
      rr_kind = (if valueOr 0 (dictGet asWord32 d ''Type'') = kRemoteKindDirectory then ''directory'' else ''download''),
      rr_filenameCache = valueOr [] (dictGet asString d ''FilenameCache'')\<rparr>"

definition remoteModificationTime :: "dict \<Rightarrow> 64 word option" where
  "remoteModificationTime d =
     (case dictGet asWord64 d ''ModificationTime'' of Some t \<Rightarrow> Some t | None \<Rightarrow> dictGet asWord64 d ''Mtime'')"

definition staleMetadataNotice :: "dict \<Rightarrow> 64 word \<Rightarrow> string option" where
  "staleMetadataNotice d nowSec =
     (if valueOr 0 (dictGet asWord32 d ''Type'') \<noteq> kRemoteKindDownload then None
      else if \<not> valueOr False (dictGet asBool d ''Enabled'') then None
      else case remoteModificationTime d of
        None \<Rightarrow> None
      | Some mtime \<Rightarrow>
          if mtime \<ge> nowSec then None
          else (let ageDays = (nowSec - mtime) div kSecondsPerDay in
                if ageDays \<le> kStaleMetadataDays then None
                else Some (valueOr ''(unknown remote)'' (dictGet asString d ''RemoteId'') @ '' metadata '' @ show_nat (unat ageDays) @
                       '' days old '' @ dash @ '' run fwupdmgr refresh'')))"

definition failedHistoryNotice :: "dict list \<Rightarrow> string option" where
  "failedHistoryNotice history =
     (let failed = length (filter (\<lambda>d. valueOr 0 (dictGet asWord32 d ''UpdateState'') = kUpdateStateFailed) history) in
      if failed \<le> 0 then None
      else Some (show_nat failed @ '' previous update(s) failed '' @ dash @ '' see fwupdmgr history''))"

definition collectNotices :: "'d fwupd_bus \<Rightarrow> 'd \<Rightarrow> string list \<times> 'd" where
  "collectNotices p d =
     (let (history, d1) = fb_getHistory p d;
          n1 = (case history of Inl e \<Rightarrow> [] | Inr hs \<Rightarrow> (case failedHistoryNotice hs of Some n \<Rightarrow> [n] | None \<Rightarrow> []));
          (remotes, d2) = fb_getRemotes p d1;
          n2 = (case remotes of Inl e \<Rightarrow> [] | Inr rs \<Rightarrow> List.map_filter (\<lambda>r. staleMetadataNotice r (fb_now p d2)) rs)
      in (n1 @ n2, d2))"

section \<open>Queries\<close>

text \<open>A release is identified by its remote and its checksum.\<close>

definition dedupeReleases :: "release_info list \<Rightarrow> release_info list" where
  "dedupeReleases rs =
     foldl (\<lambda>out r. if list_ex (\<lambda>e. rel_remoteId e = rel_remoteId r \<and> rel_checksum e = rel_checksum r) out
                   then out else out @ [r]) [] rs"

record upgrades_outcome =
  uo_releases :: "release_info list"
  uo_queryError :: "string option"

definition fetchUpgrades :: "'d fwupd_bus \<Rightarrow> string \<Rightarrow> remote_ref list \<Rightarrow> 'd \<Rightarrow> (fw_exn + upgrades_outcome) \<times> 'd" where
  "fetchUpgrades p deviceId remotes d =
     (case fb_getUpgrades p deviceId d of
        (Inl (SdbusError name message), d1) \<Rightarrow>
          if isNothingToDo name then (Inr \<lparr>uo_releases = [], uo_queryError = None\<rparr>, d1)
          else (Inr \<lparr>uo_releases = [], uo_queryError = Some (err_message (mapError name message))\<rparr>, d1)
      | (Inl (StdError what), d1) \<Rightarrow> (Inl (StdError what), d1)
      | (Inr raw, d1) \<Rightarrow>
          (Inr \<lparr>uo_releases = map (\<lambda>r. r\<lparr>rel_localCab := isLocallyResolvable (rel_locations r) remotes (rel_remoteId r)\<rparr>)
                 (dedupeReleases (List.map_filter parseRelease raw)), uo_queryError = None\<rparr>, d1))"

definition buildCandidate :: "'d fwupd_bus \<Rightarrow> parsed_device \<Rightarrow> remote_ref list \<Rightarrow> 'd \<Rightarrow> (fw_exn + update_candidate) \<times> 'd" where
  "buildCandidate p dev remotes =
     fwBind (if uf_updatable (pd_facts dev) then fetchUpgrades p (pd_deviceId dev) remotes
             else fwReturn \<lparr>uo_releases = [], uo_queryError = None\<rparr>)
       (\<lambda>oc. fwReturn \<lparr>uc_providerId = ''fwupd'', uc_id = pd_deviceId dev, uc_displayName = pd_name dev,
          uc_currentVersion = pd_version dev,
          uc_candidateVersion = (case uo_releases oc of [] \<Rightarrow> None | r # rs \<Rightarrow> Some (rel_version r)),
          uc_facts = pd_facts dev, uc_releases = uo_releases oc,
          uc_details = (''vendor'', pd_vendor dev) #
            (case uo_queryError oc of Some e \<Rightarrow> [(''upgrades'', ''query failed: '' @ e)] | None \<Rightarrow> [])\<rparr>)"

fun buildCandidates :: "'d fwupd_bus \<Rightarrow> dict list \<Rightarrow> remote_ref list \<Rightarrow> 'd \<Rightarrow> (fw_exn + update_candidate list) \<times> 'd" where
  "buildCandidates p [] remotes = fwReturn []"
| "buildCandidates p (dd # dds) remotes =
     (case parseDevice dd of
        None \<Rightarrow> buildCandidates p dds remotes
      | Some dev \<Rightarrow> fwBind (buildCandidate p dev remotes) (\<lambda>c.
          fwBind (buildCandidates p dds remotes) (\<lambda>cs. fwReturn (c # cs))))"

definition requestKindToString :: "32 word \<Rightarrow> string" where
  "requestKindToString kind =
     (if kind = kRequestKindPost then ''post'' else if kind = kRequestKindImmediate then ''immediate'' else show_nat (unat kind))"

section \<open>The provider\<close>

text \<open>The sink is absent, or present with a function or without one.\<close>

record fwupd_impl =
  fi_proxy :: bool
  fi_initError :: string
  fi_accepting :: bool
  fi_installing :: bool
  fi_sink :: "bool option"

definition new_impl :: "string option \<Rightarrow> fwupd_impl" where
  "new_impl failure = \<lparr>fi_proxy = (failure = None), fi_initError = (case failure of Some e \<Rightarrow> e | None \<Rightarrow> []),
     fi_accepting = True, fi_installing = False, fi_sink = None\<rparr>"

definition fi_teardown :: "fwupd_impl \<Rightarrow> fwupd_impl" where
  "fi_teardown i = i\<lparr>fi_accepting := False, fi_proxy := False\<rparr>"

definition fw_availability :: "'d fwupd_bus \<Rightarrow> fwupd_impl \<Rightarrow> 'd \<Rightarrow> provider_availability \<times> 'd" where
  "fw_availability p i d =
     (if \<not> fi_proxy i
      then (\<lparr>pav_available = False, pav_version = None,
             pav_error = Some \<lparr>err_code = Io, err_message = fi_initError i\<rparr>, pav_notices = []\<rparr>, d)
      else case fb_daemonVersion p d of
        (Inl e, d1) \<Rightarrow> (\<lparr>pav_available = False, pav_version = None, pav_error = Some (fwError e), pav_notices = []\<rparr>, d1)
      | (Inr v, d1) \<Rightarrow>
          (case asString v of
             None \<Rightarrow> (\<lparr>pav_available = True, pav_version = None, pav_error = Some (fwError (fb_notAString p)), pav_notices = []\<rparr>, d1)
           | Some version \<Rightarrow>
               (let (notices, d2) = collectNotices p d1
                in (\<lparr>pav_available = True, pav_version = Some version, pav_error = None, pav_notices = notices\<rparr>, d2))))"

definition fw_enumerate :: "'d fwupd_bus \<Rightarrow> fwupd_impl \<Rightarrow> 'd \<Rightarrow> update_candidate list result \<times> 'd" where
  "fw_enumerate p i d =
     (if \<not> fi_proxy i then (makeError Io (fi_initError i), d)
      else case fwBind (fb_getDevices p) (\<lambda>dds. fwBind (fb_getRemotes p) (\<lambda>rds.
             buildCandidates p dds (map parseRemoteRef rds))) d of
        (Inl e, d1) \<Rightarrow> (Inl (fwError e), d1)
      | (Inr out, d1) \<Rightarrow> (Inr out, d1))"

definition fw_pendingActions :: "'d fwupd_bus \<Rightarrow> fwupd_impl \<Rightarrow> 'd \<Rightarrow> pending_action list result \<times> 'd" where
  "fw_pendingActions p i d =
     (if \<not> fi_proxy i then (makeError Io (fi_initError i), d)
      else case fb_getHistory p d of
        (Inr raw, d1) \<Rightarrow> (Inr (List.map_filter parseHistoryEntry raw), d1)
      | (Inl (SdbusError name message), d1) \<Rightarrow>
          if isNothingToDo name then (Inr [], d1) else (Inl (mapError name message), d1)
      | (Inl (StdError what), d1) \<Rightarrow> (makeError Io what, d1))"

section \<open>Signals\<close>

definition publishChanged :: "fwupd_impl \<Rightarrow> event list" where
  "publishChanged i = (if \<not> fi_accepting i then [] else [UpdatesChangedEvent])"

definition onDeviceListSignal :: "fwupd_impl \<Rightarrow> event list" where
  "onDeviceListSignal i = (if \<not> fi_accepting i then [] else publishChanged i)"

definition publishUpdateRequest :: "fwupd_impl \<Rightarrow> dict \<Rightarrow> event list" where
  "publishUpdateRequest i d =
     (if \<not> fi_accepting i then []
      else [UpdateRequestEvent ''fwupd'' (valueOr [] (dictGet asString d ''DeviceId''))
              (requestKindToString (valueOr 0 (dictGet asWord32 d ''RequestKind'')))
              (valueOr [] (dictGet asString d ''UpdateMessage''))])"

definition onDeviceRequestSignal :: "fwupd_impl \<Rightarrow> dict \<Rightarrow> event list" where
  "onDeviceRequestSignal i d = (if \<not> fi_accepting i then [] else publishUpdateRequest i d)"

definition onNameOwnerChanged :: "fwupd_impl \<Rightarrow> string \<Rightarrow> event list" where
  "onNameOwnerChanged i name =
     (if \<not> fi_accepting i then [] else if name = ''org.freedesktop.fwupd'' then publishChanged i else [])"

definition onPropertiesChanged :: "fwupd_impl \<Rightarrow> string \<Rightarrow> dict \<Rightarrow> progress_update list" where
  "onPropertiesChanged i interfaceName changed =
     (if \<not> fi_accepting i then []
      else if interfaceName \<noteq> kFwupdInterface then []
      else if fi_sink i \<noteq> Some True then []
      else [\<lparr>pr_percent = (case dictGet asWord32 changed ''Percentage'' of
                None \<Rightarrow> - 1 | Some percentage \<Rightarrow> if percentage > 100 then - 1 else int (unat percentage)),
             pr_stage = statusName (valueOr 0 (dictGet asWord32 changed ''Status''))\<rparr>])"

section \<open>Installation\<close>

definition fetchDevice :: "'d fwupd_bus \<Rightarrow> string \<Rightarrow> 'd \<Rightarrow> (fw_exn + parsed_device option) \<times> 'd" where
  "fetchDevice p deviceId =
     fwBind (fb_getDevices p) (\<lambda>dds. fwReturn (find (\<lambda>dev. pd_deviceId dev = deviceId) (List.map_filter parseDevice dds)))"

definition fetchRelease :: "'d fwupd_bus \<Rightarrow> string \<Rightarrow> release_ref \<Rightarrow> 'd \<Rightarrow> (fw_exn + release_info option) \<times> 'd" where
  "fetchRelease p deviceId ref =
     fwBind (fetchUpgrades p deviceId []) (\<lambda>oc. fwReturn
       (if uo_queryError oc \<noteq> None then None
        else find (\<lambda>r. rel_remoteId r = ref_remoteId ref \<and> rel_checksum r = ref_checksum ref) (uo_releases oc)))"

definition fetchRemotes :: "'d fwupd_bus \<Rightarrow> 'd \<Rightarrow> (fw_exn + remote_ref list) \<times> 'd" where
  "fetchRemotes p = fwBind (fb_getRemotes p) (\<lambda>rds. fwReturn (map parseRemoteRef rds))"

definition resultState :: "'d fwupd_bus \<Rightarrow> string \<Rightarrow> 'd \<Rightarrow> (fw_exn + 32 word) \<times> 'd" where
  "resultState p deviceId d =
     (case fb_getResults p deviceId d of
        (Inr results, d1) \<Rightarrow> (Inr (valueOr kUpdateStateSuccess (dictGet asWord32 results ''UpdateState'')), d1)
      | (Inl (SdbusError name message), d1) \<Rightarrow>
          (if isNothingToDo name then Inr kUpdateStateSuccess else Inl (SdbusError name message), d1)
      | (Inl (StdError what), d1) \<Rightarrow> (Inl (StdError what), d1))"

definition outcomeOf :: "32 word \<Rightarrow> parsed_device \<Rightarrow> parsed_device option \<Rightarrow> install_outcome" where
  "outcomeOf st preDevice freshDevice =
     (let disposition = dispositionFromUpdateState st;
          newVersion = (case freshDevice of Some dev \<Rightarrow> pd_version dev | None \<Rightarrow> pd_version preDevice);
          observedVersion = (if newVersion \<noteq> pd_version preDevice then Some newVersion else None);
          needsReboot = (disposition = NeedsReboot \<or>
            uf_needsReboot (pd_facts (case freshDevice of Some dev \<Rightarrow> dev | None \<Rightarrow> preDevice)))
      in \<lparr>io_disposition = disposition, io_needsReboot = needsReboot, io_observedVersion = observedVersion,
          io_message =
            (if needsReboot then ''reboot required to apply '' @ valueOr newVersion observedVersion
             else if disposition = Scheduled then ''scheduled for next boot''
             else ''installed '' @ valueOr newVersion observedVersion)\<rparr>)"

definition finalize :: "'d fwupd_bus \<Rightarrow> string \<Rightarrow> parsed_device \<Rightarrow> 'd \<Rightarrow> (fw_exn + install_outcome) \<times> 'd" where
  "finalize p deviceId preDevice =
     fwBind (resultState p deviceId) (\<lambda>st.
     fwBind (fetchDevice p deviceId) (\<lambda>freshDevice. fwReturn (outcomeOf st preDevice freshDevice)))"

definition installTimeout :: "release_info \<Rightarrow> 32 word" where
  "installTimeout r = max (of_nat (valueOr 0 (rel_duration r)) * 2) 600"

text \<open>Between the preflight and the reply: the sink is set, and every change of a property that arrives
  while the call runs is forwarded.\<close>

definition callInstall ::
  "'d fwupd_bus \<Rightarrow> fwupd_impl \<Rightarrow> bool \<Rightarrow> string \<Rightarrow> parsed_device \<Rightarrow> release_info \<Rightarrow> cab_file \<Rightarrow> 'd \<Rightarrow>
   (progress_update list \<times> (fw_exn + install_outcome result)) \<times> 'd" where
  "callInstall p i hasProgress candidateId dev fresh cab d =
     (let i1 = i\<lparr>fi_sink := Some hasProgress\<rparr>;
          ((signals, reply), d1) = fb_install p candidateId cab (installTimeout fresh) d;
          progress = concat (map (\<lambda>(interfaceName, changed). onPropertiesChanged i1 interfaceName changed) signals)
      in case reply of
        NotReady \<Rightarrow> ((progress, Inr (makeError Io (''install timed out '' @ dash @ '' state reconciled on next refresh''))), d1)
      | ReplyThrows e \<Rightarrow> ((progress, Inl e), d1)
      | Replied \<Rightarrow>
          (case finalize p candidateId dev d1 of
             (Inl e, d2) \<Rightarrow> ((progress, Inl e), d2)
           | (Inr oc, d2) \<Rightarrow> ((progress, Inr (Inr oc)), d2)))"

datatype preflight = Refused error | Ready parsed_device release_info cab_file

definition deviceChanged :: error where
  "deviceChanged = \<lparr>err_code = Conflict, err_message = ''device changed since refresh '' @ dash @ '' refresh & retry''\<rparr>"

definition releaseChanged :: error where
  "releaseChanged = \<lparr>err_code = Conflict, err_message = ''release changed since refresh '' @ dash @ '' refresh & retry''\<rparr>"

definition openRelease :: "'d fwupd_bus \<Rightarrow> parsed_device \<Rightarrow> release_info \<Rightarrow> 'd \<Rightarrow> (fw_exn + preflight) \<times> 'd" where
  "openRelease p dev fresh =
     fwBind (fetchRemotes p) (\<lambda>remotes d.
       case resolveAndOpenCab (fb_files p d) (rel_locations fresh) remotes (rel_remoteId fresh) (of_nat (rel_sizeBytes fresh)) of
         Inl e \<Rightarrow> (Inr (Refused e), d)
       | Inr cab \<Rightarrow> (Inr (Ready dev fresh cab), d))"

definition checkRelease :: "'d fwupd_bus \<Rightarrow> string \<Rightarrow> release_ref \<Rightarrow> parsed_device \<Rightarrow> 'd \<Rightarrow> (fw_exn + preflight) \<times> 'd" where
  "checkRelease p candidateId release dev =
     fwBind (fetchRelease p candidateId release) (\<lambda>offered.
       case offered of None \<Rightarrow> fwReturn (Refused releaseChanged) | Some fresh \<Rightarrow> openRelease p dev fresh)"

definition preflightChecks :: "'d fwupd_bus \<Rightarrow> string \<Rightarrow> release_ref \<Rightarrow> 'd \<Rightarrow> (fw_exn + preflight) \<times> 'd" where
  "preflightChecks p candidateId release =
     fwBind (fetchDevice p candidateId) (\<lambda>found.
       case found of
         None \<Rightarrow> fwReturn (Refused deviceChanged)
       | Some dev \<Rightarrow> if \<not> uf_updatable (pd_facts dev) then fwReturn (Refused deviceChanged)
                     else checkRelease p candidateId release dev)"

fun installError :: "fw_exn \<Rightarrow> error" where
  "installError (SdbusError name message) = mapError name message"
| "installError (StdError what) = \<lparr>err_code = Io, err_message = ''install failed: '' @ what\<rparr>"

definition fi_claim :: "fwupd_impl \<Rightarrow> fwupd_impl" where
  "fi_claim i = i\<lparr>fi_installing := True\<rparr>"

definition fi_release :: "fwupd_impl \<Rightarrow> fwupd_impl" where
  "fi_release i = i\<lparr>fi_sink := None, fi_installing := False\<rparr>"

definition fw_install ::
  "'d fwupd_bus \<Rightarrow> bool \<Rightarrow> string \<Rightarrow> release_ref \<Rightarrow> fwupd_impl \<times> 'd \<Rightarrow>
   (progress_update list \<times> install_outcome result) \<times> fwupd_impl \<times> 'd" where
  "fw_install p hasProgress candidateId release = (\<lambda>(i, d).
     if \<not> fi_proxy i then (([], makeError Io ''fwupd unavailable''), i, d)
     else if fi_installing i then (([], makeError Busy ''another update is in progress''), i, d)
     else (let i1 = fi_claim i in
       case preflightChecks p candidateId release d of
         (Inl e, d1) \<Rightarrow> (([], Inl (installError e)), fi_release i1, d1)
       | (Inr (Refused e), d1) \<Rightarrow> (([], Inl e), fi_release i1, d1)
       | (Inr (Ready dev fresh cab), d1) \<Rightarrow>
           (case callInstall p i1 hasProgress candidateId dev fresh cab d1 of
              ((progress, Inl e), d2) \<Rightarrow> ((progress, Inl (installError e)), fi_release i1, d2)
            | ((progress, Inr r), d2) \<Rightarrow> ((progress, r), fi_release i1, d2))))"

definition fwupdProvider :: "'d fwupd_bus \<Rightarrow> (fwupd_impl \<times> 'd) provider" where
  "fwupdProvider p =
     \<lparr>up_id = ''fwupd'', up_caps = [Query, Install],
      up_availability = (\<lambda>(i, d). fst (fw_availability p i d)),
      up_enumerate = (\<lambda>(i, d). fst (fw_enumerate p i d)),
      up_pending = (\<lambda>(i, d). fst (fw_pendingActions p i d)),
      up_install = fw_install p True\<rparr>"

end
