(* ===== verification/Fwupd_Facts.thy ===== *)
theory Fwupd_Facts
  imports Fwupd_Provider
begin

unbundle bit_operations_syntax

text \<open>
  What the provider of \<^verbatim>\<open>Fwupd_Provider\<close> reports and when it installs: the gate, the checks against what
  the service offers at that moment, the releases without duplicates, the notices and the signals.
\<close>

section \<open>Releases\<close>

definition releaseKey :: "release_info \<Rightarrow> string \<times> string" where
  "releaseKey r = (rel_remoteId r, rel_checksum r)"

lemma dedupe_fold:
  assumes "distinct (map releaseKey out)"
  defines "step \<equiv> \<lambda>out r. if list_ex (\<lambda>e. rel_remoteId e = rel_remoteId r \<and> rel_checksum e = rel_checksum r) out then out else out @ [r]"
  shows "distinct (map releaseKey (foldl step out rs)) \<and> set (foldl step out rs) \<subseteq> set out \<union> set rs \<and>
    releaseKey ` set (foldl step out rs) = releaseKey ` (set out \<union> set rs)"
  using assms(1)
proof (induction rs arbitrary: out)
  case (Cons r rs)
  have dup: "list_ex (\<lambda>e. rel_remoteId e = rel_remoteId r \<and> rel_checksum e = rel_checksum r) out \<longleftrightarrow> releaseKey r \<in> releaseKey ` set out"
    by (auto simp: releaseKey_def list_ex_iff image_iff) (metis+)?
  show ?case
  proof (cases "releaseKey r \<in> releaseKey ` set out")
    case True
    then have "step out r = out" using dup by (simp add: step_def)
    with Cons.IH [OF Cons.prems] True show ?thesis by (auto simp: image_Un insert_absorb)
  next
    case False
    then have s: "step out r = out @ [r]" using dup by (simp add: step_def)
    have "distinct (map releaseKey (out @ [r]))" using Cons.prems False by auto
    from Cons.IH [OF this] show ?thesis by (auto simp: s)
  qed
qed simp

lemma dedupeReleases_spec:
  "distinct (map releaseKey (dedupeReleases rs))" "set (dedupeReleases rs) \<subseteq> set rs"
  "releaseKey ` set (dedupeReleases rs) = releaseKey ` set rs"
  using dedupe_fold [of "[]" rs] by (simp_all add: dedupeReleases_def)

text \<open>Every installable release the service offers is a row, once, and no row is made up.\<close>

lemma fetchUpgrades_rows:
  assumes "fb_getUpgrades p i d = (Inr raw, d1)"
  shows "\<exists>rs. fetchUpgrades p i remotes d = (Inr \<lparr>uo_releases = rs, uo_queryError = None\<rparr>, d1) \<and>
    distinct (map releaseKey rs) \<and>
    releaseKey ` set rs = releaseKey ` {r. \<exists>dd \<in> set raw. parseRelease dd = Some r}"
proof -
  let ?f = "\<lambda>r. r\<lparr>rel_localCab := isLocallyResolvable (rel_locations r) remotes (rel_remoteId r)\<rparr>"
  let ?in = "List.map_filter parseRelease raw"
  have key: "releaseKey (?f r) = releaseKey r" for r by (simp add: releaseKey_def)
  have m: "map releaseKey (map ?f (dedupeReleases ?in)) = map releaseKey (dedupeReleases ?in)" by (simp add: key)
  have "set ?in = {r. \<exists>dd \<in> set raw. parseRelease dd = Some r}" by (force simp: map_filter_def)
  moreover have "releaseKey ` set (map ?f (dedupeReleases ?in)) = releaseKey ` set (dedupeReleases ?in)"
    using arg_cong [OF m, of set] by (simp only: list.set_map)
  ultimately have "releaseKey ` set (map ?f (dedupeReleases ?in)) = releaseKey ` {r. \<exists>dd \<in> set raw. parseRelease dd = Some r}"
    using dedupeReleases_spec(3) [of ?in] by (simp only:)
  moreover have "distinct (map releaseKey (map ?f (dedupeReleases ?in)))" using dedupeReleases_spec(1) [of ?in] m by (simp only:)
  moreover have "fetchUpgrades p i remotes d = (Inr \<lparr>uo_releases = map ?f (dedupeReleases ?in), uo_queryError = None\<rparr>, d1)"
    by (simp add: fetchUpgrades_def assms)
  ultimately show ?thesis by blast
qed

section \<open>Notices\<close>

text \<open>The age is computed only of a time in the past, so the subtraction does not wrap around.\<close>

lemma stale_notice_iff:
  "staleMetadataNotice d now \<noteq> None \<longleftrightarrow>
     valueOr 0 (dictGet asWord32 d ''Type'') = kRemoteKindDownload \<and> valueOr False (dictGet asBool d ''Enabled'') \<and>
     (\<exists>mtime. remoteModificationTime d = Some mtime \<and> unat mtime < unat now \<and> 30 < (unat now - unat mtime) div 86400)"
proof -
  have "(now - mtime) div kSecondsPerDay \<le> kStaleMetadataDays \<longleftrightarrow> (unat now - unat mtime) div 86400 \<le> 30"
    if "mtime < now" for mtime
    by (simp add: word_le_nat_alt unat_div kSecondsPerDay_def kStaleMetadataDays_def unat_sub [OF order_less_imp_le [OF that]])
  moreover have "mtime \<ge> now \<longleftrightarrow> \<not> unat mtime < unat now" for mtime
    by (simp add: word_le_nat_alt not_less)
  ultimately show ?thesis
    by (auto simp: staleMetadataNotice_def Let_def word_less_nat_alt not_le split: option.splits)
qed

lemma failed_notice_iff:
  "failedHistoryNotice hs \<noteq> None \<longleftrightarrow> (\<exists>h \<in> set hs. valueOr 0 (dictGet asWord32 h ''UpdateState'') = kUpdateStateFailed)"
  by (auto simp: failedHistoryNotice_def Let_def filter_empty_conv)

text \<open>The service is reported as available and broken at once when its version is not a string.\<close>

lemma available_with_an_error:
  assumes "fi_proxy i" "fb_daemonVersion p d = (Inr v, d1)" "asString v = None"
  shows "pav_available (fst (fw_availability p i d)) \<and> pav_error (fst (fw_availability p i d)) \<noteq> None"
  using assms by (simp add: fw_availability_def)

section \<open>Signals\<close>

lemma no_signal_after_teardown:
  "onDeviceListSignal (fi_teardown i) = []" "onDeviceRequestSignal (fi_teardown i) dd = []"
  "onNameOwnerChanged (fi_teardown i) name = []" "onPropertiesChanged (fi_teardown i) iface dd = []"
  by (simp_all add: fi_teardown_def onDeviceListSignal_def onDeviceRequestSignal_def onNameOwnerChanged_def
      onPropertiesChanged_def)

lemma progress_percent_bounds:
  assumes "u \<in> set (onPropertiesChanged i iface dd)"
  shows "- 1 \<le> pr_percent u \<and> pr_percent u \<le> 100 \<and> pr_stage u \<in> set kStatusNames"
proof -
  have stage: "statusName w \<in> set kStatusNames" for w
  proof -
    have "kStatusNames \<noteq> []" by (simp add: kStatusNames_def)
    then show ?thesis unfolding statusName_def using hd_in_set nth_mem by metis
  qed
  have percent: "- 1 \<le> (case v of None \<Rightarrow> - 1 | Some x \<Rightarrow> if x > 100 then - 1 else int (unat x)) \<and>
      (case v of None \<Rightarrow> - 1 | Some x \<Rightarrow> if x > 100 then - 1 else int (unat x)) \<le> 100" for v :: "32 word option"
  proof (cases v)
    case (Some x)
    have "int (unat x) \<le> 100" if "\<not> x > 100"
    proof -
      have "unat x \<le> unat (100 :: 32 word)" using that unfolding not_less word_le_nat_alt .
      then have "unat x \<le> 100" by simp
      then show ?thesis by linarith
    qed
    moreover have "- 1 \<le> int (unat x)" by linarith
    ultimately show ?thesis by (cases "x > 100") (simp_all add: Some)
  qed simp
  have "u = \<lparr>pr_percent = (case dictGet asWord32 dd ''Percentage'' of None \<Rightarrow> - 1 | Some x \<Rightarrow> if x > 100 then - 1 else int (unat x)),
      pr_stage = statusName (valueOr 0 (dictGet asWord32 dd ''Status''))\<rparr>"
    using assms unfolding onPropertiesChanged_def by (simp split: if_split_asm)
  then show ?thesis using percent stage by (simp only: progress_update.simps)
qed

lemma onPropertiesChanged_le_1: "length (onPropertiesChanged i iface dd) \<le> 1"
  by (simp add: onPropertiesChanged_def)

section \<open>The result of an installation\<close>

text \<open>An update that the service records as failed is reported like one that succeeded.\<close>

lemma failed_update_reads_installed:
  assumes "\<not> uf_needsReboot (pd_facts dev)"
  shows "outcomeOf kUpdateStateFailed dev (Some dev) = outcomeOf kUpdateStateSuccess dev (Some dev) \<and>
    io_disposition (outcomeOf kUpdateStateFailed dev (Some dev)) = Completed \<and>
    io_message (outcomeOf kUpdateStateFailed dev (Some dev)) = ''installed '' @ pd_version dev"
  using assms by (simp add: outcomeOf_def dispositionFromUpdateState_def updateStates valueOr_def)

lemma outcome_versions:
  "io_observedVersion (outcomeOf st pre fresh) = Some v \<Longrightarrow> v \<noteq> pd_version pre"
  "io_disposition (outcomeOf st pre fresh) = NeedsReboot \<Longrightarrow> io_needsReboot (outcomeOf st pre fresh)"
  by (auto simp: outcomeOf_def Let_def split: if_splits)

lemma finalize_Inr:
  assumes "finalize p i pre d = (Inr oc, d2)"
  shows "\<exists>st fresh d1. resultState p i d = (Inr st, d1) \<and> fetchDevice p i d1 = (Inr fresh, d2) \<and> oc = outcomeOf st pre fresh"
  using assms unfolding finalize_def fwBind_Inr fwReturn_def by auto

lemma fetchDevice_Inr:
  "fetchDevice p i d = (Inr found, d1) \<longleftrightarrow>
     (\<exists>dds. fb_getDevices p d = (Inr dds, d1) \<and> found = find (\<lambda>dev. pd_deviceId dev = i) (List.map_filter parseDevice dds))"
  unfolding fetchDevice_def fwBind_Inr fwReturn_def by auto

lemma fetchRelease_Some:
  assumes "fetchRelease p i ref d = (Inr (Some fresh), d1)"
  shows "\<exists>raw r dd. fb_getUpgrades p i d = (Inr raw, d1) \<and> dd \<in> set raw \<and> parseRelease dd = Some r \<and>
    rel_remoteId r = ref_remoteId ref \<and> rel_checksum r = ref_checksum ref \<and>
    fresh = r\<lparr>rel_localCab := rel_localCab fresh\<rparr>"
proof -
  obtain oc where oc: "fetchUpgrades p i [] d = (Inr oc, d1)" "uo_queryError oc = None"
    "find (\<lambda>r. rel_remoteId r = ref_remoteId ref \<and> rel_checksum r = ref_checksum ref) (uo_releases oc) = Some fresh"
    using assms unfolding fetchRelease_def fwBind_Inr fwReturn_def by (auto split: if_splits)
  have fresh: "fresh \<in> set (uo_releases oc)" "rel_remoteId fresh = ref_remoteId ref" "rel_checksum fresh = ref_checksum ref"
    using oc(3) by (auto simp: find_Some_iff)
  obtain raw where raw: "fb_getUpgrades p i d = (Inr raw, d1)"
    "uo_releases oc = map (\<lambda>r. r\<lparr>rel_localCab := isLocallyResolvable (rel_locations r) [] (rel_remoteId r)\<rparr>)
       (dedupeReleases (List.map_filter parseRelease raw))"
    using oc(1) fresh(1) by (auto simp: fetchUpgrades_def split: prod.splits sum.splits fw_exn.splits if_splits)
  from fresh(1) raw(2) obtain r where r: "r \<in> set (dedupeReleases (List.map_filter parseRelease raw))"
    "fresh = r\<lparr>rel_localCab := isLocallyResolvable (rel_locations r) [] (rel_remoteId r)\<rparr>" by auto
  from r(1) have "r \<in> set (List.map_filter parseRelease raw)" using dedupeReleases_spec(2) by blast
  then obtain dd where "dd \<in> set raw" "parseRelease dd = Some r" by (force simp: map_filter_def)
  with raw(1) r(2) fresh(2,3) show ?thesis by auto
qed

lemma installTimeout_min: "600 \<le> unat (installTimeout r)"
proof -
  have "(600 :: 32 word) \<le> installTimeout r" by (simp add: installTimeout_def)
  then show ?thesis by (simp add: word_le_nat_alt)
qed

section \<open>The lifecycle of an installation\<close>

text \<open>Whatever happens, the gate is open afterwards when it was open before; an installation that finds it
  closed does nothing.\<close>

lemma install_gate:
  assumes "fw_install p hp i ref (fi, d) = ((progress, r), fi', d')"
  shows "(fi_installing fi \<and> fi_proxy fi \<longrightarrow> r = makeError Busy ''another update is in progress'' \<and> fi' = fi \<and> d' = d) \<and>
    (\<not> fi_installing fi \<and> fi_proxy fi \<longrightarrow> \<not> fi_installing fi' \<and> fi_sink fi' = None) \<and>
    fi_accepting fi' = fi_accepting fi \<and> fi_proxy fi' = fi_proxy fi"
  using assms
  by (auto simp: fw_install_def fi_release_def fi_claim_def Let_def
      split: if_splits prod.splits sum.splits preflight.splits)

lemma preflight_Ready:
  assumes "preflightChecks p i ref d = (Inr (Ready dev fresh cab), d3)"
  shows "\<exists>d1 d2 remotes. fetchDevice p i d = (Inr (Some dev), d1) \<and> uf_updatable (pd_facts dev) \<and>
    fetchRelease p i ref d1 = (Inr (Some fresh), d2) \<and> fetchRemotes p d2 = (Inr remotes, d3) \<and>
    resolveAndOpenCab (fb_files p d3) (rel_locations fresh) remotes (rel_remoteId fresh) (of_nat (rel_sizeBytes fresh)) = Inr cab"
proof -
  obtain found d1 where f: "fetchDevice p i d = (Inr found, d1)" and
    rest: "(case found of None \<Rightarrow> fwReturn (Refused deviceChanged)
       | Some dev \<Rightarrow> if \<not> uf_updatable (pd_facts dev) then fwReturn (Refused deviceChanged)
                     else checkRelease p i ref dev) d1 = (Inr (Ready dev fresh cab), d3)"
    using assms unfolding preflightChecks_def fwBind_Inr by blast
  from rest obtain dev' where found: "found = Some dev'" by (cases found) (simp_all add: fwReturn_def)
  have dev: "uf_updatable (pd_facts dev')" "checkRelease p i ref dev' d1 = (Inr (Ready dev fresh cab), d3)"
    using rest by (simp_all add: found fwReturn_def split: if_split_asm)
  from dev(2) obtain offered d2 where o: "fetchRelease p i ref d1 = (Inr offered, d2)" and
    rest2: "(case offered of None \<Rightarrow> fwReturn (Refused releaseChanged) | Some fresh \<Rightarrow> openRelease p dev' fresh) d2 =
      (Inr (Ready dev fresh cab), d3)"
    unfolding checkRelease_def fwBind_Inr by blast
  from rest2 obtain fresh' where fresh: "offered = Some fresh'" "openRelease p dev' fresh' d2 = (Inr (Ready dev fresh cab), d3)"
    by (cases offered) (simp_all add: fwReturn_def)
  from fresh(2) obtain remotes d4 where r: "fetchRemotes p d2 = (Inr remotes, d4)"
    "(case resolveAndOpenCab (fb_files p d4) (rel_locations fresh') remotes (rel_remoteId fresh') (of_nat (rel_sizeBytes fresh')) of
        Inl e \<Rightarrow> (Inr (Refused e), d4) | Inr cab \<Rightarrow> (Inr (Ready dev' fresh' cab), d4)) = (Inr (Ready dev fresh cab) :: fw_exn + preflight, d3)"
    unfolding openRelease_def fwBind_Inr by blast
  have "resolveAndOpenCab (fb_files p d4) (rel_locations fresh') remotes (rel_remoteId fresh') (of_nat (rel_sizeBytes fresh')) = Inr cab \<and>
      fresh' = fresh \<and> dev' = dev \<and> d4 = d3"
    using r(2) by (simp split: sum.split_asm)
  then show ?thesis using f o found dev fresh(1) r(1) by blast
qed

lemma callInstall_Inr:
  assumes "callInstall p fi hp i dev fresh cab d = ((progress, Inr (Inr oc)), d2)"
  shows "\<exists>signals d1. fb_install p i cab (installTimeout fresh) d = ((signals, Replied), d1) \<and>
    finalize p i dev d1 = (Inr oc, d2) \<and>
    progress = concat (map (\<lambda>(iface, changed). onPropertiesChanged (fi\<lparr>fi_sink := Some hp\<rparr>) iface changed) signals)"
  using assms by (auto simp: callInstall_def Let_def makeError_def split: prod.splits install_reply.splits sum.splits)


definition exampleBus :: "unit fwupd_bus" where
  "exampleBus = \<lparr>fb_daemonVersion = (\<lambda>d. (Inr (VString ''2.0.20''), d)), fb_notAString = StdError ''type'',
     fb_getDevices = (\<lambda>d. (Inr [[(''DeviceId'', VString ''dock''), (''Version'', VString ''1''), (''Flags'', VWord64 2)]], d)),
     fb_getRemotes = (\<lambda>d. (Inr [[(''RemoteId'', VString ''vendor''), (''Type'', VWord32 3), (''FilenameCache'', VString ''/var/cabs'')]], d)),
     fb_getUpgrades = (\<lambda>i d. (Inr [[(''Version'', VString ''2''), (''RemoteId'', VString ''vendor''), (''Checksum'', VString ''c0''),
        (''Locations'', VStrings [''a.cab''])]], d)),
     fb_getHistory = (\<lambda>d. (Inr [], d)),
     fb_getResults = (\<lambda>i d. (Inr [(''UpdateState'', VWord32 4)], d)),
     fb_install = (\<lambda>i cab t d. (([(kFwupdInterface, [(''Percentage'', VWord32 40), (''Status'', VWord32 5)])], Replied), d)),
     fb_files = (\<lambda>d. exampleCabFs), fb_now = (\<lambda>d. 0)\<rparr>"


end
