(* ===== verification/Spec2Isabelle.thy ===== *)
theory Spec2Isabelle
  imports Device_Presentation Cli_Facts Sysfs_Controller Daemon_Main Timed_Facts Event_Bus Task_Scheduler Views_Follow Kmod_Facts Prober_Facts
    Dkms_Status_Provider Udev_Monitor Fwupd_Facts
begin

text \<open>
  Verification of cross-device-manager: a privileged daemon (\<^verbatim>\<open>devmgrd\<close>) that disables devices, loads and
  unloads kernel modules and keeps snapshots of what it changed, and front ends that ask it to: two
  windowed ones over a shared facade, and a recovery command line. The development follows
  the C++ sources; paths below are relative to \<^verbatim>\<open>src/\<close>.

  \<^bold>\<open>How the parts interact.\<close> A front end calls the facade (\<^verbatim>\<open>app/\<close>), which runs each verb as a task of a
  thread pool and calls the privileged channel (\<^verbatim>\<open>platform/linux/src/dbus_privileged_channel.cpp\<close>). The channel
  speaks the bus contract to the adaptor (\<^verbatim>\<open>daemon/src/manager_adaptor.cpp\<close>), which calls the request
  processor. That one validates, guards, authorizes, stores a safety snapshot and acts, in this order,
  on the sysfs controller, the module manager, the state store and the snapshot service. The enforcement
  service re-applies recorded disables at startup and on hotplug. On the way back, tasks and hotplug
  events publish on the event bus, and each view posts one rebuild of itself to its user-interface thread.

  \<^bold>\<open>Shared.\<close> Prelude (string and association-list operations), Core_Models (\<^verbatim>\<open>core/src/models.cpp\<close>, errors as
  values of a sum), Json and Json_Witness (JSON values; the printer and parser of the library are
  parameters with the laws \<open>lib_ok\<close>), Paths (lexical path algebra).

  \<^bold>\<open>Daemon.\<close> Critical_Guard and Device_Key (pure policy: what may be disabled, which device an entry
  means), Sha256 (words of 32 bits, the streaming form against the padded-blocks definition), Atomic_File
  (the write idiom as the list of directory states it passes through, with a schedule of faults),
  Entry_Json and State_Store, Snapshot_Store with \<open>_Facts\<close> and \<open>_Limits\<close>, Snapshot_Diff,
  Snapshot_History, Snapshot_Json, Snapshot_Presentation, Snapshot_Service with \<open>_Facts\<close>,
  Request_Validation, Daemon_World (the platform interfaces as a record of functions over an abstract
  hardware state), Request_Processor, Request_Facts, Enforcement with \<open>_Facts\<close>, Dbus_Contract,
  Manager_Adaptor, Adaptor_Facts, Daemon_Main. Their lemmas show that a verb without authorization
  changes nothing, that each change follows a stored snapshot of the state before it, that disables pass
  the guard on facts probed at that moment, that a restore converges, can be undone and fails closed,
  that stored snapshots read back and damaged ones are kept, and that the startup sweep reaches every entry.

  \<^bold>\<open>Client side.\<close> Privileged_Channel is proved to show a client the request processor's results when it
  is connected to the adaptor. Cli and Cli_Facts model the command line as a function from arguments and
  channel to exit code and two streams.

  \<^bold>\<open>Platform.\<close> Sysfs_Controller models the writes to attributes over the queries it makes of the tree.
  Linux_System_Info, Kmod_Driver_Manager and Kmod_Facts model the facts about the system and the module
  manager with its error taxonomy, over libkmod as a record of functions on the kernel's state; the facts say
  which drivers a device is offered and exactly when a module is inserted. Criticality_Prober and
  Prober_Facts model the probe the guard rests on and prove the guard right on what it probes: its walk
  through the slaves of a block device has fuel, and \<open>expandBlock_enough\<close> shows that more fuel than the stack
  is deep is enough. Dkms_Status_Provider reports what the DKMS tree holds. Udev_Devices (identity,
  mapping, enumeration) and Udev_Monitor (start, stop and the reading thread as a step relation) model
  the device sources over libudev. Fwupd_Contract (answers of the service and the resolution of firmware
  files), Fwupd_Provider and Fwupd_Facts model the update provider over a service whose calls may throw
  and change its state, with the lifecycle of an installation.

  \<^bold>\<open>Runtime.\<close> Event_Bus, Task_Scheduler and Scheduler (\<^verbatim>\<open>core/\<close>): every critical section is one step of a
  relation or function, and the threads interleave in any order. Device_Service, Hotplug_Service and
  Status_Line are the services on top; Timed_Services composes them with the timer thread, and
  Timed_Facts shows the completion barriers, that the waits end, that debouncing loses no event, and
  that a message keeps its own clear.

  \<^bold>\<open>Front ends.\<close> Facade models every verb and refresh of \<^verbatim>\<open>app/src/application_facade.cpp\<close> as a function
  from the state to the events it publishes and the state it leaves; Facade_Facts and Facade_Runs show
  its reports, what counts as evidence about the helper and about pending updates, and the single install
  slot. Backend_Status, Update_Models and View_Models are shared by the views. Device_List_Vm,
  Snapshots_Vm, Updates_Vm and Modules_Vm are the four list views with their rows, selection, banners
  and details; Device_Presentation forms the names. The locale \<open>coalesced\<close> of View_Models states the
  contract of a view that posts at most one rebuild, and is interpreted on all four; Views_Follow
  collects what that gives. Snapshot_Preview covers the dialogue with the diff task.

  \<^bold>\<open>Conventions.\<close> \<open>'a result\<close> is \<open>error + 'a\<close>. A byte string is a \<open>string\<close>; a hash map or map is an
  association list with distinct keys, a directory a list of files whose order is the order of iteration.
  A call that returns a new state returns it beside its result. An exception the program does not
  catch at once is a value of a sum. Mutexes do not appear: what runs under one is one step.

  \<^bold>\<open>Bounds and fuel.\<close> Numeric limits are those of the sources: 20 automatic snapshots, documents of one mebibyte,
  names, callers and paths as \<^verbatim>\<open>request_validation.hpp\<close> bounds them, four passes of \<open>shortVendor\<close>, 20 columns
  of a signature cell, four levels of indentation. Walks along the parents of a snapshot have as many steps as there are snapshots,
  which is what the sources count to. Loops are structural or have a termination proof.

  \<^bold>\<open>Not modelled.\<close> Calls into polkit, sdbus-c++, udev, libkmod, fwupd and the kernel: they are parameters.
  The printer's exception on strings that are not UTF-8, floating-point JSON numbers, the clock behind a time-out, log
  text beyond the lines named above, and the memory model below a critical section. Counters of 64 bits
  are \<open>nat\<close>. Sorting is stable in the model, where the library promises no order of equal keys. The
  widgets of the two windowed front ends, tests, build and packaging are outside the development.
\<close>

end
